(* ===== verification/Prelude.thy ===== *)
theory Prelude
  imports Main "HOL-Library.Multiset" "HOL-Library.List_Lexorder" "HOL-Library.Char_ord"
begin

text \<open>
  Shared vocabulary of the development.

  \<^item> Results: the TypeScript code throws, or returns a refusal; both are values of the sum type
    \<open>'e + 'a\<close>. The left part is the error, the right part the result. \<open>ebind\<close> sequences,
    \<open>require\<close> is an ``if not p then throw'', \<open>traverse\<close> a loop that stops at the first error.
  \<^item> Numbers: \<open>jsnum\<close> separates the JavaScript numbers for which \<open>Number.isInteger\<close> is true from
    all the others (fractions, NaN, the infinities), for the functions that test it. A number that
    a contract schema has already parsed with \<open>.int()\<close> is an \<open>int\<close>.
  \<^item> Strings are \<open>string\<close>, ordered lexicographically by code (the order of the JavaScript
    comparison operators on strings).
  \<^item> \<open>uniq\<close> is \<open>[...new Set(xs)]\<close>: first-seen order; \<open>firstSome\<close> is a guard pipeline.
\<close>

named_theorems res_simps "evaluation of result-valued code"

type_synonym ('e, 'a) res = "'e + 'a"

section \<open>Results\<close>

definition ebind :: "'e + 'a \<Rightarrow> ('a \<Rightarrow> 'e + 'b) \<Rightarrow> 'e + 'b" where
  "ebind m f = (case m of Inl e \<Rightarrow> Inl e | Inr x \<Rightarrow> f x)"

definition require :: "bool \<Rightarrow> 'e \<Rightarrow> 'e + unit" where
  "require p e = (if p then Inr () else Inl e)"

fun traverse :: "('a \<Rightarrow> 'e + 'b) \<Rightarrow> 'a list \<Rightarrow> 'e + 'b list" where
  "traverse f [] = Inr []"
| "traverse f (x # xs) = ebind (f x) (\<lambda>y. ebind (traverse f xs) (\<lambda>ys. Inr (y # ys)))"

lemma ebind_Inl [simp, res_simps]: "ebind (Inl e) f = Inl e"
  by (simp add: ebind_def)

lemma ebind_Inr [simp, res_simps]: "ebind (Inr x) f = f x"
  by (simp add: ebind_def)

lemma require_True [simp, res_simps]: "require True e = Inr ()"
  by (simp add: require_def)

lemma require_False [simp, res_simps]: "require False e = Inl e"
  by (simp add: require_def)

lemma ebind_eq_Inr [simp]: "ebind m f = Inr y \<longleftrightarrow> (\<exists>x. m = Inr x \<and> f x = Inr y)"
  by (cases m) auto

lemma ebind_eq_Inl: "ebind m f = Inl e \<longleftrightarrow> m = Inl e \<or> (\<exists>x. m = Inr x \<and> f x = Inl e)"
  by (cases m) auto

lemma require_eq_Inr [simp]: "require p e = Inr u \<longleftrightarrow> p"
  by (simp add: require_def)

lemma require_eq_Inl [simp]: "require p e = Inl e' \<longleftrightarrow> \<not> p \<and> e = e'"
  by (auto simp: require_def)

lemma traverse_eq_Inr: "traverse f xs = Inr ys \<longleftrightarrow> list_all2 (\<lambda>x y. f x = Inr y) xs ys"
  by (induction xs arbitrary: ys) (auto simp: list_all2_Cons1)

lemma traverse_length: "traverse f xs = Inr ys \<Longrightarrow> length ys = length xs"
  by (simp add: traverse_eq_Inr list_all2_lengthD)

lemma traverse_map: "(\<And>x. x \<in> set xs \<Longrightarrow> f x = Inr (g x)) \<Longrightarrow> traverse f xs = Inr (map g xs)"
  by (induction xs) auto

lemma traverse_Inl_first:
  "traverse f xs = Inl e \<Longrightarrow> \<exists>x \<in> set xs. f x = Inl e"
  by (induction xs) (auto simp: ebind_eq_Inl)

section \<open>Numbers\<close>

datatype jsnum = Whole int | Fractional

definition isInteger :: "jsnum \<Rightarrow> bool" where
  "isInteger x = (case x of Whole _ \<Rightarrow> True | Fractional \<Rightarrow> False)"

lemma isInteger_simps [simp, res_simps]: "isInteger (Whole a)" "\<not> isInteger Fractional"
  by (simp_all add: isInteger_def)

definition asWhole :: "'e \<Rightarrow> jsnum \<Rightarrow> 'e + int" where
  "asWhole e x = (case x of Whole a \<Rightarrow> Inr a | Fractional \<Rightarrow> Inl e)"

lemma asWhole_simps [simp, res_simps]: "asWhole e (Whole a) = Inr a" "asWhole e Fractional = Inl e"
  by (simp_all add: asWhole_def)

lemma asWhole_eq_Inr [simp]: "asWhole e x = Inr a \<longleftrightarrow> x = Whole a"
  by (cases x) auto

definition MAX_SAFE :: int where
  "MAX_SAFE = 9007199254740991"

section \<open>Lists\<close>

fun uniq_from :: "'a list \<Rightarrow> 'a list \<Rightarrow> 'a list" where
  "uniq_from seen [] = []"
| "uniq_from seen (x # xs) =
     (if x \<in> set seen then uniq_from seen xs else x # uniq_from (x # seen) xs)"

definition uniq :: "'a list \<Rightarrow> 'a list" where
  "uniq xs = uniq_from [] xs"

lemma uniq_from_set: "set (uniq_from seen xs) = set xs - set seen"
  by (induction seen xs rule: uniq_from.induct) auto

lemma uniq_from_distinct: "distinct (uniq_from seen xs)"
  by (induction seen xs rule: uniq_from.induct) (auto simp: uniq_from_set)

lemma set_uniq [simp]: "set (uniq xs) = set xs"
  by (simp add: uniq_def uniq_from_set)

lemma distinct_uniq [simp]: "distinct (uniq xs)"
  by (simp add: uniq_def uniq_from_distinct)

lemma uniq_from_append:
  "uniq_from seen (xs @ ys) = uniq_from seen xs @ uniq_from (rev xs @ seen) ys"
proof (induction xs arbitrary: seen)
  case (Cons x xs)
  have "uniq_from (rev xs @ seen) ys = uniq_from (rev xs @ x # seen) ys" if "x \<in> set seen"
    using that
  proof (induction ys arbitrary: xs)
    case (Cons y ys)
    then show ?case
      using Cons.IH[of "xs @ [y]"] by auto
  qed simp
  then show ?case
    using Cons by auto
qed simp

lemma uniq_snoc: "uniq (xs @ [x]) = (if x \<in> set xs then uniq xs else uniq xs @ [x])"
  by (simp add: uniq_def uniq_from_append)

lemma sum_list_nth_update:
  fixes xs :: "int list"
  assumes "i < length xs"
  shows "sum_list (xs[i := x]) = sum_list xs - xs ! i + x"
  using assms by (induction xs arbitrary: i) (auto split: nat.splits)

lemma sum_list_strict_bound:
  fixes f :: "'a \<Rightarrow> int"
  assumes "xs \<noteq> []" "\<And>x. x \<in> set xs \<Longrightarrow> f x < d"
  shows "sum_list (map f xs) < int (length xs) * d"
  using assms
proof (induction xs)
  case (Cons x xs)
  then show ?case
    by (cases "xs = []") (auto simp: algebra_simps, smt (verit, best))
qed simp

lemma sum_list_mult_left: "(\<Sum>x\<leftarrow>xs. c * f x) = (c::int) * (\<Sum>x\<leftarrow>xs. f x)"
  by (simp add: sum_list_const_mult)

lemma sum_list_map_strict_mono:
  fixes f g :: "'a \<Rightarrow> int"
  assumes "x \<in> set xs" "f x < g x" "\<And>y. y \<in> set xs \<Longrightarrow> f y \<le> g y"
  shows "sum_list (map f xs) < sum_list (map g xs)"
  using assms
proof (induction xs)
  case (Cons y ys)
  show ?case
  proof (cases "x = y")
    case True
    then have "sum_list (map f ys) \<le> sum_list (map g ys)"
      using Cons.prems by (intro sum_list_mono) auto
    then show ?thesis
      using Cons.prems True by simp
  next
    case False
    then show ?thesis
      using Cons by (simp add: add_le_less_mono)
  qed
qed simp

lemma find_Some_iff_split:
  "find P xs = Some x \<longleftrightarrow> (\<exists>ys zs. xs = ys @ x # zs \<and> P x \<and> (\<forall>y \<in> set ys. \<not> P y))"
proof (induction xs)
  case (Cons a xs)
  show ?case
  proof (cases "P a")
    case True
    then show ?thesis
      by (auto simp: Cons_eq_append_conv)
  next
    case False
    have "(\<exists>ys zs. a # xs = ys @ x # zs \<and> P x \<and> (\<forall>y \<in> set ys. \<not> P y)) \<longleftrightarrow>
      (\<exists>ys zs. xs = ys @ x # zs \<and> P x \<and> (\<forall>y \<in> set ys. \<not> P y))" (is "?l = ?r")
    proof
      assume ?l
      then obtain ys zs where split: "a # xs = ys @ x # zs" "P x" "\<forall>y \<in> set ys. \<not> P y"
        by blast
      then have "ys \<noteq> []"
        using False by auto
      then obtain ys' where "ys = a # ys'"
        using split(1) by (cases ys) auto
      then show ?r
        using split by auto
    next
      assume ?r
      then obtain ys zs where "xs = ys @ x # zs" "P x" "\<forall>y \<in> set ys. \<not> P y"
        by blast
      then show ?l
        using False by (intro exI[of _ "a # ys"] exI[of _ zs]) simp
    qed
    then show ?thesis
      using False Cons by simp
  qed
qed simp

lemma find_None_all: "find P xs = None \<longleftrightarrow> (\<forall>x \<in> set xs. \<not> P x)"
  by (auto simp: find_None_iff)

lemma find_Some_in: "find P xs = Some x \<Longrightarrow> x \<in> set xs \<and> P x"
  by (auto simp: find_Some_iff_split)

lemma list_all2_right: "list_all2 P xs ys \<Longrightarrow> \<forall>y \<in> set ys. \<exists>x \<in> set xs. P x y"
  by (induction rule: list_all2_induct) auto

section \<open>Guard pipelines\<close>

fun firstSome :: "'a option list \<Rightarrow> 'a option" where
  "firstSome [] = None"
| "firstSome (x # xs) = (case x of None \<Rightarrow> firstSome xs | Some a \<Rightarrow> Some a)"

lemma firstSome_None: "firstSome xs = None \<longleftrightarrow> (\<forall>x \<in> set xs. x = None)"
  by (induction xs) (auto split: option.splits)

definition guard :: "bool \<Rightarrow> 'a \<Rightarrow> 'a option" where
  "guard p a = (if p then Some a else None)"

lemma guard_simps [simp, res_simps]:
  "guard True a = Some a" "guard False a = None"
  "guard p a = None \<longleftrightarrow> \<not> p" "guard p a = Some b \<longleftrightarrow> p \<and> a = b"
  by (auto simp: guard_def)

end
