(* ===== verification/Merkle.thy ===== *)
theory Merkle
  imports Prelude "HOL-Library.Word"
begin

text \<open>
  \<open>packages/ledger/src/merkle.ts\<close>: the RFC 6962 tree behind the daily anchor. WebCrypto's SHA-256 is
  the parameter \<open>sha\<close>; bytes are \<open>8 word\<close>. The code folds level arrays; \<open>tree\<close> below is the
  abstract specification (an explicit tree over the leaves), and the level arrays are shown to
  compute its root hash. Completeness (every built proof verifies) needs nothing of \<open>sha\<close>;
  soundness needs its fixed digest length and the absence of a collision among the byte strings
  the tree and the proof hash.
\<close>

type_synonym byte = "8 word"
type_synonym bytes = "byte list"

datatype merkle_error = IndexOutOfRange | OddHex | NonHex nat

datatype side = L | R

record proof_step =
  side :: side
  step_hash :: string

section \<open>Hexadecimal\<close>

definition hexdigit :: "nat \<Rightarrow> char" where
  "hexdigit n = ''0123456789abcdef'' ! n"

definition byteToHex :: "byte \<Rightarrow> string" where
  "byteToHex b = [hexdigit (unat b div 16), hexdigit (unat b mod 16)]"

definition bytesToHex :: "bytes \<Rightarrow> string" where
  "bytesToHex bs = concat (map byteToHex bs)"

definition hexval :: "char \<Rightarrow> nat option" where
  "hexval c = (let n = of_char c in
     if 48 \<le> n \<and> n \<le> 57 then Some (n - 48)
     else if 97 \<le> n \<and> n \<le> 102 then Some (n - 87)
     else if 65 \<le> n \<and> n \<le> 70 then Some (n - 55)
     else None)"

definition isWhitespace :: "char \<Rightarrow> bool" where
  "isWhitespace c = (let n = of_char c :: nat in n \<in> {9, 10, 11, 12, 13, 32, 160})"

text \<open>\<open>Number.parseInt(slice, 16)\<close> on a slice of two characters: leading white space and a sign are
  skipped, a \<open>0x\<close> prefix is dropped, and the longest prefix of hexadecimal digits is read;
  none at all is NaN (\<open>None\<close>).\<close>

definition parseHexPair :: "char \<Rightarrow> char \<Rightarrow> int option" where
  "parseHexPair a b =
     (case hexval a of
        Some x \<Rightarrow>
          (case hexval b of
             Some y \<Rightarrow> Some (int (16 * x + y))
           | None \<Rightarrow> if a = CHR ''0'' \<and> (b = CHR ''x'' \<or> b = CHR ''X'') then None else Some (int x))
      | None \<Rightarrow>
          if isWhitespace a \<or> a = CHR ''+'' then map_option int (hexval b)
          else if a = CHR ''-'' then map_option (\<lambda>y. - int y) (hexval b)
          else None)"

fun hexPairs :: "nat \<Rightarrow> string \<Rightarrow> merkle_error + bytes" where
  "hexPairs i (a # b # rest) =
     (case parseHexPair a b of
        None \<Rightarrow> Inl (NonHex (2 * i))
      | Some v \<Rightarrow> ebind (hexPairs (Suc i) rest) (\<lambda>bs. Inr (word_of_int v # bs)))"
| "hexPairs i _ = Inr []"

definition hexToBytes :: "string \<Rightarrow> merkle_error + bytes" where
  "hexToBytes hex = (if length hex mod 2 \<noteq> 0 then Inl OddHex else hexPairs 0 hex)"

definition bytesEqual :: "bytes \<Rightarrow> bytes \<Rightarrow> bool" where
  "bytesEqual a b =
     (if length a \<noteq> length b then False
      else fold (\<lambda>(x, y) diff. or diff (xor x y)) (zip a b) 0 = 0)"

section \<open>The tree of level arrays\<close>

definition leafHash :: "(bytes \<Rightarrow> bytes) \<Rightarrow> bytes \<Rightarrow> bytes" where
  "leafHash sha d = sha (0x00 # d)"

definition nodeHash :: "(bytes \<Rightarrow> bytes) \<Rightarrow> bytes \<Rightarrow> bytes \<Rightarrow> bytes" where
  "nodeHash sha left right = sha (0x01 # left @ right)"

fun nextLevel :: "(bytes \<Rightarrow> bytes) \<Rightarrow> bytes list \<Rightarrow> bytes list" where
  "nextLevel sha (x # y # rest) = nodeHash sha x y # nextLevel sha rest"
| "nextLevel sha level = level"

lemma nextLevel_length: "length (nextLevel sha level) = (length level + 1) div 2"
  by (induction sha level rule: nextLevel.induct) auto

function levelsFrom :: "(bytes \<Rightarrow> bytes) \<Rightarrow> bytes list \<Rightarrow> bytes list list" where
  "levelsFrom sha level =
     (if length level > 1 then level # levelsFrom sha (nextLevel sha level) else [level])"
  by pat_completeness auto
termination by (relation "measure (length \<circ> snd)") (auto simp: nextLevel_length)

declare levelsFrom.simps [simp del]

definition buildLevels :: "(bytes \<Rightarrow> bytes) \<Rightarrow> bytes list \<Rightarrow> bytes list list" where
  "buildLevels sha leaves = levelsFrom sha (map (leafHash sha) leaves)"

definition merkleRoot :: "(bytes \<Rightarrow> bytes) \<Rightarrow> bytes list \<Rightarrow> bytes" where
  "merkleRoot sha leaves = (if leaves = [] then sha [] else hd (last (buildLevels sha leaves)))"

fun proofSteps :: "bytes list list \<Rightarrow> nat \<Rightarrow> proof_step list" where
  "proofSteps [] idx = []"
| "proofSteps (level # levels) idx =
     (let isRight = (idx mod 2 = 1);
          siblingIdx = (if isRight then idx - 1 else idx + 1)
      in (if siblingIdx < length level
          then [\<lparr> side = (if isRight then L else R), step_hash = bytesToHex (level ! siblingIdx) \<rparr>]
          else []) @ proofSteps levels (idx div 2))"

definition inclusionProof ::
  "(bytes \<Rightarrow> bytes) \<Rightarrow> bytes list \<Rightarrow> jsnum \<Rightarrow> merkle_error + proof_step list" where
  "inclusionProof sha leaves index =
     (case index of
        Whole i \<Rightarrow>
          if i < 0 \<or> i \<ge> int (length leaves) then Inl IndexOutOfRange
          else Inr (proofSteps (butlast (buildLevels sha leaves)) (nat i))
      | Fractional \<Rightarrow> Inl IndexOutOfRange)"

fun foldProof :: "(bytes \<Rightarrow> bytes) \<Rightarrow> bytes \<Rightarrow> proof_step list \<Rightarrow> merkle_error + bytes" where
  "foldProof sha acc [] = Inr acc"
| "foldProof sha acc (s # steps) =
     ebind (hexToBytes (step_hash s)) (\<lambda>sibling.
       foldProof sha (if side s = L then nodeHash sha sibling acc else nodeHash sha acc sibling) steps)"

definition verifyInclusion ::
  "(bytes \<Rightarrow> bytes) \<Rightarrow> bytes \<Rightarrow> proof_step list \<Rightarrow> bytes \<Rightarrow> merkle_error + bool" where
  "verifyInclusion sha leafData steps root =
     ebind (foldProof sha (leafHash sha leafData) steps) (\<lambda>acc. Inr (bytesEqual acc root))"

section \<open>Hexadecimal round trip\<close>

lemma hexval_hexdigit: "n < 16 \<Longrightarrow> hexval (hexdigit n) = Some n"
proof -
  have "\<forall>n \<in> {..<16}. hexval (hexdigit n) = Some n"
    by (simp add: hexval_def hexdigit_def lessThan_nat_numeral lessThan_Suc Let_def)
  then show "n < 16 \<Longrightarrow> hexval (hexdigit n) = Some n"
    by simp
qed

lemma hexPairs_bytes: "hexPairs i (bytesToHex bs) = Inr bs"
proof (induction bs arbitrary: i)
  case (Cons b bs)
  have "unat b < 256"
    using unsigned_less[of b, where 'a = nat] by simp
  then have "parseHexPair (hexdigit (unat b div 16)) (hexdigit (unat b mod 16)) = Some (int (unat b))"
    by (simp add: parseHexPair_def hexval_hexdigit)
  then show ?case
    using Cons by (simp add: bytesToHex_def byteToHex_def)
qed (simp add: bytesToHex_def)

lemma bytesToHex_length: "length (bytesToHex bs) = 2 * length bs"
  by (induction bs) (auto simp: bytesToHex_def byteToHex_def)

lemma hexToBytes_bytesToHex: "hexToBytes (bytesToHex bs) = Inr bs"
  by (simp add: hexToBytes_def hexPairs_bytes bytesToHex_length)

lemma xor_zero_iff: "xor a b = 0 \<longleftrightarrow> a = (b :: byte)"
  by (auto simp: bit_eq_iff bit_simps)

lemma fold_or_zero:
  "fold (\<lambda>(x, y) diff. or diff (xor x y)) ps (d :: byte) = 0 \<longleftrightarrow> d = 0 \<and> (\<forall>(x, y) \<in> set ps. x = y)"
proof (induction ps arbitrary: d)
  case (Cons p ps)
  have "or d (xor (fst p) (snd p)) = 0 \<longleftrightarrow> d = 0 \<and> fst p = snd p"
    by (simp add: or_eq_0_iff xor_zero_iff)
  then show ?case
    using Cons by (auto simp: case_prod_beta)
qed simp

lemma bytesEqual_iff [simp]: "bytesEqual a b \<longleftrightarrow> a = b"
proof (cases "length a = length b")
  case True
  then have "(\<forall>(x, y) \<in> set (zip a b). x = y) \<longleftrightarrow> a = b"
    by (induction a b rule: list_induct2) auto
  then show ?thesis
    using True by (simp add: bytesEqual_def fold_or_zero)
qed (auto simp: bytesEqual_def)

section \<open>Completeness: a built proof verifies\<close>

lemma nextLevel_nth:
  assumes "j < length level"
  shows "nextLevel sha level ! (j div 2) =
    (if j mod 2 = 1 then nodeHash sha (level ! (j - 1)) (level ! j)
     else if j + 1 < length level then nodeHash sha (level ! j) (level ! (j + 1))
     else level ! j)"
  using assms
proof (induction sha level arbitrary: j rule: nextLevel.induct)
  case (1 sha x y rest)
  show ?case
  proof (cases "j < 2")
    case True
    then show ?thesis
      by (cases j) (auto simp: less_2_cases_iff)
  next
    case False
    then obtain k where k: "j = Suc (Suc k)"
      by (metis add_2_eq_Suc le_Suc_ex not_less)
    then have "k < length rest"
      using "1.prems" by simp
    from "1.IH"[OF this] show ?thesis
      using k by (cases k) auto
  qed
qed (auto simp: less_Suc_eq)

lemma levelsFrom_nonempty: "levelsFrom sha level \<noteq> []"
  by (subst levelsFrom.simps) simp

lemma foldProof_levels:
  assumes "j < length level"
  shows "foldProof sha (level ! j) (proofSteps (butlast (levelsFrom sha level)) j) =
    Inr (hd (last (levelsFrom sha level)))"
  using assms
proof (induction sha level arbitrary: j rule: levelsFrom.induct)
  case (1 sha level)
  show ?case
  proof (cases "length level > 1")
    case True
    let ?next = "nextLevel sha level"
    have "j div 2 < length ?next"
      using "1.prems" by (auto simp: nextLevel_length)
    note IH = "1.IH"[OF True this]
    have levels: "levelsFrom sha level = level # levelsFrom sha ?next"
      using True by (subst levelsFrom.simps) simp
    have "foldProof sha (level ! j) (proofSteps (butlast (levelsFrom sha level)) j) =
        foldProof sha (?next ! (j div 2)) (proofSteps (butlast (levelsFrom sha ?next)) (j div 2))"
      using "1.prems" by (auto simp: levels levelsFrom_nonempty nextLevel_nth Let_def hexToBytes_bytesToHex)
    then show ?thesis
      using IH by (simp add: levels levelsFrom_nonempty)
  next
    case False
    then have "length level = 1" "j = 0"
      using "1.prems" by linarith+
    moreover have "levelsFrom sha level = [level]"
      using False by (subst levelsFrom.simps) simp
    ultimately show ?thesis
      by (cases level) auto
  qed
qed

section \<open>The abstract tree\<close>

datatype tree = Leaf bytes | Node tree tree

fun treeHash :: "(bytes \<Rightarrow> bytes) \<Rightarrow> tree \<Rightarrow> bytes" where
  "treeHash sha (Leaf d) = leafHash sha d"
| "treeHash sha (Node l r) = nodeHash sha (treeHash sha l) (treeHash sha r)"

fun leavesOf :: "tree \<Rightarrow> bytes list" where
  "leavesOf (Leaf d) = [d]"
| "leavesOf (Node l r) = leavesOf l @ leavesOf r"

fun preimages :: "(bytes \<Rightarrow> bytes) \<Rightarrow> tree \<Rightarrow> bytes set" where
  "preimages sha (Leaf d) = {0x00 # d}"
| "preimages sha (Node l r) =
     {0x01 # treeHash sha l @ treeHash sha r} \<union> preimages sha l \<union> preimages sha r"

fun pairTrees :: "tree list \<Rightarrow> tree list" where
  "pairTrees (x # y # rest) = Node x y # pairTrees rest"
| "pairTrees ts = ts"

lemma pairTrees_length: "length (pairTrees ts) = (length ts + 1) div 2"
  by (induction ts rule: pairTrees.induct) auto

function foldTrees :: "tree list \<Rightarrow> tree list" where
  "foldTrees ts = (if length ts > 1 then foldTrees (pairTrees ts) else ts)"
  by pat_completeness auto
termination by (relation "measure length") (auto simp: pairTrees_length)

declare foldTrees.simps [simp del]

definition rootTree :: "bytes list \<Rightarrow> tree" where
  "rootTree leaves = hd (foldTrees (map Leaf leaves))"

lemma nextLevel_trees: "nextLevel sha (map (treeHash sha) ts) = map (treeHash sha) (pairTrees ts)"
  by (induction ts rule: pairTrees.induct) auto

lemma pairTrees_leaves: "concat (map leavesOf (pairTrees ts)) = concat (map leavesOf ts)"
  by (induction ts rule: pairTrees.induct) auto

lemma last_level_trees:
  "last (levelsFrom sha (map (treeHash sha) ts)) = map (treeHash sha) (foldTrees ts)"
proof (induction ts rule: foldTrees.induct)
  case (1 ts)
  show ?case
  proof (cases "length ts > 1")
    case True
    then have "last (levelsFrom sha (map (treeHash sha) ts)) =
        last (levelsFrom sha (nextLevel sha (map (treeHash sha) ts)))"
      by (subst levelsFrom.simps) (simp add: levelsFrom_nonempty)
    also have "\<dots> = map (treeHash sha) (foldTrees (pairTrees ts))"
      using "1.IH"[OF True] by (simp add: nextLevel_trees)
    finally show ?thesis
      using True by (subst foldTrees.simps) simp
  next
    case False
    then show ?thesis
      by (subst levelsFrom.simps, subst foldTrees.simps) simp
  qed
qed

lemma foldTrees_leaves: "concat (map leavesOf (foldTrees ts)) = concat (map leavesOf ts)"
  by (induction ts rule: foldTrees.induct)
     (subst foldTrees.simps, simp add: pairTrees_leaves)

lemma foldTrees_single:
  "ts \<noteq> [] \<Longrightarrow> length (foldTrees ts) = 1"
proof (induction ts rule: foldTrees.induct)
  case (1 ts)
  show ?case
  proof (cases "length ts > 1")
    case True
    moreover have "pairTrees ts \<noteq> []"
      using True pairTrees_length[of ts] by auto
    ultimately show ?thesis
      using 1 by (subst foldTrees.simps) simp
  next
    case False
    then show ?thesis
      using "1.prems" by (subst foldTrees.simps) (cases ts, auto)
  qed
qed

text \<open>The level arrays compute the hash of the abstract tree, whose leaves are the input.\<close>

lemma merkleRoot_tree:
  assumes "leaves \<noteq> []"
  shows "merkleRoot sha leaves = treeHash sha (rootTree leaves)" "leavesOf (rootTree leaves) = leaves"
proof -
  have hashes: "map (leafHash sha) leaves = map (treeHash sha) (map Leaf leaves)"
    by simp
  obtain t where t: "foldTrees (map Leaf leaves) = [t]"
    using foldTrees_single[of "map Leaf leaves"] assms by (auto simp: length_Suc_conv)
  show "merkleRoot sha leaves = treeHash sha (rootTree leaves)"
    using assms t unfolding merkleRoot_def buildLevels_def rootTree_def hashes last_level_trees
    by simp
  have "concat (map leavesOf (map Leaf leaves)) = leaves"
    by (simp add: comp_def)
  then show "leavesOf (rootTree leaves) = leaves"
    using foldTrees_leaves[of "map Leaf leaves"] t by (simp add: rootTree_def)
qed

section \<open>Soundness\<close>

fun pathPreimages :: "(bytes \<Rightarrow> bytes) \<Rightarrow> bytes \<Rightarrow> proof_step list \<Rightarrow> bytes set" where
  "pathPreimages sha acc [] = {}"
| "pathPreimages sha acc (s # steps) =
     (case hexToBytes (step_hash s) of
        Inl _ \<Rightarrow> {}
      | Inr sibling \<Rightarrow>
          let input = 0x01 # (if side s = L then sibling @ acc else acc @ sibling)
          in insert input (pathPreimages sha (sha input) steps))"

lemma foldProof_append:
  "foldProof sha acc (xs @ ys) = ebind (foldProof sha acc xs) (\<lambda>a. foldProof sha a ys)"
proof (induction xs arbitrary: acc)
  case (Cons x xs)
  then show ?case
    by (cases "hexToBytes (step_hash x)") auto
qed simp

lemma pathPreimages_append:
  assumes "foldProof sha acc xs = Inr a"
  shows "pathPreimages sha acc (xs @ ys) = pathPreimages sha acc xs \<union> pathPreimages sha a ys"
  using assms
proof (induction xs arbitrary: acc)
  case (Cons x xs)
  then show ?case
    by (cases "hexToBytes (step_hash x)")
       (auto simp: Let_def nodeHash_def split: if_splits)
qed simp

text \<open>Collision-freeness on the two sets of inputs, and a fixed digest length.\<close>

definition binding :: "(bytes \<Rightarrow> bytes) \<Rightarrow> nat \<Rightarrow> bytes set \<Rightarrow> bool" where
  "binding sha n inputs = ((\<forall>x. length (sha x) = n) \<and> inj_on sha inputs)"

lemma bindingD: "binding sha n S \<Longrightarrow> sha x = sha y \<Longrightarrow> x \<in> S \<Longrightarrow> y \<in> S \<Longrightarrow> x = y"
  by (auto simp: binding_def dest: inj_onD)

lemma treeHash_length: "\<forall>x. length (sha x) = n \<Longrightarrow> length (treeHash sha t) = n"
  by (cases t) (simp_all add: leafHash_def nodeHash_def)

lemma foldProof_length:
  assumes "\<forall>x. length (sha x) = n" "foldProof sha acc steps = Inr a" "length acc = n"
  shows "length a = n"
  using assms(2,3)
proof (induction steps arbitrary: acc)
  case (Cons s steps)
  obtain sib where "foldProof sha (if side s = L then nodeHash sha sib acc else nodeHash sha acc sib) steps
      = Inr a"
    using Cons.prems(1) by auto
  then show ?case
    by (rule Cons.IH) (use assms(1) in \<open>simp add: nodeHash_def\<close>)
qed simp

lemma foldProof_sound:
  assumes "foldProof sha (leafHash sha d) steps = Inr (treeHash sha t)"
    and "binding sha n (insert (0x00 # d) (pathPreimages sha (leafHash sha d) steps) \<union> preimages sha t)"
  shows "d \<in> set (leavesOf t)"
  using assms
proof (induction steps arbitrary: t rule: rev_induct)
  case Nil
  then have eq: "sha (0x00 # d) = treeHash sha t"
    by (simp add: leafHash_def)
  show ?case
  proof (cases t)
    case (Leaf e)
    then have "sha (0x00 # d) = sha (0x00 # e)"
      using eq by (simp add: leafHash_def)
    then show ?thesis
      using Nil.prems(2) Leaf by (auto simp: binding_def dest: inj_onD)
  next
    case (Node l r)
    then have "sha (0x00 # d) = sha (0x01 # treeHash sha l @ treeHash sha r)"
      using eq by (simp add: nodeHash_def)
    then have "0x00 # d = 0x01 # treeHash sha l @ treeHash sha r"
      by (rule bindingD[OF Nil.prems(2)]) (simp_all add: Node)
    then show ?thesis
      by simp
  qed
next
  case (snoc s steps)
  let ?n = "length (sha [])"
  have len: "\<forall>x. length (sha x) = n" and inj:
    "inj_on sha (insert (0x00 # d) (pathPreimages sha (leafHash sha d) (steps @ [s])) \<union> preimages sha t)"
    using snoc.prems(2) by (auto simp: binding_def)
  obtain a sib where a: "foldProof sha (leafHash sha d) steps = Inr a"
    and sib: "hexToBytes (step_hash s) = Inr sib"
    and last: "sha (0x01 # (if side s = L then sib @ a else a @ sib)) = treeHash sha t"
    using snoc.prems(1) by (auto simp: foldProof_append nodeHash_def split: if_splits)
  let ?input = "0x01 # (if side s = L then sib @ a else a @ sib)"
  have paths: "pathPreimages sha (leafHash sha d) (steps @ [s]) =
      insert ?input (pathPreimages sha (leafHash sha d) steps)"
    using pathPreimages_append[OF a, of "[s]"] sib by auto
  have la: "length a = n"
    using foldProof_length[OF len a] len by (simp add: leafHash_def)
  show ?case
  proof (cases t)
    case (Leaf e)
    then have "sha ?input = sha (0x00 # e)"
      using last by (simp add: leafHash_def)
    then have "?input = 0x00 # e"
      by (rule inj_onD[OF inj]) (auto simp: paths Leaf)
    then show ?thesis
      by simp
  next
    case (Node l r)
    then have "sha ?input = sha (0x01 # treeHash sha l @ treeHash sha r)"
      using last by (simp add: nodeHash_def)
    then have "?input = 0x01 # treeHash sha l @ treeHash sha r"
      by (rule inj_onD[OF inj]) (auto simp: paths Node)
    then have child: "a = treeHash sha l \<or> a = treeHash sha r"
      using la treeHash_length[OF len] by (auto split: if_splits)
    have sub: "binding sha n (insert (0x00 # d) (pathPreimages sha (leafHash sha d) steps) \<union> preimages sha t')"
      if "t' = l \<or> t' = r" for t'
      using len inj that unfolding binding_def paths Node
      by (auto intro: inj_on_subset)
    from child show ?thesis
      using snoc.IH[of l] snoc.IH[of r] a sub Node by auto
  qed
qed

lemma treeHash_inject:
  assumes "treeHash sha t = treeHash sha u" "binding sha n (preimages sha t \<union> preimages sha u)"
  shows "t = u"
  using assms
proof (induction t arbitrary: u)
  case (Leaf d)
  show ?case
  proof (cases u)
    case (Leaf e)
    then have "sha (0x00 # d) = sha (0x00 # e)"
      using Leaf.prems(1) by (simp add: leafHash_def)
    then have "0x00 # d = 0x00 # e"
      by (rule bindingD[OF Leaf.prems(2)]) (simp_all add: Leaf)
    then show ?thesis
      using Leaf by simp
  next
    case (Node l r)
    then have "sha (0x00 # d) = sha (0x01 # treeHash sha l @ treeHash sha r)"
      using Leaf.prems(1) by (simp add: leafHash_def nodeHash_def)
    then have "0x00 # d = 0x01 # treeHash sha l @ treeHash sha r"
      by (rule bindingD[OF Leaf.prems(2)]) (simp_all add: Node)
    then show ?thesis
      by simp
  qed
next
  case (Node l r)
  have len: "\<forall>x. length (sha x) = n"
    using Node.prems(2) by (simp add: binding_def)
  obtain l' r' where u: "u = Node l' r'"
  proof (cases u)
    case (Leaf e)
    then have "sha (0x01 # treeHash sha l @ treeHash sha r) = sha (0x00 # e)"
      using Node.prems(1) by (simp add: leafHash_def nodeHash_def)
    then have "0x01 # treeHash sha l @ treeHash sha r = 0x00 # e"
      by (rule bindingD[OF Node.prems(2)]) (simp_all add: Leaf)
    then show ?thesis
      by simp
  qed (use that in blast)
  have "sha (0x01 # treeHash sha l @ treeHash sha r) = sha (0x01 # treeHash sha l' @ treeHash sha r')"
    using Node.prems(1) u by (simp add: nodeHash_def)
  then have "0x01 # treeHash sha l @ treeHash sha r = 0x01 # treeHash sha l' @ treeHash sha r'"
    by (rule bindingD[OF Node.prems(2)]) (simp_all add: u)
  then have eq: "treeHash sha l = treeHash sha l'" "treeHash sha r = treeHash sha r'"
    using treeHash_length[OF len] by auto
  have "binding sha n (preimages sha l \<union> preimages sha l')" "binding sha n (preimages sha r \<union> preimages sha r')"
    using Node.prems(2) unfolding u binding_def by (auto intro: inj_on_subset)
  then show ?case
    using Node.IH eq u by blast
qed

section \<open>Properties\<close>

text \<open>Completeness. For every leaf of every ledger day the built proof verifies against the root,
  and an index outside the leaves is refused.\<close>

theorem inclusionProof_verifies:
  "case inclusionProof sha leaves (Whole i) of
     Inr steps \<Rightarrow> 0 \<le> i \<and> nat i < length leaves \<and>
       verifyInclusion sha (leaves ! nat i) steps (merkleRoot sha leaves) = Inr True
   | Inl e \<Rightarrow> e = IndexOutOfRange \<and> (i < 0 \<or> int (length leaves) \<le> i)"
proof (cases "i < 0 \<or> int (length leaves) \<le> i")
  case False
  then have i: "nat i < length leaves" "leaves \<noteq> []"
    by auto
  have "foldProof sha (map (leafHash sha) leaves ! nat i)
      (proofSteps (butlast (levelsFrom sha (map (leafHash sha) leaves))) (nat i)) =
      Inr (hd (last (levelsFrom sha (map (leafHash sha) leaves))))"
    by (rule foldProof_levels) (use i in simp)
  then show ?thesis
    using False i
    by (simp add: inclusionProof_def verifyInclusion_def merkleRoot_def buildLevels_def)
qed (auto simp: inclusionProof_def)

text \<open>C33: Soundness. If a proof, built by anyone, makes a byte string verify against the root of a day's
  leaves, the byte string is one of the leaves, provided SHA-256 has its fixed digest length and
  no two of the inputs hashed by the tree and by the proof collide.\<close>

theorem verifyInclusion_sound:
  assumes "leaves \<noteq> []"
    and "binding sha n (insert (0x00 # d) (pathPreimages sha (leafHash sha d) steps) \<union>
           preimages sha (rootTree leaves))"
    and "verifyInclusion sha d steps (merkleRoot sha leaves) = Inr True"
  shows "d \<in> set leaves"
proof -
  have "foldProof sha (leafHash sha d) steps = Inr (treeHash sha (rootTree leaves))"
    using assms(3) merkleRoot_tree(1)[OF assms(1)] by (auto simp: verifyInclusion_def)
  from foldProof_sound[OF this assms(2)] show ?thesis
    using merkleRoot_tree(2)[OF assms(1)] by simp
qed

text \<open>A concrete digest for the witnesses: the first three bytes, zero padded.\<close>

definition toy_sha :: "bytes \<Rightarrow> bytes" where
  "toy_sha x = take 3 (x @ [0, 0, 0])"

lemma toy_sha_length: "length (toy_sha x) = 3"
  by (simp add: toy_sha_def)

lemma toy_binding:
  "binding toy_sha 3 S \<longleftrightarrow> (\<forall>x \<in> S. \<forall>y \<in> S. toy_sha x = toy_sha y \<longrightarrow> x = y)"
  by (simp add: binding_def toy_sha_length inj_on_def)

lemma toy_root_tree: "rootTree [a, b] = Node (Leaf a) (Leaf b)"
  unfolding rootTree_def by (subst foldTrees.simps, simp, subst foldTrees.simps, simp)

theorem verifyInclusion_sound_witness: "[8] \<in> set [[7], [8 :: byte]]"
proof (rule verifyInclusion_sound[where sha = toy_sha and n = 3
      and steps = "[\<lparr> side = L, step_hash = ''000700'' \<rparr>]"])
  have hex: "hexToBytes ''000700'' = Inr [0, 7, 0]"
    using hexToBytes_bytesToHex[of "[0, 7, 0]"]
    by (simp add: bytesToHex_def byteToHex_def hexdigit_def)
  show "binding toy_sha 3 (insert (0x00 # [8]) (pathPreimages toy_sha (leafHash toy_sha [8])
      [\<lparr> side = L, step_hash = ''000700'' \<rparr>]) \<union> preimages toy_sha (rootTree [[7], [8]]))"
    unfolding toy_binding by (simp add: toy_root_tree hex leafHash_def nodeHash_def toy_sha_def)
  show "verifyInclusion toy_sha [8] [\<lparr> side = L, step_hash = ''000700'' \<rparr>] (merkleRoot toy_sha [[7], [8]])
      = Inr True"
    by (simp add: verifyInclusion_def hex merkleRoot_tree(1) toy_root_tree leafHash_def nodeHash_def
        toy_sha_def)
qed simp

text \<open>The root binds the whole day: two non-empty lists of leaves with the same root are equal (in
  content, order and length), under the same assumptions on SHA-256. In particular the tree has
  no duplicated-leaf ambiguity.\<close>

theorem merkleRoot_binding:
  assumes "xs \<noteq> []" "ys \<noteq> []" "merkleRoot sha xs = merkleRoot sha ys"
    and "binding sha n (preimages sha (rootTree xs) \<union> preimages sha (rootTree ys))"
  shows "xs = ys"
proof -
  have "rootTree xs = rootTree ys"
    using treeHash_inject[OF _ assms(4)] assms(3)[unfolded merkleRoot_tree(1)[OF assms(1)]
      merkleRoot_tree(1)[OF assms(2)]] by blast
  then show ?thesis
    using merkleRoot_tree(2)[OF assms(1)] merkleRoot_tree(2)[OF assms(2)] by metis
qed

theorem merkleRoot_binding_witness:
  "merkleRoot toy_sha [[7], [8]] \<noteq> merkleRoot toy_sha [[8], [7]]"
proof
  assume eq: "merkleRoot toy_sha [[7], [8]] = merkleRoot toy_sha [[8], [7]]"
  have "binding toy_sha 3 (preimages toy_sha (rootTree [[7], [8]]) \<union> preimages toy_sha (rootTree [[8], [7]]))"
    unfolding toy_binding by (simp add: toy_root_tree leafHash_def nodeHash_def toy_sha_def)
  from merkleRoot_binding[OF _ _ eq this] show False
    by simp
qed

text \<open>Hexadecimal round trip, and its one-sidedness: the decoder returns every encoded byte string,
  but it also accepts strings the encoder never writes, because \<open>Number.parseInt\<close> stops at the
  first character that is not a digit.\<close>

theorem hexToBytes_roundtrip:
  "hexToBytes (bytesToHex bs) = Inr bs \<and> hexToBytes ''1g'' = Inr [1] \<and> hexToBytes ''-1'' = Inr [255]"
  by (simp add: hexToBytes_bytesToHex)
     (simp add: hexToBytes_def parseHexPair_def hexval_def isWhitespace_def Let_def)

end
