(* ===== verification/Canonical.thy ===== *)
theory Canonical
  imports Merkle
begin

text \<open>
  \<open>packages/ledger/src/canonical.ts\<close>: canonical JSON, the byte law under every hash of the ledger.
  A JavaScript string is the list of its code points (what \<open>for (const ch of s)\<close> iterates), lone
  surrogates included; object keys sort by UTF-16 code units, the order of the JavaScript
  comparison operators. \<open>jvalue\<close> has a constructor for every run-time type the code
  distinguishes, with array holes, \<open>undefined\<close>, negative zero and non-integers as values, so that
  every throw is a branch. The main result is injectivity: the canonical text determines the
  value, up to the order of keys and the fields that are \<open>undefined\<close>.
\<close>

type_synonym jstr = "nat list"

datatype jnum = JInt int | NegZero | NotInteger

datatype jvalue =
    JNull
  | JBool bool
  | JNum jnum
  | JStr jstr
  | JArr "jvalue option list"
  | JObj "(jstr \<times> jvalue) list"
  | JUndefined
  | JOther

datatype canon_error = LoneSurrogate | IntegersOnly | SparseHole | UnsupportedType

section \<open>The code\<close>

definition is_surrogate :: "nat \<Rightarrow> bool" where
  "is_surrogate c = (0xD800 \<le> c \<and> c \<le> 0xDFFF)"

definition hexcode :: "nat \<Rightarrow> nat" where
  "hexcode n = (if n < 10 then 48 + n else 87 + n)"

definition escChar :: "nat \<Rightarrow> jstr" where
  "escChar c =
     (if c = 34 then [92, 34]
      else if c = 92 then [92, 92]
      else if c < 0x20 then
        (if c = 8 then [92, 98] else if c = 9 then [92, 116] else if c = 10 then [92, 110]
         else if c = 12 then [92, 102] else if c = 13 then [92, 114]
         else [92, 117, 48, 48, hexcode (c div 16), hexcode (c mod 16)])
      else [c])"

fun escChars :: "jstr \<Rightarrow> canon_error + jstr" where
  "escChars [] = Inr []"
| "escChars (c # cs) =
     (if is_surrogate c then Inl LoneSurrogate
      else ebind (escChars cs) (\<lambda>out. Inr (escChar c @ out)))"

definition esc :: "jstr \<Rightarrow> canon_error + jstr" where
  "esc s = ebind (escChars s) (\<lambda>out. Inr (34 # out @ [34]))"

fun decimal :: "nat \<Rightarrow> jstr" where
  "decimal n = (if n < 10 then [48 + n] else decimal (n div 10) @ [48 + n mod 10])"

declare decimal.simps [simp del]

definition numText :: "int \<Rightarrow> jstr" where
  "numText i = (if i < 0 then 45 # decimal (nat (- i)) else decimal (nat i))"

fun joinComma :: "jstr list \<Rightarrow> jstr" where
  "joinComma [] = []"
| "joinComma [s] = s"
| "joinComma (s # ss) = s @ 44 # joinComma ss"

definition utf16 :: "nat \<Rightarrow> nat list" where
  "utf16 c = (if c < 0x10000 then [c]
     else [0xD800 + (c - 0x10000) div 0x400, 0xDC00 + (c - 0x10000) mod 0x400])"

definition units :: "jstr \<Rightarrow> nat list" where
  "units s = concat (map utf16 s)"

definition sortedEntries :: "(jstr \<times> jvalue) list \<Rightarrow> (jstr \<times> jvalue) list" where
  "sortedEntries kvs = sort_key (units \<circ> fst) (filter (\<lambda>kv. snd kv \<noteq> JUndefined) kvs)"

lemma sortedEntries_mem: "kv \<in> set (sortedEntries kvs) \<longleftrightarrow> kv \<in> set kvs \<and> snd kv \<noteq> JUndefined"
  by (simp add: sortedEntries_def)

lemma traverse_cong [fundef_cong]:
  "xs = ys \<Longrightarrow> (\<And>x. x \<in> set ys \<Longrightarrow> f x = g x) \<Longrightarrow> traverse f xs = traverse g ys"
  by (induction xs arbitrary: ys) auto

lemma member_size:
  assumes "(k, v) \<in> set kvs"
  shows "size v < Suc (size_list (size_prod (\<lambda>_. 0) size) kvs)"
proof -
  have "size_prod (\<lambda>_. 0) size (k, v) \<le> size_list (size_prod (\<lambda>_. 0) size) kvs"
    using assms by (rule size_list_estimation') simp
  then show ?thesis
    by simp
qed

lemma element_size:
  assumes "Some v \<in> set xs"
  shows "size v < Suc (size_list (size_option size) xs)"
proof -
  have "size_option size (Some v) \<le> size_list (size_option size) xs"
    using assms by (rule size_list_estimation') simp
  then show ?thesis
    by simp
qed

function canonicalize :: "jvalue \<Rightarrow> canon_error + jstr" where
  "canonicalize JNull = Inr [110, 117, 108, 108]"
| "canonicalize (JBool b) = Inr (if b then [116, 114, 117, 101] else [102, 97, 108, 115, 101])"
| "canonicalize (JNum n) =
     (case n of
        JInt i \<Rightarrow> if - MAX_SAFE \<le> i \<and> i \<le> MAX_SAFE then Inr (numText i) else Inl IntegersOnly
      | NegZero \<Rightarrow> Inl IntegersOnly
      | NotInteger \<Rightarrow> Inl IntegersOnly)"
| "canonicalize (JStr s) = esc s"
| "canonicalize (JArr xs) =
     ebind (traverse (\<lambda>x. case x of None \<Rightarrow> Inl SparseHole | Some v \<Rightarrow> canonicalize v) xs)
       (\<lambda>ss. Inr (91 # joinComma ss @ [93]))"
| "canonicalize (JObj kvs) =
     ebind (traverse (\<lambda>(k, v). ebind (esc k) (\<lambda>ks. ebind (canonicalize v) (\<lambda>s. Inr (ks @ 58 # s))))
              (sortedEntries kvs))
       (\<lambda>ss. Inr (123 # joinComma ss @ [125]))"
| "canonicalize JUndefined = Inl UnsupportedType"
| "canonicalize JOther = Inl UnsupportedType"
  by pat_completeness auto
termination
  by (relation "measure size") (auto simp: sortedEntries_mem dest: member_size element_size)

definition utf8 :: "nat \<Rightarrow> bytes" where
  "utf8 c =
     (if c < 0x80 then [of_nat c]
      else if c < 0x800 then [of_nat (192 + c div 64), of_nat (128 + c mod 64)]
      else if is_surrogate c then [0xEF, 0xBF, 0xBD]
      else if c < 0x10000 then
        [of_nat (224 + c div 4096), of_nat (128 + c div 64 mod 64), of_nat (128 + c mod 64)]
      else [of_nat (240 + c div 262144), of_nat (128 + c div 4096 mod 64),
            of_nat (128 + c div 64 mod 64), of_nat (128 + c mod 64)])"

definition canonicalBytes :: "jvalue \<Rightarrow> canon_error + bytes" where
  "canonicalBytes v = ebind (canonicalize v) (\<lambda>s. Inr (concat (map utf8 s)))"

definition sha256Hex :: "(bytes \<Rightarrow> bytes) \<Rightarrow> bytes \<Rightarrow> string" where
  "sha256Hex sha bs = bytesToHex (sha bs)"

text \<open>What the canonical text determines.\<close>

function normal :: "jvalue \<Rightarrow> jvalue" where
  "normal (JArr xs) = JArr (map (\<lambda>x. case x of None \<Rightarrow> None | Some v \<Rightarrow> Some (normal v)) xs)"
| "normal (JObj kvs) = JObj (map (\<lambda>(k, v). (k, normal v)) (sortedEntries kvs))"
| "normal JNull = JNull"
| "normal (JBool b) = JBool b"
| "normal (JNum n) = JNum n"
| "normal (JStr s) = JStr s"
| "normal JUndefined = JUndefined"
| "normal JOther = JOther"
  by pat_completeness auto
termination
  by (relation "measure size") (auto simp: sortedEntries_mem dest: member_size element_size)

section \<open>Escaped strings\<close>

definition hexdecode :: "nat \<Rightarrow> nat" where
  "hexdecode n = (if n < 58 then n - 48 else n - 87)"

fun unescape :: "jstr \<Rightarrow> nat \<times> jstr" where
  "unescape (c # rest) =
     (if c \<noteq> 92 then (c, rest)
      else case rest of
        d # tl' \<Rightarrow>
          if d = 98 then (8, tl') else if d = 116 then (9, tl') else if d = 110 then (10, tl')
          else if d = 102 then (12, tl') else if d = 114 then (13, tl')
          else if d = 117 then (16 * hexdecode (tl' ! 2) + hexdecode (tl' ! 3), drop 4 tl')
          else (d, tl')
      | [] \<Rightarrow> (0, []))"
| "unescape [] = (0, [])"

lemma hexdecode_hexcode: "n < 16 \<Longrightarrow> hexdecode (hexcode n) = n"
  by (auto simp: hexdecode_def hexcode_def)

lemma unescape_escChar: "unescape (escChar c @ rest) = (c, rest)"
proof (cases "c < 32")
  case True
  then have "c div 16 < 16" "c mod 16 < 16"
    by auto
  then show ?thesis
    using True by (simp add: escChar_def hexdecode_hexcode)
qed (auto simp: escChar_def)

lemma escChar_inject: "escChar c @ x = escChar d @ y \<Longrightarrow> c = d \<and> x = y"
  by (metis Pair_inject unescape_escChar)

lemma escChar_not_quote: "escChar c @ x \<noteq> 34 # y"
  by (auto simp: escChar_def split: if_splits)

lemma escChars_inject:
  assumes "escChars s = Inr a" "escChars t = Inr b" "a @ 34 # x = b @ 34 # y"
  shows "s = t \<and> a = b \<and> x = y"
  using assms
proof (induction s arbitrary: t a b)
  case Nil
  then show ?case
    by (cases t) (auto split: if_splits dest: escChar_not_quote[THEN not_sym, THEN notE])
next
  case (Cons c s)
  obtain a' where a': "escChars s = Inr a'" "a = escChar c @ a'"
    using Cons.prems(1) by (auto split: if_splits)
  obtain d t' b' where t: "t = d # t'" "escChars t' = Inr b'" "b = escChar d @ b'"
    using Cons.prems(2,3) a'(2) escChar_not_quote[of c] by (cases t) (auto split: if_splits)
  have "c = d" "a' @ 34 # x = b' @ 34 # y"
    using escChar_inject[of c "a' @ 34 # x" d "b' @ 34 # y"] Cons.prems(3) a'(2) t(3) by auto
  then show ?case
    using Cons.IH[OF a'(1) t(2)] a' t by simp
qed

lemma esc_inject:
  assumes "esc s = Inr a" "esc t = Inr b" "a @ x = b @ y"
  shows "s = t \<and> a = b \<and> x = y"
proof -
  obtain a' b' where "escChars s = Inr a'" "a = 34 # a' @ [34]" "escChars t = Inr b'" "b = 34 # b' @ [34]"
    using assms(1,2) by (auto simp: esc_def)
  then show ?thesis
    using escChars_inject[of s a' t b' x y] assms(3) by simp
qed

section \<open>Numbers\<close>

definition isDigit :: "nat \<Rightarrow> bool" where
  "isDigit c = (48 \<le> c \<and> c \<le> 57)"

lemma decimal_digits: "\<forall>c \<in> set (decimal n). isDigit c"
  by (induction n rule: decimal.induct) (subst decimal.simps, auto simp: isDigit_def)

lemma decimal_nonempty: "decimal n \<noteq> []"
  by (subst decimal.simps) simp

lemma decimal_value: "foldl (\<lambda>a d. 10 * a + (d - 48)) 0 (decimal n) = n"
  by (induction n rule: decimal.induct) (subst decimal.simps, auto)

lemma decimal_inject: "decimal m = decimal n \<Longrightarrow> m = n"
  by (metis decimal_value)

definition delimited :: "jstr \<Rightarrow> bool" where
  "delimited r = (case r of [] \<Rightarrow> True | c # _ \<Rightarrow> c = 44 \<or> c = 93 \<or> c = 125)"

lemma takeWhile_digits:
  assumes "\<forall>c \<in> set a. isDigit c" "delimited r"
  shows "takeWhile isDigit (a @ r) = a"
proof -
  have "takeWhile isDigit r = []"
    using assms(2) by (auto simp: delimited_def isDigit_def split: list.splits)
  then show ?thesis
    using assms(1) by (simp add: takeWhile_append2)
qed

lemma decimal_read:
  assumes "decimal m @ x = decimal n @ y" "delimited x" "delimited y"
  shows "m = n \<and> x = y"
proof -
  have "decimal m = decimal n"
    using assms takeWhile_digits[OF decimal_digits] by metis
  then show ?thesis
    using assms(1) decimal_inject by auto
qed

lemma decimal_hd: "\<exists>c cs. decimal n = c # cs \<and> isDigit c"
  using decimal_nonempty[of n] decimal_digits[of n] by (cases "decimal n") auto

lemma numText_minus: "i < 0 \<Longrightarrow> numText i = 45 # decimal (nat (- i))"
  by (simp add: numText_def)

lemma numText_plus: "0 \<le> i \<Longrightarrow> numText i = decimal (nat i)"
  by (simp add: numText_def)

lemma decimal_not_minus: "decimal n @ x \<noteq> 45 # y"
  using decimal_hd[of n] by (auto simp: isDigit_def)

lemma numText_read:
  assumes "numText i @ x = numText j @ y" "delimited x" "delimited y"
  shows "i = j \<and> x = y"
proof (cases "i < 0"; cases "j < 0")
  assume "i < 0" "j < 0"
  then have "nat (- i) = nat (- j) \<and> x = y"
    using decimal_read[of "nat (- i)" x "nat (- j)" y] assms by (simp add: numText_minus)
  then show ?thesis
    using \<open>i < 0\<close> \<open>j < 0\<close> by (simp add: eq_nat_nat_iff)
next
  assume "\<not> i < 0" "\<not> j < 0"
  then have "nat i = nat j \<and> x = y"
    using decimal_read[of "nat i" x "nat j" y] assms by (simp add: numText_plus)
  then show ?thesis
    using \<open>\<not> i < 0\<close> \<open>\<not> j < 0\<close> by (simp add: eq_nat_nat_iff)
next
  assume "i < 0" "\<not> j < 0"
  then show ?thesis
    using assms(1) decimal_not_minus[of "nat j" y "decimal (nat (- i)) @ x"] by (simp add: numText_minus numText_plus)
next
  assume "\<not> i < 0" "j < 0"
  then show ?thesis
    using assms(1) decimal_not_minus[of "nat i" x "decimal (nat (- j)) @ y"] by (simp add: numText_minus numText_plus)
qed

lemma numText_hd: "\<exists>c cs. numText i = c # cs \<and> (c = 45 \<or> isDigit c)"
  using decimal_hd[of "nat i"] decimal_hd[of "nat (- i)"] by (auto simp: numText_def)

section \<open>Injectivity of the canonical text\<close>

lemma joinComma_Cons: "joinComma (s # ss) = s @ (if ss = [] then [] else 44 # joinComma ss)"
  by (cases ss) auto

text \<open>Reading a comma-separated list back: if every element is read back before a delimiter, so is
  the list before its closing bracket \<open>c\<close>.\<close>

lemma joinComma_read:
  assumes element: "\<And>x y s t r r'. x \<in> set xs \<Longrightarrow> enc x = Inr s \<Longrightarrow> enc y = Inr t \<Longrightarrow>
      s @ r = t @ r' \<Longrightarrow> delimited r \<Longrightarrow> delimited r' \<Longrightarrow> nf x = nf y \<and> s = t"
    and start: "\<And>x s. enc x = Inr s \<Longrightarrow> s \<noteq> [] \<and> hd s \<noteq> c"
    and c: "c = 93 \<or> c = 125"
    and enc: "list_all2 (\<lambda>x s. enc x = Inr s) xs ss" "list_all2 (\<lambda>y t. enc y = Inr t) ys ts"
    and eq: "joinComma ss @ c # r = joinComma ts @ c # r'"
  shows "map nf xs = map nf ys \<and> ss = ts \<and> r = r'"
  using element enc eq
proof (induction xs arbitrary: ss ys ts)
  case Nil
  then have [simp]: "ss = []"
    by simp
  show ?case
  proof (cases ts)
    case (Cons t ts')
    then obtain y where "enc y = Inr t"
      using Nil.prems(3) by (auto simp: list_all2_Cons2)
    then show ?thesis
      using start[of y t] Nil.prems(4) Cons by (cases t) (auto simp: joinComma_Cons)
  qed (use Nil in simp)
next
  case (Cons x xs)
  obtain s ss' where s: "ss = s # ss'" "enc x = Inr s" "list_all2 (\<lambda>x s. enc x = Inr s) xs ss'"
    using Cons.prems(2) by (auto simp: list_all2_Cons1)
  obtain y ys' t ts' where t: "ys = y # ys'" "ts = t # ts'" "enc y = Inr t"
    "list_all2 (\<lambda>y t. enc y = Inr t) ys' ts'"
  proof (cases ts)
    case Nil
    then show ?thesis
      using start[OF s(2)] Cons.prems(4) s(1) by (cases s) (auto simp: joinComma_Cons)
  next
    case (Cons t ts')
    then show ?thesis
      using Cons.prems(3) that by (auto simp: list_all2_Cons2)
  qed
  define rest where "rest = (if ss' = [] then [] else 44 # joinComma ss') @ c # r"
  define rest' where "rest' = (if ts' = [] then [] else 44 # joinComma ts') @ c # r'"
  have eq: "s @ rest = t @ rest'"
    using Cons.prems(4) by (simp add: s(1) t(2) joinComma_Cons rest_def rest'_def)
  have delim: "delimited rest" "delimited rest'"
    using c by (auto simp: rest_def rest'_def delimited_def)
  have hd: "nf x = nf y" "s = t"
    using Cons.prems(1)[OF _ s(2) t(3) eq delim] by simp_all
  then have "rest = rest'"
    using eq by simp
  have "ss' = [] \<longleftrightarrow> ts' = []"
    using \<open>rest = rest'\<close> c unfolding rest_def rest'_def by (cases "ss' = []"; cases "ts' = []"; force)
  then consider "ss' = []" "ts' = []" | "ss' \<noteq> []" "ts' \<noteq> []"
    by blast
  then show ?case
  proof cases
    case 1
    then have "xs = []" "ys' = []" "r = r'"
      using s(3) t(4) \<open>rest = rest'\<close> by (auto simp: rest_def rest'_def)
    then show ?thesis
      using hd s(1) t(1,2) 1 by simp
  next
    case 2
    then have tails: "joinComma ss' @ c # r = joinComma ts' @ c # r'"
      using \<open>rest = rest'\<close> by (simp add: rest_def rest'_def)
    have "map nf xs = map nf ys' \<and> ss' = ts' \<and> r = r'"
      by (rule Cons.IH[OF _ s(3) t(4) tails]) (meson Cons.prems(1) list.set_intros(2))
    then show ?thesis
      using hd s(1) t(1,2) by simp
  qed
qed

fun leadCode :: "jvalue \<Rightarrow> nat \<Rightarrow> bool" where
  "leadCode JNull c = (c = 110)"
| "leadCode (JBool b) c = (c = (if b then 116 else 102))"
| "leadCode (JNum n) c = (c = 45 \<or> isDigit c)"
| "leadCode (JStr s) c = (c = 34)"
| "leadCode (JArr xs) c = (c = 91)"
| "leadCode (JObj kvs) c = (c = 123)"
| "leadCode _ c = False"

lemma leadCode_bracket: "leadCode v c \<Longrightarrow> c \<noteq> 93 \<and> c \<noteq> 125"
  by (cases v) (auto simp: isDigit_def split: if_splits)

lemma canonicalize_lead:
  assumes "canonicalize v = Inr s"
  shows "\<exists>c cs. s = c # cs \<and> leadCode v c"
  using assms numText_hd
  by (cases v) (auto simp: esc_def split: jnum.splits if_splits)

definition entryText :: "jstr \<times> jvalue \<Rightarrow> canon_error + jstr" where
  "entryText = (\<lambda>(k, v). ebind (esc k) (\<lambda>ks. ebind (canonicalize v) (\<lambda>s. Inr (ks @ 58 # s))))"

definition elementText :: "jvalue option \<Rightarrow> canon_error + jstr" where
  "elementText = (\<lambda>x. case x of None \<Rightarrow> Inl SparseHole | Some v \<Rightarrow> canonicalize v)"

lemma canonicalize_containers:
  "canonicalize (JArr xs) = Inr s \<longleftrightarrow>
     (\<exists>ss. list_all2 (\<lambda>x t. elementText x = Inr t) xs ss \<and> s = 91 # joinComma ss @ [93])"
  "canonicalize (JObj kvs) = Inr s \<longleftrightarrow>
     (\<exists>ss. list_all2 (\<lambda>x t. entryText x = Inr t) (sortedEntries kvs) ss \<and> s = 123 # joinComma ss @ [125])"
  by (auto simp: elementText_def[symmetric] entryText_def[symmetric] traverse_eq_Inr)

lemma elementText_start: "elementText x = Inr s \<Longrightarrow> s \<noteq> [] \<and> hd s \<noteq> 93"
  by (cases x) (auto simp: elementText_def dest!: canonicalize_lead leadCode_bracket)

lemma entryText_start: "entryText x = Inr s \<Longrightarrow> s \<noteq> [] \<and> hd s \<noteq> 125"
  by (cases x) (auto simp: entryText_def esc_def)

lemma canonicalize_read:
  assumes "canonicalize v = Inr s" "canonicalize w = Inr t" "s @ r = t @ r'" "delimited r" "delimited r'"
  shows "normal v = normal w \<and> s = t"
  using assms
proof (induction "size v" arbitrary: v w s t r r' rule: less_induct)
  case less
  obtain c cs d ds where lead: "s = c # cs" "leadCode v c" "t = d # ds" "leadCode w d"
    using canonicalize_lead[OF less.prems(1)] canonicalize_lead[OF less.prems(2)] by blast
  then have "leadCode w c"
    using less.prems(3) by simp
  show ?case
  proof (cases v)
    case (JArr xs)
    then obtain ys where w: "w = JArr ys"
      using lead(2) \<open>leadCode w c\<close> by (cases w) (auto simp: isDigit_def split: if_splits)
    obtain ss ts where st: "list_all2 (\<lambda>x t. elementText x = Inr t) xs ss" "s = 91 # joinComma ss @ [93]"
      "list_all2 (\<lambda>x t. elementText x = Inr t) ys ts" "t = 91 # joinComma ts @ [93]"
      using less.prems(1,2) unfolding JArr w canonicalize_containers by blast
    let ?nf = "\<lambda>x. case x of None \<Rightarrow> None | Some v \<Rightarrow> Some (normal v)"
    have "map ?nf xs = map ?nf ys \<and> ss = ts \<and> r = r'"
    proof (rule joinComma_read[OF _ _ _ st(1,3)])
      fix x y a b q q'
      assume *: "x \<in> set xs" "elementText x = Inr a" "elementText y = Inr b" "a @ q = b @ q'"
        "delimited q" "delimited q'"
      obtain v' w' where vw: "x = Some v'" "y = Some w'"
        using *(2,3) by (cases x; cases y) (auto simp: elementText_def)
      then have "size v' < size v"
        using *(1) element_size JArr by simp
      then show "?nf x = ?nf y \<and> a = b"
        using less.hyps[of v' a w' b q q'] * vw by (simp add: elementText_def)
    qed (use elementText_start less.prems(3) st in auto)
    then show ?thesis
      using JArr w st by simp
  next
    case (JObj kvs)
    then obtain lvs where w: "w = JObj lvs"
      using lead(2) \<open>leadCode w c\<close> by (cases w) (auto simp: isDigit_def split: if_splits)
    obtain ss ts where st: "list_all2 (\<lambda>x t. entryText x = Inr t) (sortedEntries kvs) ss"
      "s = 123 # joinComma ss @ [125]"
      "list_all2 (\<lambda>x t. entryText x = Inr t) (sortedEntries lvs) ts" "t = 123 # joinComma ts @ [125]"
      using less.prems(1,2) unfolding JObj w canonicalize_containers by blast
    let ?nf = "\<lambda>(k, v). (k, normal v)"
    have "map ?nf (sortedEntries kvs) = map ?nf (sortedEntries lvs) \<and> ss = ts \<and> r = r'"
    proof (rule joinComma_read[OF _ _ _ st(1,3)])
      fix x y a b q q'
      assume *: "x \<in> set (sortedEntries kvs)" "entryText x = Inr a" "entryText y = Inr b" "a @ q = b @ q'"
        "delimited q" "delimited q'"
      obtain k v' l w' where kv: "x = (k, v')" "y = (l, w')"
        by (cases x; cases y) auto
      obtain ka va lb wb where texts: "esc k = Inr ka" "canonicalize v' = Inr va" "a = ka @ 58 # va"
        "esc l = Inr lb" "canonicalize w' = Inr wb" "b = lb @ 58 # wb"
        using *(2,3) kv by (auto simp: entryText_def)
      have "k = l \<and> ka = lb \<and> 58 # va @ q = 58 # wb @ q'"
        using esc_inject[OF texts(1,4), of "58 # va @ q" "58 # wb @ q'"] *(4) texts(3,6) by simp
      moreover have "size v' < size v"
        using *(1) member_size[of k v' kvs] JObj kv by (simp add: sortedEntries_mem)
      ultimately show "?nf x = ?nf y \<and> a = b"
        using less.hyps[of v' va w' wb q q'] * texts kv by simp
    qed (use entryText_start less.prems(3) st in auto)
    then show ?thesis
      using JObj w st by simp
  next
    case (JNum n)
    then obtain m where w: "w = JNum m"
      using lead(2) \<open>leadCode w c\<close> by (cases w) (auto simp: isDigit_def split: if_splits)
    then obtain i j where "n = JInt i" "m = JInt j" "s = numText i" "t = numText j"
      using less.prems(1,2) JNum by (auto split: jnum.splits if_splits)
    then show ?thesis
      using numText_read[of i r j r'] less.prems(3-5) JNum w by auto
  next
    case (JStr a)
    then obtain b where w: "w = JStr b"
      using lead(2) \<open>leadCode w c\<close> by (cases w) (auto simp: isDigit_def split: if_splits)
    then show ?thesis
      using esc_inject[of a s b t r r'] less.prems(1-3) JStr by auto
  qed (use lead(2) \<open>leadCode w c\<close> less.prems in
      \<open>cases w; auto simp: isDigit_def split: if_splits\<close>)+
qed

lemma canonicalize_normal:
  assumes "canonicalize v = Inr s" "canonicalize w = Inr s"
  shows "normal v = normal w"
  using canonicalize_read[OF assms, of "[]" "[]"] by (simp add: delimited_def)

section \<open>UTF-8\<close>

fun readUtf8 :: "bytes \<Rightarrow> nat \<times> bytes" where
  "readUtf8 [] = (0, [])"
| "readUtf8 (b # rest) =
     (let n = unat b; byte = (\<lambda>i. unat (rest ! i) - 128)
      in if n < 128 then (n, rest)
         else if n < 224 then ((n - 192) * 64 + byte 0, drop 1 rest)
         else if n < 240 then ((n - 224) * 4096 + byte 0 * 64 + byte 1, drop 2 rest)
         else ((n - 240) * 262144 + byte 0 * 4096 + byte 1 * 64 + byte 2, drop 3 rest))"

definition scalar :: "nat \<Rightarrow> bool" where
  "scalar c = (\<not> is_surrogate c \<and> c < 0x110000)"

lemma unat_of_nat_byte: "n < 256 \<Longrightarrow> unat (of_nat n :: byte) = n"
  by (simp add: unat_of_nat take_bit_eq_mod)

lemma split64: "c div 64 * 64 + c mod 64 = (c :: nat)"
  by simp

lemma split4096: "c div 4096 * 4096 + c div 64 mod 64 * 64 + c mod 64 = (c :: nat)"
proof -
  have "c div 64 div 64 = c div 4096"
    by (simp flip: div_mult2_eq)
  then show ?thesis
    using div_mult_mod_eq[of "c div 64" 64] div_mult_mod_eq[of c 64] by linarith
qed

lemma split262144:
  "c div 262144 * 262144 + c div 4096 mod 64 * 4096 + c div 64 mod 64 * 64 + c mod 64 = (c :: nat)"
proof -
  have "c div 4096 div 64 = c div 262144"
    by (simp flip: div_mult2_eq)
  then show ?thesis
    using div_mult_mod_eq[of "c div 4096" 64] split4096[of c] by linarith
qed

lemma readUtf8_utf8:
  assumes "scalar c"
  shows "readUtf8 (utf8 c @ rest) = (c, rest)"
proof -
  have c: "c < 0x110000" "\<not> is_surrogate c"
    using assms by (auto simp: scalar_def)
  consider "c < 0x80" | "0x80 \<le> c" "c < 0x800" | "0x800 \<le> c" "c < 0x10000" | "0x10000 \<le> c"
    by linarith
  then show ?thesis
  proof cases
    case 1
    then show ?thesis
      by (simp add: utf8_def unat_of_nat_byte)
  next
    case 2
    define q m where "q = c div 64" and "m = c mod 64"
    have "utf8 c = [of_nat (192 + q), of_nat (128 + m)]"
      using 2 by (simp add: utf8_def q_def m_def)
    moreover have "q < 32" "m < 64" "q * 64 + m = c"
      using 2 split64[of c] by (simp_all add: q_def m_def)
    ultimately show ?thesis
      by (simp add: unat_of_nat_byte Let_def del: of_nat_add)
  next
    case 3
    define p q m where "p = c div 4096" and "q = c div 64 mod 64" and "m = c mod 64"
    have "utf8 c = [of_nat (224 + p), of_nat (128 + q), of_nat (128 + m)]"
      using 3 c(2) by (simp add: utf8_def p_def q_def m_def)
    moreover have "p < 16" "q < 64" "m < 64" "p * 4096 + q * 64 + m = c"
      using 3 split4096[of c] by (simp_all add: p_def q_def m_def)
    ultimately show ?thesis
      by (simp add: unat_of_nat_byte Let_def del: of_nat_add)
  next
    case 4
    define l p q m where "l = c div 262144" and "p = c div 4096 mod 64" and "q = c div 64 mod 64"
      and "m = c mod 64"
    have "utf8 c = [of_nat (240 + l), of_nat (128 + p), of_nat (128 + q), of_nat (128 + m)]"
      using 4 c(2) by (simp add: utf8_def l_def p_def q_def m_def)
    moreover have "l < 5" "p < 64" "q < 64" "m < 64" "l * 262144 + p * 4096 + q * 64 + m = c"
      using 4 c(1) split262144[of c] by (simp_all add: l_def p_def q_def m_def)
    ultimately show ?thesis
      by (simp add: unat_of_nat_byte Let_def del: of_nat_add)
  qed
qed

lemma utf8_nonempty: "utf8 c \<noteq> []"
  by (simp add: utf8_def)

lemma utf8_inject:
  assumes "\<forall>c \<in> set s. scalar c" "\<forall>c \<in> set t. scalar c"
    and "concat (map utf8 s) = concat (map utf8 t)"
  shows "s = t"
  using assms
proof (induction s arbitrary: t)
  case Nil
  then show ?case
    by (cases t) (auto simp: utf8_nonempty)
next
  case (Cons c s)
  obtain d t' where t: "t = d # t'"
    using Cons.prems(3) by (cases t) (auto simp: utf8_nonempty)
  let ?x = "concat (map utf8 s)" and ?y = "concat (map utf8 t')"
  have eq: "utf8 c @ ?x = utf8 d @ ?y"
    using Cons.prems(3) by (simp add: t)
  have "(c, ?x) = readUtf8 (utf8 c @ ?x)"
    using Cons.prems(1) by (simp add: readUtf8_utf8)
  also have "\<dots> = (d, ?y)"
    unfolding eq using Cons.prems(2) by (simp add: t readUtf8_utf8)
  finally show ?case
    using Cons.IH[of t'] Cons.prems(1,2) t by simp
qed

text \<open>Every JavaScript string is a list of code points up to \<open>0x10FFFF\<close>.\<close>

function unicode :: "jvalue \<Rightarrow> bool" where
  "unicode (JStr s) = (\<forall>c \<in> set s. c < 0x110000)"
| "unicode (JArr xs) = (\<forall>x \<in> set xs. case x of None \<Rightarrow> True | Some v \<Rightarrow> unicode v)"
| "unicode (JObj kvs) = (\<forall>kv \<in> set kvs. (\<forall>c \<in> set (fst kv). c < 0x110000) \<and> unicode (snd kv))"
| "unicode JNull = True"
| "unicode (JBool b) = True"
| "unicode (JNum n) = True"
| "unicode JUndefined = True"
| "unicode JOther = True"
  by pat_completeness auto
termination
  by (relation "measure size") (auto dest: member_size element_size)

lemma escChars_scalar:
  assumes "escChars s = Inr a" "\<forall>c \<in> set s. c < 0x110000"
  shows "\<forall>c \<in> set a. scalar c"
  using assms
proof (induction s arbitrary: a)
  case (Cons c s)
  have "\<forall>d \<in> set (escChar c). scalar d" if "scalar c"
    using that by (auto simp: escChar_def scalar_def is_surrogate_def hexcode_def)
  then show ?case
    using Cons by (auto simp: scalar_def split: if_splits)
qed simp

lemma esc_scalar: "esc s = Inr a \<Longrightarrow> \<forall>c \<in> set s. c < 0x110000 \<Longrightarrow> \<forall>c \<in> set a. scalar c"
  using escChars_scalar[of s] by (auto simp: esc_def scalar_def is_surrogate_def)

lemma decimal_scalar: "\<forall>c \<in> set (decimal n). scalar c"
  using decimal_digits[of n] by (auto simp: isDigit_def scalar_def is_surrogate_def)

lemma numText_scalar: "\<forall>c \<in> set (numText i). scalar c"
  using decimal_scalar by (auto simp: numText_def scalar_def is_surrogate_def)

lemma joinComma_set: "set (joinComma ss) \<subseteq> insert 44 (\<Union> (set ` set ss))"
  by (induction ss rule: joinComma.induct) auto

lemma ascii_scalar: "c < 128 \<Longrightarrow> scalar c"
  by (simp add: scalar_def is_surrogate_def)

lemma joinComma_scalar:
  assumes "\<forall>s \<in> set ss. \<forall>c \<in> set s. scalar c"
  shows "\<forall>c \<in> set (joinComma ss). scalar c"
  using joinComma_set[of ss] assms by (fastforce simp: ascii_scalar)

lemma canonicalize_scalar:
  assumes "canonicalize v = Inr s" "unicode v"
  shows "\<forall>c \<in> set s. scalar c"
  using assms
proof (induction "size v" arbitrary: v s rule: less_induct)
  case less
  show ?case
  proof (cases v)
    case (JArr xs)
    obtain ss where ss: "list_all2 (\<lambda>x t. elementText x = Inr t) xs ss" "s = 91 # joinComma ss @ [93]"
      using less.prems(1) unfolding JArr canonicalize_containers by blast
    have "\<forall>c \<in> set t. scalar c" if t: "t \<in> set ss" for t
    proof -
      obtain x where x: "x \<in> set xs" "elementText x = Inr t"
        using list_all2_right[OF ss(1)] t by blast
      from x(2) obtain w where "x = Some w" "canonicalize w = Inr t"
        by (cases x) (auto simp: elementText_def)
      then show ?thesis
        using less.hyps[of w t] element_size[of w xs] less.prems(2) JArr x(1) by fastforce
    qed
    then show ?thesis
      using ss(2) joinComma_scalar[of ss] by (auto simp: ascii_scalar)
  next
    case (JObj kvs)
    obtain ss where ss: "list_all2 (\<lambda>x t. entryText x = Inr t) (sortedEntries kvs) ss"
      "s = 123 # joinComma ss @ [125]"
      using less.prems(1) unfolding JObj canonicalize_containers by blast
    have "\<forall>c \<in> set t. scalar c" if t: "t \<in> set ss" for t
    proof -
      obtain kv where kv: "kv \<in> set (sortedEntries kvs)" "entryText kv = Inr t"
        using list_all2_right[OF ss(1)] t by blast
      obtain k w where "kv = (k, w)"
        by (cases kv)
      then have x: "(k, w) \<in> set kvs" "entryText (k, w) = Inr t"
        using kv by (simp_all add: sortedEntries_mem)
      then obtain ks ws where "esc k = Inr ks" "canonicalize w = Inr ws" "t = ks @ 58 # ws"
        by (auto simp: entryText_def)
      then show ?thesis
        using less.hyps[of w ws] member_size[OF x(1)] less.prems(2) JObj x(1) esc_scalar[of k ks]
        by (fastforce simp: ascii_scalar)
    qed
    then show ?thesis
      using ss(2) joinComma_scalar[of ss] by (auto simp: ascii_scalar)
  qed (use less.prems numText_scalar in
      \<open>auto simp: ascii_scalar dest: esc_scalar split: jnum.splits if_splits\<close>)
qed

lemma canonicalBytes_normal:
  assumes "canonicalBytes v = Inr b" "canonicalBytes w = Inr b" "unicode v" "unicode w"
  shows "normal v = normal w"
proof -
  obtain s t where st: "canonicalize v = Inr s" "canonicalize w = Inr t"
    "concat (map utf8 s) = concat (map utf8 t)"
    using assms(1,2) by (auto simp: canonicalBytes_def)
  have "s = t"
    using utf8_inject st(3) canonicalize_scalar[OF st(1) assms(3)] canonicalize_scalar[OF st(2) assms(4)]
    by blast
  then show ?thesis
    using canonicalize_normal st(1,2) by blast
qed

section \<open>Properties\<close>

definition jlit :: "string \<Rightarrow> jstr" where
  "jlit s = map of_char s"

text \<open>The canonical bytes determine the value. Two JSON values that both have canonical bytes, and the
  same ones, are the same value up to the order of object keys and the fields that are
  \<open>undefined\<close>, at every depth.\<close>

theorem canonicalBytes_injective:
  assumes "canonicalBytes v = Inr b" "canonicalBytes w = Inr b" "unicode v" "unicode w"
  shows "normal v = normal w"
  using assms by (rule canonicalBytes_normal)

definition sample_left :: jvalue where
  "sample_left = JObj [(jlit ''b'', JNum (JInt (- 12))), (jlit ''a'', JArr [Some (JStr [8364]), Some JNull]),
     (jlit ''c'', JUndefined)]"

definition sample_right :: jvalue where
  "sample_right = JObj [(jlit ''a'', JArr [Some (JStr [8364]), Some JNull]), (jlit ''b'', JNum (JInt (- 12)))]"

lemma sample_sorted:
  "sortedEntries [(jlit ''b'', JNum (JInt (- 12))), (jlit ''a'', JArr [Some (JStr [8364]), Some JNull]),
     (jlit ''c'', JUndefined)] =
   [(jlit ''a'', JArr [Some (JStr [8364]), Some JNull]), (jlit ''b'', JNum (JInt (- 12)))]"
  "sortedEntries [(jlit ''a'', JArr [Some (JStr [8364]), Some JNull]), (jlit ''b'', JNum (JInt (- 12)))] =
   [(jlit ''a'', JArr [Some (JStr [8364]), Some JNull]), (jlit ''b'', JNum (JInt (- 12)))]"
  by (simp_all add: sortedEntries_def units_def utf16_def jlit_def)

lemma sample_bytes: "\<exists>b. canonicalBytes sample_left = Inr b \<and> canonicalBytes sample_right = Inr b"
  unfolding canonicalBytes_def sample_left_def sample_right_def canonicalize.simps sample_sorted
  by (simp add: esc_def is_surrogate_def MAX_SAFE_def jlit_def)

theorem canonicalBytes_injective_witness: "normal sample_left = normal sample_right"
proof -
  obtain b where "canonicalBytes sample_left = Inr b" "canonicalBytes sample_right = Inr b"
    using sample_bytes by blast
  then show ?thesis
    by (rule canonicalBytes_injective) (simp_all add: sample_left_def sample_right_def jlit_def)
qed

text \<open>The byte law refuses what would make it ambiguous: no value with a fraction, a negative zero, an
  unsafe integer, an array hole, an \<open>undefined\<close> element, an unsupported type or a lone surrogate
  anywhere in it has canonical bytes.\<close>

function lawful :: "jvalue \<Rightarrow> bool" where
  "lawful (JNum n) = (\<exists>i \<in> {- MAX_SAFE .. MAX_SAFE}. n = JInt i)"
| "lawful (JStr s) = list_all (\<lambda>c. \<not> is_surrogate c) s"
| "lawful (JArr xs) = (\<forall>x \<in> set xs. case x of None \<Rightarrow> False | Some v \<Rightarrow> lawful v)"
| "lawful (JObj kvs) = (\<forall>kv \<in> set kvs. snd kv = JUndefined \<or>
     list_all (\<lambda>c. \<not> is_surrogate c) (fst kv) \<and> lawful (snd kv))"
| "lawful JNull = True"
| "lawful (JBool b) = True"
| "lawful JUndefined = False"
| "lawful JOther = False"
  by pat_completeness auto
termination
  by (relation "measure size") (auto dest: member_size element_size)

lemma escChars_lawful: "(\<exists>a. escChars s = Inr a) \<longleftrightarrow> list_all (\<lambda>c. \<not> is_surrogate c) s"
  by (induction s) auto

lemma esc_lawful: "(\<exists>a. esc s = Inr a) \<longleftrightarrow> list_all (\<lambda>c. \<not> is_surrogate c) s"
  using escChars_lawful by (simp add: esc_def)

lemma traverse_answers: "(\<exists>ys. traverse f xs = Inr ys) \<longleftrightarrow> (\<forall>x \<in> set xs. \<exists>y. f x = Inr y)"
  by (induction xs) auto

lemma ball_sortedEntries:
  "(\<forall>kv \<in> set (sortedEntries kvs). P kv) \<longleftrightarrow> (\<forall>kv \<in> set kvs. snd kv = JUndefined \<or> P kv)"
  unfolding Ball_def sortedEntries_mem by blast

lemma entryText_answers:
  "(\<exists>s. entryText kv = Inr s) \<longleftrightarrow> (\<exists>a. esc (fst kv) = Inr a) \<and> (\<exists>s. canonicalize (snd kv) = Inr s)"
  by (cases kv) (auto simp: entryText_def)

lemma canonicalize_answers: "(\<exists>s. canonicalize v = Inr s) \<longleftrightarrow> lawful v"
proof (induction v rule: lawful.induct)
  case (3 xs)
  have "(\<exists>s. canonicalize (JArr xs) = Inr s) \<longleftrightarrow> (\<forall>x \<in> set xs. \<exists>s. elementText x = Inr s)"
    using traverse_answers[of elementText xs] by (simp add: elementText_def)
  also have "\<dots> \<longleftrightarrow> lawful (JArr xs)"
    using 3 by (fastforce simp: elementText_def split: option.splits)
  finally show ?case .
next
  case (4 kvs)
  have "(\<exists>s. canonicalize (JObj kvs) = Inr s) \<longleftrightarrow> (\<forall>kv \<in> set (sortedEntries kvs). \<exists>s. entryText kv = Inr s)"
    using traverse_answers[of entryText "sortedEntries kvs"] by (simp add: entryText_def)
  also have "\<dots> \<longleftrightarrow> (\<forall>kv \<in> set kvs. snd kv = JUndefined \<or>
      (\<exists>a. esc (fst kv) = Inr a) \<and> (\<exists>s. canonicalize (snd kv) = Inr s))"
    unfolding ball_sortedEntries entryText_answers ..
  also have "\<dots> \<longleftrightarrow> lawful (JObj kvs)"
    using 4 by (auto simp: esc_lawful)
  finally show ?case .
qed (auto simp: esc_lawful split: jnum.splits)

text \<open>The byte law: a value has canonical bytes exactly when every number in it is a safe integer (and not
  negative zero), no string or key has a lone surrogate, and no array element is missing or
  undefined; every other value is refused.\<close>

theorem canonicalBytes_lawful: "(\<exists>b. canonicalBytes v = Inr b) \<longleftrightarrow> lawful v"
  using canonicalize_answers[of v] by (simp add: canonicalBytes_def)

end
