(* ===== verification/Events.thy ===== *)
theory Events
  imports Canonical
begin

text \<open>
  \<open>packages/contracts/src/events.ts\<close> and the payload schemas the ledger reads
  (\<open>booking.ts\<close>, \<open>money.ts\<close>, \<open>comms.ts\<close>, \<open>authority.ts\<close>): the closed catalog of 35 event kinds, the
  envelope every event carries, the cross-field refinements of the envelope, and the typed
  payloads. The envelope is polymorphic in its payload: the hash chain works on the JSON payload,
  the gates and projections on the typed one. A payload kind the schemas leave as a free JSON
  object is \<open>Loose\<close>.
\<close>

section \<open>The catalog\<close>

datatype event_kind =
    QuoteRequested
  | QuotePriced
  | QuoteSent
  | QuoteAccepted
  | QuoteExpired
  | BookingCreated
  | CreditChecked
  | AppointmentSet
  | PickupScheduled
  | DispatchAssigned
  | StopArrived
  | FreightCounted
  | FreightPhotographed
  | DimsCaptured
  | CustodyTransferred
  | SealApplied
  | StopDeparted
  | PositionUpdated
  | ExceptionRaised
  | OsdCaptured
  | PodSigned
  | DeliveryEvidenced
  | InvoiceIssued
  | InvoiceCorrected
  | PaymentReceived
  | SettlementExecuted
  | SplitComputed
  | MessageReceived
  | MessageSent
  | CallTranscribed
  | DocumentAttached
  | ApprovalRequested
  | ApprovalDecided
  | AgentActed
  | AuthorityFlipped

definition EVENT_KINDS :: "event_kind list" where
  "EVENT_KINDS = [QuoteRequested, QuotePriced, QuoteSent, QuoteAccepted, QuoteExpired, BookingCreated,
     CreditChecked, AppointmentSet, PickupScheduled, DispatchAssigned, StopArrived, FreightCounted,
     FreightPhotographed, DimsCaptured, CustodyTransferred, SealApplied, StopDeparted,
     PositionUpdated, ExceptionRaised, OsdCaptured, PodSigned, DeliveryEvidenced, InvoiceIssued,
     InvoiceCorrected, PaymentReceived, SettlementExecuted, SplitComputed, MessageReceived,
     MessageSent, CallTranscribed, DocumentAttached, ApprovalRequested, ApprovalDecided, AgentActed,
     AuthorityFlipped]"

fun kind_name :: "event_kind \<Rightarrow> string" where
  "kind_name QuoteRequested = ''quote.requested''"
| "kind_name QuotePriced = ''quote.priced''"
| "kind_name QuoteSent = ''quote.sent''"
| "kind_name QuoteAccepted = ''quote.accepted''"
| "kind_name QuoteExpired = ''quote.expired''"
| "kind_name BookingCreated = ''booking.created''"
| "kind_name CreditChecked = ''credit.checked''"
| "kind_name AppointmentSet = ''appointment.set''"
| "kind_name PickupScheduled = ''pickup.scheduled''"
| "kind_name DispatchAssigned = ''dispatch.assigned''"
| "kind_name StopArrived = ''stop.arrived''"
| "kind_name FreightCounted = ''freight.counted''"
| "kind_name FreightPhotographed = ''freight.photographed''"
| "kind_name DimsCaptured = ''dims.captured''"
| "kind_name CustodyTransferred = ''custody.transferred''"
| "kind_name SealApplied = ''seal.applied''"
| "kind_name StopDeparted = ''stop.departed''"
| "kind_name PositionUpdated = ''position.updated''"
| "kind_name ExceptionRaised = ''exception.raised''"
| "kind_name OsdCaptured = ''osd.captured''"
| "kind_name PodSigned = ''pod.signed''"
| "kind_name DeliveryEvidenced = ''delivery.evidenced''"
| "kind_name InvoiceIssued = ''invoice.issued''"
| "kind_name InvoiceCorrected = ''invoice.corrected''"
| "kind_name PaymentReceived = ''payment.received''"
| "kind_name SettlementExecuted = ''settlement.executed''"
| "kind_name SplitComputed = ''split.computed''"
| "kind_name MessageReceived = ''message.received''"
| "kind_name MessageSent = ''message.sent''"
| "kind_name CallTranscribed = ''call.transcribed''"
| "kind_name DocumentAttached = ''document.attached''"
| "kind_name ApprovalRequested = ''approval.requested''"
| "kind_name ApprovalDecided = ''approval.decided''"
| "kind_name AgentActed = ''agent.acted''"
| "kind_name AuthorityFlipped = ''authority.flipped''"

datatype visibility = Internal | Counterparty | Public

datatype source = Native | Legacy | Edi | Email

section \<open>The envelope\<close>

record actor =
  act_party :: string
  act_user :: "string option"
  act_device :: "string option"

record evidence_ref =
  er_doc_id :: string
  er_hash :: string

record gate_override =
  ov_by :: string
  ov_reason :: string

record 'p ledger_event =
  ev_id :: string
  stream_id :: string
  shipment_id :: "string option"
  seq :: int
  ts :: int
  recorded_at :: int
  actor :: actor
  party_refs :: "string list"
  evidence :: "evidence_ref list"
  prev_hash :: string
  ev_hash :: "string option"
  sig :: "string option"
  visibility :: visibility
  source :: source
  confidence :: int
  device_id :: "string option"
  device_seq :: "int option"
  captured_ts :: "int option"
  override :: "gate_override option"
  kind :: event_kind
  payload :: 'p

record 'p event_input =
  in_id :: string
  in_shipment_id :: "string option"
  in_ts :: int
  in_actor :: actor
  in_party_refs :: "string list"
  in_evidence :: "evidence_ref list"
  in_sig :: "string option"
  in_source :: source
  in_confidence :: int
  in_device_id :: "string option"
  in_device_seq :: "int option"
  in_captured_ts :: "int option"
  requested_visibility :: "visibility option"
  in_override :: "gate_override option"
  in_kind :: event_kind
  in_payload :: 'p

text \<open>\<open>s.trim().length > 0\<close>.\<close>

definition nonblank :: "string \<Rightarrow> bool" where
  "nonblank s = list_ex (\<lambda>c. \<not> isWhitespace c) s"

definition EventOverride_ok :: "gate_override \<Rightarrow> bool" where
  "EventOverride_ok o' = (nonblank (ov_by o') \<and> nonblank (ov_reason o'))"

definition Hash64 :: "string \<Rightarrow> bool" where
  "Hash64 s = (length s = 64 \<and> list_all (\<lambda>c. c \<in> set ''0123456789abcdef'') s)"

datatype refine_issue = DeviceSeqRequired | DeviceIdNotActor | SigRequired | CustodyUnwitnessed

text \<open>The \<open>superRefine\<close> shared by \<open>LedgerEvent\<close> and \<open>EventInput\<close>; \<open>unwitnessed\<close> reads the payload flag.\<close>

definition superRefine ::
  "string option \<Rightarrow> int option \<Rightarrow> actor \<Rightarrow> string option \<Rightarrow> event_kind \<Rightarrow> bool \<Rightarrow> refine_issue list" where
  "superRefine deviceId deviceSeq act sg k unwitnessed =
     (if deviceId \<noteq> None \<and> deviceSeq = None then [DeviceSeqRequired] else []) @
     (if deviceId \<noteq> None then
        (if act_device act = None \<or> act_device act \<noteq> deviceId then [DeviceIdNotActor] else []) @
        (if sg = None then [SigRequired] else [])
      else []) @
     (if k = CustodyTransferred \<or> k = PodSigned then
        (if act_device act = None \<and> \<not> unwitnessed then [CustodyUnwitnessed] else [])
      else [])"

section \<open>Payloads\<close>

record geo_stamp =
  lat_e6 :: int
  lon_e6 :: int
  accuracy_m :: "int option"

datatype credit_status = Clear | Hold | Review

record credit_checked =
  cc_party_id :: string
  cc_status :: credit_status
  cc_limit_cents :: "int option"
  cc_decided_by :: "string option"
  cc_ref :: "string option"

record booking_created =
  bk_quote_event_id :: string
  bk_shipper_party_id :: string
  bk_consignee_party_id :: string
  bk_bill_to_party_id :: string
  bk_division :: string
  bk_mode :: "string option"
  bk_service :: "string option"
  bk_bill_terms :: "string option"
  evidence_contact_opt_out :: "bool option"
  bk_hazmat :: "bool option"

datatype stop_kind = PickupStop | DeliveryStop

record appointment_set =
  ap_leg_kind :: stop_kind
  ap_facility_id :: string
  ap_slot_key :: string
  ap_window_start_ts :: int
  ap_window_end_ts :: int
  ap_reschedule_of :: "string option"

record custody_transferred =
  from_party :: string
  to_party :: string
  ct_geo :: "geo_stamp option"
  ct_cosig :: "string option"
  ct_unwitnessed :: bool

datatype photo_kind = FreightPhoto | PlacedPhoto

datatype money_line_kind = Freight | Fsc | Accessorial | CodCollect | CreditPurchase

record invoice_line =
  line_no :: int
  il_kind :: money_line_kind
  il_amount_cents :: int
  gl_map :: string

record invoice_issued =
  ii_invoice_id :: string
  ii_party_id :: string
  ii_division :: string
  ii_lines :: "invoice_line list"

record invoice_corrected =
  ic_invoice_id :: string
  corrects_event_id :: string
  ic_reason :: string
  reissue_lines :: "invoice_line list"

record split_allocation =
  sa_party_id :: string
  sa_share_bps :: int

record split_computed =
  sc_total_cents :: int
  sc_allocations :: "split_allocation list"

datatype authority_module = Rating | Invoicing | Dispatch | Settlement | Comms

datatype authority_level = NativeLevel | LegacyLevel

record authority_flipped =
  af_module :: authority_module
  af_from :: authority_level
  af_to :: authority_level
  af_reason :: string
  af_gate_snapshot :: "jvalue option"
  af_drift_ref :: "string option"

datatype payload =
    QuoteAcceptedP (qa_quote_event_id: string)
  | BookingCreatedP booking_created
  | CreditCheckedP credit_checked
  | AppointmentSetP appointment_set
  | StopArrivedP (sa_geo: geo_stamp) bool
  | StopDepartedP (sd_geo: geo_stamp) bool "bool option"
  | FreightCountedP int "int option"
  | FreightPhotographedP string photo_kind
  | CustodyTransferredP custody_transferred
  | SealAppliedP string string
  | PositionUpdatedP (pu_geo: geo_stamp) "int option"
  | OsdCapturedP string string "string option"
  | PodSignedP string geo_stamp bool
  | DeliveryEvidencedP string geo_stamp
  | InvoiceIssuedP invoice_issued
  | InvoiceCorrectedP invoice_corrected
  | SplitComputedP split_computed
  | AuthorityFlippedP authority_flipped
  | Loose jvalue

text \<open>The schemas of the money payloads (\<open>money.ts\<close>).\<close>

definition CENTS_MAX :: int where "CENTS_MAX = 999999999999"

definition InvoiceLine_ok :: "invoice_line \<Rightarrow> bool" where
  "InvoiceLine_ok l = (1 \<le> line_no l \<and> 1 \<le> il_amount_cents l \<and> il_amount_cents l \<le> CENTS_MAX \<and> gl_map l \<noteq> [])"

definition InvoiceIssued_ok :: "invoice_issued \<Rightarrow> bool" where
  "InvoiceIssued_ok p = (ii_invoice_id p \<noteq> [] \<and> ii_party_id p \<noteq> [] \<and> ii_division p \<noteq> [] \<and>
     ii_lines p \<noteq> [] \<and> list_all InvoiceLine_ok (ii_lines p))"

definition InvoiceCorrected_ok :: "invoice_corrected \<Rightarrow> bool" where
  "InvoiceCorrected_ok p = (ic_invoice_id p \<noteq> [] \<and> corrects_event_id p \<noteq> [] \<and> ic_reason p \<noteq> [] \<and>
     length (ic_reason p) \<le> 2048 \<and> list_all InvoiceLine_ok (reissue_lines p))"

definition SplitComputed_ok :: "split_computed \<Rightarrow> bool" where
  "SplitComputed_ok p = (0 \<le> sc_total_cents p \<and> sc_total_cents p \<le> CENTS_MAX \<and> sc_allocations p \<noteq> [] \<and>
     list_all (\<lambda>a. sa_party_id a \<noteq> [] \<and> 0 \<le> sa_share_bps a \<and> sa_share_bps a \<le> 10000) (sc_allocations p) \<and>
     sum_list (map sa_share_bps (sc_allocations p)) = 10000)"

section \<open>Lemmas\<close>

lemma EVENT_KINDS_complete: "k \<in> set EVENT_KINDS"
  by (cases k) (simp_all add: EVENT_KINDS_def)

lemma EVENT_KINDS_count: "length EVENT_KINDS = 35"
  by (simp add: EVENT_KINDS_def)

lemma jlit_inject [simp]: "jlit s = jlit t \<longleftrightarrow> s = t"
proof -
  have "inj (of_char :: char \<Rightarrow> nat)"
    by (simp add: inj_of_char)
  then show ?thesis
    unfolding jlit_def by (simp add: inj_map_eq_map)
qed

lemma superRefine_device:
  assumes "superRefine (Some d) n act sg k u = []"
  shows "n \<noteq> None \<and> act_device act = Some d \<and> sg \<noteq> None"
  using assms by (auto simp: superRefine_def split: if_splits)

end
