(* ===== verification/Chain.thy ===== *)
theory Chain
  imports Events
begin

text \<open>
  \<open>packages/ledger/src/chain.ts\<close> and the signed view of \<open>sign.ts\<close>. SHA-256 is the parameter \<open>sha\<close>. The
  hash view is the envelope without \<open>sig\<close> and \<open>hash\<close> as a JSON object; an absent optional field
  is \<open>undefined\<close> and is dropped by the byte law. A chain that verifies pins its whole history: the
  head determines every event up to the order of payload keys.
\<close>

section \<open>The hash view\<close>

definition jtext :: "string \<Rightarrow> jvalue" where
  "jtext s = JStr (jlit s)"

definition jint :: "int \<Rightarrow> jvalue" where
  "jint i = JNum (JInt i)"

definition jopt :: "('a \<Rightarrow> jvalue) \<Rightarrow> 'a option \<Rightarrow> jvalue" where
  "jopt f x = (case x of None \<Rightarrow> JUndefined | Some a \<Rightarrow> f a)"

definition jlist :: "('a \<Rightarrow> jvalue) \<Rightarrow> 'a list \<Rightarrow> jvalue" where
  "jlist f xs = JArr (map (\<lambda>x. Some (f x)) xs)"

definition actor_json :: "actor \<Rightarrow> jvalue" where
  "actor_json a = JObj [(jlit ''party'', jtext (act_party a)), (jlit ''user'', jopt jtext (act_user a)),
     (jlit ''device'', jopt jtext (act_device a))]"

definition evidence_json :: "evidence_ref \<Rightarrow> jvalue" where
  "evidence_json r = JObj [(jlit ''doc_id'', jtext (er_doc_id r)), (jlit ''hash'', jtext (er_hash r))]"

definition override_json :: "gate_override \<Rightarrow> jvalue" where
  "override_json r = JObj [(jlit ''by'', jtext (ov_by r)), (jlit ''reason'', jtext (ov_reason r))]"

fun visibility_name :: "visibility \<Rightarrow> string" where
  "visibility_name Internal = ''internal''"
| "visibility_name Counterparty = ''counterparty''"
| "visibility_name Public = ''public''"

fun source_name :: "source \<Rightarrow> string" where
  "source_name Native = ''native''"
| "source_name Legacy = ''legacy''"
| "source_name Edi = ''edi''"
| "source_name Email = ''email''"

definition view_fields :: "jvalue ledger_event \<Rightarrow> (string \<times> jvalue) list" where
  "view_fields e =
     [(''id'', jtext (ev_id e)), (''stream_id'', jtext (stream_id e)),
      (''shipment_id'', jopt jtext (shipment_id e)), (''seq'', jint (seq e)), (''ts'', jint (ts e)),
      (''recorded_at'', jint (recorded_at e)), (''actor'', actor_json (actor e)),
      (''party_refs'', jlist jtext (party_refs e)), (''evidence'', jlist evidence_json (evidence e)),
      (''prev_hash'', jtext (prev_hash e)), (''visibility'', jtext (visibility_name (visibility e))),
      (''source'', jtext (source_name (source e))), (''confidence'', jint (confidence e)),
      (''device_id'', jopt jtext (device_id e)), (''device_seq'', jopt jint (device_seq e)),
      (''captured_ts'', jopt jint (captured_ts e)), (''override'', jopt override_json (override e)),
      (''kind'', jtext (kind_name (kind e))), (''payload'', payload e)]"

definition hashView :: "jvalue ledger_event \<Rightarrow> jvalue" where
  "hashView e = JObj (map (\<lambda>(k, v). (jlit k, v)) (view_fields e))"

definition hashEvent :: "(bytes \<Rightarrow> bytes) \<Rightarrow> jvalue ledger_event \<Rightarrow> canon_error + string" where
  "hashEvent sha e = ebind (canonicalBytes (hashView e)) (\<lambda>bs. Inr (sha256Hex sha bs))"

definition GENESIS_HASH :: string where
  "GENESIS_HASH = replicate 64 (CHR ''0'')"

section \<open>Building and verifying\<close>

fun buildFrom ::
  "(bytes \<Rightarrow> bytes) \<Rightarrow> int \<Rightarrow> string \<Rightarrow> jvalue ledger_event list \<Rightarrow> canon_error + jvalue ledger_event list" where
  "buildFrom sha i prev [] = Inr []"
| "buildFrom sha i prev (e # es) =
     (let withLinks = e \<lparr> seq := i, prev_hash := prev \<rparr> in
      ebind (hashEvent sha withLinks) (\<lambda>h.
      ebind (buildFrom sha (i + 1) h es) (\<lambda>out. Inr (withLinks \<lparr> ev_hash := Some h \<rparr> # out))))"

definition buildChain :: "(bytes \<Rightarrow> bytes) \<Rightarrow> jvalue ledger_event list \<Rightarrow> canon_error + jvalue ledger_event list" where
  "buildChain sha events = buildFrom sha 0 GENESIS_HASH events"

datatype chain_failure = PrevHashMismatch | SeqGap | BadGenesis | HashMismatch

datatype chain_result =
    ChainOk string nat
  | ChainFailed int chain_failure

fun verifyFrom ::
  "(bytes \<Rightarrow> bytes) \<Rightarrow> int \<Rightarrow> string \<Rightarrow> nat \<Rightarrow> jvalue ledger_event list \<Rightarrow> canon_error + chain_result" where
  "verifyFrom sha expectedSeq expectedPrev n [] = Inr (ChainOk expectedPrev n)"
| "verifyFrom sha expectedSeq expectedPrev n (e # es) =
     (if seq e \<noteq> expectedSeq then Inr (ChainFailed (seq e) SeqGap)
      else if prev_hash e \<noteq> expectedPrev
      then Inr (ChainFailed (seq e) (if seq e = 0 then BadGenesis else PrevHashMismatch))
      else ebind (hashEvent sha e) (\<lambda>recomputed.
        if ev_hash e \<noteq> None \<and> ev_hash e \<noteq> Some recomputed then Inr (ChainFailed (seq e) HashMismatch)
        else verifyFrom sha (expectedSeq + 1) recomputed (n + 1) es))"

definition verifyChain ::
  "(bytes \<Rightarrow> bytes) \<Rightarrow> jvalue ledger_event list \<Rightarrow> int option \<Rightarrow> string option \<Rightarrow> canon_error + chain_result"
where
  "verifyChain sha events fromSeq trustedPrevHash =
     verifyFrom sha (case fromSeq of None \<Rightarrow> 0 | Some s \<Rightarrow> s)
       (case trustedPrevHash of None \<Rightarrow> GENESIS_HASH | Some h \<Rightarrow> h) 0 events"

section \<open>The signed view (\<open>sign.ts\<close>)\<close>

definition clientView :: "jvalue ledger_event \<Rightarrow> jvalue" where
  "clientView e = JObj
     [(jlit ''id'', jtext (ev_id e)), (jlit ''shipment_id'', jopt jtext (shipment_id e)),
      (jlit ''kind'', jtext (kind_name (kind e))), (jlit ''payload'', payload e),
      (jlit ''evidence'', jlist evidence_json (evidence e)), (jlit ''actor'', actor_json (actor e)),
      (jlit ''ts'', jint (ts e)), (jlit ''device_id'', jopt jtext (device_id e)),
      (jlit ''device_seq'', jopt jint (device_seq e)), (jlit ''captured_ts'', jopt jint (captured_ts e))]"

definition b64url :: "char \<Rightarrow> bool" where
  "b64url c = (let n = of_char c :: nat in
     (65 \<le> n \<and> n \<le> 90) \<or> (97 \<le> n \<and> n \<le> 122) \<or> (48 \<le> n \<and> n \<le> 57) \<or> n = 95 \<or> n = 45)"

text \<open>\<open>verify\<close> stands for WebCrypto's decode, import and verify under the device key; \<open>None\<close> is any of them
  throwing.\<close>

definition verifyEventSig :: "(string \<Rightarrow> bytes \<Rightarrow> bool option) \<Rightarrow> jvalue ledger_event \<Rightarrow> bool" where
  "verifyEventSig verify e =
     (case sig e of
        None \<Rightarrow> False
      | Some s \<Rightarrow>
          if s = [] \<or> \<not> list_all b64url s then False
          else case canonicalBytes (clientView e) of
              Inl _ \<Rightarrow> False
            | Inr bs \<Rightarrow> (case verify s bs of None \<Rightarrow> False | Some ok \<Rightarrow> ok))"

section \<open>A built chain verifies\<close>

lemma hashEvent_ignores_hash: "hashEvent sha (e \<lparr> ev_hash := h \<rparr>) = hashEvent sha e"
  by (simp add: hashEvent_def hashView_def view_fields_def)

lemma buildFrom_verifies:
  assumes "buildFrom sha i prev es = Inr out"
  shows "\<exists>head. verifyFrom sha i prev n out = Inr (ChainOk head (n + length es))"
  using assms
proof (induction es arbitrary: i prev n out)
  case (Cons e es)
  let ?e = "e \<lparr> seq := i, prev_hash := prev \<rparr>"
  obtain h rest where h: "hashEvent sha ?e = Inr h" "buildFrom sha (i + 1) h es = Inr rest"
    "out = ?e \<lparr> ev_hash := Some h \<rparr> # rest"
    using Cons.prems by (auto simp: Let_def)
  have "hashEvent sha (?e \<lparr> ev_hash := Some h \<rparr>) = Inr h"
    using h(1) by (simp only: hashEvent_ignores_hash)
  then show ?case
    using Cons.IH[OF h(2), of "n + 1"] h(3) by simp
qed simp

section \<open>The head pins the history\<close>

lemma verifyFrom_snoc:
  "verifyFrom sha s p n (es @ [e]) = Inr (ChainOk head m) \<longleftrightarrow>
     (\<exists>h. verifyFrom sha s p n es = Inr (ChainOk h (m - 1)) \<and> m = n + length es + 1 \<and>
        seq e = s + int (length es) \<and> prev_hash e = h \<and> hashEvent sha e = Inr head \<and>
        (ev_hash e = None \<or> ev_hash e = Some head))"
proof (induction es arbitrary: s p n)
  case Nil
  show ?case
    by (cases "hashEvent sha e") auto
next
  case (Cons a es)
  show ?case
  proof (cases "seq a = s \<and> prev_hash a = p")
    case True
    then show ?thesis
      using Cons.IH by (cases "hashEvent sha a") (auto simp: algebra_simps)
  qed auto
qed

lemma verifyFrom_count:
  "verifyFrom sha s p n es = Inr (ChainOk head m) \<Longrightarrow> m = n + length es"
proof (induction es arbitrary: s p n)
  case (Cons a es)
  then show ?case
    by (cases "hashEvent sha a") (fastforce split: if_splits)+
qed simp

lemma map_of_normal:
  assumes "distinct (map fst kvs)"
  shows "map_of (map (\<lambda>(k, v). (k, normal v)) (sortedEntries kvs)) k =
    (case map_of kvs k of None \<Rightarrow> None | Some v \<Rightarrow> if v = JUndefined then None else Some (normal v))"
proof -
  have "map fst (sortedEntries kvs) = map fst (sortedEntries kvs)" ..
  have "distinct (map fst (filter (\<lambda>kv. snd kv \<noteq> JUndefined) kvs))"
    using assms by (simp add: distinct_map_filter)
  then have dist: "distinct (map fst (sortedEntries kvs))"
    unfolding sortedEntries_def by (metis distinct_map distinct_sort set_sort)
  have "map_of (sortedEntries kvs) k =
      (case map_of kvs k of None \<Rightarrow> None | Some v \<Rightarrow> if v = JUndefined then None else Some v)"
  proof (cases "map_of kvs k")
    case None
    then have "map_of (sortedEntries kvs) k = None"
      by (auto simp: map_of_eq_None_iff sortedEntries_mem)
    then show ?thesis
      using None by simp
  next
    case (Some v)
    then have mem: "(k, v) \<in> set kvs"
      by (rule map_of_SomeD)
    show ?thesis
    proof (cases "v = JUndefined")
      case True
      have "k \<notin> fst ` set (sortedEntries kvs)"
        using mem True assms by (auto simp: sortedEntries_mem dest: eq_key_imp_eq_value)
      then show ?thesis
        using Some True by (simp add: map_of_eq_None_iff)
    next
      case False
      then have "(k, v) \<in> set (sortedEntries kvs)"
        using mem by (simp add: sortedEntries_mem)
      then show ?thesis
        using dist Some False by simp
    qed
  qed
  moreover have "map_of (map (\<lambda>(k, v). (k, normal v)) l) k = map_option normal (map_of l k)" for l
    by (induction l) auto
  ultimately show ?thesis
    by (auto split: option.splits)
qed

definition agree :: "jvalue \<Rightarrow> jvalue \<Rightarrow> bool" where
  "agree v w = (v = JUndefined \<and> w = JUndefined \<or> v \<noteq> JUndefined \<and> w \<noteq> JUndefined \<and> normal v = normal w)"

lemma normal_object_field:
  assumes "normal (JObj (map (\<lambda>(k, v). (jlit k, v)) kvs)) = normal (JObj (map (\<lambda>(k, v). (jlit k, v)) lvs))"
    and "distinct (map fst kvs)" "distinct (map fst lvs)"
    and "map_of kvs k = Some v" "map_of lvs k = Some w"
  shows "agree v w"
proof -
  have inj: "inj jlit"
    by (rule injI) simp
  have keys: "map fst (map (\<lambda>(k, v). (jlit k, v)) l) = map jlit (map fst l)" for l :: "(string \<times> jvalue) list"
    by auto
  have dist: "distinct (map fst (map (\<lambda>(k, v). (jlit k, v)) l))" if "distinct (map fst l)"
    for l :: "(string \<times> jvalue) list"
    unfolding keys by (rule distinct_map[THEN iffD2]) (use that inj in \<open>auto intro: inj_on_subset\<close>)
  have look: "map_of (map (\<lambda>(k, v). (jlit k, v)) l) (jlit k) = map_of l k" for l :: "(string \<times> jvalue) list"
    by (induction l) auto
  have "map_of (map (\<lambda>(k, v). (k, normal v)) (sortedEntries (map (\<lambda>(k, v). (jlit k, v)) kvs))) (jlit k) =
      map_of (map (\<lambda>(k, v). (k, normal v)) (sortedEntries (map (\<lambda>(k, v). (jlit k, v)) lvs))) (jlit k)"
    using assms(1) by (simp only: normal.simps jvalue.inject)
  then show ?thesis
    unfolding map_of_normal[OF dist[OF assms(2)]] map_of_normal[OF dist[OF assms(3)]] look assms(4,5)
    by (auto simp: agree_def split: if_splits)
qed

lemma normal_text [simp]: "normal (jtext s) = jtext s" "jtext s = jtext t \<longleftrightarrow> s = t" "jtext s \<noteq> JUndefined"
  by (simp_all add: jtext_def)

lemma normal_int [simp]: "normal (jint i) = jint i" "jint i = jint j \<longleftrightarrow> i = j" "jint i \<noteq> JUndefined"
  by (simp_all add: jint_def)

text \<open>An encoder whose values survive normalisation.\<close>

definition faithful :: "('a \<Rightarrow> jvalue) \<Rightarrow> bool" where
  "faithful f = (\<forall>x y. f x \<noteq> JUndefined \<and> (normal (f x) = normal (f y) \<longrightarrow> x = y))"

lemma faithfulD: "faithful f \<Longrightarrow> normal (f x) = normal (f y) \<Longrightarrow> x = y"
  by (simp add: faithful_def)

lemma faithful_text: "faithful jtext"
  by (simp add: faithful_def)

lemma faithful_int: "faithful jint"
  by (simp add: faithful_def)

lemma faithful_list:
  assumes "faithful f"
  shows "faithful (jlist f)"
proof -
  have "xs = ys" if "map (\<lambda>x. normal (f x)) xs = map (\<lambda>x. normal (f x)) ys" for xs ys
    using that
  proof (induction xs arbitrary: ys)
    case (Cons x xs)
    then show ?case
      using faithfulD[OF assms] by (cases ys) auto
  qed simp
  moreover have norm: "normal (jlist f xs) = JArr (map Some (map (\<lambda>x. normal (f x)) xs))" for xs
    by (simp add: jlist_def comp_def)
  moreover have "map Some a = map Some b \<longleftrightarrow> a = b" for a b :: "jvalue list"
    by (simp add: inj_map_eq_map)
  ultimately show ?thesis
    unfolding faithful_def norm jvalue.inject by (simp add: jlist_def del: map_map)
qed

lemma opt_field:
  assumes "faithful f" "agree (jopt f x) (jopt f y)"
  shows "x = y"
  using assms by (cases x; cases y) (auto simp: jopt_def faithful_def agree_def)

lemma plain_field:
  assumes "faithful f" "agree (f x) (f y)"
  shows "x = y"
  using assms by (auto simp: faithful_def agree_def)

lemma literal_fields: "JObj [(jlit a, v), (jlit b, w)] = JObj (map (\<lambda>(k, v). (jlit k, v)) [(a, v), (b, w)])"
  "JObj [(jlit a, v), (jlit b, w), (jlit c, x)] =
   JObj (map (\<lambda>(k, v). (jlit k, v)) [(a, v), (b, w), (c, x)])"
  by simp_all

lemma faithful_evidence: "faithful evidence_json"
proof -
  have "r = q" if "normal (evidence_json r) = normal (evidence_json q)" for r q
  proof -
    note f = normal_object_field[OF that[unfolded evidence_json_def literal_fields]]
    have "er_doc_id r = er_doc_id q"
      by (rule plain_field[OF faithful_text], rule f[of "''doc_id''"]) simp_all
    moreover have "er_hash r = er_hash q"
      by (rule plain_field[OF faithful_text], rule f[of "''hash''"]) simp_all
    ultimately show ?thesis
      by simp
  qed
  then show ?thesis
    by (auto simp: faithful_def evidence_json_def)
qed

lemma faithful_override: "faithful override_json"
proof -
  have "r = q" if "normal (override_json r) = normal (override_json q)" for r q
  proof -
    note f = normal_object_field[OF that[unfolded override_json_def literal_fields]]
    have "ov_by r = ov_by q"
      by (rule plain_field[OF faithful_text], rule f[of "''by''"]) simp_all
    moreover have "ov_reason r = ov_reason q"
      by (rule plain_field[OF faithful_text], rule f[of "''reason''"]) simp_all
    ultimately show ?thesis
      by simp
  qed
  then show ?thesis
    by (auto simp: faithful_def override_json_def)
qed

lemma faithful_actor: "faithful actor_json"
proof -
  have "r = q" if "normal (actor_json r) = normal (actor_json q)" for r q
  proof -
    note f = normal_object_field[OF that[unfolded actor_json_def literal_fields]]
    have "act_party r = act_party q"
      by (rule plain_field[OF faithful_text], rule f[of "''party''"]) simp_all
    moreover have "act_user r = act_user q"
      by (rule opt_field[OF faithful_text], rule f[of "''user''"]) simp_all
    moreover have "act_device r = act_device q"
      by (rule opt_field[OF faithful_text], rule f[of "''device''"]) simp_all
    ultimately show ?thesis
      by simp
  qed
  then show ?thesis
    by (auto simp: faithful_def actor_json_def)
qed

lemma kind_name_inject: "kind_name a = kind_name b \<longleftrightarrow> a = b"
proof -
  have "distinct (map kind_name EVENT_KINDS)"
    by (simp add: EVENT_KINDS_def)
  then have "inj_on kind_name (set EVENT_KINDS)"
    by (simp add: distinct_map)
  then show ?thesis
    using EVENT_KINDS_complete by (auto dest: inj_onD)
qed

lemma visibility_name_inject: "visibility_name a = visibility_name b \<longleftrightarrow> a = b"
  by (cases a; cases b) simp_all

lemma source_name_inject: "source_name a = source_name b \<longleftrightarrow> a = b"
  by (cases a; cases b) simp_all

text \<open>The same event, up to the order of keys inside the payload.\<close>

definition same_event :: "jvalue ledger_event \<Rightarrow> jvalue ledger_event \<Rightarrow> bool" where
  "same_event e f =
     (ev_id e = ev_id f \<and> stream_id e = stream_id f \<and> shipment_id e = shipment_id f \<and> seq e = seq f \<and>
      ts e = ts f \<and> recorded_at e = recorded_at f \<and> actor e = actor f \<and> party_refs e = party_refs f \<and>
      evidence e = evidence f \<and> prev_hash e = prev_hash f \<and> visibility e = visibility f \<and>
      source e = source f \<and> confidence e = confidence f \<and> device_id e = device_id f \<and>
      device_seq e = device_seq f \<and> captured_ts e = captured_ts f \<and> override e = override f \<and>
      kind e = kind f \<and> normal (payload e) = normal (payload f))"

lemma hashView_inject:
  assumes "normal (hashView e) = normal (hashView f)"
  shows "same_event e f"
proof -
  have dist: "distinct (map fst (view_fields e))" for e
    by (simp add: view_fields_def)
  note f = normal_object_field[OF assms[unfolded hashView_def] dist dist]
  have ev_id: "ev_id e = ev_id f"
    by (rule plain_field[OF faithful_text], rule f[of "''id''"]) (simp_all add: view_fields_def)
  have stream_id: "stream_id e = stream_id f"
    by (rule plain_field[OF faithful_text], rule f[of "''stream_id''"]) (simp_all add: view_fields_def)
  have prev_hash: "prev_hash e = prev_hash f"
    by (rule plain_field[OF faithful_text], rule f[of "''prev_hash''"]) (simp_all add: view_fields_def)
  have seq: "seq e = seq f"
    by (rule plain_field[OF faithful_int], rule f[of "''seq''"]) (simp_all add: view_fields_def)
  have ts: "ts e = ts f"
    by (rule plain_field[OF faithful_int], rule f[of "''ts''"]) (simp_all add: view_fields_def)
  have recorded_at: "recorded_at e = recorded_at f"
    by (rule plain_field[OF faithful_int], rule f[of "''recorded_at''"]) (simp_all add: view_fields_def)
  have confidence: "confidence e = confidence f"
    by (rule plain_field[OF faithful_int], rule f[of "''confidence''"]) (simp_all add: view_fields_def)
  have "visibility_name (visibility e) = visibility_name (visibility f)"
    by (rule plain_field[OF faithful_text], rule f[of "''visibility''"]) (simp_all add: view_fields_def)
  then have visibility: "visibility e = visibility f"
    by (simp add: visibility_name_inject)
  have "source_name (source e) = source_name (source f)"
    by (rule plain_field[OF faithful_text], rule f[of "''source''"]) (simp_all add: view_fields_def)
  then have source: "source e = source f"
    by (simp add: source_name_inject)
  have "kind_name (kind e) = kind_name (kind f)"
    by (rule plain_field[OF faithful_text], rule f[of "''kind''"]) (simp_all add: view_fields_def)
  then have kind: "kind e = kind f"
    by (simp add: kind_name_inject)
  have shipment_id: "shipment_id e = shipment_id f"
    by (rule opt_field[OF faithful_text], rule f[of "''shipment_id''"]) (simp_all add: view_fields_def)
  have device_id: "device_id e = device_id f"
    by (rule opt_field[OF faithful_text], rule f[of "''device_id''"]) (simp_all add: view_fields_def)
  have device_seq: "device_seq e = device_seq f"
    by (rule opt_field[OF faithful_int], rule f[of "''device_seq''"]) (simp_all add: view_fields_def)
  have captured_ts: "captured_ts e = captured_ts f"
    by (rule opt_field[OF faithful_int], rule f[of "''captured_ts''"]) (simp_all add: view_fields_def)
  have override: "override e = override f"
    by (rule opt_field[OF faithful_override], rule f[of "''override''"]) (simp_all add: view_fields_def)
  have actor: "actor e = actor f"
    by (rule plain_field[OF faithful_actor], rule f[of "''actor''"]) (simp_all add: view_fields_def)
  have party_refs: "party_refs e = party_refs f"
    by (rule plain_field[OF faithful_list[OF faithful_text]], rule f[of "''party_refs''"]) (simp_all add: view_fields_def)
  have evidence: "evidence e = evidence f"
    by (rule plain_field[OF faithful_list[OF faithful_evidence]], rule f[of "''evidence''"]) (simp_all add: view_fields_def)
  have "agree (payload e) (payload f)"
    by (rule f[of "''payload''"]) (simp_all add: view_fields_def)
  then have "normal (payload e) = normal (payload f)"
    by (auto simp: agree_def)
  then show ?thesis
    unfolding same_event_def
    using ev_id stream_id prev_hash seq ts recorded_at confidence visibility source kind shipment_id
      device_id device_seq captured_ts override actor party_refs evidence by blast
qed

section \<open>Properties\<close>

lemma jlit_less: "c \<in> set (jlit s) \<Longrightarrow> c < 256"
proof -
  have "(of_char x :: nat) < 256" for x
    using nat_of_char_less_256 by blast
  then show "c \<in> set (jlit s) \<Longrightarrow> c < 256"
    by (auto simp: jlit_def)
qed

lemma unicode_text: "unicode (jtext s)"
  using jlit_less by (fastforce simp: jtext_def)

lemma unicode_opt: "(\<And>x. unicode (f x)) \<Longrightarrow> unicode (jopt f y)"
  by (cases y) (simp_all add: jopt_def)

lemma unicode_list: "(\<And>x. unicode (f x)) \<Longrightarrow> unicode (jlist f xs)"
  by (auto simp: jlist_def)

lemma unicode_object:
  assumes "\<forall>(k, v) \<in> set kvs. unicode v"
  shows "unicode (JObj (map (\<lambda>(k, v). (jlit k, v)) kvs))"
proof -
  have "c < 0x110000" if "c \<in> set (jlit s)" for c s
    using jlit_less[OF that] by simp
  then show ?thesis
    using assms by fastforce
qed

lemma unicode_components:
  "unicode (actor_json a)" "unicode (evidence_json r)" "unicode (override_json q)"
  unfolding actor_json_def evidence_json_def override_json_def literal_fields
  by (rule unicode_object; simp add: unicode_text unicode_opt)+

lemma unicode_hashView:
  assumes "unicode (payload e)"
  shows "unicode (hashView e)"
  unfolding hashView_def
  by (rule unicode_object)
     (simp add: view_fields_def assms unicode_text unicode_opt unicode_list unicode_components jint_def)

lemma sha256Hex_inject: "sha256Hex sha a = sha256Hex sha b \<Longrightarrow> sha a = sha b"
  unfolding sha256Hex_def by (metis hexToBytes_bytesToHex sum.inject(2))

definition hashed :: "jvalue ledger_event list \<Rightarrow> bytes set" where
  "hashed es = {b. \<exists>e \<in> set es. canonicalBytes (hashView e) = Inr b}"

lemma hashEvent_same:
  assumes "hashEvent sha e = Inr h" "hashEvent sha f = Inr h" "unicode (payload e)" "unicode (payload f)"
    and "inj_on sha S" "\<And>b. canonicalBytes (hashView e) = Inr b \<Longrightarrow> b \<in> S"
      "\<And>b. canonicalBytes (hashView f) = Inr b \<Longrightarrow> b \<in> S"
  shows "same_event e f"
proof -
  obtain a b where ab: "canonicalBytes (hashView e) = Inr a" "canonicalBytes (hashView f) = Inr b"
    "sha256Hex sha a = sha256Hex sha b"
    using assms(1,2) by (auto simp: hashEvent_def)
  then have "a = b"
    using inj_onD[OF assms(5), of a b] sha256Hex_inject[of sha a b] assms(6,7) by blast
  then show ?thesis
    using hashView_inject canonicalBytes_normal ab(1,2) unicode_hashView assms(3,4) by blast
qed

lemma head_pins:
  assumes "verifyFrom sha s p 0 es = Inr (ChainOk h n)" "verifyFrom sha s p 0 fs = Inr (ChainOk h m)"
    and "es \<noteq> []" "fs \<noteq> []" "\<forall>e \<in> set es \<union> set fs. unicode (payload e)"
    and "inj_on sha S" "hashed es \<union> hashed fs \<subseteq> S"
  shows "length es = length fs \<and> list_all2 same_event es fs"
  using assms(1-5,7)
proof (induction es arbitrary: fs h n m rule: rev_induct)
  case (snoc e es)
  obtain f gs where fs: "fs = gs @ [f]"
    using snoc.prems(4) by (metis rev_exhaust)
  obtain h1 where e: "verifyFrom sha s p 0 es = Inr (ChainOk h1 (n - 1))" "seq e = s + int (length es)"
    "prev_hash e = h1" "hashEvent sha e = Inr h"
    using snoc.prems(1) by (auto simp: verifyFrom_snoc)
  obtain h2 where f: "verifyFrom sha s p 0 gs = Inr (ChainOk h2 (m - 1))" "seq f = s + int (length gs)"
    "prev_hash f = h2" "hashEvent sha f = Inr h"
    using snoc.prems(2) unfolding fs by (auto simp: verifyFrom_snoc)
  have mem: "hashed (es @ [e]) \<subseteq> S" "hashed (gs @ [f]) \<subseteq> S"
    using snoc.prems(6) unfolding fs by auto
  have same: "same_event e f"
    by (rule hashEvent_same[OF e(4) f(4) _ _ assms(6)])
       (use snoc.prems(5) mem fs in \<open>auto simp: hashed_def\<close>)
  then have len: "length es = length gs" and "h1 = h2"
    using e(2,3) f(2,3) by (auto simp: same_event_def)
  show ?case
  proof (cases "es = []")
    case True
    then show ?thesis
      using len same fs by simp
  next
    case False
    have "length es = length gs \<and> list_all2 same_event es gs"
    proof (rule snoc.IH[OF e(1)])
      show "verifyFrom sha s p 0 gs = Inr (ChainOk h1 (m - 1))"
        using f(1) \<open>h1 = h2\<close> by simp
      show "hashed es \<union> hashed gs \<subseteq> S"
        using mem by (auto simp: hashed_def)
    qed (use False len snoc.prems(5) fs in auto)
    then show ?thesis
      using same fs by (auto simp: list_all2_appendI)
  qed
qed simp

text \<open>A chain that is built from any list of events verifies from genesis, with the number of events as
  its count.\<close>

theorem buildChain_verifies:
  assumes "buildChain sha events = Inr chain"
  shows "\<exists>head. verifyChain sha chain None None = Inr (ChainOk head (length events))"
  using buildFrom_verifies[of sha 0 GENESIS_HASH events chain 0] assms
  by (simp add: buildChain_def verifyChain_def)

definition sample_event :: "jvalue ledger_event" where
  "sample_event = \<lparr> ev_id = ''e1'', stream_id = ''s:1'', shipment_id = Some ''1'', seq = 0, ts = 1,
     recorded_at = 2, actor = \<lparr> act_party = ''p'', act_user = None, act_device = None \<rparr>,
     party_refs = [''p''], evidence = [], prev_hash = GENESIS_HASH, ev_hash = None, sig = None,
     visibility = Internal, source = Native, confidence = 10000, device_id = None, device_seq = None,
     captured_ts = None, override = None, kind = CreditChecked, payload = JObj [] \<rparr>"

lemma sample_text_lawful: "lawful (jtext s)"
proof -
  have "\<not> is_surrogate c" if "c \<in> set (jlit s)" for c
    using jlit_less[OF that] by (simp add: is_surrogate_def)
  then show ?thesis
    by (simp add: jtext_def list_all_iff)
qed

lemma sample_hashes: "\<exists>h. hashEvent sha sample_event = Inr h"
proof -
  have key: "list_all (\<lambda>c. \<not> is_surrogate c) (jlit s)" for s
    using sample_text_lawful[of s] by (simp add: jtext_def)
  have "lawful (hashView sample_event)"
    by (simp add: hashView_def view_fields_def sample_event_def sample_text_lawful key jopt_def jint_def
        MAX_SAFE_def actor_json_def jlist_def)
  then obtain s where "canonicalize (hashView sample_event) = Inr s"
    using canonicalize_answers by blast
  then show ?thesis
    by (simp add: hashEvent_def canonicalBytes_def)
qed

lemma sample_built:
  "\<exists>h. buildChain sha [sample_event] = Inr [sample_event \<lparr> ev_hash := Some h \<rparr>] \<and>
     hashEvent sha sample_event = Inr h"
proof -
  have "sample_event \<lparr> seq := 0, prev_hash := GENESIS_HASH \<rparr> = sample_event"
    by (simp add: sample_event_def)
  then show ?thesis
    using sample_hashes[of sha] by (auto simp: buildChain_def Let_def)
qed

theorem buildChain_verifies_witness:
  "\<exists>chain head. buildChain toy_sha [sample_event] = Inr chain \<and>
     verifyChain toy_sha chain None None = Inr (ChainOk head 1)"
  using sample_built[of toy_sha] buildChain_verifies[of toy_sha "[sample_event]"] by fastforce

text \<open>C30: Tamper evidence. Two non-empty chains that both verify from genesis with the same head hash have
  the same length and carry the same events in the same order, in every hashed field, the payloads
  up to the order of their keys, provided SHA-256 does not collide on the canonical bytes hashed.\<close>

theorem verified_head_pins_history:
  assumes "verifyChain sha es None None = Inr (ChainOk h n)"
    and "verifyChain sha fs None None = Inr (ChainOk h m)"
    and "es \<noteq> []" "fs \<noteq> []" "\<forall>e \<in> set es \<union> set fs. unicode (payload e)"
    and "inj_on sha (hashed es \<union> hashed fs)"
  shows "n = m \<and> list_all2 same_event es fs"
proof -
  have "length es = length fs \<and> list_all2 same_event es fs"
    using head_pins[OF _ _ assms(3-6) order_refl] assms(1,2) by (simp add: verifyChain_def)
  moreover have "n = length es" "m = length fs"
    using verifyFrom_count assms(1,2) by (fastforce simp: verifyChain_def)+
  ultimately show ?thesis
    by simp
qed

theorem verified_head_pins_history_witness:
  "\<exists>h. verifyChain toy_sha [sample_event] None None = Inr (ChainOk h 1) \<and>
     list_all2 same_event [sample_event] [sample_event \<lparr> ev_hash := Some h \<rparr>]"
proof -
  obtain h where h: "hashEvent toy_sha sample_event = Inr h"
    using sample_hashes by blast
  let ?f = "sample_event \<lparr> ev_hash := Some h \<rparr>"
  have view: "hashView ?f = hashView sample_event"
    by (simp add: hashView_def view_fields_def)
  have "verifyChain toy_sha [sample_event] None None = Inr (ChainOk h 1)"
    "verifyChain toy_sha [?f] None None = Inr (ChainOk h 1)"
    using h by (simp_all add: verifyChain_def hashEvent_ignores_hash) (simp_all add: sample_event_def)
  moreover have "inj_on toy_sha (hashed [sample_event] \<union> hashed [?f])"
    by (auto simp: hashed_def view inj_on_def)
  moreover have "\<forall>e \<in> set [sample_event] \<union> set [?f]. unicode (payload e)"
    by (simp add: sample_event_def)
  ultimately show ?thesis
    using verified_head_pins_history[of toy_sha "[sample_event]" h 1 "[?f]" 1] by blast
qed

end
