(* ===== verification/Payload.thy ===== *)
theory Payload
  imports Chain
begin

text \<open>
  The typed payloads as the JSON objects that are hashed and stored, and the defensive reads the
  ledger makes of a payload of unknown shape (\<open>readField\<close>, \<open>asString\<close>, \<open>asInt\<close>). \<open>stored\<close> is a typed event
  as the chain sees it.
\<close>

definition jobj :: "(string \<times> jvalue) list \<Rightarrow> jvalue" where
  "jobj kvs = JObj (map (\<lambda>(k, v). (jlit k, v)) kvs)"

definition jbool :: "bool \<Rightarrow> jvalue" where
  "jbool b = JBool b"

text \<open>A literal \<open>true\<close> that is left out when false (\<open>z.literal(true).optional()\<close>).\<close>

definition jflag :: "bool \<Rightarrow> jvalue" where
  "jflag b = (if b then JBool True else JUndefined)"

definition geo_json :: "geo_stamp \<Rightarrow> jvalue" where
  "geo_json g = jobj [(''lat_e6'', jint (lat_e6 g)), (''lon_e6'', jint (lon_e6 g)),
     (''accuracy_m'', jopt jint (accuracy_m g))]"

fun credit_status_name :: "credit_status \<Rightarrow> string" where
  "credit_status_name Clear = ''clear''"
| "credit_status_name Hold = ''hold''"
| "credit_status_name Review = ''review''"

fun stop_kind_name :: "stop_kind \<Rightarrow> string" where
  "stop_kind_name PickupStop = ''pickup''"
| "stop_kind_name DeliveryStop = ''delivery''"

fun photo_kind_name :: "photo_kind \<Rightarrow> string" where
  "photo_kind_name FreightPhoto = ''freight''"
| "photo_kind_name PlacedPhoto = ''placed''"

fun line_kind_name :: "money_line_kind \<Rightarrow> string" where
  "line_kind_name Freight = ''freight''"
| "line_kind_name Fsc = ''fsc''"
| "line_kind_name Accessorial = ''accessorial''"
| "line_kind_name CodCollect = ''cod_collect''"
| "line_kind_name CreditPurchase = ''credit_purchase''"

fun module_text :: "authority_module \<Rightarrow> string" where
  "module_text Rating = ''rating''"
| "module_text Invoicing = ''invoicing''"
| "module_text Dispatch = ''dispatch''"
| "module_text Settlement = ''settlement''"
| "module_text Comms = ''comms''"

fun level_name :: "authority_level \<Rightarrow> string" where
  "level_name NativeLevel = ''native''"
| "level_name LegacyLevel = ''legacy''"

definition invoice_line_json :: "invoice_line \<Rightarrow> jvalue" where
  "invoice_line_json l = jobj [(''line_no'', jint (line_no l)), (''kind'', jtext (line_kind_name (il_kind l))),
     (''amount_cents'', jint (il_amount_cents l)), (''gl_map'', jtext (gl_map l))]"

definition allocation_json :: "split_allocation \<Rightarrow> jvalue" where
  "allocation_json a = jobj [(''party_id'', jtext (sa_party_id a)), (''share_bps'', jint (sa_share_bps a))]"

fun payload_json :: "payload \<Rightarrow> jvalue" where
  "payload_json (QuoteAcceptedP q) = jobj [(''quote_event_id'', jtext q)]"
| "payload_json (BookingCreatedP b) = jobj
     [(''quote_event_id'', jtext (bk_quote_event_id b)), (''shipper_party_id'', jtext (bk_shipper_party_id b)),
      (''consignee_party_id'', jtext (bk_consignee_party_id b)), (''bill_to_party_id'', jtext (bk_bill_to_party_id b)),
      (''division'', jtext (bk_division b)), (''mode'', jopt jtext (bk_mode b)),
      (''service'', jopt jtext (bk_service b)), (''bill_terms'', jopt jtext (bk_bill_terms b)),
      (''evidence_contact_opt_out'', jopt jbool (evidence_contact_opt_out b)),
      (''hazmat'', jopt jbool (bk_hazmat b))]"
| "payload_json (CreditCheckedP c) = jobj
     [(''party_id'', jtext (cc_party_id c)), (''status'', jtext (credit_status_name (cc_status c))),
      (''limit_cents'', jopt jint (cc_limit_cents c)), (''decided_by'', jopt jtext (cc_decided_by c)),
      (''ref'', jopt jtext (cc_ref c))]"
| "payload_json (AppointmentSetP a) = jobj
     [(''leg_kind'', jtext (stop_kind_name (ap_leg_kind a))), (''facility_id'', jtext (ap_facility_id a)),
      (''slot_key'', jtext (ap_slot_key a)), (''window_start_ts'', jint (ap_window_start_ts a)),
      (''window_end_ts'', jint (ap_window_end_ts a)), (''reschedule_of'', jopt jtext (ap_reschedule_of a))]"
| "payload_json (StopArrivedP g auto) = jobj [(''geo'', geo_json g), (''auto'', jbool auto)]"
| "payload_json (StopDepartedP g auto ofd) = jobj
     [(''geo'', geo_json g), (''auto'', jbool auto), (''out_for_delivery'', jopt jbool ofd)]"
| "payload_json (FreightCountedP n expected) = jobj [(''pieces'', jint n), (''expected'', jopt jint expected)]"
| "payload_json (FreightPhotographedP h k) = jobj
     [(''photo_hash'', jtext h), (''photo_kind'', jtext (photo_kind_name k))]"
| "payload_json (CustodyTransferredP c) = jobj
     [(''from_party'', jtext (from_party c)), (''to_party'', jtext (to_party c)),
      (''geo'', jopt geo_json (ct_geo c)), (''cosig'', jopt jtext (ct_cosig c)),
      (''unwitnessed'', jflag (ct_unwitnessed c))]"
| "payload_json (SealAppliedP s h) = jobj [(''seal_id'', jtext s), (''photo_hash'', jtext h)]"
| "payload_json (PositionUpdatedP g v) = jobj
     [(''lat_e6'', jint (lat_e6 g)), (''lon_e6'', jint (lon_e6 g)), (''accuracy_m'', jopt jint (accuracy_m g)),
      (''speed_cms'', jopt jint v)]"
| "payload_json (OsdCapturedP h r n) = jobj
     [(''photo_hash'', jtext h), (''reason_code'', jtext r), (''note'', jopt jtext n)]"
| "payload_json (PodSignedP h g u) = jobj
     [(''signature_hash'', jtext h), (''geo'', geo_json g), (''unwitnessed'', jflag u)]"
| "payload_json (DeliveryEvidencedP h g) = jobj [(''placed_photo_hash'', jtext h), (''geo'', geo_json g)]"
| "payload_json (InvoiceIssuedP p) = jobj
     [(''invoice_id'', jtext (ii_invoice_id p)), (''party_id'', jtext (ii_party_id p)),
      (''division'', jtext (ii_division p)), (''lines'', jlist invoice_line_json (ii_lines p))]"
| "payload_json (InvoiceCorrectedP p) = jobj
     [(''invoice_id'', jtext (ic_invoice_id p)), (''corrects_event_id'', jtext (corrects_event_id p)),
      (''reason'', jtext (ic_reason p)), (''reissue_lines'', jlist invoice_line_json (reissue_lines p))]"
| "payload_json (SplitComputedP p) = jobj
     [(''total_cents'', jint (sc_total_cents p)), (''allocations'', jlist allocation_json (sc_allocations p))]"
| "payload_json (AuthorityFlippedP p) = jobj
     [(''module'', jtext (module_text (af_module p))), (''from'', jtext (level_name (af_from p))),
      (''to'', jtext (level_name (af_to p))), (''reason'', jtext (af_reason p)),
      (''gate_snapshot'', jopt id (af_gate_snapshot p)), (''drift_ref'', jopt jtext (af_drift_ref p))]"
| "payload_json (Loose v) = v"

text \<open>The schemas of a free JSON payload (\<open>json.ts\<close>): integers in the safe range, no negative zero, nothing
  that is not JSON.\<close>

function JsonValue :: "jvalue \<Rightarrow> bool" where
  "JsonValue (JNum n) = (case n of JInt i \<Rightarrow> \<bar>i\<bar> \<le> MAX_SAFE | _ \<Rightarrow> False)"
| "JsonValue (JStr s) = True"
| "JsonValue (JArr xs) = (\<forall>x \<in> set xs. case x of None \<Rightarrow> False | Some v \<Rightarrow> JsonValue v)"
| "JsonValue (JObj kvs) = (\<forall>kv \<in> set kvs. JsonValue (snd kv))"
| "JsonValue JNull = True"
| "JsonValue (JBool b) = True"
| "JsonValue JUndefined = False"
| "JsonValue JOther = False"
  by pat_completeness auto
termination
  by (relation "measure size") (auto dest: member_size element_size)

definition JsonObject_ok :: "jvalue \<Rightarrow> bool" where
  "JsonObject_ok v = (case v of JObj _ \<Rightarrow> JsonValue v | _ \<Rightarrow> False)"

section \<open>Reading a payload of unknown shape\<close>

fun jfield :: "string \<Rightarrow> jvalue \<Rightarrow> jvalue" where
  "jfield k (JObj kvs) = (case map_of kvs (jlit k) of None \<Rightarrow> JUndefined | Some v \<Rightarrow> v)"
| "jfield k _ = JUndefined"

definition readField :: "payload \<Rightarrow> string \<Rightarrow> jvalue" where
  "readField p k = jfield k (payload_json p)"

fun asText :: "jvalue \<Rightarrow> jstr option" where
  "asText (JStr s) = Some s"
| "asText _ = None"

fun asInt :: "jvalue \<Rightarrow> int option" where
  "asInt (JNum (JInt i)) = Some i"
| "asInt (JNum NegZero) = Some 0"
| "asInt _ = None"

definition whitespace_code :: "nat \<Rightarrow> bool" where
  "whitespace_code c = (c \<in> {9, 10, 11, 12, 13, 32, 160, 5760, 8232, 8233, 8239, 8287, 12288, 65279}
     \<or> (8192 \<le> c \<and> c \<le> 8202))"

definition jnonblank :: "jstr \<Rightarrow> bool" where
  "jnonblank s = list_ex (\<lambda>c. \<not> whitespace_code c) s"

definition HASH64 :: "jstr \<Rightarrow> bool" where
  "HASH64 s = (length s = 64 \<and> list_all (\<lambda>c. c \<in> set (jlit ''0123456789abcdef'')) s)"

section \<open>An event as it is stored and hashed\<close>

definition stored :: "payload ledger_event \<Rightarrow> jvalue ledger_event" where
  "stored e = \<lparr> ev_id = ev_id e, stream_id = stream_id e, shipment_id = shipment_id e, seq = seq e, ts = ts e,
     recorded_at = recorded_at e, actor = actor e, party_refs = party_refs e, evidence = evidence e,
     prev_hash = prev_hash e, ev_hash = ev_hash e, sig = sig e, visibility = visibility e,
     source = source e, confidence = confidence e, device_id = device_id e, device_seq = device_seq e,
     captured_ts = captured_ts e, override = override e, kind = kind e, payload = payload_json (payload e) \<rparr>"

lemma stored_simps [simp]:
  "ev_id (stored e) = ev_id e" "stream_id (stored e) = stream_id e" "seq (stored e) = seq e"
  "prev_hash (stored e) = prev_hash e" "ev_hash (stored e) = ev_hash e" "kind (stored e) = kind e"
  "visibility (stored e) = visibility e" "sig (stored e) = sig e" "device_id (stored e) = device_id e"
  by (simp_all add: stored_def)

lemma stored_hash_update: "stored (e \<lparr> ev_hash := h \<rparr>) = stored e \<lparr> ev_hash := h \<rparr>"
  by (simp add: stored_def)

lemma jfield_jobj [simp]:
  "jfield k (jobj []) = JUndefined"
  "jfield k (jobj ((a, v) # kvs)) = (if k = a then v else jfield k (jobj kvs))"
  by (auto simp: jobj_def)

lemma asText_jtext [simp]: "asText (jtext s) = Some (jlit s)"
  by (simp add: jtext_def)

lemma asInt_jint [simp]: "asInt (jint i) = Some i"
  by (simp add: jint_def)

section \<open>Sample events\<close>

definition typed_event :: "string \<Rightarrow> event_kind \<Rightarrow> payload \<Rightarrow> payload ledger_event" where
  "typed_event i k p = \<lparr> ev_id = i, stream_id = ''s:1'', shipment_id = Some ''1'', seq = 0, ts = 1,
     recorded_at = 2, actor = \<lparr> act_party = ''p'', act_user = None, act_device = None \<rparr>,
     party_refs = [''p''], evidence = [], prev_hash = GENESIS_HASH, ev_hash = None, sig = None,
     visibility = Counterparty, source = Native, confidence = 10000, device_id = None, device_seq = None,
     captured_ts = None, override = None, kind = k, payload = p \<rparr>"

lemma typed_event_simps [simp]:
  "ev_id (typed_event i k p) = i" "kind (typed_event i k p) = k" "payload (typed_event i k p) = p"
  by (simp_all add: typed_event_def)

end
