(* ===== verification/Money.thy ===== *)
theory Money
  imports Prelude
begin

text \<open>
  The two integer-cent money modules: \<open>packages/rater/src/money.ts\<close> (half-up rounding) and
  \<open>packages/ledger/src/money/split.ts\<close> with \<open>derive-split.ts\<close> (largest-remainder apportionment and
  the interline split computed from the custody legs). BigInt is \<open>int\<close>; BigInt division truncates,
  which is \<open>div\<close> on the non-negative operands the guards leave. The locale \<open>half_up\<close> is the rounding
  contract both modules promise; it is interpreted for each of them, and every client that rounds
  uses its lemmas.
\<close>

datatype money_error =
    NotIntegers
  | OutOfDomain
  | UnsafeResult int
  | TotalNotInteger
  | BadShare
  | NoWeights
  | AllZeroWeights
  | PostconditionFailed int int
  | NoLegs

section \<open>Half-up rounding\<close>

definition halfUpBig :: "int \<Rightarrow> int \<Rightarrow> int" where
  "halfUpBig numerator divisor =
     (let q = numerator div divisor; r = numerator mod divisor
      in if r * 2 \<ge> divisor then q + 1 else q)"

definition roundHalfUp :: "jsnum \<Rightarrow> jsnum \<Rightarrow> money_error + int" where
  "roundHalfUp numerator divisor =
     (case (numerator, divisor) of
        (Whole n, Whole d) \<Rightarrow>
          (if n < 0 \<or> d \<le> 0 then Inl OutOfDomain else Inr (halfUpBig n d))
      | _ \<Rightarrow> Inl NotIntegers)"

definition mulDivHalfUp :: "jsnum \<Rightarrow> jsnum \<Rightarrow> jsnum \<Rightarrow> money_error + int" where
  "mulDivHalfUp a b divisor =
     (case (a, b, divisor) of
        (Whole x, Whole y, Whole d) \<Rightarrow>
          (if x < 0 \<or> y < 0 \<or> d \<le> 0 then Inl OutOfDomain
           else let result = halfUpBig (x * y) d
                in if result > MAX_SAFE then Inl (UnsafeResult result) else Inr result)
      | _ \<Rightarrow> Inl NotIntegers)"

text \<open>The ledger's own copy (\<open>split.ts\<close>): the quotient and the remainder are taken in line.\<close>

definition ledgerMulDivHalfUp :: "jsnum \<Rightarrow> jsnum \<Rightarrow> jsnum \<Rightarrow> money_error + int" where
  "ledgerMulDivHalfUp a b divisor =
     (case (a, b, divisor) of
        (Whole x, Whole y, Whole d) \<Rightarrow>
          (if x < 0 \<or> y < 0 \<or> d \<le> 0 then Inl OutOfDomain
           else let n = x * y; q = n div d; r = n mod d;
                    result = (if r * 2 \<ge> d then q + 1 else q)
                in if result > MAX_SAFE then Inl (UnsafeResult result) else Inr result)
      | _ \<Rightarrow> Inl NotIntegers)"

lemma halfUpBig_spec:
  assumes "0 < d"
  shows "2 * d * halfUpBig n d \<le> 2 * n + d" "2 * n + d < 2 * d * (halfUpBig n d + 1)"
proof -
  have n: "n = d * (n div d) + n mod d" and m: "0 \<le> n mod d" "n mod d < d"
    using assms by simp_all
  define q where "q = n div d"
  define r where "r = n mod d"
  have n': "n = d * q + r" and r: "0 \<le> r" "r < d"
    using n m by (simp_all add: q_def r_def)
  have h: "halfUpBig n d = (if r * 2 \<ge> d then q + 1 else q)"
    by (simp add: halfUpBig_def q_def r_def Let_def)
  have n'': "2 * n = 2 * (d * q) + 2 * r"
    using n' by simp
  show "2 * d * halfUpBig n d \<le> 2 * n + d" "2 * n + d < 2 * d * (halfUpBig n d + 1)"
    using r unfolding h n'' by (simp_all add: algebra_simps)
qed

lemma half_up_unique:
  fixes d n r s :: int
  assumes d: "0 < d"
    and r: "2 * d * r \<le> 2 * n + d" "2 * n + d < 2 * d * (r + 1)"
    and s: "2 * d * s \<le> 2 * n + d" "2 * n + d < 2 * d * (s + 1)"
  shows "r = s"
proof -
  have "2 * d * r < 2 * d * (s + 1)" "2 * d * s < 2 * d * (r + 1)"
    using r s by linarith+
  then have "r < s + 1" "s < r + 1"
    using d by simp_all
  then show ?thesis
    by simp
qed

lemma halfUpBig_iff:
  "0 < d \<Longrightarrow> r = halfUpBig n d \<longleftrightarrow> 2 * d * r \<le> 2 * n + d \<and> 2 * n + d < 2 * d * (r + 1)"
  using halfUpBig_spec[of d n] half_up_unique[of d r n "halfUpBig n d"] by blast

section \<open>The rounding contract\<close>

locale half_up =
  fixes mulDiv :: "jsnum \<Rightarrow> jsnum \<Rightarrow> jsnum \<Rightarrow> 'e + int"
  assumes domain: "mulDiv x y z = Inr r \<Longrightarrow>
      \<exists>a b d. x = Whole a \<and> y = Whole b \<and> z = Whole d \<and> 0 \<le> a \<and> 0 \<le> b \<and> 0 < d"
    and nearest: "mulDiv (Whole a) (Whole b) (Whole d) = Inr r \<Longrightarrow>
      2 * d * r \<le> 2 * (a * b) + d \<and> 2 * (a * b) + d < 2 * d * (r + 1) \<and> r \<le> MAX_SAFE"
    and answers: "\<lbrakk>0 \<le> a; 0 \<le> b; 0 < d; 2 * (a * b) + d < 2 * d * (MAX_SAFE + 1)\<rbrakk> \<Longrightarrow>
      \<exists>r. mulDiv (Whole a) (Whole b) (Whole d) = Inr r"
begin

lemma args_nonneg:
  assumes "mulDiv (Whole a) (Whole b) (Whole d) = Inr r"
  shows "0 \<le> a" "0 \<le> b" "0 < d"
  using domain[OF assms] by auto

lemma result_nonneg:
  assumes "mulDiv (Whole a) (Whole b) (Whole d) = Inr r"
  shows "0 \<le> r"
proof (rule ccontr)
  assume "\<not> 0 \<le> r"
  then have "2 * d * (r + 1) \<le> 0"
    using args_nonneg[OF assms] by (simp add: mult_le_0_iff)
  moreover have "0 \<le> a * b"
    using args_nonneg[OF assms] by simp
  ultimately show False
    using nearest[OF assms] args_nonneg[OF assms] by linarith
qed

lemma monotone:
  assumes r: "mulDiv (Whole a) (Whole b) (Whole d) = Inr r"
    and s: "mulDiv (Whole a') (Whole b') (Whole d) = Inr s"
    and le: "a \<le> a'" "b \<le> b'"
  shows "r \<le> s"
proof -
  have "a * b \<le> a' * b'"
    using le args_nonneg[OF r] args_nonneg[OF s] by (intro mult_mono) auto
  then have "2 * d * r < 2 * d * (s + 1)"
    using nearest[OF r] nearest[OF s] by linarith
  then show ?thesis
    using args_nonneg[OF r] by simp
qed

lemma at_most:
  assumes r: "mulDiv (Whole a) (Whole b) (Whole d) = Inr r" and "b \<le> d"
  shows "r \<le> a"
proof (rule ccontr)
  assume "\<not> r \<le> a"
  then have "a + 1 \<le> r"
    by simp
  then have "2 * d * (a + 1) \<le> 2 * d * r"
    using args_nonneg[OF r] by (intro mult_left_mono) auto
  moreover have "a * b \<le> a * d"
    using assms args_nonneg[OF r] by (simp add: mult_left_mono)
  ultimately show False
    using nearest[OF r] args_nonneg[OF r] by (simp add: algebra_simps)
qed

lemma exact:
  assumes "mulDiv (Whole a) (Whole b) (Whole d) = Inr r" "a * b = d * k"
  shows "r = k"
  by (rule half_up_unique[of d r "a * b" k])
     (use nearest[OF assms(1)] args_nonneg[OF assms(1)] assms(2) in \<open>auto simp: algebra_simps\<close>)

lemma identity_share:
  assumes "mulDiv (Whole a) (Whole d) (Whole d) = Inr r"
  shows "r = a"
  using exact[OF assms] by (simp add: mult.commute)

lemma answers_within:
  assumes "0 \<le> a" "a \<le> MAX_SAFE" "0 \<le> b" "b \<le> d" "0 < d"
  shows "\<exists>r. mulDiv (Whole a) (Whole b) (Whole d) = Inr r"
proof (rule answers)
  have "a * b \<le> MAX_SAFE * d"
    using assms by (intro mult_mono) auto
  then show "2 * (a * b) + d < 2 * d * (MAX_SAFE + 1)"
    using assms by (simp add: algebra_simps)
qed (use assms in auto)

lemma rejects_fraction: "mulDiv x y z = Inr r \<Longrightarrow> isInteger x \<and> isInteger y \<and> isInteger z"
  using domain by fastforce

end

lemma mulDivHalfUp_eq_Inr:
  "mulDivHalfUp x y z = Inr r \<longleftrightarrow>
     (\<exists>a b d. x = Whole a \<and> y = Whole b \<and> z = Whole d \<and> 0 \<le> a \<and> 0 \<le> b \<and> 0 < d \<and>
        r = halfUpBig (a * b) d \<and> r \<le> MAX_SAFE)"
  by (auto simp: mulDivHalfUp_def Let_def split: jsnum.splits)

lemma ledgerMulDivHalfUp_same: "ledgerMulDivHalfUp = mulDivHalfUp"
  by (intro ext) (simp add: ledgerMulDivHalfUp_def mulDivHalfUp_def halfUpBig_def Let_def
      split: jsnum.splits)

lemma halfUpBig_bound:
  assumes "0 < d" "2 * n + d < 2 * d * (m + 1)"
  shows "halfUpBig n d \<le> m"
proof -
  have "2 * d * halfUpBig n d < 2 * d * (m + 1)"
    using halfUpBig_spec[OF assms(1), of n] assms(2) by linarith
  then show ?thesis
    using assms(1) by simp
qed

interpretation rater_half_up: half_up mulDivHalfUp
proof unfold_locales
  show "\<exists>a b d. x = Whole a \<and> y = Whole b \<and> z = Whole d \<and> 0 \<le> a \<and> 0 \<le> b \<and> 0 < d"
    if "mulDivHalfUp x y z = Inr r" for x y z r
    using that by (auto simp: mulDivHalfUp_eq_Inr)
  show "2 * d * r \<le> 2 * (a * b) + d \<and> 2 * (a * b) + d < 2 * d * (r + 1) \<and> r \<le> MAX_SAFE"
    if "mulDivHalfUp (Whole a) (Whole b) (Whole d) = Inr r" for a b d r
    using that halfUpBig_spec[of d "a * b"] by (auto simp: mulDivHalfUp_eq_Inr)
  show "\<exists>r. mulDivHalfUp (Whole a) (Whole b) (Whole d) = Inr r"
    if "0 \<le> a" "0 \<le> b" "0 < d" "2 * (a * b) + d < 2 * d * (MAX_SAFE + 1)" for a b d
    using that halfUpBig_bound[of d "a * b" MAX_SAFE] by (auto simp: mulDivHalfUp_eq_Inr)
qed

interpretation ledger_half_up: half_up ledgerMulDivHalfUp
  unfolding ledgerMulDivHalfUp_same by (rule rater_half_up.half_up_axioms)


section \<open>Largest-remainder apportionment (\<open>split.ts\<close>)\<close>

fun increment_at :: "int list \<Rightarrow> nat list \<Rightarrow> int list" where
  "increment_at base [] = base"
| "increment_at base (idx # order) = increment_at (base[idx := base ! idx + 1]) order"

text \<open>The comparator sorts by remainder descending, ties by ascending index: the stable
  \<open>sort_key\<close> on the negated remainder of the ascending index list.\<close>

definition largestRemainder :: "int \<Rightarrow> int list \<Rightarrow> int \<Rightarrow> int list" where
  "largestRemainder magnitude weights divisor =
     (let n = length weights;
          base = map (\<lambda>w. (magnitude * w) div divisor) weights;
          remainder = map (\<lambda>w. magnitude * w - (magnitude * w) div divisor * divisor) weights;
          allocated = sum_list base;
          leftover = magnitude - allocated;
          order = sort_key (\<lambda>i. - (remainder ! i)) [0..<n]
      in increment_at base (take (nat leftover) order))"

definition negate_parts :: "int list \<Rightarrow> int list" where
  "negate_parts base = map (\<lambda>x. if x = 0 then 0 else - x) base"

definition allocateCents :: "jsnum \<Rightarrow> jsnum list \<Rightarrow> money_error + int list" where
  "allocateCents totalCents sharesBps =
     ebind (asWhole TotalNotInteger totalCents) (\<lambda>t.
     ebind (traverse (\<lambda>bps. ebind (asWhole BadShare bps) (\<lambda>b.
              ebind (require (\<not> b < 0) BadShare) (\<lambda>_. Inr b))) sharesBps) (\<lambda>weights.
       let negative = t < 0;
           magnitude = (if negative then - t else t);
           base = largestRemainder magnitude weights 10000;
           parts = (if negative then negate_parts base else base);
           total' = sum_list parts
       in if total' \<noteq> t then Inl (PostconditionFailed total' t) else Inr parts))"

definition apportion :: "jsnum \<Rightarrow> jsnum list \<Rightarrow> money_error + int list" where
  "apportion totalCents weights =
     ebind (asWhole TotalNotInteger totalCents) (\<lambda>t.
     ebind (require (\<not> t < 0) TotalNotInteger) (\<lambda>_.
     ebind (require (weights \<noteq> []) NoWeights) (\<lambda>_.
     ebind (traverse (\<lambda>x. ebind (asWhole BadShare x) (\<lambda>a.
              ebind (require (\<not> a < 0) BadShare) (\<lambda>_. Inr a))) weights) (\<lambda>w.
       let divisor = sum_list w
       in if divisor = 0 then Inl AllZeroWeights
          else let parts = largestRemainder t w divisor; total' = sum_list parts
               in if total' \<noteq> t then Inl (PostconditionFailed total' t) else Inr parts))))"

subsection \<open>The apportionment lemmas\<close>

lemma increment_at_length [simp]: "length (increment_at base order) = length base"
  by (induction base order rule: increment_at.induct) auto

lemma increment_at_sum:
  assumes "\<forall>i \<in> set order. i < length base"
  shows "sum_list (increment_at base order) = sum_list base + int (length order)"
  using assms
  by (induction base order rule: increment_at.induct) (auto simp: sum_list_nth_update)

lemma increment_at_nth:
  assumes "distinct order" "i < length base"
  shows "increment_at base order ! i = base ! i + (if i \<in> set order then 1 else 0)"
  using assms
proof (induction base order rule: increment_at.induct)
  case (2 base idx order)
  then show ?case
    by (cases "i = idx") auto
qed simp

lemma div_mul_rem:
  fixes x d :: int
  shows "x - x div d * d = x mod d"
  by (simp add: minus_div_mult_eq_mod)

lemma leftover_bounds:
  fixes weights :: "int list"
  assumes "0 < d" "sum_list weights = d"
  shows "0 \<le> m - (\<Sum>w\<leftarrow>weights. (m * w) div d)"
    and "m - (\<Sum>w\<leftarrow>weights. (m * w) div d) < int (length weights)"
proof -
  let ?L = "m - (\<Sum>w\<leftarrow>weights. (m * w) div d)"
  have "(\<Sum>w\<leftarrow>weights. m * w) = m * d"
    using assms(2) sum_list_mult_left[of m "\<lambda>w. w" weights] by simp
  moreover have "(\<Sum>w\<leftarrow>weights. m * w) =
      d * (\<Sum>w\<leftarrow>weights. (m * w) div d) + (\<Sum>w\<leftarrow>weights. (m * w) mod d)"
    by (induction weights) (auto simp: algebra_simps)
  ultimately have eq: "d * ?L = (\<Sum>w\<leftarrow>weights. (m * w) mod d)"
    by (simp add: algebra_simps)
  have "0 \<le> (\<Sum>w\<leftarrow>weights. (m * w) mod d)"
    using assms(1) by (auto intro!: sum_list_nonneg)
  then show "0 \<le> ?L"
    using eq assms(1) by (metis zero_le_mult_iff not_le)
  have "weights \<noteq> []"
    using assms by auto
  then have "d * ?L < d * int (length weights)"
    unfolding eq using sum_list_strict_bound[of weights "\<lambda>w. (m * w) mod d" d] assms(1)
    by (simp add: mult.commute)
  then show "?L < int (length weights)"
    using assms(1) by simp
qed

lemma largestRemainder_length [simp]: "length (largestRemainder m ws d) = length ws"
  by (simp add: largestRemainder_def Let_def)

lemma largestRemainder_sum:
  assumes "0 < d" "sum_list ws = d"
  shows "sum_list (largestRemainder m ws d) = m"
proof -
  let ?base = "map (\<lambda>w. (m * w) div d) ws"
  let ?order = "sort_key (\<lambda>i. - (map (\<lambda>w. m * w - (m * w) div d * d) ws ! i)) [0..<length ws]"
  let ?k = "nat (m - sum_list ?base)"
  have "\<forall>i \<in> set (take ?k ?order). i < length ?base"
    by (auto dest!: in_set_takeD)
  then have "sum_list (increment_at ?base (take ?k ?order)) =
      sum_list ?base + int (length (take ?k ?order))"
    by (rule increment_at_sum)
  moreover have "int (length (take ?k ?order)) = m - sum_list ?base"
    using leftover_bounds[OF assms, of m] by simp
  ultimately show ?thesis
    by (simp add: largestRemainder_def Let_def)
qed

lemma largestRemainder_nth:
  assumes "i < length ws"
  shows "largestRemainder m ws d ! i = (m * ws ! i) div d +
    (if i \<in> set (take (nat (m - (\<Sum>w\<leftarrow>ws. (m * w) div d)))
        (sort_key (\<lambda>i. - (map (\<lambda>w. m * w - (m * w) div d * d) ws ! i)) [0..<length ws]))
     then 1 else 0)"
  using assms by (simp add: largestRemainder_def Let_def increment_at_nth distinct_take)

lemma largestRemainder_quota:
  assumes "0 < d" "i < length ws"
  shows "(m * ws ! i) div d \<le> largestRemainder m ws d ! i"
    and "largestRemainder m ws d ! i \<le> (m * ws ! i) div d + 1"
  using assms by (simp_all add: largestRemainder_nth)

lemma sort_key_take_less:
  assumes "sorted (map f xs)" "distinct xs" "a \<in> set (take n xs)" "b \<in> set xs"
    "b \<notin> set (take n xs)"
  shows "f a \<le> f b"
proof -
  have "xs = take n xs @ drop n xs"
    by simp
  moreover have "b \<in> set (drop n xs)"
    using assms(4,5) by (metis Un_iff append_take_drop_id set_append)
  ultimately show ?thesis
    using assms(1,3) by (metis (no_types, lifting) imageI list.set_map map_append sorted_append)
qed

text \<open>No index receives the extra cent while one with a larger remainder does not.\<close>

lemma largestRemainder_fair:
  assumes "i < length ws" "j < length ws"
    and "largestRemainder m ws d ! i = (m * ws ! i) div d + 1"
    and "largestRemainder m ws d ! j = (m * ws ! j) div d"
  shows "(m * ws ! j) mod d \<le> (m * ws ! i) mod d"
proof -
  let ?f = "\<lambda>i. - (map (\<lambda>w. m * w - (m * w) div d * d) ws ! i)"
  have "?f i \<le> ?f j"
    by (rule sort_key_take_less[where xs = "sort_key ?f [0..<length ws]"])
       (use assms in \<open>auto simp: largestRemainder_nth split: if_splits\<close>)
  then show ?thesis
    using assms(1,2) by (simp add: div_mul_rem)
qed

lemma largestRemainder_nonneg:
  assumes "0 < d" "\<forall>w \<in> set ws. 0 \<le> w" "0 \<le> m"
  shows "\<forall>x \<in> set (largestRemainder m ws d). 0 \<le> x"
proof
  fix x
  assume "x \<in> set (largestRemainder m ws d)"
  then obtain i where i: "i < length ws" "x = largestRemainder m ws d ! i"
    by (auto simp: in_set_conv_nth)
  then have "0 \<le> (m * ws ! i) div d"
    using assms by (simp add: pos_imp_zdiv_nonneg_iff)
  then show "0 \<le> x"
    using largestRemainder_quota(1)[OF assms(1) i(1), of m] i(2) by simp
qed

text \<open>The extra cent never goes to an index whose share is already a whole number of cents.\<close>

lemma largestRemainder_extra_positive:
  assumes "0 < d" "sum_list ws = d" "i < length ws"
    and extra: "largestRemainder m ws d ! i = (m * ws ! i) div d + 1"
  shows "0 < (m * ws ! i) mod d"
proof (rule ccontr)
  assume "\<not> 0 < (m * ws ! i) mod d"
  then have zero: "(m * ws ! i) mod d = 0"
    using assms(1) by (simp add: order_class.order.antisym linorder_not_less)
  let ?f = "\<lambda>j. (m * ws ! j) mod d"
  have nonext: "?f j < d" "0 \<le> ?f j" for j
    using assms(1) by simp_all
  have none: "largestRemainder m ws d ! j * d \<ge> m * ws ! j" if "j < length ws" for j
  proof (cases "?f j = 0")
    case True
    then show ?thesis
      using largestRemainder_quota(1)[OF assms(1) that, of m] assms(1)
      by (metis add.right_neutral div_mult_mod_eq mult_right_mono order_less_imp_le)
  next
    case False
    have L: "largestRemainder m ws d ! j = (m * ws ! j) div d + 1"
      using largestRemainder_fair[OF assms(3) that extra] largestRemainder_quota[OF assms(1) that, of m]
        False zero nonext[of j] by linarith
    have "m * ws ! j = (m * ws ! j) div d * d + ?f j"
      by simp
    then show ?thesis
      using nonext[of j] unfolding L distrib_right by linarith
  qed
  have "(m * ws ! i) < largestRemainder m ws d ! i * d"
    using extra zero assms(1) div_mult_mod_eq[of "m * ws ! i" d] by (simp add: algebra_simps)
  then have "(\<Sum>j\<leftarrow>[0..<length ws]. m * ws ! j) <
      (\<Sum>j\<leftarrow>[0..<length ws]. largestRemainder m ws d ! j * d)"
    using none assms(3) by (intro sum_list_map_strict_mono[where x = i]) auto
  moreover have "(\<Sum>j\<leftarrow>[0..<length ws]. m * ws ! j) = m * d"
    using sum_list_mult_left[of m "(!) ws" "[0..<length ws]"] assms(2) by (simp add: map_nth)
  moreover have "(\<Sum>j\<leftarrow>[0..<length ws]. largestRemainder m ws d ! j * d) = m * d"
    using sum_list_mult_const[of "(!) (largestRemainder m ws d)" d "[0..<length ws]"]
      largestRemainder_sum[OF assms(1,2), of m] map_nth[of "largestRemainder m ws d"]
    by (simp add: comp_def)
  ultimately show False
    by simp
qed

lemma largestRemainder_exact_share:
  assumes "0 < d" "sum_list ws = d" "\<forall>w \<in> set ws. d dvd m * w" "i < length ws"
  shows "largestRemainder m ws d ! i = (m * ws ! i) div d"
proof -
  have "(\<Sum>w\<leftarrow>ws. m * w) = d * (\<Sum>w\<leftarrow>ws. (m * w) div d)"
    using assms(3) by (induction ws) (auto simp: algebra_simps)
  then have "m * d = d * (\<Sum>w\<leftarrow>ws. (m * w) div d)"
    using assms(2) sum_list_mult_left[of m "\<lambda>w. w" ws] by simp
  then have "(\<Sum>w\<leftarrow>ws. (m * w) div d) = m"
    using assms(1) by simp
  then show ?thesis
    using assms(4) by (simp add: largestRemainder_nth)
qed

lemma sum_negate_parts [simp]: "sum_list (negate_parts xs) = - sum_list xs"
  by (induction xs) (auto simp: negate_parts_def)

lemma negate_parts_nth [simp]: "i < length xs \<Longrightarrow> negate_parts xs ! i = - (xs ! i)"
  by (simp add: negate_parts_def)

lemma negate_parts_length [simp]: "length (negate_parts xs) = length xs"
  by (simp add: negate_parts_def)

lemma wholes_traverse:
  assumes "\<forall>b \<in> set bs. 0 \<le> b"
  shows "traverse (\<lambda>x. ebind (asWhole e x) (\<lambda>b. ebind (require (\<not> b < 0) e') (\<lambda>_. Inr b)))
    (map Whole bs) = Inr bs"
  using assms by (induction bs) auto

lemma wholes_traverseD:
  assumes "traverse (\<lambda>x. ebind (asWhole e x) (\<lambda>b. ebind (require (\<not> b < 0) e') (\<lambda>_. Inr b))) xs
    = Inr bs"
  shows "xs = map Whole bs \<and> (\<forall>b \<in> set bs. 0 \<le> b)"
  using assms by (induction xs arbitrary: bs) auto

lemma allocateCents_ok:
  assumes "\<forall>b \<in> set bs. 0 \<le> b" "sum_list bs = 10000"
  shows "allocateCents (Whole t) (map Whole bs) = Inr
    (if t < 0 then negate_parts (largestRemainder (- t) bs 10000) else largestRemainder t bs 10000)"
  using assms by (simp add: allocateCents_def wholes_traverse largestRemainder_sum Let_def)

lemma allocateCents_exact_sum:
  assumes "\<forall>b \<in> set bs. 0 \<le> b" "sum_list bs = 10000"
  shows "\<exists>parts. allocateCents (Whole t) (map Whole bs) = Inr parts \<and> sum_list parts = t"
  using allocateCents_ok[OF assms] by (simp add: largestRemainder_sum[OF _ assms(2)])

lemma apportion_ok:
  assumes "\<forall>b \<in> set bs. 0 \<le> b" "0 < sum_list bs" "0 \<le> t"
  shows "apportion (Whole t) (map Whole bs) = Inr (largestRemainder t bs (sum_list bs))"
  using assms by (auto simp: apportion_def wholes_traverse largestRemainder_sum Let_def)

lemma apportion_sum: "apportion t ws = Inr parts \<Longrightarrow> t = Whole (sum_list parts)"
  by (auto simp: apportion_def Let_def split: if_splits)

lemma apportion_length: "apportion t ws = Inr parts \<Longrightarrow> length parts = length ws"
  by (auto simp: apportion_def Let_def split: if_splits dest!: wholes_traverseD)

lemma allocateCents_sum: "allocateCents t ws = Inr parts \<Longrightarrow> t = Whole (sum_list parts)"
  by (auto simp: allocateCents_def Let_def split: if_splits)

lemma allocateCents_length: "allocateCents t ws = Inr parts \<Longrightarrow> length parts = length ws"
  by (auto simp: allocateCents_def Let_def split: if_splits dest!: wholes_traverseD)


section \<open>The apportionment contract\<close>

locale cent_split =
  fixes split_cents :: "jsnum \<Rightarrow> jsnum list \<Rightarrow> 'e + int list"
  assumes parts_sum: "split_cents t ws = Inr parts \<Longrightarrow> t = Whole (sum_list parts)"
    and parts_length: "split_cents t ws = Inr parts \<Longrightarrow> length parts = length ws"
begin

text \<open>Pairing the parts with their owners loses and invents nothing.\<close>

lemma zip_parts_sum:
  assumes "split_cents (Whole t) (map g owners) = Inr parts"
  shows "sum_list (map snd (zip owners parts)) = t"
  using parts_sum[OF assms] parts_length[OF assms] by simp

lemma zip_parts_owners:
  assumes "split_cents t (map g owners) = Inr parts"
  shows "map fst (zip owners parts) = owners"
  using parts_length[OF assms] by simp

lemma total_is_whole: "split_cents t ws = Inr parts \<Longrightarrow> isInteger t"
  using parts_sum by fastforce

end

interpretation allocate: cent_split allocateCents
  by unfold_locales (rule allocateCents_sum allocateCents_length, assumption)+

interpretation pie: cent_split apportion
  by unfold_locales (rule apportion_sum apportion_length, assumption)+

section \<open>The split computed from the custody legs (\<open>derive-split.ts\<close>)\<close>

record custody_leg =
  cl_executor_party_id :: string
  cl_split_bps :: jsnum
  cl_kind :: "string option"

record derived_allocation =
  da_party_id :: string
  da_share_bps :: int

record derived_split =
  ds_total_cents :: int
  ds_allocations :: "derived_allocation list"

fun groupLegs ::
  "custody_leg list \<Rightarrow> string list \<Rightarrow> (string \<rightharpoonup> int) \<Rightarrow> money_error + (string list \<times> (string \<rightharpoonup> int))"
where
  "groupLegs [] order weightByParty = Inr (order, weightByParty)"
| "groupLegs (leg # legs) order weightByParty =
     (let p = cl_executor_party_id leg in
      ebind (asWhole BadShare (cl_split_bps leg)) (\<lambda>b.
      ebind (require (\<not> b < 0) BadShare) (\<lambda>_.
        let has = weightByParty p \<noteq> None;
            order' = (if has then order else order @ [p]);
            w0 = (if has then weightByParty else weightByParty(p \<mapsto> 0));
            cur = (case w0 p of Some x \<Rightarrow> x | None \<Rightarrow> 0)
        in groupLegs legs order' (w0(p \<mapsto> cur + b)))))"

definition deriveSplitFromLegs :: "custody_leg list \<Rightarrow> jsnum \<Rightarrow> money_error + derived_split" where
  "deriveSplitFromLegs legs totalCents =
     ebind (asWhole TotalNotInteger totalCents) (\<lambda>t.
     ebind (require (\<not> t < 0) TotalNotInteger) (\<lambda>_.
     ebind (require (legs \<noteq> []) NoLegs) (\<lambda>_.
     ebind (groupLegs legs [] Map.empty) (\<lambda>(order, weightByParty).
       let weights = map (\<lambda>p. case weightByParty p of Some x \<Rightarrow> x | None \<Rightarrow> 0) order in
       ebind (apportion (Whole 10000) (map Whole weights)) (\<lambda>shareBps.
         Inr \<lparr> ds_total_cents = t,
               ds_allocations = map (\<lambda>(p, b). \<lparr> da_party_id = p, da_share_bps = b \<rparr>)
                 (zip order shareBps) \<rparr>)))))"

definition leg_bps :: "custody_leg \<Rightarrow> int" where
  "leg_bps l = (case cl_split_bps l of Whole b \<Rightarrow> b | Fractional \<Rightarrow> 0)"

definition party_weight :: "custody_leg list \<Rightarrow> string \<Rightarrow> int" where
  "party_weight legs p = (\<Sum>l\<leftarrow>filter (\<lambda>l. cl_executor_party_id l = p) legs. leg_bps l)"

definition well_formed_legs :: "custody_leg list \<Rightarrow> bool" where
  "well_formed_legs legs = list_all (\<lambda>l. isInteger (cl_split_bps l) \<and> 0 \<le> leg_bps l) legs"

lemma party_weight_snoc:
  "party_weight (ls @ [l]) p =
     party_weight ls p + (if cl_executor_party_id l = p then leg_bps l else 0)"
  by (simp add: party_weight_def)

lemma party_weight_absent: "p \<notin> cl_executor_party_id ` set ls \<Longrightarrow> party_weight ls p = 0"
  by (induction ls) (auto simp: party_weight_def)

lemma groupLegs_invariant:
  assumes "well_formed_legs legs"
    and "order = uniq (map cl_executor_party_id seen)"
    and "\<And>p. w p = (if p \<in> set order then Some (party_weight seen p) else None)"
  shows "\<exists>w'. groupLegs legs order w =
      Inr (uniq (map cl_executor_party_id (seen @ legs)), w') \<and>
    (\<forall>p \<in> set (uniq (map cl_executor_party_id (seen @ legs))).
       w' p = Some (party_weight (seen @ legs) p))"
  using assms
proof (induction legs arbitrary: order w seen)
  case Nil
  then show ?case
    by auto
next
  case (Cons l legs)
  let ?p = "cl_executor_party_id l"
  let ?order = "uniq (map cl_executor_party_id (seen @ [l]))"
  obtain b where b: "cl_split_bps l = Whole b" "0 \<le> b" "leg_bps l = b"
    using Cons.prems(1) by (cases "cl_split_bps l") (auto simp: well_formed_legs_def leg_bps_def)
  have ord: "set order = cl_executor_party_id ` set seen"
    using Cons.prems(2) by simp
  define w1 where "w1 = w(?p \<mapsto> party_weight (seen @ [l]) ?p)"
  have step: "groupLegs (l # legs) order w = groupLegs legs ?order w1"
    using Cons.prems(2,3) b ord
    by (auto simp: Let_def w1_def uniq_snoc party_weight_snoc party_weight_absent)
  have "w1 p = (if p \<in> set ?order then Some (party_weight (seen @ [l]) p) else None)" for p
    using Cons.prems(3)[of p] ord by (auto simp: w1_def party_weight_snoc)
  moreover have "well_formed_legs legs"
    using Cons.prems(1) by (simp add: well_formed_legs_def)
  ultimately show ?case
    using Cons.IH[of ?order "seen @ [l]" w1] unfolding step append.assoc append_Cons append_Nil
    by blast
qed

lemma groupLegs_spec:
  assumes "well_formed_legs legs"
  obtains w where
    "groupLegs legs [] Map.empty = Inr (uniq (map cl_executor_party_id legs), w)"
    "\<And>p. p \<in> cl_executor_party_id ` set legs \<Longrightarrow> w p = Some (party_weight legs p)"
proof -
  have "[] = uniq (map cl_executor_party_id [])"
    by (simp add: uniq_def)
  then show ?thesis
    using groupLegs_invariant[OF assms, of "[]" "[]" Map.empty] that by fastforce
qed

lemma sum_over_parties:
  fixes f :: "custody_leg \<Rightarrow> int"
  assumes "distinct ps" "cl_executor_party_id ` set ls \<subseteq> set ps"
  shows "(\<Sum>p\<leftarrow>ps. \<Sum>l\<leftarrow>filter (\<lambda>l. cl_executor_party_id l = p) ls. f l) = (\<Sum>l\<leftarrow>ls. f l)"
  using assms
proof (induction ls)
  case (Cons l ls)
  have "(\<Sum>p\<leftarrow>ps. \<Sum>l\<leftarrow>filter (\<lambda>l'. cl_executor_party_id l' = p) (l # ls). f l) =
    (\<Sum>p\<leftarrow>ps. (if cl_executor_party_id l = p then f l else 0) +
       (\<Sum>l\<leftarrow>filter (\<lambda>l. cl_executor_party_id l = p) ls. f l))"
    by (intro arg_cong[where f = sum_list] map_cong) auto
  also have "\<dots> = (\<Sum>p\<leftarrow>ps. if cl_executor_party_id l = p then f l else 0) + (\<Sum>l\<leftarrow>ls. f l)"
    using Cons by (simp add: sum_list_addf)
  also have "(\<Sum>p\<leftarrow>ps. if cl_executor_party_id l = p then f l else 0) = f l"
    using Cons.prems by (simp add: sum_list_distinct_conv_sum_set)
  finally show ?case
    by simp
qed simp

lemma sum_party_weights:
  "(\<Sum>p\<leftarrow>uniq (map cl_executor_party_id legs). party_weight legs p) = (\<Sum>l\<leftarrow>legs. leg_bps l)"
  using sum_over_parties[of "uniq (map cl_executor_party_id legs)" legs leg_bps]
  by (simp add: party_weight_def)

lemma party_weight_nonneg: "well_formed_legs legs \<Longrightarrow> 0 \<le> party_weight legs p"
  by (auto simp: party_weight_def well_formed_legs_def list_all_iff intro!: sum_list_nonneg)

lemma deriveSplitFromLegs_value:
  assumes "well_formed_legs legs" "0 < (\<Sum>l\<leftarrow>legs. leg_bps l)" "0 \<le> t"
  defines "ps \<equiv> uniq (map cl_executor_party_id legs)"
  shows "deriveSplitFromLegs legs (Whole t) = Inr \<lparr> ds_total_cents = t,
    ds_allocations = map (\<lambda>(p, b). \<lparr> da_party_id = p, da_share_bps = b \<rparr>)
      (zip ps (largestRemainder 10000 (map (party_weight legs) ps) (\<Sum>l\<leftarrow>legs. leg_bps l))) \<rparr>"
proof -
  obtain w where w: "groupLegs legs [] Map.empty = Inr (ps, w)"
    "\<And>p. p \<in> set ps \<Longrightarrow> w p = Some (party_weight legs p)"
    using groupLegs_spec[OF assms(1)] unfolding ps_def by auto
  have weights: "map (\<lambda>p. case w p of Some x \<Rightarrow> x | None \<Rightarrow> 0) ps = map (party_weight legs) ps"
    using w(2) by simp
  have sum: "sum_list (map (party_weight legs) ps) = (\<Sum>l\<leftarrow>legs. leg_bps l)"
    unfolding ps_def by (rule sum_party_weights)
  have "apportion (Whole 10000) (map Whole (map (party_weight legs) ps)) =
      Inr (largestRemainder 10000 (map (party_weight legs) ps) (\<Sum>l\<leftarrow>legs. leg_bps l))"
    using apportion_ok[of "map (party_weight legs) ps" 10000] assms(1,2) sum
    by (auto simp: party_weight_nonneg)
  moreover have "legs \<noteq> []"
    using assms(2) by auto
  ultimately show ?thesis
    using w(1) assms(3)
    by (simp add: deriveSplitFromLegs_def Let_def weights del: map_map map_eq_conv)
qed


section \<open>Properties\<close>

text \<open>Both money modules compute the same function, and it is exactly the half-up rounding of
  \<open>a * b / divisor\<close>: a result \<open>r\<close> is returned iff the operands are integers in the domain, \<open>r\<close> is
  the integer nearest to the quotient (halves up) and \<open>r\<close> is a safe integer; otherwise it throws.\<close>

theorem mulDivHalfUp_correct:
  "ledgerMulDivHalfUp x y z = mulDivHalfUp x y z \<and>
   (mulDivHalfUp x y z = Inr r \<longleftrightarrow>
     (\<exists>a b d. x = Whole a \<and> y = Whole b \<and> z = Whole d \<and> 0 \<le> a \<and> 0 \<le> b \<and> 0 < d \<and>
        2 * d * r \<le> 2 * (a * b) + d \<and> 2 * (a * b) + d < 2 * d * (r + 1) \<and> r \<le> MAX_SAFE))"
proof
  show "mulDivHalfUp x y z = Inr r \<longleftrightarrow>
     (\<exists>a b d. x = Whole a \<and> y = Whole b \<and> z = Whole d \<and> 0 \<le> a \<and> 0 \<le> b \<and> 0 < d \<and>
        2 * d * r \<le> 2 * (a * b) + d \<and> 2 * (a * b) + d < 2 * d * (r + 1) \<and> r \<le> MAX_SAFE)"
    unfolding mulDivHalfUp_eq_Inr using halfUpBig_iff by blast
qed (simp add: ledgerMulDivHalfUp_same)

text \<open>Apportioning a signed total of cents over basis points that make up the whole pie always
  succeeds, the parts sum to the total to the cent, every part has the sign of the total and is
  less than one cent away from its exact share.\<close>

theorem allocateCents_exact:
  assumes "\<forall>b \<in> set bs. 0 \<le> b" "sum_list bs = 10000"
  shows "\<exists>parts. allocateCents (Whole t) (map Whole bs) = Inr parts \<and>
    length parts = length bs \<and> sum_list parts = t \<and>
    (\<forall>i < length bs. \<bar>10000 * parts ! i - t * bs ! i\<bar> < 10000 \<and> 0 \<le> t * (parts ! i))"
proof -
  have near: "\<bar>10000 * largestRemainder m bs 10000 ! i - m * bs ! i\<bar> < 10000 \<and>
      0 \<le> largestRemainder m bs 10000 ! i"
    if "i < length bs" "0 \<le> m" for m i
  proof -
    define x where "x = m * bs ! i"
    define L where "L = largestRemainder m bs 10000 ! i"
    have "0 \<le> x"
      using that assms(1) by (simp add: x_def)
    moreover have "L \<noteq> x div 10000 + 1" if "x mod 10000 = 0"
      using largestRemainder_extra_positive[OF _ assms(2) \<open>i < length bs\<close>, of m] that
      by (auto simp: x_def L_def)
    moreover have "x div 10000 \<le> L" "L \<le> x div 10000 + 1"
      using largestRemainder_quota[of 10000 i bs m] that by (simp_all add: x_def L_def)
    moreover have "x = 10000 * (x div 10000) + x mod 10000" "0 \<le> x mod 10000" "x mod 10000 < 10000"
      "0 \<le> x div 10000"
      using \<open>0 \<le> x\<close> by (simp_all add: pos_imp_zdiv_nonneg_iff)
    ultimately have "\<bar>10000 * L - x\<bar> < 10000 \<and> 0 \<le> L"
      by (cases "x mod 10000 = 0"; cases "L = x div 10000") linarith+
    then show ?thesis
      by (simp add: x_def L_def)
  qed
  show ?thesis
  proof (cases "t < 0")
    case True
    have "\<bar>10000 * negate_parts (largestRemainder (- t) bs 10000) ! i - t * bs ! i\<bar> < 10000 \<and>
        0 \<le> t * negate_parts (largestRemainder (- t) bs 10000) ! i" if "i < length bs" for i
      using near[OF that, of "- t"] that True
      by (auto simp: abs_if mult_nonpos_nonneg split: if_splits)
    then show ?thesis
      using allocateCents_ok[OF assms] True by (simp add: largestRemainder_sum[OF _ assms(2)])
  next
    case False
    then show ?thesis
      using allocateCents_ok[OF assms] near by (simp add: largestRemainder_sum[OF _ assms(2)])
  qed
qed

theorem allocateCents_exact_witness:
  "\<exists>parts. allocateCents (Whole (- 100)) (map Whole [3333, 3333, 3334]) = Inr parts \<and>
    length parts = 3 \<and> sum_list parts = - 100"
  using allocateCents_exact[of "[3333, 3333, 3334]" "- 100"] by auto

text \<open>C36: The interline split computed from well-formed custody legs names each executing carrier
  once, its shares sum to 10000 basis points, each share is exactly the sum of the carrier's
  recorded basis points when the legs partition the whole, and the money projection's
  \<open>allocateCents\<close> accepts it for any gross and pays out exactly the gross.\<close>

theorem deriveSplitFromLegs_pays_the_gross:
  assumes "well_formed_legs legs" "0 < (\<Sum>l\<leftarrow>legs. leg_bps l)" "0 \<le> t"
  shows "\<exists>s parts. deriveSplitFromLegs legs (Whole t) = Inr s \<and> ds_total_cents s = t \<and>
    map da_party_id (ds_allocations s) = uniq (map cl_executor_party_id legs) \<and>
    sum_list (map da_share_bps (ds_allocations s)) = 10000 \<and>
    ((\<Sum>l\<leftarrow>legs. leg_bps l) = 10000 \<longrightarrow>
      (\<forall>a \<in> set (ds_allocations s). da_share_bps a = party_weight legs (da_party_id a))) \<and>
    allocateCents (Whole (ds_total_cents s))
      (map (Whole \<circ> da_share_bps) (ds_allocations s)) = Inr parts \<and>
    sum_list parts = t"
proof -
  let ?ps = "uniq (map cl_executor_party_id legs)"
  let ?T = "\<Sum>l\<leftarrow>legs. leg_bps l"
  let ?ws = "map (party_weight legs) ?ps"
  let ?b = "largestRemainder 10000 ?ws ?T"
  obtain s where s: "deriveSplitFromLegs legs (Whole t) = Inr s" "ds_total_cents s = t"
    "ds_allocations s = map (\<lambda>(p, b). \<lparr> da_party_id = p, da_share_bps = b \<rparr>) (zip ?ps ?b)"
    using deriveSplitFromLegs_value[OF assms] that by fastforce
  have parties: "map da_party_id (ds_allocations s) = ?ps"
    using s(3) by (simp add: comp_def case_prod_beta)
  have shares: "map da_share_bps (ds_allocations s) = ?b"
    using s(3) by (simp add: comp_def case_prod_beta)
  have T: "sum_list ?ws = ?T"
    by (rule sum_party_weights)
  have sum: "sum_list ?b = 10000"
    using largestRemainder_sum[OF assms(2) T] .
  have nonneg: "\<forall>b \<in> set ?b. 0 \<le> b"
    using assms(1,2) largestRemainder_nonneg[of ?T ?ws 10000] by (simp add: party_weight_nonneg)
  have exact: "\<forall>a \<in> set (ds_allocations s). da_share_bps a = party_weight legs (da_party_id a)"
    if "?T = 10000"
  proof
    fix a
    assume "a \<in> set (ds_allocations s)"
    then obtain i where "i < length ?ps" "a = \<lparr> da_party_id = ?ps ! i, da_share_bps = ?b ! i \<rparr>"
      using s(3) by (auto simp: set_zip)
    then show "da_share_bps a = party_weight legs (da_party_id a)"
      using largestRemainder_exact_share[of 10000 ?ws 10000 i] T that by simp
  qed
  obtain parts where "allocateCents (Whole t) (map Whole ?b) = Inr parts" "sum_list parts = t"
    using allocateCents_exact_sum[OF nonneg sum] by blast
  then show ?thesis
    using s(1,2) parties shares sum exact by (auto simp flip: map_map)
qed

theorem deriveSplitFromLegs_pays_the_gross_witness:
  "\<exists>s. deriveSplitFromLegs
     [\<lparr> cl_executor_party_id = ''a'', cl_split_bps = Whole 7000, cl_kind = None \<rparr>,
      \<lparr> cl_executor_party_id = ''b'', cl_split_bps = Whole 3000, cl_kind = None \<rparr>] (Whole 10001)
     = Inr s \<and> sum_list (map da_share_bps (ds_allocations s)) = 10000"
  using deriveSplitFromLegs_pays_the_gross[of
     "[\<lparr> cl_executor_party_id = ''a'', cl_split_bps = Whole 7000, cl_kind = None \<rparr>,
       \<lparr> cl_executor_party_id = ''b'', cl_split_bps = Whole 3000, cl_kind = None \<rparr>]" 10001]
  by (fastforce simp: well_formed_legs_def leg_bps_def)

end
