(* ===== verification/MoneyProjection.thy ===== *)
theory MoneyProjection
  imports Payload Money
begin

text \<open>
  \<open>packages/ledger/src/projection/money.ts\<close>: the money lines and the invoice row an event implies. The
  function is total on the 35 kinds and throws in two places plus in \<open>allocateCents\<close>. Party and
  division of a line may come from a free JSON payload, so they are JavaScript strings. A sum of
  invoice lines stays below the safe integers for the catalog's \<open>Cents\<close> bound and fewer than nine
  thousand lines, and is an \<open>int\<close> here.
\<close>

section \<open>Rows\<close>

datatype money_direction = AR | AP

datatype money_kind =
    Charge money_line_kind
  | CorrectionCredit
  | CorrectionDebit
  | InterlineSplit
  | SettleFee

record money_row =
  ml_id :: string
  ml_shipment_id :: "string option"
  ml_event_id :: string
  ml_line_no :: int
  ml_direction :: money_direction
  ml_kind :: money_kind
  ml_amount_cents :: int
  ml_currency :: string
  ml_party_id :: jstr
  ml_division :: jstr
  ml_gl_map :: string
  ml_corrects_event_id :: "string option"
  ml_basis :: string
  ml_created_ts :: int

datatype invoice_upsert =
    InvoiceInsert (up_id: string) (up_party_id: string) (up_division: string) (up_shipment_ids: "string list")
      (up_total_cents: int) (up_status: string) (up_issued_event_id: string) (up_terms: "string option")
      (up_due_ts: "int option")
  | InvoiceUpdate (up_id: string) (up_total_cents: int) (up_status: string) (up_issued_event_id: string)
  | InvoiceVoid (up_id: string) (up_total_cents: int) (up_status: string)
  | InvoiceSettle (up_id: string) (up_status: string)

record original_line =
  ol_line_no :: int
  ol_amount_cents :: int
  ol_gl_map :: string
  ol_party_id :: jstr
  ol_division :: jstr

record settle_target =
  st_id :: string
  st_total_cents :: int

record money_deps =
  originalLines :: "original_line list option"
  deps_division :: "jstr option"
  termsDays :: "int option"
  settleInvoice :: "settle_target option"

datatype projection_error =
    ReissueNeedsOriginals
  | CodAmountRequired
  | AllocationFailed money_error

record money_projection =
  mp_lines :: "money_row list"
  mp_invoices :: "invoice_upsert list"

definition DEFAULT_TERMS_DAYS :: int where "DEFAULT_TERMS_DAYS = 30"
definition DAY_MS :: int where "DAY_MS = 86400000"

definition INTERLINE_GL :: string where "INTERLINE_GL = ''5000-INTERLINE-AP''"
definition COD_GL :: string where "COD_GL = ''1300-COD-CLEARING''"
definition SETTLE_GL :: string where "SETTLE_GL = ''5100-SETTLEMENT-FEE''"

section \<open>The projection\<close>

definition intText :: "int \<Rightarrow> string" where
  "intText i = map char_of (numText i)"

definition lineId :: "payload ledger_event \<Rightarrow> int \<Rightarrow> string" where
  "lineId e n = ev_id e @ ''#'' @ intText n"

definition money_row_of ::
  "payload ledger_event \<Rightarrow> int \<Rightarrow> money_direction \<Rightarrow> money_kind \<Rightarrow> int \<Rightarrow> jstr \<Rightarrow> jstr \<Rightarrow> string \<Rightarrow> string option \<Rightarrow>
   money_row"
where
  "money_row_of e n dir k amount party division gl corrects =
     \<lparr> ml_id = lineId e n, ml_shipment_id = shipment_id e, ml_event_id = ev_id e, ml_line_no = n,
        ml_direction = dir, ml_kind = k, ml_amount_cents = amount, ml_currency = ''USD'', ml_party_id = party,
        ml_division = division, ml_gl_map = gl, ml_corrects_event_id = corrects, ml_basis = ''{}'',
        ml_created_ts = recorded_at e \<rparr>"

definition nothing :: money_projection where
  "nothing = \<lparr> mp_lines = [], mp_invoices = [] \<rparr>"

definition projectIssued :: "payload ledger_event \<Rightarrow> invoice_issued \<Rightarrow> money_deps \<Rightarrow> money_projection" where
  "projectIssued e p deps =
     \<lparr> mp_lines = map (\<lambda>l. money_row_of e (line_no l) AR (Charge (il_kind l)) (il_amount_cents l)
          (jlit (ii_party_id p)) (jlit (ii_division p)) (gl_map l) None) (ii_lines p),
        mp_invoices = [InvoiceInsert (ii_invoice_id p) (ii_party_id p) (ii_division p)
          (case shipment_id e of None \<Rightarrow> [] | Some s \<Rightarrow> [s])
          (sum_list (map il_amount_cents (ii_lines p))) ''issued'' (ev_id e)
          (map_option (\<lambda>d. ''net'' @ intText d) (termsDays deps))
          (map_option (\<lambda>d. ts e + d * DAY_MS) (termsDays deps))] \<rparr>"

definition reversals :: "payload ledger_event \<Rightarrow> string \<Rightarrow> original_line list \<Rightarrow> money_row list" where
  "reversals e corrected originals =
     map (\<lambda>(j, o'). money_row_of e (int j + 1) AR CorrectionCredit (- ol_amount_cents o') (ol_party_id o')
        (ol_division o') (ol_gl_map o') (Some corrected)) (List.enumerate 0 originals)"

definition reissues ::
  "payload ledger_event \<Rightarrow> nat \<Rightarrow> jstr \<Rightarrow> jstr \<Rightarrow> invoice_line list \<Rightarrow> money_row list" where
  "reissues e credits party division lines =
     map (\<lambda>(j, l). money_row_of e (int credits + int j + 1) AR CorrectionDebit (il_amount_cents l) party
        division (gl_map l) None) (List.enumerate 0 lines)"

definition projectCorrected ::
  "payload ledger_event \<Rightarrow> invoice_corrected \<Rightarrow> money_deps \<Rightarrow> projection_error + money_projection" where
  "projectCorrected e p deps =
     (let originals = (case originalLines deps of None \<Rightarrow> [] | Some os \<Rightarrow> os);
          credits = reversals e (corrects_event_id p) originals in
      if reissue_lines p \<noteq> [] \<and> originals = [] then Inl ReissueNeedsOriginals
      else
        Inr \<lparr> mp_lines = credits @ reissues e (length credits)
                (case originals of [] \<Rightarrow> [] | o' # _ \<Rightarrow> ol_party_id o')
                (case originals of [] \<Rightarrow> [] | o' # _ \<Rightarrow> ol_division o') (reissue_lines p),
              mp_invoices =
                (if reissue_lines p = [] then [InvoiceVoid (ic_invoice_id p) 0 ''void'']
                 else [InvoiceUpdate (ic_invoice_id p) (sum_list (map il_amount_cents (reissue_lines p)))
                   ''issued'' (ev_id e)]) \<rparr>)"

definition split_rows ::
  "payload ledger_event \<Rightarrow> jstr \<Rightarrow> split_allocation list \<Rightarrow> int list \<Rightarrow> money_row list" where
  "split_rows e division allocations cents =
     concat (map (\<lambda>(j, a).
       let amount = (if j < length cents then cents ! j else 0) in
       if amount = 0 then []
       else [money_row_of e (int j + 1) AP InterlineSplit amount (jlit (sa_party_id a)) division INTERLINE_GL None])
     (List.enumerate 0 allocations))"

definition projectSplit ::
  "payload ledger_event \<Rightarrow> split_computed \<Rightarrow> money_deps \<Rightarrow> projection_error + money_projection" where
  "projectSplit e p deps =
     (case allocateCents (Whole (sc_total_cents p)) (map (\<lambda>a. Whole (sa_share_bps a)) (sc_allocations p)) of
        Inl err \<Rightarrow> Inl (AllocationFailed err)
      | Inr cents \<Rightarrow>
          Inr \<lparr> mp_lines = split_rows e
                  (case deps_division deps of None \<Rightarrow> jlit ''main'' | Some d \<Rightarrow> d) (sc_allocations p) cents,
                mp_invoices = [] \<rparr>)"

definition payer :: "payload ledger_event \<Rightarrow> jstr" where
  "payer e = (case asText (readField (payload e) ''party_id'') of None \<Rightarrow> jlit (act_party (actor e)) | Some s \<Rightarrow> s)"

definition division_of :: "payload ledger_event \<Rightarrow> money_deps \<Rightarrow> jstr" where
  "division_of e deps =
     (case asText (readField (payload e) ''division'') of
        Some s \<Rightarrow> s
      | None \<Rightarrow> (case deps_division deps of Some d \<Rightarrow> d | None \<Rightarrow> jlit ''main''))"

definition projectPayment :: "payload ledger_event \<Rightarrow> money_deps \<Rightarrow> projection_error + money_projection" where
  "projectPayment e deps =
     (let amount = asInt (readField (payload e) ''amount_cents'');
          settle = (case (settleInvoice deps, amount) of
             (Some target, Some a) \<Rightarrow>
               if \<bar>a\<bar> \<ge> st_total_cents target then [InvoiceSettle (st_id target) ''paid''] else []
           | _ \<Rightarrow> []) in
      if asText (readField (payload e) ''method'') \<noteq> Some (jlit ''cod'')
      then Inr \<lparr> mp_lines = [], mp_invoices = settle \<rparr>
      else (case amount of
          None \<Rightarrow> Inl CodAmountRequired
        | Some a \<Rightarrow>
            Inr \<lparr> mp_lines = [money_row_of e 1 AR (Charge CodCollect) (- \<bar>a\<bar>) (payer e) (division_of e deps)
                    COD_GL None],
                  mp_invoices = settle \<rparr>))"

definition projectSettlement :: "payload ledger_event \<Rightarrow> money_deps \<Rightarrow> money_projection" where
  "projectSettlement e deps =
     (case asInt (readField (payload e) ''fee_cents'') of
        None \<Rightarrow> nothing
      | Some fee \<Rightarrow>
          if fee = 0 then nothing
          else \<lparr> mp_lines = [money_row_of e 1 AP SettleFee fee (payer e) (division_of e deps) SETTLE_GL None],
                 mp_invoices = [] \<rparr>)"

definition projectMoneyLines ::
  "payload ledger_event \<Rightarrow> money_deps \<Rightarrow> projection_error + money_projection" where
  "projectMoneyLines e deps =
     (case payload e of
        InvoiceIssuedP p \<Rightarrow> Inr (projectIssued e p deps)
      | InvoiceCorrectedP p \<Rightarrow> projectCorrected e p deps
      | SplitComputedP p \<Rightarrow> projectSplit e p deps
      | _ \<Rightarrow>
          if kind e = PaymentReceived then projectPayment e deps
          else if kind e = SettlementExecuted then Inr (projectSettlement e deps)
          else Inr nothing)"

section \<open>The tables\<close>

text \<open>The guards of \<open>money_lines\<close> (\<open>0002\<close>, \<open>0003\<close>, \<open>0008\<close>): the BEFORE INSERT triggers run before the CHECK.\<close>

datatype db_refusal = AppendOnlyLines | ZeroAmount

definition lineRefused :: "money_row list \<Rightarrow> money_row \<Rightarrow> db_refusal option" where
  "lineRefused db r = firstSome
     [guard (list_ex (\<lambda>x. ml_id x = ml_id r \<or> (ml_event_id x = ml_event_id r \<and> ml_line_no x = ml_line_no r)) db)
        AppendOnlyLines,
      guard (ml_corrects_event_id r \<noteq> None \<and>
          list_ex (\<lambda>x. ml_corrects_event_id x = ml_corrects_event_id r \<and> ml_line_no x = ml_line_no r) db)
        AppendOnlyLines,
      guard (ml_amount_cents r = 0) ZeroAmount]"

fun insertLines :: "money_row list \<Rightarrow> money_row list \<Rightarrow> db_refusal + money_row list" where
  "insertLines db [] = Inr db"
| "insertLines db (r # rs) =
     (case lineRefused db r of Some err \<Rightarrow> Inl err | None \<Rightarrow> insertLines (db @ [r]) rs)"

text \<open>The read of \<open>#moneyDeps\<close> for a correction: the in-effect lines of the corrected event.\<close>

definition originalsOf :: "money_row list \<Rightarrow> string \<Rightarrow> original_line list" where
  "originalsOf db eventId =
     map (\<lambda>r. \<lparr> ol_line_no = ml_line_no r, ol_amount_cents = ml_amount_cents r, ol_gl_map = ml_gl_map r,
            ol_party_id = ml_party_id r, ol_division = ml_division r \<rparr>)
       (sort_key ml_line_no (filter (\<lambda>r. ml_event_id r = eventId \<and> ml_amount_cents r > 0) db))"

section \<open>Lemmas\<close>

lemma money_row_of_simps [simp]:
  "ml_event_id (money_row_of e n dir k a p d g c) = ev_id e"
  "ml_line_no (money_row_of e n dir k a p d g c) = n"
  "ml_direction (money_row_of e n dir k a p d g c) = dir"
  "ml_kind (money_row_of e n dir k a p d g c) = k"
  "ml_amount_cents (money_row_of e n dir k a p d g c) = a"
  "ml_corrects_event_id (money_row_of e n dir k a p d g c) = c"
  "ml_id (money_row_of e n dir k a p d g c) = lineId e n"
  "ml_shipment_id (money_row_of e n dir k a p d g c) = shipment_id e"
  by (simp_all add: money_row_of_def)

definition amount_of :: "money_row list \<Rightarrow> int" where
  "amount_of rows = sum_list (map ml_amount_cents rows)"

definition in_effect :: "money_row list \<Rightarrow> string \<Rightarrow> int" where
  "in_effect db i = amount_of (filter (\<lambda>r. ml_event_id r = i \<and> ml_amount_cents r > 0) db)"

lemma amount_of_simps [simp]:
  "amount_of [] = 0" "amount_of (r # rs) = ml_amount_cents r + amount_of rs"
  "amount_of (xs @ ys) = amount_of xs + amount_of ys"
  by (simp_all add: amount_of_def)

lemma in_effect_append [simp]: "in_effect (xs @ ys) i = in_effect xs i + in_effect ys i"
  by (simp add: in_effect_def)

lemma map_enumerate_snd: "map (\<lambda>(j, x). f x) (List.enumerate n xs) = map f xs"
  by (induction xs arbitrary: n) simp_all

lemma sum_enumerate: "sum_list (map (\<lambda>(j, x). f x) (List.enumerate n xs)) = sum_list (map f xs)"
  by (simp only: map_enumerate_snd)

lemma sum_list_sort_key: "sum_list (map f (sort_key k xs)) = sum_list (map (f :: 'a \<Rightarrow> int) xs)"
proof -
  have "mset (sort_key k xs) = mset xs"
    by simp
  then show ?thesis
    by (metis mset_map sum_mset_sum_list)
qed

lemma originalsOf_sum: "sum_list (map ol_amount_cents (originalsOf db i)) = in_effect db i"
  by (simp add: originalsOf_def comp_def sum_list_sort_key in_effect_def amount_of_def)

lemma originalsOf_positive: "o' \<in> set (originalsOf db i) \<Longrightarrow> 0 < ol_amount_cents o'"
  by (auto simp: originalsOf_def)

lemma originalsOf_empty: "originalsOf db i = [] \<longleftrightarrow> (\<forall>r \<in> set db. ml_event_id r = i \<longrightarrow> \<not> 0 < ml_amount_cents r)"
proof -
  have "sort_key k xs = [] \<longleftrightarrow> xs = []" for k :: "money_row \<Rightarrow> int" and xs
    by (metis length_0_conv length_sort)
  then show ?thesis
    by (auto simp: originalsOf_def filter_empty_conv)
qed

lemma in_effect_empty: "originalsOf db i = [] \<Longrightarrow> in_effect db i = 0"
  using originalsOf_sum[of db i] by simp

lemma amount_reversals: "amount_of (reversals e c os) = - sum_list (map ol_amount_cents os)"
proof -
  have "amount_of (reversals e c os) = sum_list (map (\<lambda>(j, o'). - ol_amount_cents o') (List.enumerate 0 os))"
    by (simp add: amount_of_def reversals_def comp_def case_prod_unfold)
  then show ?thesis
    by (simp add: sum_enumerate) (simp add: uminus_sum_list_map comp_def)
qed

lemma amount_reissues: "amount_of (reissues e n p d ls) = sum_list (map il_amount_cents ls)"
proof -
  have "amount_of (reissues e n p d ls) = sum_list (map (\<lambda>(j, l). il_amount_cents l) (List.enumerate 0 ls))"
    by (simp add: amount_of_def reissues_def comp_def case_prod_unfold)
  then show ?thesis
    by (simp add: sum_enumerate)
qed

lemma reversals_members:
  "r \<in> set (reversals e c os) \<Longrightarrow>
     ml_event_id r = ev_id e \<and> ml_corrects_event_id r = Some c \<and> (\<exists>o' \<in> set os. ml_amount_cents r = - ol_amount_cents o')"
  by (auto simp: reversals_def in_set_enumerate_eq)

lemma reissues_members:
  "r \<in> set (reissues e n p d ls) \<Longrightarrow>
     ml_event_id r = ev_id e \<and> ml_corrects_event_id r = None \<and> (\<exists>l \<in> set ls. ml_amount_cents r = il_amount_cents l)"
  by (auto simp: reissues_def in_set_enumerate_eq)

lemma reversals_first:
  "os \<noteq> [] \<Longrightarrow> \<exists>r \<in> set (reversals e c os). ml_corrects_event_id r = Some c \<and> ml_line_no r = 1"
  by (cases os) (auto simp: reversals_def)

lemma reversals_length [simp]: "length (reversals e c os) = length os"
  by (simp add: reversals_def)

lemma insertLines_accepts:
  "insertLines db rs = Inr db' \<Longrightarrow> db' = db @ rs \<and> (\<forall>r \<in> set rs. lineRefused db r = None)"
proof (induction rs arbitrary: db db')
  case (Cons r rs)
  have now: "lineRefused db r = None" and later: "insertLines (db @ [r]) rs = Inr db'"
    using Cons.prems by (simp_all split: option.splits)
  have "db' = (db @ [r]) @ rs \<and> (\<forall>x \<in> set rs. lineRefused (db @ [r]) x = None)"
    using Cons.IH[OF later] .
  moreover have "lineRefused db x = None" if "lineRefused (db @ [r]) x = None" for x
    using that by (auto simp: lineRefused_def guard_def split: option.splits if_splits)
  ultimately show ?case
    using now by simp
qed simp

lemma lineRefused_corrects:
  assumes "lineRefused db r = None" "ml_corrects_event_id r = Some c"
  shows "\<not> (\<exists>x \<in> set db. ml_corrects_event_id x = Some c \<and> ml_line_no x = ml_line_no r)"
  using assms by (auto simp: lineRefused_def list_ex_iff guard_def split: if_splits)

section \<open>The history of one invoice\<close>

definition header_total :: "money_projection \<Rightarrow> int" where
  "header_total m = (case hd (mp_invoices m) of
       InvoiceInsert _ _ _ _ t _ _ _ _ \<Rightarrow> t
     | InvoiceUpdate _ t _ _ \<Rightarrow> t
     | InvoiceVoid _ t _ \<Rightarrow> t
     | InvoiceSettle _ _ \<Rightarrow> 0)"

text \<open>\<open>invoice_book iid db es t\<close>: after the events \<open>es\<close> (latest first), one issue and any number of
  accepted corrections of invoice \<open>iid\<close>, the tables hold the lines \<open>db\<close> and a header with total \<open>t\<close>.\<close>

inductive invoice_book :: "string \<Rightarrow> money_row list \<Rightarrow> string list \<Rightarrow> int \<Rightarrow> bool" for iid where
  book_issued:
    "\<lbrakk>payload e = InvoiceIssuedP p; InvoiceIssued_ok p; ii_invoice_id p = iid;
      projectMoneyLines e deps = Inr m; insertLines [] (mp_lines m) = Inr db\<rbrakk>
     \<Longrightarrow> invoice_book iid db [ev_id e] (header_total m)"
| book_corrected:
    "\<lbrakk>invoice_book iid db es t; payload e = InvoiceCorrectedP p; InvoiceCorrected_ok p; ic_invoice_id p = iid;
      corrects_event_id p \<in> set es; ev_id e \<notin> set es;
      originalLines deps = Some (originalsOf db (corrects_event_id p));
      projectMoneyLines e deps = Inr m; insertLines db (mp_lines m) = Inr db'\<rbrakk>
     \<Longrightarrow> invoice_book iid db' (ev_id e # es) (header_total m)"

definition book_inv :: "money_row list \<Rightarrow> string list \<Rightarrow> int \<Rightarrow> bool" where
  "book_inv db es t \<longleftrightarrow>
     es \<noteq> [] \<and> amount_of db = t \<and> in_effect db (hd es) = t \<and> (\<forall>r \<in> set db. ml_event_id r \<in> set es) \<and>
     (\<forall>c \<in> set (tl es). originalsOf db c \<noteq> [] \<longrightarrow>
        (\<exists>r \<in> set db. ml_corrects_event_id r = Some c \<and> ml_line_no r = 1)) \<and>
     ((\<exists>c \<in> set es. originalsOf db c = []) \<longrightarrow> originalsOf db (hd es) = [])"

lemma originalsOf_append_foreign:
  "(\<And>r. r \<in> set rs \<Longrightarrow> ml_event_id r \<noteq> c) \<Longrightarrow> originalsOf (db @ rs) c = originalsOf db c"
proof -
  assume "\<And>r. r \<in> set rs \<Longrightarrow> ml_event_id r \<noteq> c"
  then have "filter (\<lambda>r. ml_event_id r = c \<and> ml_amount_cents r > 0) rs = []"
    by (auto simp: filter_empty_conv)
  then show ?thesis
    by (simp add: originalsOf_def)
qed

lemma in_effect_positive:
  "(\<And>r. r \<in> set rs \<Longrightarrow> ml_event_id r = c \<and> 0 < ml_amount_cents r) \<Longrightarrow> in_effect rs c = amount_of rs"
  by (simp add: in_effect_def filter_id_conv[THEN iffD2])

lemma in_effect_negative:
  "(\<And>r. r \<in> set rs \<Longrightarrow> \<not> (ml_event_id r = c \<and> 0 < ml_amount_cents r)) \<Longrightarrow> in_effect rs c = 0"
  by (simp add: in_effect_def filter_False)

lemma projectCorrected_rows:
  assumes "projectCorrected e p deps = Inr m" "originalLines deps = Some os"
  shows "\<exists>q d. mp_lines m = reversals e (corrects_event_id p) os @ reissues e (length os) q d (reissue_lines p)
    \<and> header_total m = sum_list (map il_amount_cents (reissue_lines p))
    \<and> (os = [] \<longrightarrow> reissue_lines p = [])"
  using assms
  by (intro exI[of _ "case os of [] \<Rightarrow> [] | o' # x \<Rightarrow> ol_party_id o'"]
      exI[of _ "case os of [] \<Rightarrow> [] | o' # x \<Rightarrow> ol_division o'"])
    (auto simp: projectCorrected_def header_total_def Let_def split: if_splits)

lemma book_inv_corrected:
  assumes iid: "book_inv db es t"
    and c: "corrects_event_id p \<in> set es" and fresh: "ev_id e \<notin> set es"
    and ok: "InvoiceCorrected_ok p"
    and proj: "projectCorrected e p deps = Inr m"
    and deps: "originalLines deps = Some (originalsOf db (corrects_event_id p))"
    and ins: "insertLines db (mp_lines m) = Inr db'"
  shows "book_inv db' (ev_id e # es) (header_total m)"
proof -
  let ?c = "corrects_event_id p" and ?R = "sum_list (map il_amount_cents (reissue_lines p))"
  define os where "os = originalsOf db ?c"
  obtain q d where lines: "mp_lines m = reversals e ?c os @ reissues e (length os) q d (reissue_lines p)"
    and header: "header_total m = ?R" and none: "os = [] \<longrightarrow> reissue_lines p = []"
    using projectCorrected_rows[OF proj deps] unfolding os_def by blast
  define rev where "rev = reversals e ?c os"
  define reis where "reis = reissues e (length os) q d (reissue_lines p)"
  have db': "db' = db @ rev @ reis" and accepted: "\<forall>r \<in> set (rev @ reis). lineRefused db r = None"
    using insertLines_accepts[OF ins] lines by (simp_all add: rev_def reis_def)
  have parts: "es \<noteq> []" "amount_of db = t" "in_effect db (hd es) = t" "\<forall>r \<in> set db. ml_event_id r \<in> set es"
    "\<forall>c \<in> set (tl es). originalsOf db c \<noteq> [] \<longrightarrow> (\<exists>r \<in> set db. ml_corrects_event_id r = Some c \<and> ml_line_no r = 1)"
    "(\<exists>c \<in> set es. originalsOf db c = []) \<longrightarrow> originalsOf db (hd es) = []"
    using iid by (simp_all add: book_inv_def)
  have latest: "?c = hd es \<or> os = []"
  proof (rule ccontr)
    assume "\<not> (?c = hd es \<or> os = [])"
    then have "?c \<in> set (tl es)" and some: "os \<noteq> []"
      using c parts(1) by (cases es; auto)+
    then obtain r where "r \<in> set db" "ml_corrects_event_id r = Some ?c" "ml_line_no r = 1"
      using parts(5) unfolding os_def by blast
    moreover obtain r' where "r' \<in> set rev" "ml_corrects_event_id r' = Some ?c" "ml_line_no r' = 1"
      using reversals_first[OF some] unfolding rev_def by blast
    ultimately show False
      using accepted lineRefused_corrects[of db r' ?c] by auto
  qed
  have removed: "in_effect db ?c = t"
    using latest
  proof
    assume "os = []"
    then have "originalsOf db (hd es) = []" "in_effect db ?c = 0"
      using parts(6) c in_effect_empty by (auto simp: os_def)
    then show ?thesis
      using in_effect_empty[of db "hd es"] parts(3) by simp
  qed (use parts(3) in simp)
  have reis_pos: "ml_event_id r = ev_id e \<and> 0 < ml_amount_cents r" if "r \<in> set reis" for r
    using that ok reissues_members by (fastforce simp: reis_def InvoiceCorrected_ok_def InvoiceLine_ok_def list_all_iff)
  have rev_neg: "ml_event_id r = ev_id e \<and> ml_amount_cents r < 0" if "r \<in> set rev" for r
    using that reversals_members[of r e ?c os] originalsOf_positive[of _ db ?c] by (auto simp: rev_def os_def)
  have unchanged: "originalsOf db' x = originalsOf db x" if "x \<in> set es" for x
    unfolding db' using that fresh rev_neg reis_pos by (intro originalsOf_append_foreign) auto
  have "amount_of db' = ?R"
    using parts(2) removed
    by (simp add: db' rev_def reis_def amount_reversals amount_reissues os_def originalsOf_sum)
  moreover have "in_effect db' (ev_id e) = ?R"
  proof -
    have "in_effect db (ev_id e) = 0"
      using parts(4) fresh by (intro in_effect_negative) auto
    moreover have "in_effect rev (ev_id e) = 0"
      using rev_neg by (intro in_effect_negative) fastforce
    moreover have "in_effect reis (ev_id e) = ?R"
      using reis_pos in_effect_positive[of reis "ev_id e"] by (simp add: reis_def amount_reissues)
    ultimately show ?thesis
      by (simp add: db')
  qed
  moreover have "\<forall>r \<in> set db'. ml_event_id r \<in> set (ev_id e # es)"
    using parts(4) rev_neg reis_pos by (auto simp: db')
  moreover have "\<exists>r \<in> set db'. ml_corrects_event_id r = Some x \<and> ml_line_no r = 1"
    if x: "x \<in> set es" "originalsOf db' x \<noteq> []" for x
  proof (cases "x = hd es")
    case False
    then have "x \<in> set (tl es)"
      using x(1) by (cases es) auto
    then show ?thesis
      using parts(5) x unchanged by (auto simp: db')
  next
    case True
    then have "os \<noteq> [] \<and> ?c = x"
      using latest x unchanged[OF x(1)] parts(6) c os_def by metis
    then show ?thesis
      using reversals_first[of os e ?c] by (auto simp: db' rev_def)
  qed
  moreover have "originalsOf db' (ev_id e) = []" if "x \<in> set es" "originalsOf db' x = []" for x
  proof -
    have "os = []"
      using that unchanged parts(6) latest by (auto simp: os_def)
    then have "db' = db"
      using none by (simp add: db' rev_def reis_def reversals_def reissues_def)
    then show ?thesis
      using parts(4) fresh by (auto simp: originalsOf_empty)
  qed
  ultimately show ?thesis
    by (auto simp: book_inv_def header)
qed

lemma book_inv_issued:
  assumes "InvoiceIssued_ok p" "insertLines [] (mp_lines (projectIssued e p deps)) = Inr db"
  shows "book_inv db [ev_id e] (header_total (projectIssued e p deps))"
proof -
  have db: "db = mp_lines (projectIssued e p deps)"
    using insertLines_accepts[OF assms(2)] by simp
  have rows: "ml_event_id r = ev_id e \<and> 0 < ml_amount_cents r" if "r \<in> set db" for r
    using that assms(1) unfolding db
    by (fastforce simp: projectIssued_def InvoiceIssued_ok_def InvoiceLine_ok_def list_all_iff)
  have "amount_of db = header_total (projectIssued e p deps)"
    by (simp add: db amount_of_def projectIssued_def header_total_def comp_def)
  then show ?thesis
    using rows in_effect_positive[of db "ev_id e"] by (auto simp: book_inv_def)
qed

lemma invoice_book_inv: "invoice_book iid db es t \<Longrightarrow> book_inv db es t"
proof (induction rule: invoice_book.induct)
  case (book_issued e p deps m db)
  then show ?case
    using book_inv_issued by (auto simp: projectMoneyLines_def)
next
  case (book_corrected db es t e p deps m db')
  then show ?case
    using book_inv_corrected[of db es t p e deps m db'] by (simp add: projectMoneyLines_def)
qed


definition invoice_a :: invoice_issued where
  "invoice_a = \<lparr> ii_invoice_id = ''A'', ii_party_id = ''p'', ii_division = ''main'',
     ii_lines = [\<lparr> line_no = 1, il_kind = Freight, il_amount_cents = 100, gl_map = ''4000'' \<rparr>] \<rparr>"

definition void_of :: "string \<Rightarrow> string \<Rightarrow> invoice_corrected" where
  "void_of iid corrected = \<lparr> ic_invoice_id = iid, corrects_event_id = corrected, ic_reason = ''void'', reissue_lines = [] \<rparr>"

definition no_deps :: money_deps where
  "no_deps = \<lparr> originalLines = None, deps_division = None, termsDays = None, settleInvoice = None \<rparr>"

lemma sample_book: "\<exists>db. invoice_book ''A'' db [''e2'', ''e1''] 0"
proof -
  let ?e1 = "typed_event ''e1'' InvoiceIssued (InvoiceIssuedP invoice_a)"
  let ?e2 = "typed_event ''e2'' InvoiceCorrected (InvoiceCorrectedP (void_of ''A'' ''e1''))"
  let ?m1 = "projectIssued ?e1 invoice_a no_deps"
  have one: "invoice_book ''A'' (mp_lines ?m1) [''e1''] (header_total ?m1)"
    using book_issued[of ?e1 invoice_a "''A''" no_deps ?m1 "mp_lines ?m1"]
    by (simp add: projectMoneyLines_def InvoiceIssued_ok_def InvoiceLine_ok_def invoice_a_def CENTS_MAX_def
        projectIssued_def lineRefused_def)
  let ?os = "originalsOf (mp_lines ?m1) ''e1''"
  obtain m2 where m2: "projectMoneyLines ?e2 (no_deps \<lparr> originalLines := Some ?os \<rparr>) = Inr m2"
    and h: "header_total m2 = 0" and rows: "mp_lines m2 = reversals ?e2 ''e1'' ?os"
    by (simp add: projectMoneyLines_def projectCorrected_def void_of_def header_total_def reissues_def)
  have "\<exists>db'. insertLines (mp_lines ?m1) (mp_lines m2) = Inr db'"
    by (simp add: rows reversals_def originalsOf_def projectIssued_def invoice_a_def lineRefused_def
        money_row_of_def lineId_def)
  then obtain db' where "insertLines (mp_lines ?m1) (mp_lines m2) = Inr db'"
    by blast
  then have "invoice_book ''A'' db' [''e2'', ''e1''] 0"
    using book_corrected[OF one, of ?e2 "void_of ''A'' ''e1''" "no_deps \<lparr> originalLines := Some ?os \<rparr>" m2 db'] m2 h
    by (simp add: void_of_def InvoiceCorrected_ok_def)
  then show ?thesis
    by blast
qed


section \<open>Splits, payments and totality\<close>

lemma split_rows_amount:
  assumes "length cents = length as"
  shows "amount_of (split_rows e d as cents) = sum_list cents"
proof -
  have "amount_of (split_rows e d as cents) = sum_list (map (\<lambda>(j, a). cents ! j) (List.enumerate 0 as))"
  proof -
    have "amount_of (concat (map f xs)) = sum_list (map (\<lambda>x. amount_of (f x)) xs)" for f and xs :: "(nat \<times> split_allocation) list"
      by (induction xs) simp_all
    moreover have "j < length cents" if "(j, a) \<in> set (List.enumerate 0 as)" for j a
      using that assms by (auto simp: in_set_enumerate_eq)
    ultimately show ?thesis
      by (auto simp: split_rows_def Let_def intro!: arg_cong[where f = sum_list])
  qed
  also have "\<dots> = sum_list (map ((!) cents) (map fst (List.enumerate 0 as)))"
    by (simp only: map_map comp_def case_prod_unfold)
  also have "map fst (List.enumerate 0 as) = [0..<length cents]"
    using assms by simp
  finally show ?thesis
    by (simp only: map_nth)
qed

lemma split_rows_member:
  assumes "r \<in> set (split_rows e d as cents)" "\<forall>x \<in> set cents. 0 \<le> x"
  shows "0 < ml_amount_cents r \<and> ml_direction r = AP \<and> ml_event_id r = ev_id e"
proof -
  obtain j where j: "j < length cents" "cents ! j \<noteq> 0"
    and r: "ml_amount_cents r = cents ! j" "ml_direction r = AP" "ml_event_id r = ev_id e"
    using assms(1) by (auto simp: split_rows_def Let_def split: if_splits)
  then have "0 \<le> cents ! j"
    using assms(2) nth_mem by blast
  then show ?thesis
    using j r by simp
qed

lemma split_rows_line_nos:
  "\<exists>js. map ml_line_no (split_rows e d as cents) = map (\<lambda>j. int j + 1) js \<and> sorted js \<and> distinct js"
proof -
  let ?pay = "\<lambda>j. (if j < length cents then cents ! j else 0) \<noteq> 0"
  have "map ml_line_no (concat (map (\<lambda>(j, a).
       let amount = (if j < length cents then cents ! j else 0) in
       if amount = 0 then []
       else [money_row_of e (int j + 1) AP InterlineSplit amount (jlit (sa_party_id a)) d INTERLINE_GL None]) xs))
     = map (\<lambda>j. int j + 1) (filter ?pay (map fst xs))" for xs
    by (induction xs) (auto simp: Let_def)
  from this[of "List.enumerate 0 as"]
  have "map ml_line_no (split_rows e d as cents) = map (\<lambda>j. int j + 1) (filter ?pay (map fst (List.enumerate 0 as)))"
    unfolding split_rows_def .
  also have "map fst (List.enumerate 0 as) = [0..<length as]"
    by simp
  finally show ?thesis
    by (intro exI[of _ "filter ?pay [0..<length as]"]) (simp add: sorted_wrt_filter)
qed

text \<open>A split that the schema admits always projects, and the payable lines it projects pay out exactly
  the gross: each is positive, no carrier line carries zero, and the line numbers are distinct.\<close>

theorem split_projection_pays_the_gross:
  assumes "payload e = SplitComputedP p" "SplitComputed_ok p"
  shows "\<exists>m. projectMoneyLines e deps = Inr m \<and>
    sum_list (map ml_amount_cents (mp_lines m)) = sc_total_cents p \<and>
    (\<forall>r \<in> set (mp_lines m). 0 < ml_amount_cents r \<and> ml_direction r = AP \<and> ml_event_id r = ev_id e) \<and>
    distinct (map ml_line_no (mp_lines m)) \<and> mp_invoices m = []"
proof -
  let ?bs = "map sa_share_bps (sc_allocations p)" and ?t = "sc_total_cents p"
  have bs: "\<forall>b \<in> set ?bs. 0 \<le> b" "sum_list ?bs = 10000" and t: "0 \<le> ?t"
    using assms(2) by (auto simp: SplitComputed_ok_def list_all_iff)
  define cents where "cents = largestRemainder ?t ?bs 10000"
  have alloc: "allocateCents (Whole ?t) (map (\<lambda>a. Whole (sa_share_bps a)) (sc_allocations p)) = Inr cents"
    using allocateCents_ok[OF bs, of ?t] t by (simp add: cents_def comp_def)
  define d where "d = (case deps_division deps of None \<Rightarrow> jlit ''main'' | Some d \<Rightarrow> d)"
  let ?m = "\<lparr> mp_lines = split_rows e d (sc_allocations p) cents, mp_invoices = [] \<rparr>"
  have "projectMoneyLines e deps = Inr ?m"
    by (simp add: projectMoneyLines_def projectSplit_def assms(1) alloc d_def)
  moreover have "sum_list (map ml_amount_cents (mp_lines ?m)) = ?t"
    using split_rows_amount[of cents "sc_allocations p" e d] largestRemainder_sum[OF _ bs(2), of ?t]
    by (simp add: amount_of_def cents_def)
  moreover have "\<forall>r \<in> set (mp_lines ?m). 0 < ml_amount_cents r \<and> ml_direction r = AP \<and> ml_event_id r = ev_id e"
    using split_rows_member[of _ e d "sc_allocations p" cents] largestRemainder_nonneg[OF _ bs(1) t, of 10000]
    by (simp add: cents_def)
  moreover have "distinct (map ml_line_no (mp_lines ?m))"
  proof -
    obtain js where "map ml_line_no (split_rows e d (sc_allocations p) cents) = map (\<lambda>j. int j + 1) js" "distinct js"
      using split_rows_line_nos by blast
    moreover have "distinct (map (\<lambda>j. int j + 1) js)" if "distinct js" for js :: "nat list"
      using that by (simp add: distinct_map inj_on_def)
    ultimately show ?thesis
      by simp
  qed
  ultimately show ?thesis
    by (intro exI[of _ ?m]) simp
qed

theorem split_projection_pays_the_gross_witness:
  "\<exists>m. projectMoneyLines (typed_event ''e'' SplitComputed (SplitComputedP \<lparr> sc_total_cents = 100,
       sc_allocations = [\<lparr> sa_party_id = ''a'', sa_share_bps = 3333 \<rparr>, \<lparr> sa_party_id = ''b'', sa_share_bps = 6667 \<rparr>] \<rparr>))
       no_deps = Inr m \<and> sum_list (map ml_amount_cents (mp_lines m)) = 100"
  using split_projection_pays_the_gross[of "typed_event ''e'' SplitComputed (SplitComputedP \<lparr> sc_total_cents = 100,
       sc_allocations = [\<lparr> sa_party_id = ''a'', sa_share_bps = 3333 \<rparr>, \<lparr> sa_party_id = ''b'', sa_share_bps = 6667 \<rparr>] \<rparr>)"]
  by (force simp: SplitComputed_ok_def CENTS_MAX_def)

definition MONEY_KINDS :: "event_kind list" where
  "MONEY_KINDS = [InvoiceIssued, InvoiceCorrected, SplitComputed, PaymentReceived, SettlementExecuted]"

text \<open>The discriminated union: the kind of an event decides the type of its payload.\<close>

fun typed_payload :: "event_kind \<Rightarrow> payload \<Rightarrow> bool" where
  "typed_payload k (InvoiceIssuedP p) = (k = InvoiceIssued \<and> InvoiceIssued_ok p)"
| "typed_payload k (InvoiceCorrectedP p) = (k = InvoiceCorrected \<and> InvoiceCorrected_ok p)"
| "typed_payload k (SplitComputedP p) = (k = SplitComputed \<and> SplitComputed_ok p)"
| "typed_payload k _ = (k \<notin> {InvoiceIssued, InvoiceCorrected, SplitComputed})"

fun other_payload :: "payload \<Rightarrow> bool" where
  "other_payload (InvoiceIssuedP p) = False"
| "other_payload (InvoiceCorrectedP p) = False"
| "other_payload (SplitComputedP p) = False"
| "other_payload _ = True"

lemma other_projection:
  assumes "other_payload (payload e)"
  shows "projectMoneyLines e deps =
    (if kind e = PaymentReceived then projectPayment e deps
     else if kind e = SettlementExecuted then Inr (projectSettlement e deps) else Inr nothing)"
    and "typed_payload (kind e) (payload e) \<Longrightarrow> kind e \<notin> {InvoiceIssued, InvoiceCorrected, SplitComputed}"
  using assms by (cases "payload e"; simp add: projectMoneyLines_def)+

lemma split_answers:
  assumes "SplitComputed_ok p"
  shows "\<exists>cents. allocateCents (Whole (sc_total_cents p)) (map (\<lambda>a. Whole (sa_share_bps a)) (sc_allocations p)) = Inr cents"
proof -
  have "\<forall>b \<in> set (map sa_share_bps (sc_allocations p)). 0 \<le> b" "sum_list (map sa_share_bps (sc_allocations p)) = 10000"
    using assms by (auto simp: SplitComputed_ok_def list_all_iff)
  from allocateCents_exact_sum[OF this, of "sc_total_cents p"] show ?thesis
    by (auto simp: comp_def)
qed

lemma typed_projection:
  assumes "typed_payload (kind e) (payload e)"
  shows "(case projectMoneyLines e deps of
       Inr m \<Rightarrow> (\<forall>r \<in> set (mp_lines m). ml_event_id r = ev_id e \<and> ml_shipment_id r = shipment_id e)
         \<and> (kind e \<notin> set MONEY_KINDS \<longrightarrow> mp_lines m = [] \<and> mp_invoices m = [])
     | Inl ReissueNeedsOriginals \<Rightarrow> kind e = InvoiceCorrected \<and> originalLines deps \<in> {None, Some []}
     | Inl CodAmountRequired \<Rightarrow> kind e = PaymentReceived \<and> asInt (readField (payload e) ''amount_cents'') = None
     | Inl (AllocationFailed err) \<Rightarrow> False)"
proof -
  consider (issued) p where "payload e = InvoiceIssuedP p" | (corrected) p where "payload e = InvoiceCorrectedP p"
    | (split) p where "payload e = SplitComputedP p" | (other) "other_payload (payload e)"
    by (cases "payload e") simp_all
  then show ?thesis
  proof cases
    case issued
    then show ?thesis
      using assms by (auto simp: projectMoneyLines_def projectIssued_def MONEY_KINDS_def)
  next
    case corrected
    have members: "ml_event_id r = ev_id e \<and> ml_shipment_id r = shipment_id e"
      if "r \<in> set (reversals e c os @ reissues e n q d ls)" for r c os n q d ls
      using that by (auto simp: reversals_def reissues_def)
    show ?thesis
      using assms corrected members
      by (auto simp: projectMoneyLines_def projectCorrected_def MONEY_KINDS_def Let_def split: option.splits)
  next
    case split
    then obtain cents where "allocateCents (Whole (sc_total_cents p)) (map (\<lambda>a. Whole (sa_share_bps a)) (sc_allocations p)) = Inr cents"
      using split_answers assms by fastforce
    then show ?thesis
      using assms split by (auto simp: projectMoneyLines_def projectSplit_def MONEY_KINDS_def split_rows_def Let_def split: if_splits)
  next
    case other
    show ?thesis
      using other_projection[OF other] assms
      by (auto simp: projectPayment_def projectSettlement_def nothing_def MONEY_KINDS_def Let_def
          split: option.splits if_splits)
  qed
qed

text \<open>Money follows only from money events, and the projection refuses only two things: on a
  schema-valid event of any of the 35 kinds it answers, except for a reissue whose original lines
  cannot be found and a cash-on-delivery payment without a whole amount; the 30 other kinds project
  nothing, and every line it makes belongs to its event and carries its shipment.\<close>

theorem projectMoneyLines_total:
  assumes "typed_payload (kind e) (payload e)"
  shows "(case projectMoneyLines e deps of
       Inr m \<Rightarrow> (\<forall>r \<in> set (mp_lines m). ml_event_id r = ev_id e \<and> ml_shipment_id r = shipment_id e)
         \<and> (kind e \<notin> set MONEY_KINDS \<longrightarrow> mp_lines m = [] \<and> mp_invoices m = [])
     | Inl ReissueNeedsOriginals \<Rightarrow> kind e = InvoiceCorrected \<and> originalLines deps \<in> {None, Some []}
     | Inl CodAmountRequired \<Rightarrow> kind e = PaymentReceived \<and> asInt (readField (payload e) ''amount_cents'') = None
     | Inl (AllocationFailed err) \<Rightarrow> False)"
  using typed_projection[OF assms] .

theorem projectMoneyLines_total_witness:
  "typed_payload QuoteSent (Loose (JObj [])) \<and>
   (\<exists>m. projectMoneyLines (typed_event ''e'' QuoteSent (Loose (JObj []))) no_deps = Inr m \<and> mp_lines m = [])"
  using projectMoneyLines_total[of "typed_event ''e'' QuoteSent (Loose (JObj []))" no_deps]
  by (simp add: projectMoneyLines_def nothing_def MONEY_KINDS_def)

text \<open>The header a correction writes is the one the payload names, whichever event it reverses: a void
  that names invoice \<open>named\<close> but corrects an event of another invoice is accepted, reverses the other
  invoice's lines and closes the header of \<open>named\<close> at zero. Nothing ties the two identifiers.\<close>

theorem correction_header_is_not_tied_to_the_corrected_event:
  "\<exists>m. projectMoneyLines (typed_event i InvoiceCorrected (InvoiceCorrectedP (void_of named corrected)))
       (no_deps \<lparr> originalLines := Some (originalsOf db corrected) \<rparr>) = Inr m \<and>
     mp_invoices m = [InvoiceVoid named 0 ''void''] \<and>
     sum_list (map ml_amount_cents (mp_lines m)) =
       - sum_list (map ml_amount_cents (filter (\<lambda>r. ml_event_id r = corrected \<and> ml_amount_cents r > 0) db))"
proof -
  have "amount_of (reversals (typed_event i InvoiceCorrected (InvoiceCorrectedP (void_of named corrected)))
      corrected (originalsOf db corrected)) = - in_effect db corrected"
    by (simp add: amount_reversals originalsOf_sum)
  then show ?thesis
    by (simp add: projectMoneyLines_def projectCorrected_def void_of_def reissues_def no_deps_def
        amount_of_def in_effect_def)
qed

text \<open>Settlement looks at the size of a payment, not at its sign: a negative payment (a refund) of at least
  the total of the matched open invoice marks it paid.\<close>

theorem negative_payment_settles:
  assumes "kind e = PaymentReceived" "payload e = Loose v" "jfield ''amount_cents'' v = jint (- a)"
    and "settleInvoice deps = Some target" "st_total_cents target \<le> a"
  shows "\<exists>m. projectMoneyLines e deps = Inr m \<and> mp_invoices m = [InvoiceSettle (st_id target) ''paid'']"
proof -
  have "st_total_cents target \<le> \<bar>a\<bar>"
    using assms(5) by linarith
  then show ?thesis
    using assms by (simp add: projectMoneyLines_def projectPayment_def readField_def Let_def)
qed

theorem negative_payment_settles_witness:
  "\<exists>m. projectMoneyLines (typed_event ''e'' PaymentReceived (Loose (jobj [(''amount_cents'', jint (- 500))])))
     (no_deps \<lparr> settleInvoice := Some \<lparr> st_id = ''A'', st_total_cents = 500 \<rparr> \<rparr>) = Inr m
     \<and> mp_invoices m = [InvoiceSettle ''A'' ''paid'']"
  using negative_payment_settles[of "typed_event ''e'' PaymentReceived (Loose (jobj [(''amount_cents'', jint (- 500))]))"
      "jobj [(''amount_cents'', jint (- 500))]" 500
      "no_deps \<lparr> settleInvoice := Some \<lparr> st_id = ''A'', st_total_cents = 500 \<rparr> \<rparr>"]
  by (simp add: jint_def)

end
