(* ===== verification/Gates.thy ===== *)
theory Gates
  imports Payload Complex_Main
begin

text \<open>
  \<open>packages/ledger/src/gates\<close>, with the pure predicates they share (\<open>contacts.ts\<close>, \<open>geo/fence.ts\<close>, the
  \<open>ConsentAck\<close> schema and the facility schemas of \<open>packages/contracts\<close>): the decisions that refuse a transition
  until its evidence is on the stream. A gate answers \<open>Inr ()\<close> or the error it throws. The great-circle
  distance (floating point) is the parameter \<open>haversine_m\<close>, in whole metres; the jurisdiction of a stamp
  is an argument. \<open>weekly\<close> is indexed by the day number the source spells \<open>String(localDow)\<close>.

  The locale \<open>overridable_gate\<close> is the contract of REQ-049 (an override releases a gate exactly when it is
  named and reasoned), \<open>evidence_gate\<close> adds the missing-evidence report; both are interpreted on every
  gate that has them.
\<close>

section \<open>Errors and context\<close>

datatype required_evidence =
    NeedFreightCounted
  | NeedFreightPhoto
  | NeedCustodyTransferred
  | NeedDimsCaptured
  | NeedGeofence
  | NeedPodSigned
  | NeedPlacedFreightPhoto
  | NeedSealApplied
  | NeedReceiverAck
  | NeedExceptionPhoto
  | NeedReasonCode
  | NeedConsent
  | NeedCreditClear
  | NeedCreditUnresolved
  | NeedEvidenceRecipient
  | NeedAppointment
  | NeedDocs

datatype gate_error =
    GateError "required_evidence list"
  | GateValidationError string

record fence =
  fence_lat :: jsnum
  fence_lon :: jsnum
  radius_m :: rat

record gate_ctx =
  gc_fence :: "fence option"
  gc_override :: "gate_override option"
  gc_dimsRequired :: "bool option"

definition override_reason :: string where
  "override_reason = ''a REQ-049 gate override requires a named `by` and a non-empty `reason`''"

definition overrideSatisfies :: "gate_override option \<Rightarrow> gate_error + bool" where
  "overrideSatisfies given =
     (case given of
        None \<Rightarrow> Inr False
      | Some ov \<Rightarrow>
          if \<not> nonblank (ov_by ov) \<or> \<not> nonblank (ov_reason ov)
          then Inl (GateValidationError override_reason) else Inr True)"

text \<open>\<open>if (overrideSatisfies(o)) return;\<close> in front of a check.\<close>

definition unlessOverridden :: "gate_override option \<Rightarrow> gate_error + unit \<Rightarrow> gate_error + unit" where
  "unlessOverridden given rest = ebind (overrideSatisfies given) (\<lambda>ok. if ok then Inr () else rest)"

text \<open>The \<open>missing.push(\<dots>)\<close> sequence of a gate and its final throw.\<close>

definition missing :: "(bool \<times> required_evidence) list \<Rightarrow> required_evidence list" where
  "missing checks = map snd (filter (\<lambda>c. \<not> fst c) checks)"

definition blockOn :: "required_evidence list \<Rightarrow> gate_error + unit" where
  "blockOn m = (if m \<noteq> [] then Inl (GateError m) else Inr ())"

definition hasKind :: "event_kind \<Rightarrow> payload ledger_event list \<Rightarrow> bool" where
  "hasKind k prior = list_ex (\<lambda>e. kind e = k) prior"

section \<open>Geofence\<close>

datatype fence_error = CoordNotInteger string | CoordOutOfRange string | BadRadius | BadAccuracy

record fence_result =
  inside :: bool
  distance_m :: int
  ambiguous :: bool

definition MAX_LAT_E6 :: int where "MAX_LAT_E6 = 90000000"
definition MAX_LON_E6 :: int where "MAX_LON_E6 = 180000000"

definition assertIntCoord :: "jsnum \<Rightarrow> string \<Rightarrow> int \<Rightarrow> fence_error + int" where
  "assertIntCoord v nm maxAbs =
     ebind (asWhole (CoordNotInteger nm) v) (\<lambda>i.
       if \<bar>i\<bar> > maxAbs then Inl (CoordOutOfRange nm) else Inr i)"

definition insideFence ::
  "(int \<Rightarrow> int \<Rightarrow> int \<Rightarrow> int \<Rightarrow> int) \<Rightarrow> geo_stamp \<Rightarrow> fence \<Rightarrow> fence_error + fence_result"
where
  "insideFence haversine_m point f =
     ebind (assertIntCoord (Whole (lat_e6 point)) ''point.lat_e6'' MAX_LAT_E6) (\<lambda>plat.
     ebind (assertIntCoord (Whole (lon_e6 point)) ''point.lon_e6'' MAX_LON_E6) (\<lambda>plon.
     ebind (assertIntCoord (fence_lat f) ''fence.lat_e6'' MAX_LAT_E6) (\<lambda>flat.
     ebind (assertIntCoord (fence_lon f) ''fence.lon_e6'' MAX_LON_E6) (\<lambda>flon.
       if radius_m f \<le> 0 then Inl BadRadius
       else
         let accuracy = (case accuracy_m point of None \<Rightarrow> 0 | Some a \<Rightarrow> a) in
         if accuracy < 0 then Inl BadAccuracy
         else
           let d = haversine_m plat plon flat flon in
           Inr \<lparr> inside = (of_int d \<le> radius_m f), distance_m = d,
                 ambiguous = (\<bar>of_int d - radius_m f\<bar> \<le> of_int accuracy) \<rparr>))))"

section \<open>Transition gates\<close>

definition pickupMissing :: "payload ledger_event list \<Rightarrow> bool \<Rightarrow> required_evidence list" where
  "pickupMissing prior dimsRequired = missing
     [(hasKind FreightCounted prior, NeedFreightCounted),
      (list_ex (\<lambda>e. kind e = FreightPhotographed \<and> readField (payload e) ''photo_kind'' = jtext ''freight'') prior,
       NeedFreightPhoto),
      (hasKind CustodyTransferred prior, NeedCustodyTransferred),
      (dimsRequired \<longrightarrow> hasKind DimsCaptured prior, NeedDimsCaptured)]"

definition assertPickupDepart ::
  "payload ledger_event list \<Rightarrow> payload ledger_event \<Rightarrow> gate_ctx option \<Rightarrow> gate_error + unit" where
  "assertPickupDepart prior incoming ctx =
     unlessOverridden (Option.bind ctx gc_override)
       (blockOn (pickupMissing prior (Option.bind ctx gc_dimsRequired = Some True)))"

definition cleanArrival ::
  "(int \<Rightarrow> int \<Rightarrow> int \<Rightarrow> int \<Rightarrow> int) \<Rightarrow> fence \<Rightarrow> payload ledger_event \<Rightarrow> bool" where
  "cleanArrival haversine_m f e =
     (kind e = StopArrived \<and>
      (case payload e of
         StopArrivedP g _ \<Rightarrow>
           (case insideFence haversine_m g f of Inl _ \<Rightarrow> False | Inr r \<Rightarrow> inside r \<and> \<not> ambiguous r)
       | _ \<Rightarrow> False))"

definition boundPlacedPhoto :: "payload ledger_event list \<Rightarrow> payload ledger_event \<Rightarrow> bool" where
  "boundPlacedPhoto prior incoming =
     (case asText (if kind incoming = DeliveryEvidenced
                   then readField (payload incoming) ''placed_photo_hash'' else JUndefined) of
        None \<Rightarrow> False
      | Some h \<Rightarrow> HASH64 h \<and>
          list_ex (\<lambda>e. kind e = FreightPhotographed \<and> readField (payload e) ''photo_kind'' = jtext ''placed''
            \<and> readField (payload e) ''photo_hash'' = JStr h) prior)"

definition deliveryMissing ::
  "(int \<Rightarrow> int \<Rightarrow> int \<Rightarrow> int \<Rightarrow> int) \<Rightarrow> payload ledger_event list \<Rightarrow> payload ledger_event \<Rightarrow> fence \<Rightarrow>
   required_evidence list"
where
  "deliveryMissing haversine_m prior incoming f = missing
     [(list_ex (cleanArrival haversine_m f) prior, NeedGeofence),
      (hasKind PodSigned prior, NeedPodSigned),
      (boundPlacedPhoto prior incoming, NeedPlacedFreightPhoto)]"

definition assertDelivery ::
  "(int \<Rightarrow> int \<Rightarrow> int \<Rightarrow> int \<Rightarrow> int) \<Rightarrow> payload ledger_event list \<Rightarrow> payload ledger_event \<Rightarrow> gate_ctx \<Rightarrow>
   gate_error + unit"
where
  "assertDelivery haversine_m prior incoming ctx =
     unlessOverridden (gc_override ctx)
       (case gc_fence ctx of
          None \<Rightarrow> Inl (GateValidationError ''assertDelivery requires ctx.fence to evaluate the geofence (REQ-046)'')
        | Some f \<Rightarrow> blockOn (deliveryMissing haversine_m prior incoming f))"

definition interlineMissing :: "payload ledger_event list \<Rightarrow> payload ledger_event \<Rightarrow> required_evidence list" where
  "interlineMissing prior incoming = missing
     [(hasKind SealApplied prior, NeedSealApplied),
      (case asText (readField (payload incoming) ''cosig'') of None \<Rightarrow> False | Some s \<Rightarrow> jnonblank s,
       NeedReceiverAck)]"

definition assertInterline ::
  "payload ledger_event list \<Rightarrow> payload ledger_event \<Rightarrow> bool \<Rightarrow> gate_ctx option \<Rightarrow> gate_error + unit" where
  "assertInterline prior incoming isInterline ctx =
     unlessOverridden (Option.bind ctx gc_override)
       (if \<not> isInterline then Inr () else blockOn (interlineMissing prior incoming))"

definition exceptionMissing :: "payload ledger_event \<Rightarrow> required_evidence list" where
  "exceptionMissing incoming = missing
     [(case asText (readField (payload incoming) ''photo_hash'') of None \<Rightarrow> False | Some h \<Rightarrow> HASH64 h,
       NeedExceptionPhoto),
      (case asText (readField (payload incoming) ''reason_code'') of None \<Rightarrow> False | Some s \<Rightarrow> jnonblank s,
       NeedReasonCode)]"

definition assertException :: "payload ledger_event \<Rightarrow> gate_ctx option \<Rightarrow> gate_error + unit" where
  "assertException incoming ctx =
     unlessOverridden (Option.bind ctx gc_override) (blockOn (exceptionMissing incoming))"

section \<open>Consent before GPS\<close>

definition UNKNOWN_JURISDICTION :: string where
  "UNKNOWN_JURISDICTION = ''XX''"

text \<open>\<open>ConsentAck.safeParse\<close>: the acknowledged state of a strict four-field object.\<close>

definition consentAck :: "jvalue \<Rightarrow> jstr option" where
  "consentAck v =
     (case v of
        JObj kvs \<Rightarrow>
          if set (map fst kvs) \<subseteq> set (map jlit [''doc_kind'', ''policy_version'', ''operating_state'', ''acknowledged''])
             \<and> jfield ''doc_kind'' v = jtext ''consent''
             \<and> (case asText (jfield ''policy_version'' v) of None \<Rightarrow> False | Some s \<Rightarrow> s \<noteq> [])
             \<and> jfield ''acknowledged'' v = JBool True
          then (case asText (jfield ''operating_state'' v) of
                  None \<Rightarrow> None
                | Some s \<Rightarrow>
                    if length s = 2 \<and> list_all (\<lambda>c. 65 \<le> c \<and> c \<le> 90) s \<and> s \<noteq> jlit UNKNOWN_JURISDICTION
                    then Some s else None)
          else None
      | _ \<Rightarrow> None)"

definition assertConsentBeforeGps ::
  "payload ledger_event list \<Rightarrow> event_kind \<Rightarrow> string \<Rightarrow> gate_error + unit" where
  "assertConsentBeforeGps prior incomingKind operating_state =
     (if incomingKind \<noteq> PositionUpdated \<and> incomingKind \<noteq> StopArrived then Inr ()
      else if \<not> nonblank operating_state
      then Inl (GateValidationError ''assertConsentBeforeGps requires a non-empty ctx.operating_state (REQ-166)'')
      else if operating_state = UNKNOWN_JURISDICTION then Inl (GateError [NeedConsent])
      else if list_ex (\<lambda>e. kind e = DocumentAttached
             \<and> consentAck (payload_json (payload e)) = Some (jlit operating_state)) prior
      then Inr ()
      else Inl (GateError [NeedConsent]))"

section \<open>Dock appointments\<close>

record hours_interval =
  open_min :: int
  close_min :: int

record capacity_slot =
  slot_key :: string
  window_start_min :: int
  window_end_min :: int
  dow :: "int option"

record appointment_rules =
  lead_time_min :: "int option"
  max_horizon_days :: "int option"
  allow_same_day :: "bool option"

record appointment_facility =
  capacity_slots :: "capacity_slot list"
  weekly :: "int \<rightharpoonup> hours_interval list"
  rules :: appointment_rules

record appointment_ctx =
  facility :: "appointment_facility option"
  serviceDate :: string
  localMinuteOfDay :: int
  localWindowEndMinute :: int
  localDow :: int
  now_ms :: int
  nowServiceDate :: string
  legExists :: bool
  occupied :: bool
  ac_override :: "gate_override option"

definition MS_PER_MIN :: int where "MS_PER_MIN = 60000"
definition MS_PER_DAY :: int where "MS_PER_DAY = 86400000"

definition windowMatches :: "appointment_ctx \<Rightarrow> capacity_slot \<Rightarrow> bool" where
  "windowMatches ctx s =
     (localMinuteOfDay ctx = window_start_min s \<and> localWindowEndMinute ctx = window_end_min s \<and>
      (dow s = None \<or> dow s = Some (localDow ctx)))"

definition openFor :: "appointment_facility \<Rightarrow> appointment_ctx \<Rightarrow> capacity_slot \<Rightarrow> bool" where
  "openFor f ctx s =
     list_ex (\<lambda>iv. open_min iv \<le> window_start_min s \<and> close_min iv \<ge> window_end_min s)
       (case weekly f (localDow ctx) of None \<Rightarrow> [] | Some ivs \<Rightarrow> ivs)"

definition ruleViolated :: "appointment_rules \<Rightarrow> appointment_ctx \<Rightarrow> int \<Rightarrow> bool" where
  "ruleViolated r ctx startTs =
     ((case lead_time_min r of None \<Rightarrow> False | Some m \<Rightarrow> startTs - now_ms ctx < m * MS_PER_MIN) \<or>
      (case max_horizon_days r of None \<Rightarrow> False | Some d \<Rightarrow> startTs > now_ms ctx + d * MS_PER_DAY) \<or>
      (allow_same_day r \<noteq> Some True \<and> serviceDate ctx = nowServiceDate ctx))"

definition badReschedule :: "payload ledger_event list \<Rightarrow> appointment_set \<Rightarrow> bool" where
  "badReschedule prior p =
     (case ap_reschedule_of p of
        None \<Rightarrow> False
      | Some r \<Rightarrow>
          (case find (\<lambda>e. ev_id e = r \<and> kind e = AppointmentSet) prior of
             None \<Rightarrow> True
           | Some e \<Rightarrow> readField (payload e) ''leg_kind'' \<noteq> jtext (stop_kind_name (ap_leg_kind p))))"

definition appointmentRefusal ::
  "payload ledger_event list \<Rightarrow> appointment_set \<Rightarrow> appointment_ctx \<Rightarrow> bool \<Rightarrow> appointment_facility \<Rightarrow> capacity_slot \<Rightarrow>
   string option"
where
  "appointmentRefusal prior p ctx overridden f slot = firstSome
     [guard (\<not> windowMatches ctx slot) ''window_mismatch'',
      guard (\<not> overridden \<and> \<not> openFor f ctx slot) ''outside_hours'',
      guard (\<not> overridden \<and> ruleViolated (rules f) ctx (ap_window_start_ts p)) ''rule_violation'',
      guard (\<not> legExists ctx) ''leg_not_materialized'',
      guard (badReschedule prior p) ''bad_reschedule_ref'',
      guard (occupied ctx) ''slot_taken'']"

definition assertAppointment ::
  "payload ledger_event list \<Rightarrow> appointment_set \<Rightarrow> appointment_ctx \<Rightarrow> gate_error + unit" where
  "assertAppointment prior p ctx =
     ebind (overrideSatisfies (ac_override ctx)) (\<lambda>overridden.
       case facility ctx of
         None \<Rightarrow> Inl (GateValidationError ''unknown_facility'')
       | Some f \<Rightarrow>
           (case find (\<lambda>s. slot_key s = ap_slot_key p) (capacity_slots f) of
              None \<Rightarrow> Inl (GateValidationError ''slot_not_in_capacity'')
            | Some slot \<Rightarrow>
                (case appointmentRefusal prior p ctx overridden f slot of
                   Some reason \<Rightarrow> Inl (GateValidationError reason)
                 | None \<Rightarrow> Inr ())))"

section \<open>Booking and dispatch\<close>

definition assertBookingCredit :: "string option \<Rightarrow> bool \<Rightarrow> gate_ctx option \<Rightarrow> gate_error + unit" where
  "assertBookingCredit creditStatus creditGapUnresolved ctx =
     unlessOverridden (Option.bind ctx gc_override)
       (if creditGapUnresolved then Inl (GateError [NeedCreditUnresolved])
        else if creditStatus = Some ''hold'' then Inl (GateError [NeedCreditClear])
        else Inr ())"

definition plausibleEmail :: "jvalue \<Rightarrow> jstr option" where
  "plausibleEmail entry =
     (case entry of
        JObj _ \<Rightarrow>
          (case asText (jfield ''email'' entry) of
             None \<Rightarrow> None
           | Some s \<Rightarrow> if 64 \<in> set s \<and> 13 \<notin> set s \<and> 10 \<notin> set s then Some s else None)
      | _ \<Rightarrow> None)"

definition hasDeliverableContact :: "jvalue \<Rightarrow> bool" where
  "hasDeliverableContact contacts =
     (case contacts of
        JArr entries \<Rightarrow> list_ex (\<lambda>x. case x of None \<Rightarrow> False | Some v \<Rightarrow> plausibleEmail v \<noteq> None) entries
      | _ \<Rightarrow> False)"

definition assertBookingRecipientContact :: "payload ledger_event \<Rightarrow> jvalue \<Rightarrow> gate_error + unit" where
  "assertBookingRecipientContact incoming recipientContacts =
     (if readField (payload incoming) ''evidence_contact_opt_out'' = JBool True then Inr ()
      else if hasDeliverableContact recipientContacts then Inr ()
      else Inl (GateError [NeedEvidenceRecipient]))"

definition DISPATCH_REQUIRED_DOC_KIND :: string where
  "DISPATCH_REQUIRED_DOC_KIND = ''ratecon''"

record dispatch_ctx =
  hasAppointment :: bool
  hasDocs :: bool
  dc_override :: "gate_override option"

definition assertDispatch :: "dispatch_ctx \<Rightarrow> gate_error + unit" where
  "assertDispatch ctx =
     unlessOverridden (dc_override ctx)
       (blockOn (missing [(hasAppointment ctx, NeedAppointment), (hasDocs ctx, NeedDocs)]))"

section \<open>The contract of the gates\<close>

definition accountable :: "gate_override \<Rightarrow> bool" where
  "accountable ov = (nonblank (ov_by ov) \<and> nonblank (ov_reason ov))"

lemma overrideSatisfies_simps [simp]:
  "overrideSatisfies None = Inr False"
  "overrideSatisfies (Some ov) = (if accountable ov then Inr True else Inl (GateValidationError override_reason))"
  by (auto simp: overrideSatisfies_def accountable_def)

lemma unlessOverridden_simps [simp]:
  "unlessOverridden None rest = rest"
  "unlessOverridden (Some ov) rest = (if accountable ov then Inr () else Inl (GateValidationError override_reason))"
  by (simp_all add: unlessOverridden_def)

lemma blockOn_simps [simp]: "blockOn m = Inr () \<longleftrightarrow> m = []" "blockOn m = Inl e \<longleftrightarrow> m \<noteq> [] \<and> e = GateError m"
  by (auto simp: blockOn_def)

lemma missing_simps [simp]:
  "missing [] = []"
  "missing ((b, t) # cs) = (if b then missing cs else t # missing cs)"
  by (simp_all add: missing_def)

lemma hasKind_append [simp]: "hasKind k (xs @ ys) \<longleftrightarrow> hasKind k xs \<or> hasKind k ys"
  by (simp add: hasKind_def)

lemma hasKind_iff: "hasKind k xs \<longleftrightarrow> (\<exists>e \<in> set xs. kind e = k)"
  by (simp add: hasKind_def list_ex_iff)

locale overridable_gate =
  fixes gate :: "gate_override option \<Rightarrow> gate_error + unit"
  assumes releases: "accountable ov \<Longrightarrow> gate (Some ov) = Inr ()"
    and rejects: "\<not> accountable ov \<Longrightarrow> gate (Some ov) = Inl (GateValidationError override_reason)"
begin

lemma passes_under_override: "gate (Some ov) = Inr () \<longleftrightarrow> accountable ov"
  using releases rejects by (cases "accountable ov") simp_all

lemma never_a_block: "gate (Some ov) \<noteq> Inl (GateError m)"
  using releases rejects by (cases "accountable ov") simp_all

end

locale evidence_gate = overridable_gate +
  fixes needs :: "required_evidence list"
  assumes blocks: "gate None = blockOn needs"
begin

lemma passes_iff: "gate given = Inr () \<longleftrightarrow> (case given of None \<Rightarrow> needs = [] | Some ov \<Rightarrow> accountable ov)"
  using passes_under_override blocks by (cases given) simp_all

lemma report: "gate given = Inl (GateError m) \<longleftrightarrow> given = None \<and> m = needs \<and> needs \<noteq> []"
  using never_a_block blocks by (cases given) auto

end

interpretation pickup: evidence_gate
  "\<lambda>given. assertPickupDepart prior incoming (Some \<lparr> gc_fence = fence, gc_override = given, gc_dimsRequired = dims \<rparr>)"
  "pickupMissing prior (dims = Some True)"
  for prior incoming fence dims
  by unfold_locales (simp_all add: assertPickupDepart_def)

interpretation delivery: evidence_gate
  "\<lambda>given. assertDelivery hav prior incoming \<lparr> gc_fence = Some f, gc_override = given, gc_dimsRequired = dims \<rparr>"
  "deliveryMissing hav prior incoming f"
  for hav prior incoming f dims
  by unfold_locales (simp_all add: assertDelivery_def)

interpretation unfenced: overridable_gate
  "\<lambda>given. assertDelivery hav prior incoming \<lparr> gc_fence = fence, gc_override = given, gc_dimsRequired = dims \<rparr>"
  for hav prior incoming fence dims
  by unfold_locales (simp_all add: assertDelivery_def)

interpretation interline: evidence_gate
  "\<lambda>given. assertInterline prior incoming True (Some \<lparr> gc_fence = fence, gc_override = given, gc_dimsRequired = dims \<rparr>)"
  "interlineMissing prior incoming"
  for prior incoming fence dims
  by unfold_locales (simp_all add: assertInterline_def)

interpretation exception: evidence_gate
  "\<lambda>given. assertException incoming (Some \<lparr> gc_fence = fence, gc_override = given, gc_dimsRequired = dims \<rparr>)"
  "exceptionMissing incoming"
  for incoming fence dims
  by unfold_locales (simp_all add: assertException_def)

interpretation credit: overridable_gate
  "\<lambda>given. assertBookingCredit status gap (Some \<lparr> gc_fence = fence, gc_override = given, gc_dimsRequired = dims \<rparr>)"
  for status gap fence dims
  by unfold_locales (simp_all add: assertBookingCredit_def)

interpretation dispatch: evidence_gate
  "\<lambda>given. assertDispatch \<lparr> hasAppointment = a, hasDocs = d, dc_override = given \<rparr>"
  "missing [(a, NeedAppointment), (d, NeedDocs)]"
  for a d
  by unfold_locales (simp_all add: assertDispatch_def)

section \<open>What a cleared gate means\<close>

lemma ebind_asWhole_coord:
  "assertIntCoord v nm m = Inr i \<longleftrightarrow> v = Whole i \<and> \<bar>i\<bar> \<le> m"
  by (cases v) (auto simp: assertIntCoord_def)

text \<open>A clean fix lies inside the fence by more than its own accuracy.\<close>

lemma clean_fix_well_inside:
  assumes "insideFence hav g f = Inr r" "inside r" "\<not> ambiguous r"
  obtains flat flon where "fence_lat f = Whole flat" "fence_lon f = Whole flon"
    "of_int (hav (lat_e6 g) (lon_e6 g) flat flon + (case accuracy_m g of None \<Rightarrow> 0 | Some a \<Rightarrow> a)) < radius_m f"
    "\<bar>lat_e6 g\<bar> \<le> MAX_LAT_E6" "\<bar>lon_e6 g\<bar> \<le> MAX_LON_E6"
proof -
  obtain flat flon where "fence_lat f = Whole flat" "fence_lon f = Whole flon"
    "\<bar>lat_e6 g\<bar> \<le> MAX_LAT_E6" "\<bar>lon_e6 g\<bar> \<le> MAX_LON_E6"
    and r: "r = \<lparr> inside = (of_int (hav (lat_e6 g) (lon_e6 g) flat flon) \<le> radius_m f),
      distance_m = hav (lat_e6 g) (lon_e6 g) flat flon,
      ambiguous = (\<bar>of_int (hav (lat_e6 g) (lon_e6 g) flat flon) - radius_m f\<bar>
        \<le> of_int (case accuracy_m g of None \<Rightarrow> 0 | Some a \<Rightarrow> a)) \<rparr>"
    using assms(1)
    by (auto simp: insideFence_def ebind_asWhole_coord Let_def split: if_splits)
  moreover have "of_int (hav (lat_e6 g) (lon_e6 g) flat flon + (case accuracy_m g of None \<Rightarrow> 0 | Some a \<Rightarrow> a)) < radius_m f"
    using assms(2,3) unfolding r by simp
  ultimately show ?thesis
    using that by blast
qed

lemma cleanArrivalD:
  assumes "cleanArrival hav f e"
  shows "\<exists>g auto flat flon. kind e = StopArrived \<and> payload e = StopArrivedP g auto
    \<and> fence_lat f = Whole flat \<and> fence_lon f = Whole flon
    \<and> of_int (hav (lat_e6 g) (lon_e6 g) flat flon + (case accuracy_m g of None \<Rightarrow> 0 | Some a \<Rightarrow> a)) < radius_m f"
proof -
  obtain g auto where e: "kind e = StopArrived" "payload e = StopArrivedP g auto"
    "case insideFence hav g f of Inl _ \<Rightarrow> False | Inr r \<Rightarrow> inside r \<and> \<not> ambiguous r"
    using assms by (auto simp: cleanArrival_def split: payload.splits)
  then obtain r where "insideFence hav g f = Inr r" "inside r" "\<not> ambiguous r"
    by (auto split: sum.splits)
  then show ?thesis
    using e(1,2) by (blast elim: clean_fix_well_inside)
qed

lemma boundPlacedPhoto_iff:
  "boundPlacedPhoto prior incoming \<longleftrightarrow>
     kind incoming = DeliveryEvidenced \<and>
     (\<exists>h. readField (payload incoming) ''placed_photo_hash'' = JStr h \<and> HASH64 h \<and>
       (\<exists>e \<in> set prior. kind e = FreightPhotographed \<and> readField (payload e) ''photo_kind'' = jtext ''placed''
          \<and> readField (payload e) ''photo_hash'' = JStr h))"
proof -
  have "asText v = Some h \<longleftrightarrow> v = JStr h" for v h
    by (cases v) simp_all
  then show ?thesis
    by (auto simp: boundPlacedPhoto_def list_ex_iff split: option.splits)
qed

lemma pickupMissing_append: "set (pickupMissing (prior @ later) d) \<subseteq> set (pickupMissing prior d)"
  by (auto simp: pickupMissing_def)

lemma unlessOverridden_passes:
  "unlessOverridden given rest = Inr () \<longleftrightarrow>
     (case given of None \<Rightarrow> rest = Inr () | Some ov \<Rightarrow> accountable ov)"
  by (cases given) simp_all

text \<open>C31: A delivery that passes its gate without an override has, on the stream before it, an arrival whose
  distance to the fence centre plus its own accuracy is under the radius, a signed proof of
  delivery, and a captured photo of the placed freight with exactly the hash the delivery names.\<close>

theorem assertDelivery_evidence:
  assumes "assertDelivery haversine_m prior incoming ctx = Inr ()" "gc_override ctx = None"
  shows "\<exists>f. gc_fence ctx = Some f
    \<and> (\<exists>e \<in> set prior. \<exists>g auto flat flon. kind e = StopArrived \<and> payload e = StopArrivedP g auto
         \<and> fence_lat f = Whole flat \<and> fence_lon f = Whole flon
         \<and> of_int (haversine_m (lat_e6 g) (lon_e6 g) flat flon
              + (case accuracy_m g of None \<Rightarrow> 0 | Some a \<Rightarrow> a)) < radius_m f)
    \<and> (\<exists>e \<in> set prior. kind e = PodSigned)
    \<and> (\<exists>h. readField (payload incoming) ''placed_photo_hash'' = JStr h \<and> HASH64 h
         \<and> (\<exists>e \<in> set prior. kind e = FreightPhotographed
              \<and> readField (payload e) ''photo_kind'' = jtext ''placed''
              \<and> readField (payload e) ''photo_hash'' = JStr h))"
proof -
  obtain f where f: "gc_fence ctx = Some f" and m: "deliveryMissing haversine_m prior incoming f = []"
    using assms by (auto simp: assertDelivery_def split: option.splits)
  have clean: "\<exists>e \<in> set prior. cleanArrival haversine_m f e" and pod: "\<exists>e \<in> set prior. kind e = PodSigned"
    and photo: "boundPlacedPhoto prior incoming"
    using m by (auto simp: deliveryMissing_def hasKind_iff list_ex_iff split: if_splits)
  show ?thesis
    using f pod photo clean cleanArrivalD by (fastforce simp: boundPlacedPhoto_iff)
qed

definition sample_hash :: string where
  "sample_hash = replicate 64 (CHR ''a'')"

definition sample_stamp :: geo_stamp where
  "sample_stamp = \<lparr> lat_e6 = 1, lon_e6 = 2, accuracy_m = Some 5 \<rparr>"

definition sample_delivery_stream :: "payload ledger_event list" where
  "sample_delivery_stream =
     [typed_event ''a'' StopArrived (StopArrivedP sample_stamp True),
      typed_event ''b'' PodSigned (PodSignedP sample_hash sample_stamp True),
      typed_event ''c'' FreightPhotographed (FreightPhotographedP sample_hash PlacedPhoto)]"

lemma sample_hash_ok: "HASH64 (jlit sample_hash)"
  by (simp add: HASH64_def jlit_def sample_hash_def list_all_iff)

theorem assertDelivery_evidence_witness:
  "assertDelivery (\<lambda>_ _ _ _. 10) sample_delivery_stream
     (typed_event ''d'' DeliveryEvidenced (DeliveryEvidencedP sample_hash sample_stamp))
     \<lparr> gc_fence = Some \<lparr> fence_lat = Whole 1, fence_lon = Whole 2, radius_m = 150 \<rparr>,
        gc_override = None, gc_dimsRequired = None \<rparr> = Inr ()
   \<and> (\<exists>e \<in> set sample_delivery_stream. kind e = PodSigned)"
  (is "?gate = _ \<and> _")
proof -
  have bound: "boundPlacedPhoto sample_delivery_stream
      (typed_event ''d'' DeliveryEvidenced (DeliveryEvidencedP sample_hash sample_stamp))"
    using sample_hash_ok
    by (simp add: boundPlacedPhoto_iff sample_delivery_stream_def readField_def) (simp add: jtext_def)
  have "cleanArrival (\<lambda>_ _ _ _. 10) \<lparr> fence_lat = Whole 1, fence_lon = Whole 2, radius_m = 150 \<rparr>
      (typed_event ''a'' StopArrived (StopArrivedP sample_stamp True))"
    by (simp add: cleanArrival_def insideFence_def assertIntCoord_def sample_stamp_def MAX_LAT_E6_def MAX_LON_E6_def)
  then have gate: "?gate = Inr ()"
    using bound by (simp add: assertDelivery_def deliveryMissing_def blockOn_def hasKind_def)
      (simp add: sample_delivery_stream_def)
  from assertDelivery_evidence[OF gate] gate show ?thesis
    by auto
qed

text \<open>A pickup departure that passes without an override has freight counted, freight photographed,
  custody transferred and, on a dims-fitted lane, dimensions captured before it, and no later event of
  the stream can make the same gate refuse again.\<close>

theorem assertPickupDepart_evidence:
  assumes "assertPickupDepart prior incoming (Some ctx) = Inr ()" "gc_override ctx = None"
  shows "(\<exists>e \<in> set prior. kind e = FreightCounted)
    \<and> (\<exists>e \<in> set prior. kind e = FreightPhotographed \<and> readField (payload e) ''photo_kind'' = jtext ''freight'')
    \<and> (\<exists>e \<in> set prior. kind e = CustodyTransferred)
    \<and> (gc_dimsRequired ctx = Some True \<longrightarrow> (\<exists>e \<in> set prior. kind e = DimsCaptured))
    \<and> (\<forall>later next. assertPickupDepart (prior @ later) next (Some ctx) = Inr ())"
proof -
  have m: "pickupMissing prior (gc_dimsRequired ctx = Some True) = []"
    using assms by (simp add: assertPickupDepart_def)
  have "assertPickupDepart (prior @ later) next (Some ctx) = Inr ()" for later "next"
    using m pickupMissing_append[of prior later "gc_dimsRequired ctx = Some True"] assms(2)
    by (simp add: assertPickupDepart_def)
  then show ?thesis
    using m by (auto simp: pickupMissing_def hasKind_iff list_ex_iff split: if_splits)
qed

theorem assertPickupDepart_evidence_witness:
  "\<exists>e \<in> set [typed_event ''a'' FreightCounted (FreightCountedP 3 None),
       typed_event ''b'' FreightPhotographed (FreightPhotographedP sample_hash FreightPhoto),
       typed_event ''c'' CustodyTransferred (Loose (JObj []))]. kind e = CustodyTransferred"
  using assertPickupDepart_evidence[of
      "[typed_event ''a'' FreightCounted (FreightCountedP 3 None),
        typed_event ''b'' FreightPhotographed (FreightPhotographedP sample_hash FreightPhoto),
        typed_event ''c'' CustodyTransferred (Loose (JObj []))]"
      "typed_event ''d'' StopDeparted (StopDepartedP sample_stamp True None)"
      "\<lparr> gc_fence = None, gc_override = None, gc_dimsRequired = None \<rparr>"]
  by (simp add: assertPickupDepart_def pickupMissing_def blockOn_def hasKind_def readField_def)

text \<open>Overrides are accountable at every gate that takes one. An override passes exactly when its author
  and its reason are both non-blank; otherwise the gate answers with a validation error, whatever
  evidence there is, and an override that is present never turns into a missing-evidence block.\<close>

theorem overrides_are_accountable:
  "\<forall>gate \<in> {\<lambda>given. assertPickupDepart prior incoming (Some \<lparr> gc_fence = fence, gc_override = given, gc_dimsRequired = dims \<rparr>),
      \<lambda>given. assertDelivery hav prior incoming \<lparr> gc_fence = fence, gc_override = given, gc_dimsRequired = dims \<rparr>,
      \<lambda>given. assertInterline prior incoming True (Some \<lparr> gc_fence = fence, gc_override = given, gc_dimsRequired = dims \<rparr>),
      \<lambda>given. assertException incoming (Some \<lparr> gc_fence = fence, gc_override = given, gc_dimsRequired = dims \<rparr>),
      \<lambda>given. assertBookingCredit status gap (Some \<lparr> gc_fence = fence, gc_override = given, gc_dimsRequired = dims \<rparr>),
      \<lambda>given. assertDispatch \<lparr> hasAppointment = a, hasDocs = d, dc_override = given \<rparr>}.
     \<forall>ov m. (gate (Some ov) = Inr () \<longleftrightarrow> nonblank (ov_by ov) \<and> nonblank (ov_reason ov))
       \<and> (gate (Some ov) \<noteq> Inr () \<longrightarrow> gate (Some ov) = Inl (GateValidationError override_reason))
       \<and> gate (Some ov) \<noteq> Inl (GateError m)"
  (is "\<forall>gate \<in> ?gates. \<forall>ov m. ?contract gate ov m")
proof -
  have contract: "?contract gate ov m" if gate: "overridable_gate gate" for gate ov m
    using overridable_gate.passes_under_override[OF gate, of ov] overridable_gate.never_a_block[OF gate, of ov m]
      overridable_gate.rejects[OF gate, of ov]
    unfolding accountable_def by blast
  have "\<forall>gate \<in> ?gates. overridable_gate gate"
    using pickup.overridable_gate_axioms delivery.overridable_gate_axioms unfenced.overridable_gate_axioms
      interline.overridable_gate_axioms exception.overridable_gate_axioms credit.overridable_gate_axioms
      dispatch.overridable_gate_axioms
    by simp
  then show ?thesis
    using contract by blast
qed

theorem overrides_are_accountable_witness:
  "assertDispatch \<lparr> hasAppointment = False, hasDocs = False,
     dc_override = Some \<lparr> ov_by = ''ops'', ov_reason = ''late ratecon'' \<rparr> \<rparr> = Inr ()"
proof -
  have "nonblank ''ops''" "nonblank ''late ratecon''"
    by (simp_all add: nonblank_def isWhitespace_def)
  then show ?thesis
    using overrides_are_accountable[where a = False and d = False] by simp
qed

lemma consentAck_known: "consentAck v = Some s \<Longrightarrow> s \<noteq> jlit UNKNOWN_JURISDICTION \<and> length s = 2"
  by (auto simp: consentAck_def split: jvalue.splits option.splits if_splits)

text \<open>A GPS stamp passes the consent gate exactly when its operating state is known and some attached
  document before it is a well-formed acknowledgement for that very state; every other kind of event
  is outside the gate. In particular a stamp in an unknown jurisdiction never passes.\<close>

theorem assertConsentBeforeGps_exact:
  "assertConsentBeforeGps prior k operating_state = Inr () \<longleftrightarrow>
     k \<noteq> PositionUpdated \<and> k \<noteq> StopArrived \<or>
     operating_state \<noteq> UNKNOWN_JURISDICTION \<and>
     (\<exists>e \<in> set prior. kind e = DocumentAttached \<and>
        consentAck (payload_json (payload e)) = Some (jlit operating_state))"
proof -
  have "nonblank operating_state" if "consentAck v = Some (jlit operating_state)" for v
  proof -
    have two: "length (jlit operating_state) = 2" "list_all (\<lambda>c. 65 \<le> c \<and> c \<le> 90) (jlit operating_state)"
      using that by (auto simp: consentAck_def split: jvalue.splits option.splits if_splits)
    then obtain c d where s: "operating_state = [c, d]"
      by (auto simp: jlit_def length_Suc_conv numeral_2_eq_2)
    have "\<not> isWhitespace c"
      using two(2) by (auto simp: s jlit_def isWhitespace_def)
    then show ?thesis
      by (simp add: nonblank_def s)
  qed
  then show ?thesis
    by (auto simp: assertConsentBeforeGps_def list_ex_iff)
qed

text \<open>C32: A dock appointment that is accepted names a slot of an existing facility, at the slot's own local
  window and weekday, on a leg that exists and a dock nobody else holds, with a real earlier
  appointment of the same leg if it reschedules one; without an override the facility is open then and
  lead time, horizon and same-day rules hold. An override waives those rules and nothing else.\<close>

theorem assertAppointment_claims:
  assumes "assertAppointment prior p ctx = Inr ()"
  shows "\<exists>f slot. facility ctx = Some f \<and> slot \<in> set (capacity_slots f) \<and> slot_key slot = ap_slot_key p
    \<and> windowMatches ctx slot \<and> legExists ctx \<and> \<not> occupied ctx
    \<and> (\<forall>r. ap_reschedule_of p = Some r \<longrightarrow>
         (\<exists>e \<in> set prior. ev_id e = r \<and> kind e = AppointmentSet
            \<and> readField (payload e) ''leg_kind'' = jtext (stop_kind_name (ap_leg_kind p))))
    \<and> (case ac_override ctx of
         None \<Rightarrow> openFor f ctx slot \<and> \<not> ruleViolated (rules f) ctx (ap_window_start_ts p)
       | Some ov \<Rightarrow> nonblank (ov_by ov) \<and> nonblank (ov_reason ov))"
proof -
  obtain overridden where ov: "overrideSatisfies (ac_override ctx) = Inr overridden"
    using assms by (auto simp: assertAppointment_def)
  obtain f where f: "facility ctx = Some f"
    using assms by (auto simp: assertAppointment_def split: option.splits)
  obtain slot where slot: "find (\<lambda>s. slot_key s = ap_slot_key p) (capacity_slots f) = Some slot"
    using assms f by (auto simp: assertAppointment_def split: option.splits)
  have "appointmentRefusal prior p ctx overridden f slot = None"
    using assms by (simp add: assertAppointment_def ov f slot split: option.splits)
  then have ok: "windowMatches ctx slot" "overridden \<or> openFor f ctx slot"
    "overridden \<or> \<not> ruleViolated (rules f) ctx (ap_window_start_ts p)" "legExists ctx"
    "\<not> badReschedule prior p" "\<not> occupied ctx"
    unfolding appointmentRefusal_def firstSome_None by auto
  have "\<exists>e \<in> set prior. ev_id e = r \<and> kind e = AppointmentSet
      \<and> readField (payload e) ''leg_kind'' = jtext (stop_kind_name (ap_leg_kind p))" if "ap_reschedule_of p = Some r" for r
    using ok(5) that by (auto simp: badReschedule_def split: option.splits dest!: find_Some_in)
  moreover have "case ac_override ctx of
      None \<Rightarrow> openFor f ctx slot \<and> \<not> ruleViolated (rules f) ctx (ap_window_start_ts p)
    | Some ov \<Rightarrow> nonblank (ov_by ov) \<and> nonblank (ov_reason ov)"
    using ov ok(2,3) by (auto simp: accountable_def split: option.splits if_splits)
  ultimately show ?thesis
    using f ok(1,4,6) find_Some_in[OF slot] by blast
qed

definition sample_facility :: appointment_facility where
  "sample_facility = \<lparr> capacity_slots = [\<lparr> slot_key = ''d1'', window_start_min = 480, window_end_min = 540, dow = None \<rparr>],
     weekly = [1 \<mapsto> [\<lparr> open_min = 360, close_min = 1080 \<rparr>]],
     rules = \<lparr> lead_time_min = Some 60, max_horizon_days = None, allow_same_day = None \<rparr> \<rparr>"

definition sample_claim :: appointment_set where
  "sample_claim = \<lparr> ap_leg_kind = PickupStop, ap_facility_id = ''f'', ap_slot_key = ''d1'',
     ap_window_start_ts = 3600000, ap_window_end_ts = 7200000, ap_reschedule_of = None \<rparr>"

definition sample_claim_ctx :: appointment_ctx where
  "sample_claim_ctx = \<lparr> facility = Some sample_facility, serviceDate = ''2026-01-05'', localMinuteOfDay = 480,
     localWindowEndMinute = 540, localDow = 1, now_ms = 0, nowServiceDate = ''2026-01-02'', legExists = True,
     occupied = False, ac_override = None \<rparr>"

theorem assertAppointment_claims_witness:
  "assertAppointment [] sample_claim sample_claim_ctx = Inr () \<and>
     (\<exists>slot \<in> set (capacity_slots sample_facility). windowMatches sample_claim_ctx slot \<and> slot_key slot = ''d1'')"
proof -
  have gate: "assertAppointment [] sample_claim sample_claim_ctx = Inr ()"
    by (simp add: assertAppointment_def appointmentRefusal_def sample_facility_def windowMatches_def openFor_def ruleViolated_def
        badReschedule_def MS_PER_MIN_def sample_claim_def sample_claim_ctx_def)
  from assertAppointment_claims[OF gate] gate show ?thesis
    by (auto simp: sample_claim_def sample_claim_ctx_def)
qed

end
