(* ===== verification/Store.thy ===== *)
theory Store
  imports MoneyProjection Gates "HOL-Library.AList"
begin

text \<open>
  The tenant database as the ledger uses it (\<open>db/tenant/migrations\<close>), the prepared statements of the
  sequencer's batch, and their execution: a batch commits every statement or none. A column of
  JSON text is its value, \<open>None\<close> when it does not parse. The guards of the append-only tables, the
  unique slot index and the foreign key of \<open>passports\<close> are the refusals of \<open>execute\<close>.
\<close>

section \<open>Rows\<close>

record invoice_row =
  iv_party_id :: string
  iv_division :: string
  iv_shipment_ids :: "string list"
  iv_total_cents :: int
  iv_status :: string
  iv_issued_event_id :: string
  iv_terms :: "string option"
  iv_due_ts :: "int option"

record shipment_row =
  sh_division :: string
  sh_shipper :: string
  sh_consignee :: string
  sh_bill_to :: string
  sh_state :: "string option"
  sh_assigned_driver :: "string option"
  sh_out_for_delivery :: bool
  sh_created_ts :: int

record leg_row =
  lg_id :: string
  lg_shipment :: string
  lg_seq :: int
  lg_kind :: string
  lg_executor :: string
  lg_geo :: "jvalue option"
  lg_facility :: "string option"
  lg_slot :: "string option"
  lg_service_date :: "string option"
  lg_window_start :: "int option"
  lg_window_end :: "int option"

record party_row =
  pt_credit_status :: "string option"
  pt_contacts :: "jvalue option"

record document_row =
  dc_shipment :: "string option"
  dc_kind :: string
  dc_retention_status :: string

record anomaly_row =
  an_id :: string
  an_rule :: string
  an_object_id :: string
  an_severity :: string
  an_detail :: jvalue
  an_status :: string

record message_row =
  ms_id :: string
  ms_channel :: jstr
  ms_direction :: string
  ms_shipment :: "string option"
  ms_thread :: "jstr option"
  ms_body_ref :: jstr
  ms_drafted_by_agent :: "jstr option"
  ms_party_id :: "string option"
  ms_resolved_conf :: "int option"
  ms_sla_due_ts :: "int option"

record approval_row =
  av_id :: string
  av_object_id :: string
  av_rule :: jstr
  av_required_role :: jstr
  av_requested_event_id :: string
  av_decided_event_id :: "string option"
  av_status :: string

record agent_run_row =
  ar_id :: string
  ar_agent :: jstr
  ar_trigger_event_id :: "jstr option"
  ar_actions :: "jstr list"
  ar_basis :: jvalue
  ar_confidence :: "int option"
  ar_cost_cents :: "int option"
  ar_latency_ms :: "int option"
  ar_outcome :: "jstr option"

record authority_row =
  au_authority :: authority_level
  au_gates_status :: jvalue
  au_flipped_events :: "string list"

record passport_row =
  ps_scores :: "string \<rightharpoonup> int"
  ps_updated_at :: int

record facility_row =
  fa_tz :: string
  fa_config :: appointment_facility

record tenant_db =
  t_events :: "payload ledger_event list"
  t_lines :: "money_row list"
  t_invoices :: "(string \<times> invoice_row) list"
  t_shipments :: "string \<rightharpoonup> shipment_row"
  t_legs :: "leg_row list"
  t_parties :: "string \<rightharpoonup> party_row"
  t_documents :: "document_row list"
  t_anomalies :: "anomaly_row list"
  t_messages :: "message_row list"
  t_approvals :: "approval_row list"
  t_agent_runs :: "agent_run_row list"
  t_authority :: "authority_module \<rightharpoonup> authority_row"
  t_passports :: "string \<rightharpoonup> passport_row"
  t_facilities :: "string \<rightharpoonup> facility_row option"

section \<open>Statements\<close>

datatype stmt =
    InsertEvent "payload ledger_event"
  | InsertLine money_row
  | WriteInvoice invoice_upsert
  | BumpPassport string string int
  | SetCredit string string
  | UpsertBooking string string string string string int
  | InsertLegSkeleton string string int string string
  | SetState string string
  | SetDispatched string string
  | SetOutForDelivery string
  | ClaimSlot string string string int int string string
  | InsertMessage message_row
  | OpenApproval approval_row
  | DecideApproval string jstr
  | InsertAgentRun agent_run_row
  | FlipAuthority authority_module authority_level "jvalue option" string

datatype batch_refusal =
    EventsAppendOnly
  | CheckFailed
  | LineRefused db_refusal
  | ForeignKeyFailed
  | SlotUniqueFailed

definition eventRefused :: "tenant_db \<Rightarrow> payload ledger_event \<Rightarrow> batch_refusal option" where
  "eventRefused db e = firstSome
     [guard (list_ex (\<lambda>x. (stream_id x = stream_id e \<and> seq x = seq e) \<or> ev_id x = ev_id e) (t_events db))
        EventsAppendOnly,
      guard (list_ex (\<lambda>x. ev_hash x = ev_hash e \<or>
          (device_id e \<noteq> None \<and> stream_id x = stream_id e \<and> device_id x = device_id e \<and> device_seq x = device_seq e))
          (t_events db))
        EventsAppendOnly,
      guard (\<not> (device_id e = None \<or> device_seq e \<noteq> None)) CheckFailed,
      guard (\<not> (case shipment_id e of None \<Rightarrow> True | Some s \<Rightarrow> stream_id e = ''s:'' @ s)) CheckFailed]"

definition unionIds :: "string list \<Rightarrow> string list \<Rightarrow> string list" where
  "unionIds xs ys = uniq (sort (xs @ ys))"

definition writeInvoice :: "(string \<times> invoice_row) list \<Rightarrow> invoice_upsert \<Rightarrow> (string \<times> invoice_row) list" where
  "writeInvoice t u =
     (case u of
        InvoiceInsert i party division ships tot status ev terms due \<Rightarrow>
          AList.update i \<lparr> iv_party_id = party, iv_division = division,
               iv_shipment_ids = (case map_of t i of None \<Rightarrow> ships | Some old \<Rightarrow> unionIds (iv_shipment_ids old) ships),
               iv_total_cents = tot, iv_status = status, iv_issued_event_id = ev, iv_terms = terms, iv_due_ts = due \<rparr> t
      | InvoiceUpdate i tot status ev \<Rightarrow>
          (case map_of t i of
             None \<Rightarrow> t
           | Some old \<Rightarrow> AList.update i (old \<lparr> iv_total_cents := tot, iv_status := status, iv_issued_event_id := ev \<rparr>) t)
      | InvoiceVoid i tot status \<Rightarrow>
          (case map_of t i of
             None \<Rightarrow> t
           | Some old \<Rightarrow> AList.update i (old \<lparr> iv_total_cents := tot, iv_status := status \<rparr>) t)
      | InvoiceSettle i status \<Rightarrow>
          (case map_of t i of
             None \<Rightarrow> t
           | Some old \<Rightarrow> if iv_status old = ''issued'' then AList.update i (old \<lparr> iv_status := status \<rparr>) t else t))"

definition updateShipment ::
  "(shipment_row \<Rightarrow> shipment_row) \<Rightarrow> string \<Rightarrow> (string \<rightharpoonup> shipment_row) \<Rightarrow> (string \<rightharpoonup> shipment_row)" where
  "updateShipment f i t = (case t i of None \<Rightarrow> t | Some r \<Rightarrow> t(i \<mapsto> f r))"

text \<open>\<open>INSERT OR IGNORE\<close> on a primary key.\<close>

definition insertOrIgnore :: "('r \<Rightarrow> string) \<Rightarrow> 'r \<Rightarrow> 'r list \<Rightarrow> 'r list" where
  "insertOrIgnore key r rows = (if list_ex (\<lambda>x. key x = key r) rows then rows else rows @ [r])"

text \<open>The partial unique index \<open>ux_legs_slot\<close>: SQL \<open>NULL\<close>s in the key never collide.\<close>

definition slotKey :: "leg_row \<Rightarrow> (string \<times> string \<times> string) option" where
  "slotKey l = (case (lg_facility l, lg_slot l, lg_service_date l) of
       (Some f, Some s, Some d) \<Rightarrow> Some (f, s, d) | _ \<Rightarrow> None)"

definition slotsUnique :: "leg_row list \<Rightarrow> bool" where
  "slotsUnique legs = distinct (filter (\<lambda>k. k \<noteq> None) (map slotKey legs))"

definition claimLegs ::
  "string \<Rightarrow> string \<Rightarrow> string \<Rightarrow> int \<Rightarrow> int \<Rightarrow> string \<Rightarrow> string \<Rightarrow> leg_row list \<Rightarrow> leg_row list" where
  "claimLegs f slot d start end' ship k legs = map (\<lambda>l.
     if lg_shipment l = ship \<and> lg_kind l = k
     then l \<lparr> lg_facility := Some f, lg_slot := Some slot, lg_service_date := Some d,
              lg_window_start := Some start, lg_window_end := Some end' \<rparr>
     else l) legs"

text \<open>One statement: the refusal that aborts the batch, or the new tables and the rows affected.\<close>

fun execute :: "stmt \<Rightarrow> tenant_db \<Rightarrow> batch_refusal + tenant_db \<times> nat" where
  "execute (InsertEvent e) db =
     (case eventRefused db e of Some r \<Rightarrow> Inl r | None \<Rightarrow> Inr (db \<lparr> t_events := t_events db @ [e] \<rparr>, 1))"
| "execute (InsertLine r) db =
     (case lineRefused (t_lines db) r of
        Some x \<Rightarrow> Inl (LineRefused x) | None \<Rightarrow> Inr (db \<lparr> t_lines := t_lines db @ [r] \<rparr>, 1))"
| "execute (WriteInvoice u) db = Inr (db \<lparr> t_invoices := writeInvoice (t_invoices db) u \<rparr>, 1)"
| "execute (BumpPassport party field stamp) db =
     (if t_parties db party = None then Inl ForeignKeyFailed
      else
        let scores = (case t_passports db party of None \<Rightarrow> Map.empty | Some r \<Rightarrow> ps_scores r);
            n = (case scores field of None \<Rightarrow> 0 | Some k \<Rightarrow> k) in
        Inr (db \<lparr> t_passports := (t_passports db)(party \<mapsto>
               \<lparr> ps_scores = scores(field \<mapsto> n + 1), ps_updated_at = stamp \<rparr>) \<rparr>, 1))"
| "execute (SetCredit status party) db =
     (case t_parties db party of
        None \<Rightarrow> Inr (db, 0)
      | Some r \<Rightarrow> Inr (db \<lparr> t_parties := (t_parties db)(party \<mapsto> r \<lparr> pt_credit_status := Some status \<rparr>) \<rparr>, 1))"
| "execute (UpsertBooking i division shipper consignee billTo created) db =
     Inr (db \<lparr> t_shipments := (t_shipments db)(i \<mapsto>
       (case t_shipments db i of
          None \<Rightarrow> \<lparr> sh_division = division, sh_shipper = shipper, sh_consignee = consignee, sh_bill_to = billTo,
                    sh_state = Some ''booked'', sh_assigned_driver = None, sh_out_for_delivery = False,
                    sh_created_ts = created \<rparr>
        | Some r \<Rightarrow> r \<lparr> sh_consignee := consignee, sh_bill_to := billTo, sh_state := Some ''booked'' \<rparr>)) \<rparr>, 1)"
| "execute (InsertLegSkeleton i ship sq k executor) db =
     Inr (db \<lparr> t_legs := insertOrIgnore lg_id
       \<lparr> lg_id = i, lg_shipment = ship, lg_seq = sq, lg_kind = k, lg_executor = executor, lg_geo = Some (JObj []),
          lg_facility = None, lg_slot = None, lg_service_date = None, lg_window_start = None, lg_window_end = None \<rparr>
       (t_legs db) \<rparr>, 1)"
| "execute (SetState st i) db =
     Inr (db \<lparr> t_shipments := updateShipment (\<lambda>r. r \<lparr> sh_state := Some st \<rparr>) i (t_shipments db) \<rparr>, 1)"
| "execute (SetDispatched driver i) db =
     Inr (db \<lparr> t_shipments := updateShipment
       (\<lambda>r. r \<lparr> sh_state := Some ''dispatched'', sh_assigned_driver := Some driver \<rparr>) i (t_shipments db) \<rparr>, 1)"
| "execute (SetOutForDelivery i) db =
     Inr (db \<lparr> t_shipments := updateShipment (\<lambda>r. r \<lparr> sh_out_for_delivery := True \<rparr>) i (t_shipments db) \<rparr>, 1)"
| "execute (ClaimSlot f slot d start end' ship k) db =
     (let legs = claimLegs f slot d start end' ship k (t_legs db) in
      if slotsUnique legs then Inr (db \<lparr> t_legs := legs \<rparr>, 1) else Inl SlotUniqueFailed)"
| "execute (InsertMessage m) db = Inr (db \<lparr> t_messages := insertOrIgnore ms_id m (t_messages db) \<rparr>, 1)"
| "execute (OpenApproval a) db = Inr (db \<lparr> t_approvals := insertOrIgnore av_id a (t_approvals db) \<rparr>, 1)"
| "execute (DecideApproval ev requested) db =
     Inr (db \<lparr> t_approvals := map (\<lambda>a. if jlit (av_requested_event_id a) = requested
       then a \<lparr> av_status := ''decided'', av_decided_event_id := Some ev \<rparr> else a) (t_approvals db) \<rparr>, 1)"
| "execute (InsertAgentRun r) db = Inr (db \<lparr> t_agent_runs := insertOrIgnore ar_id r (t_agent_runs db) \<rparr>, 1)"
| "execute (FlipAuthority m level gates ev) db =
     Inr (db \<lparr> t_authority := (t_authority db)(m \<mapsto>
       (case t_authority db m of
          None \<Rightarrow> \<lparr> au_authority = level, au_gates_status = (case gates of None \<Rightarrow> JObj [] | Some g \<Rightarrow> g),
                    au_flipped_events = [ev] \<rparr>
        | Some r \<Rightarrow> \<lparr> au_authority = level, au_gates_status = (case gates of None \<Rightarrow> au_gates_status r | Some g \<Rightarrow> g),
                    au_flipped_events =
                      (if ev \<in> set (au_flipped_events r) then au_flipped_events r else au_flipped_events r @ [ev]) \<rparr>)) \<rparr>, 1)"

fun batch :: "stmt list \<Rightarrow> tenant_db \<Rightarrow> batch_refusal + tenant_db \<times> nat list" where
  "batch [] db = Inr (db, [])"
| "batch (s # ss) db =
     ebind (execute s db) (\<lambda>(db1, n). ebind (batch ss db1) (\<lambda>(db2, ns). Inr (db2, n # ns)))"

end
