(* ===== verification/Projections.thy ===== *)
theory Projections
  imports Store "HOL-Library.Product_Lexorder"
begin

text \<open>
  \<open>packages/ledger/src/projection\<close> without the money lines: the statements every event contributes to the
  sequencer's batch, the credit reconciler, the authority read seam and the credit-gap surfacing.
  The required texts of a typed payload that this development keeps as free JSON read as the empty
  text when absent (\<open>reqText\<close>); the schemas exclude that.
\<close>

section \<open>Status cache (\<open>status-cache.ts\<close>)\<close>

definition projectStatusCache :: "payload ledger_event \<Rightarrow> string + stmt list" where
  "projectStatusCache e =
     (if kind e = CreditChecked then
        (case payload e of
           CreditCheckedP c \<Rightarrow> Inr [SetCredit (credit_status_name (cc_status c)) (cc_party_id c)]
         | _ \<Rightarrow> Inl ''credit.checked: payload must carry party_id and status'')
      else
        case shipment_id e of
          None \<Rightarrow> Inr []
        | Some ship \<Rightarrow>
            (case kind e of
               BookingCreated \<Rightarrow>
                 (case payload e of
                    BookingCreatedP b \<Rightarrow> Inr
                      [UpsertBooking ship (bk_division b) (bk_shipper_party_id b) (bk_consignee_party_id b)
                         (bk_bill_to_party_id b) (ts e),
                       InsertLegSkeleton (ship @ '':pickup'') ship 0 ''pickup'' (bk_bill_to_party_id b),
                       InsertLegSkeleton (ship @ '':delivery'') ship 1 ''delivery'' (bk_bill_to_party_id b)]
                  | _ \<Rightarrow> Inl ''booking.created: payload must carry shipper_party_id / consignee_party_id / bill_to_party_id'')
             | DispatchAssigned \<Rightarrow>
                 (case act_user (actor e) of
                    Some driver \<Rightarrow> Inr [SetDispatched driver ship]
                  | None \<Rightarrow> Inr [SetState ''dispatched'' ship])
             | CustodyTransferred \<Rightarrow> Inr [SetState ''in_transit'' ship]
             | StopDeparted \<Rightarrow>
                 if readField (payload e) ''out_for_delivery'' = JBool True then Inr [SetOutForDelivery ship] else Inr []
             | PodSigned \<Rightarrow> Inr [SetState ''delivered'' ship]
             | ExceptionRaised \<Rightarrow> Inr [SetState ''exception'' ship]
             | _ \<Rightarrow> Inr []))"

definition CREDIT_PROJECTION_GAP_RULE :: string where
  "CREDIT_PROJECTION_GAP_RULE = ''credit_projection_gap''"

definition upsertAnomaly :: "anomaly_row \<Rightarrow> anomaly_row list \<Rightarrow> anomaly_row list" where
  "upsertAnomaly a rows =
     (if list_ex (\<lambda>x. an_id x = an_id a) rows
      then map (\<lambda>x. if an_id x = an_id a
             then x \<lparr> an_severity := an_severity a, an_detail := an_detail a, an_status := ''open'' \<rparr> else x) rows
      else rows @ [a])"

definition surfaceCreditProjectionGapIfMissed :: "tenant_db \<Rightarrow> payload ledger_event \<Rightarrow> nat \<Rightarrow> tenant_db" where
  "surfaceCreditProjectionGapIfMissed db e creditRowsAffected =
     (if kind e \<noteq> CreditChecked then db
      else if creditRowsAffected \<noteq> 0 then db
      else
        case payload e of
          CreditCheckedP c \<Rightarrow>
            db \<lparr> t_anomalies := upsertAnomaly
              \<lparr> an_id = ''credit-projection-gap:'' @ ev_id e, an_rule = CREDIT_PROJECTION_GAP_RULE,
                 an_object_id = cc_party_id c, an_severity = ''critical'',
                 an_detail = jobj [(''party_id'', jtext (cc_party_id c)),
                   (''status'', jtext (credit_status_name (cc_status c))), (''event_id'', jtext (ev_id e)),
                   (''reason'', jtext ''party_row_absent'')],
                 an_status = ''open'' \<rparr> (t_anomalies db) \<rparr>
        | _ \<Rightarrow> db)"

section \<open>Passports, appointments, approvals, authority\<close>

definition projectPassport :: "payload ledger_event \<Rightarrow> stmt list" where
  "projectPassport e =
     (case kind e of
        PodSigned \<Rightarrow> [BumpPassport (act_party (actor e)) ''deliveries'' (recorded_at e)]
      | ExceptionRaised \<Rightarrow> [BumpPassport (act_party (actor e)) ''exceptions'' (recorded_at e)]
      | OsdCaptured \<Rightarrow> [BumpPassport (act_party (actor e)) ''claims_opened'' (recorded_at e)]
      | CustodyTransferred \<Rightarrow> [BumpPassport (act_party (actor e)) ''custody_events'' (recorded_at e)]
      | _ \<Rightarrow> [])"

definition projectAppointment :: "payload ledger_event \<Rightarrow> string option \<Rightarrow> stmt list" where
  "projectAppointment e date =
     (case (kind e, payload e, date, shipment_id e) of
        (AppointmentSet, AppointmentSetP p, Some d, Some ship) \<Rightarrow>
          [ClaimSlot (ap_facility_id p) (ap_slot_key p) d (ap_window_start_ts p) (ap_window_end_ts p) ship
             (stop_kind_name (ap_leg_kind p))]
      | _ \<Rightarrow> [])"

definition projectApprovals :: "payload ledger_event \<Rightarrow> stmt list" where
  "projectApprovals e =
     (if kind e = ApprovalRequested then
        (case (shipment_id e, asText (readField (payload e) ''rule''), asText (readField (payload e) ''required_role'')) of
           (Some ship, Some rule, Some required) \<Rightarrow> 
             [OpenApproval \<lparr> av_id = ev_id e, av_object_id = ship, av_rule = rule, av_required_role = required,
                av_requested_event_id = ev_id e, av_decided_event_id = None, av_status = ''open'' \<rparr>]
         | _ \<Rightarrow> [])
      else if kind e = ApprovalDecided then
        (case asText (readField (payload e) ''requested_event_id'') of
           Some r \<Rightarrow> [DecideApproval (ev_id e) r]
         | None \<Rightarrow> [])
      else [])"

definition projectAuthority :: "payload ledger_event \<Rightarrow> stmt list" where
  "projectAuthority e =
     (case (kind e, payload e) of
        (AuthorityFlipped, AuthorityFlippedP p) \<Rightarrow> [FlipAuthority (af_module p) (af_to p) (af_gate_snapshot p) (ev_id e)]
      | _ \<Rightarrow> [])"

definition resolveAuthority :: "tenant_db \<Rightarrow> authority_module \<Rightarrow> authority_level" where
  "resolveAuthority db m =
     (case t_authority db m of
        None \<Rightarrow> LegacyLevel
      | Some r \<Rightarrow> if au_authority r = NativeLevel then NativeLevel else LegacyLevel)"

definition authoritativeSource :: "authority_level \<Rightarrow> bool \<Rightarrow> authority_level" where
  "authoritativeSource authority legacyValueAvailable =
     (if authority = NativeLevel then NativeLevel
      else if legacyValueAvailable then LegacyLevel else NativeLevel)"

section \<open>Messages and agent runs\<close>

definition reqText :: "payload \<Rightarrow> string \<Rightarrow> jstr" where
  "reqText p k = (case asText (readField p k) of None \<Rightarrow> [] | Some s \<Rightarrow> s)"

definition projectMessages :: "payload ledger_event \<Rightarrow> message_row list" where
  "projectMessages e =
     (case kind e of
        MessageReceived \<Rightarrow>
          [\<lparr> ms_id = ''msg:'' @ ev_id e, ms_channel = reqText (payload e) ''channel'', ms_direction = ''in'',
             ms_shipment = shipment_id e, ms_thread = asText (readField (payload e) ''thread''),
             ms_body_ref = reqText (payload e) ''body_ref'', ms_drafted_by_agent = None,
             ms_party_id = None, ms_resolved_conf = None, ms_sla_due_ts = None \<rparr>]
      | MessageSent \<Rightarrow>
          [\<lparr> ms_id = ''msg:'' @ ev_id e, ms_channel = reqText (payload e) ''channel'', ms_direction = ''out'',
             ms_shipment = shipment_id e, ms_thread = asText (readField (payload e) ''thread''),
             ms_body_ref = reqText (payload e) ''body_ref'',
             ms_drafted_by_agent = asText (readField (payload e) ''drafted_by_agent''),
             ms_party_id = None, ms_resolved_conf = None, ms_sla_due_ts = None \<rparr>]
      | _ \<Rightarrow> [])"

definition applyMessageProjection :: "payload ledger_event \<Rightarrow> stmt list" where
  "applyMessageProjection e = map InsertMessage (projectMessages e)"

definition isEventBasis :: "jvalue \<Rightarrow> bool" where
  "isEventBasis b = (jfield ''kind'' b = jtext ''event'' \<and> asText (jfield ''id'' b) \<noteq> None)"

definition basisLinks :: "jvalue \<Rightarrow> jvalue list" where
  "basisLinks v = (case v of JArr xs \<Rightarrow> map (\<lambda>x. case x of None \<Rightarrow> JUndefined | Some b \<Rightarrow> b) xs | _ \<Rightarrow> [])"

definition projectAgentRuns :: "payload ledger_event \<Rightarrow> stmt list" where
  "projectAgentRuns e =
     (if kind e \<noteq> AgentActed then []
      else
        case asText (readField (payload e) ''agent'') of
          None \<Rightarrow> []
        | Some agent \<Rightarrow>
            let action = asText (readField (payload e) ''action'');
                basis = basisLinks (readField (payload e) ''basis'') in
            [InsertAgentRun \<lparr> ar_id = ev_id e, ar_agent = agent,
               ar_trigger_event_id = Option.bind (find isEventBasis basis) (\<lambda>b. asText (jfield ''id'' b)),
               ar_actions = (case action of None \<Rightarrow> [] | Some a \<Rightarrow> [a]), ar_basis = JArr (map Some basis),
               ar_confidence = asInt (readField (payload e) ''confidence_bps''),
               ar_cost_cents = asInt (readField (payload e) ''cost_cents''),
               ar_latency_ms = asInt (readField (payload e) ''latency_ms''), ar_outcome = action \<rparr>])"

section \<open>Money statements\<close>

definition applyMoneyProjection :: "payload ledger_event \<Rightarrow> money_deps \<Rightarrow> projection_error + stmt list" where
  "applyMoneyProjection e deps =
     ebind (projectMoneyLines e deps) (\<lambda>m. Inr (map InsertLine (mp_lines m) @ map WriteInvoice (mp_invoices m)))"

text \<open>\<open>mapMoneyProjectionError\<close> sees the refusal of the batch; under the shipped schema both guards of
  \<open>money_lines\<close> raise the same text, so the kind decides.\<close>

definition mapMoneyProjectionError :: "batch_refusal \<Rightarrow> event_kind \<Rightarrow> string option" where
  "mapMoneyProjectionError err k =
     (if k = InvoiceCorrected \<and> err = LineRefused AppendOnlyLines
      then Some ''invoice already corrected (I7: one correction per event)'' else None)"

section \<open>The credit reconciler (\<open>reconcile/credit.ts\<close>)\<close>

record credit_recon =
  cr_party_id :: string
  cr_resolved :: bool
  cr_applied_status :: "string option"

definition openGap :: "tenant_db \<Rightarrow> string \<Rightarrow> bool" where
  "openGap db party = list_ex (\<lambda>a. an_rule a = CREDIT_PROJECTION_GAP_RULE \<and> an_object_id a = party
     \<and> an_status a = ''open'') (t_anomalies db)"

text \<open>\<open>ORDER BY recorded_at DESC, seq DESC LIMIT 1\<close>: the last of the rows in ascending order.\<close>

definition creditDecision :: "string \<Rightarrow> payload ledger_event \<Rightarrow> credit_status option" where
  "creditDecision party e =
     (case (kind e, payload e) of
        (CreditChecked, CreditCheckedP c) \<Rightarrow> if cc_party_id c = party then Some (cc_status c) else None
      | _ \<Rightarrow> None)"

definition latestCredit :: "tenant_db \<Rightarrow> string \<Rightarrow> string option" where
  "latestCredit db party =
     (case rev (sort_key (\<lambda>e. (recorded_at e, seq e)) (filter (\<lambda>e. creditDecision party e \<noteq> None) (t_events db))) of
        [] \<Rightarrow> None
      | e # _ \<Rightarrow> map_option credit_status_name (creditDecision party e))"

definition reconcileCreditForParty :: "tenant_db \<Rightarrow> string \<Rightarrow> tenant_db \<times> credit_recon" where
  "reconcileCreditForParty db party =
     (let noop = (db, \<lparr> cr_party_id = party, cr_resolved = False, cr_applied_status = None \<rparr>) in
      if \<not> openGap db party then noop
      else
        case t_parties db party of
          None \<Rightarrow> noop
        | Some row \<Rightarrow>
            (case latestCredit db party of
               None \<Rightarrow> noop
             | Some status \<Rightarrow>
                 (db \<lparr> t_parties := (t_parties db)(party \<mapsto> row \<lparr> pt_credit_status := Some status \<rparr>),
                      t_anomalies := map (\<lambda>a. if an_rule a = CREDIT_PROJECTION_GAP_RULE \<and> an_object_id a = party
                          \<and> an_status a = ''open'' then a \<lparr> an_status := ''resolved'' \<rparr> else a) (t_anomalies db) \<rparr>,
                  \<lparr> cr_party_id = party, cr_resolved = True, cr_applied_status = Some status \<rparr>)))"

end
