(* ===== verification/Visibility.thy ===== *)
theory Visibility
  imports Events
begin

text \<open>
  \<open>packages/ledger/src/visibility.ts\<close>: the server resolves the visibility of an event when it is
  appended. A tenant policy is the map from kind names to visibilities of the control row. A
  correction has no visibility of its own: it inherits its parent's, or is unresolved. The order on
  \<open>visibility\<close> is the code's \<open>RANK\<close>, from the most restricted to the widest.
\<close>

fun KIND_VISIBILITY_DEFAULTS :: "event_kind \<Rightarrow> visibility" where
  "KIND_VISIBILITY_DEFAULTS CreditChecked = Internal"
| "KIND_VISIBILITY_DEFAULTS SplitComputed = Internal"
| "KIND_VISIBILITY_DEFAULTS CallTranscribed = Internal"
| "KIND_VISIBILITY_DEFAULTS ApprovalRequested = Internal"
| "KIND_VISIBILITY_DEFAULTS ApprovalDecided = Internal"
| "KIND_VISIBILITY_DEFAULTS AgentActed = Internal"
| "KIND_VISIBILITY_DEFAULTS AuthorityFlipped = Internal"
| "KIND_VISIBILITY_DEFAULTS _ = Counterparty"

fun RANK :: "visibility \<Rightarrow> nat" where
  "RANK Internal = 0"
| "RANK Counterparty = 1"
| "RANK Public = 2"

lemma RANK_inject [simp]: "RANK v = RANK w \<longleftrightarrow> v = w"
  by (cases v; cases w) simp_all

instantiation visibility :: linorder
begin

definition less_eq_visibility :: "visibility \<Rightarrow> visibility \<Rightarrow> bool" where
  "v \<le> w \<longleftrightarrow> RANK v \<le> RANK w"

definition less_visibility :: "visibility \<Rightarrow> visibility \<Rightarrow> bool" where
  "v < w \<longleftrightarrow> RANK v < RANK w"

instance
proof
  fix v w :: visibility
  show "v \<le> w \<Longrightarrow> w \<le> v \<Longrightarrow> v = w"
    by (cases v; cases w) (simp_all add: less_eq_visibility_def)
qed (auto simp: less_eq_visibility_def less_visibility_def)

end

definition INTERNAL_FLOOR :: "event_kind list" where
  "INTERNAL_FLOOR = filter (\<lambda>k. KIND_VISIBILITY_DEFAULTS k = Internal) EVENT_KINDS"

definition INHERITED_VISIBILITY_KINDS :: "event_kind list" where
  "INHERITED_VISIBILITY_KINDS = [InvoiceCorrected]"

datatype resolved_visibility = Resolved visibility | Unresolved

definition base_visibility :: "event_kind \<Rightarrow> (string \<rightharpoonup> visibility) option \<Rightarrow> visibility" where
  "base_visibility k policy =
     (case policy of
        None \<Rightarrow> KIND_VISIBILITY_DEFAULTS k
      | Some p \<Rightarrow> (case p (kind_name k) of None \<Rightarrow> KIND_VISIBILITY_DEFAULTS k | Some v \<Rightarrow> v))"

definition resolveVisibility ::
  "event_kind \<Rightarrow> (string \<rightharpoonup> visibility) option \<Rightarrow> visibility option \<Rightarrow> visibility option \<Rightarrow> resolved_visibility"
where
  "resolveVisibility k policy requested correctedEventVisibility =
     (if k \<in> set INHERITED_VISIBILITY_KINDS
      then (case correctedEventVisibility of None \<Rightarrow> Unresolved | Some v \<Rightarrow> Resolved v)
      else
        let v = base_visibility k policy;
            v = (case requested of None \<Rightarrow> v | Some r \<Rightarrow> if RANK r < RANK v then r else v)
        in if k \<in> set INTERNAL_FLOOR then Resolved Internal else Resolved v)"

section \<open>Lemmas\<close>

lemma Internal_least [simp]: "Internal \<le> v"
  by (simp add: less_eq_visibility_def)

lemma visibility_le_Internal [simp]: "v \<le> Internal \<longleftrightarrow> v = Internal"
  by (cases v) (simp_all add: less_eq_visibility_def)

lemma INTERNAL_FLOOR_iff [simp]: "k \<in> set INTERNAL_FLOOR \<longleftrightarrow> KIND_VISIBILITY_DEFAULTS k = Internal"
  by (simp add: INTERNAL_FLOOR_def EVENT_KINDS_complete)

lemma resolveVisibility_inherited [simp]:
  "resolveVisibility InvoiceCorrected policy requested parent =
     (case parent of None \<Rightarrow> Unresolved | Some v \<Rightarrow> Resolved v)"
  by (simp add: resolveVisibility_def INHERITED_VISIBILITY_KINDS_def)

lemma resolveVisibility_own:
  assumes "k \<noteq> InvoiceCorrected"
  shows "resolveVisibility k policy requested parent =
     Resolved (if KIND_VISIBILITY_DEFAULTS k = Internal then Internal
       else case requested of None \<Rightarrow> base_visibility k policy | Some r \<Rightarrow> min r (base_visibility k policy))"
  using assms
  by (auto simp: resolveVisibility_def INHERITED_VISIBILITY_KINDS_def Let_def min_def
      less_eq_visibility_def split: option.splits)

text \<open>A resolved visibility is never wider than what was asked for or what the policy and the defaults
  give, an internal kind stays internal whatever the policy says, a correction has exactly its
  parent's visibility, and apart from the floor nothing is narrowed without a request.\<close>

theorem resolveVisibility_never_widens:
  assumes "resolveVisibility k policy requested parent = Resolved v"
  shows "(k = InvoiceCorrected \<longrightarrow> parent = Some v)
    \<and> (k \<noteq> InvoiceCorrected \<longrightarrow> v \<le> base_visibility k policy \<and> (\<forall>r. requested = Some r \<longrightarrow> v \<le> r))
    \<and> (KIND_VISIBILITY_DEFAULTS k = Internal \<longrightarrow> v = Internal)
    \<and> (k \<noteq> InvoiceCorrected \<and> KIND_VISIBILITY_DEFAULTS k \<noteq> Internal \<longrightarrow>
         v = base_visibility k policy \<or> requested = Some v)"
proof (cases "k = InvoiceCorrected")
  case True
  then show ?thesis
    using assms by (simp split: option.splits)
next
  case False
  then show ?thesis
    using assms by (auto simp: resolveVisibility_own min_def split: option.splits if_splits)
qed

theorem resolveVisibility_never_widens_witness:
  "resolveVisibility DocumentAttached (Some [''document.attached'' \<mapsto> Public]) (Some Counterparty) None
     = Resolved Counterparty \<and> Counterparty \<le> Public"
proof -
  have "resolveVisibility DocumentAttached (Some [''document.attached'' \<mapsto> Public]) (Some Counterparty) None
     = Resolved Counterparty"
    by (simp add: resolveVisibility_own base_visibility_def min_def less_eq_visibility_def)
  from resolveVisibility_never_widens[OF this] this show ?thesis
    by (simp add: base_visibility_def)
qed

end
