(* ===== verification/Sequencer.thy ===== *)
theory Sequencer
  imports Projections Visibility
begin

text \<open>
  \<open>workers/api/src/do/sequencer.ts\<close>: the durable object that owns one (tenant, stream) pair and appends
  its events. A sequencer's state is its identity, its pin and its caches (\<open>tail\<close>, policy,
  device keys, database handle), next to the world it acts on: the control plane, the registered
  device keys, one database per tenant and the platform's own. An action is a function from the
  state to an error or a result, with the new state: a refusal after a cache was filled leaves
  the cache filled, as in the code. The mutex makes every \<open>append\<close> atomic.

  Parameters (\<open>env\<close>): the hash of durable-object names, SHA-256, the schema library's test of a UUID, the verification of a signature under
  a device key, the great-circle distance, the jurisdiction of a coordinate, and the local wall
  clock of a time zone; \<open>Date.now()\<close> is an argument.
\<close>

section \<open>State\<close>

record tenant_policy =
  tp_dims_required :: "bool option"
  tp_geofence_radius_m :: "rat option"
  tp_visibility :: "(string \<rightharpoonup> visibility) option"
  tp_invoice_without_pod_classes :: "string list option"

record control_row =
  ct_policy :: "tenant_policy option"
  ct_hazmat_enabled :: bool

record local_wall =
  lw_minuteOfDay :: int
  lw_dow :: int
  lw_serviceDate :: string

datatype db_ref = CustomerDb string | PlatformDb

record 'k world =
  control :: "string \<rightharpoonup> control_row"
  registered :: "string \<Rightarrow> string \<Rightarrow> 'k option"
  resolvable :: "string \<Rightarrow> bool"
  customer_dbs :: "string \<Rightarrow> tenant_db"
  platform_db :: tenant_db

record 'k sequencer =
  do_id :: string
  tail :: "(int \<times> string) option"
  pin :: "(string \<times> string) option"
  policyCache :: "tenant_policy option"
  hazmatCache :: "bool option"
  deviceKeys :: "string \<rightharpoonup> 'k option"
  dbHandle :: "db_ref option"
  world :: "'k world"

record 'k env =
  idFromName :: "string \<Rightarrow> string"
  sha256 :: "bytes \<Rightarrow> bytes"
  uuid :: "string \<Rightarrow> bool"
  verifyKey :: "'k \<Rightarrow> string \<Rightarrow> bytes \<Rightarrow> bool option"
  haversine :: "int \<Rightarrow> int \<Rightarrow> int \<Rightarrow> int \<Rightarrow> int"
  operatingState :: "geo_stamp \<Rightarrow> string"
  localWall :: "int \<Rightarrow> string \<Rightarrow> local_wall"

datatype seq_error =
    Forbidden string
  | Unauthorized string
  | ValidationFailed string
  | GateRefusal gate_error
  | SchemaBackstop
  | NotCanonical canon_error
  | ProjectionFailed projection_error
  | ProjectionThrew string
  | DatabaseFault batch_refusal
  | MalformedFacility

type_synonym ('k, 'a) action = "'k sequencer \<Rightarrow> (seq_error + 'a) \<times> 'k sequencer"

definition ret :: "'a \<Rightarrow> ('k, 'a) action" where
  "ret x = (\<lambda>s. (Inr x, s))"

definition fail :: "seq_error \<Rightarrow> ('k, 'a) action" where
  "fail err = (\<lambda>s. (Inl err, s))"

definition sbind :: "('k, 'a) action \<Rightarrow> ('a \<Rightarrow> ('k, 'b) action) \<Rightarrow> ('k, 'b) action" where
  "sbind m f = (\<lambda>s. case m s of (Inl err, s') \<Rightarrow> (Inl err, s') | (Inr x, s') \<Rightarrow> f x s')"

definition demand :: "bool \<Rightarrow> seq_error \<Rightarrow> ('k, unit) action" where
  "demand p err = (if p then ret () else fail err)"

definition reads :: "('k sequencer \<Rightarrow> 'a) \<Rightarrow> ('k, 'a) action" where
  "reads f = (\<lambda>s. (Inr (f s), s))"

definition modify :: "('k sequencer \<Rightarrow> 'k sequencer) \<Rightarrow> ('k, unit) action" where
  "modify f = (\<lambda>s. (Inr (), f s))"

definition gated :: "gate_error + 'a \<Rightarrow> ('k, 'a) action" where
  "gated r = (case r of Inl err \<Rightarrow> fail (GateRefusal err) | Inr x \<Rightarrow> ret x)"

section \<open>Databases\<close>

definition readDb :: "'k world \<Rightarrow> db_ref \<Rightarrow> tenant_db" where
  "readDb w r = (case r of CustomerDb t \<Rightarrow> customer_dbs w t | PlatformDb \<Rightarrow> platform_db w)"

definition writeDb :: "db_ref \<Rightarrow> tenant_db \<Rightarrow> 'k world \<Rightarrow> 'k world" where
  "writeDb r db w = (case r of
       CustomerDb t \<Rightarrow> w \<lparr> customer_dbs := (customer_dbs w)(t := db) \<rparr>
     | PlatformDb \<Rightarrow> w \<lparr> platform_db := db \<rparr>)"

definition getDb :: "db_ref \<Rightarrow> ('k, tenant_db) action" where
  "getDb r = reads (\<lambda>s. readDb (world s) r)"

definition putDb :: "db_ref \<Rightarrow> tenant_db \<Rightarrow> ('k, unit) action" where
  "putDb r db = modify (\<lambda>s. s \<lparr> world := writeDb r db (world s) \<rparr>)"

definition PLATFORM_TENANT_ID :: string where
  "PLATFORM_TENANT_ID = ''_platform''"

definition isPlatformTenant :: "string \<Rightarrow> bool" where
  "isPlatformTenant slug = (slug = PLATFORM_TENANT_ID)"

definition resolveDb :: "string \<Rightarrow> bool \<Rightarrow> ('k, db_ref) action" where
  "resolveDb tenant platform =
     sbind (reads dbHandle) (\<lambda>h.
       case h of
         Some r \<Rightarrow> ret r
       | None \<Rightarrow>
           if platform then
             sbind (demand (isPlatformTenant tenant) (Forbidden ''platform append requires the platform tenant'')) (\<lambda>_.
             sbind (modify (\<lambda>s. s \<lparr> dbHandle := Some PlatformDb \<rparr>)) (\<lambda>_. ret PlatformDb))
           else
             sbind (reads (\<lambda>s. \<not> isPlatformTenant tenant \<and> resolvable (world s) tenant)) (\<lambda>known.
             sbind (demand known (Forbidden ''unknown tenant'')) (\<lambda>_.
             sbind (modify (\<lambda>s. s \<lparr> dbHandle := Some (CustomerDb tenant) \<rparr>)) (\<lambda>_. ret (CustomerDb tenant)))))"

section \<open>Control-plane reads\<close>

definition no_policy :: tenant_policy where
  "no_policy = \<lparr> tp_dims_required = None, tp_geofence_radius_m = None, tp_visibility = None,
     tp_invoice_without_pod_classes = None \<rparr>"

definition TENANT_POLICY_MALFORMED_REASON :: string where
  "TENANT_POLICY_MALFORMED_REASON = ''tenant policy malformed''"

definition loadPolicy :: "string \<Rightarrow> ('k, tenant_policy) action" where
  "loadPolicy tenant =
     sbind (reads policyCache) (\<lambda>cached.
       case cached of
         Some p \<Rightarrow> ret p
       | None \<Rightarrow>
           sbind (reads (\<lambda>s. control (world s) tenant)) (\<lambda>row.
           sbind (modify (\<lambda>s. s \<lparr> hazmatCache :=
               Some (case row of None \<Rightarrow> False | Some r \<Rightarrow> ct_hazmat_enabled r) \<rparr>)) (\<lambda>_.
             case row of
               Some r \<Rightarrow>
                 (case ct_policy r of
                    None \<Rightarrow> fail (ValidationFailed TENANT_POLICY_MALFORMED_REASON)
                  | Some p \<Rightarrow> sbind (modify (\<lambda>s. s \<lparr> policyCache := Some p \<rparr>)) (\<lambda>_. ret p))
             | None \<Rightarrow>
                 sbind (demand (isPlatformTenant tenant) (ValidationFailed TENANT_POLICY_MALFORMED_REASON)) (\<lambda>_.
                 sbind (modify (\<lambda>s. s \<lparr> policyCache := Some no_policy \<rparr>)) (\<lambda>_. ret no_policy)))))"

definition deviceKey :: "string \<Rightarrow> string \<Rightarrow> ('k, 'k option) action" where
  "deviceKey tenant deviceId =
     sbind (reads (\<lambda>s. deviceKeys s deviceId)) (\<lambda>cached.
       case cached of
         Some k \<Rightarrow> ret k
       | None \<Rightarrow>
           sbind (reads (\<lambda>s. registered (world s) tenant deviceId)) (\<lambda>jwk.
           sbind (modify (\<lambda>s. s \<lparr> deviceKeys := (deviceKeys s)(deviceId \<mapsto> jwk) \<rparr>)) (\<lambda>_. ret jwk)))"

section \<open>Requests\<close>

definition wordchar :: "char \<Rightarrow> bool" where
  "wordchar c = (let n = of_char c :: nat in
     (65 \<le> n \<and> n \<le> 90) \<or> (97 \<le> n \<and> n \<le> 122) \<or> (48 \<le> n \<and> n \<le> 57) \<or> n = 95 \<or> n = 45)"

definition STREAM_ID_RE :: "string \<Rightarrow> bool" where
  "STREAM_ID_RE s =
     (s = ''t:root'' \<or>
      (take 2 s \<in> {''s:'', ''q:''} \<and> drop 2 s \<noteq> [] \<and> list_all wordchar (drop 2 s)))"

fun payload_kind :: "payload \<Rightarrow> event_kind option" where
  "payload_kind (QuoteAcceptedP _) = Some QuoteAccepted"
| "payload_kind (BookingCreatedP _) = Some BookingCreated"
| "payload_kind (CreditCheckedP _) = Some CreditChecked"
| "payload_kind (AppointmentSetP _) = Some AppointmentSet"
| "payload_kind (StopArrivedP _ _) = Some StopArrived"
| "payload_kind (StopDepartedP _ _ _) = Some StopDeparted"
| "payload_kind (FreightCountedP _ _) = Some FreightCounted"
| "payload_kind (FreightPhotographedP _ _) = Some FreightPhotographed"
| "payload_kind (CustodyTransferredP _) = Some CustodyTransferred"
| "payload_kind (SealAppliedP _ _) = Some SealApplied"
| "payload_kind (PositionUpdatedP _ _) = Some PositionUpdated"
| "payload_kind (OsdCapturedP _ _ _) = Some OsdCaptured"
| "payload_kind (PodSignedP _ _ _) = Some PodSigned"
| "payload_kind (DeliveryEvidencedP _ _) = Some DeliveryEvidenced"
| "payload_kind (InvoiceIssuedP _) = Some InvoiceIssued"
| "payload_kind (InvoiceCorrectedP _) = Some InvoiceCorrected"
| "payload_kind (SplitComputedP _) = Some SplitComputed"
| "payload_kind (AuthorityFlippedP _) = Some AuthorityFlipped"
| "payload_kind (Loose _) = None"

definition LOOSE_KINDS :: "event_kind list" where
  "LOOSE_KINDS = [QuoteRequested, QuotePriced, QuoteSent, QuoteExpired, PickupScheduled, DispatchAssigned,
     DimsCaptured, ExceptionRaised, PaymentReceived, SettlementExecuted, MessageReceived, MessageSent,
     CallTranscribed, DocumentAttached, ApprovalRequested, ApprovalDecided, AgentActed]"

text \<open>The discriminated union on \<open>kind\<close>: a typed kind carries its own payload type, and the money
  payloads satisfy their schemas.\<close>

definition payload_ok :: "event_kind \<Rightarrow> payload \<Rightarrow> bool" where
  "payload_ok k p =
     ((case payload_kind p of Some k' \<Rightarrow> k = k' | None \<Rightarrow> k \<in> set LOOSE_KINDS \<and> JsonObject_ok (payload_json p)) \<and>
      typed_payload k p)"

definition unwitnessed :: "payload \<Rightarrow> bool" where
  "unwitnessed p = (readField p ''unwitnessed'' = JBool True)"

definition safe :: "int \<Rightarrow> bool" where
  "safe i = (0 \<le> i \<and> i \<le> MAX_SAFE)"

definition optional :: "('a \<Rightarrow> bool) \<Rightarrow> 'a option \<Rightarrow> bool" where
  "optional p x = (case x of None \<Rightarrow> True | Some a \<Rightarrow> p a)"

text \<open>The fields that an input and a stored event have in common.\<close>

definition envelope_ok ::
  "(string \<Rightarrow> bool) \<Rightarrow> string \<Rightarrow> int \<Rightarrow> actor \<Rightarrow> evidence_ref list \<Rightarrow> int \<Rightarrow> int option \<Rightarrow> int option \<Rightarrow>
   gate_override option \<Rightarrow> bool"
where
  "envelope_ok isUuid i t act refs conf deviceSeq capturedTs given =
     (isUuid i \<and> safe t \<and> act_party act \<noteq> [] \<and> list_all (\<lambda>x. Hash64 (er_hash x)) refs \<and>
      0 \<le> conf \<and> conf \<le> 10000 \<and> optional safe deviceSeq \<and> optional safe capturedTs \<and>
      optional EventOverride_ok given)"

definition EventInput_ok :: "(string \<Rightarrow> bool) \<Rightarrow> payload event_input \<Rightarrow> bool" where
  "EventInput_ok isUuid i =
     (envelope_ok isUuid (in_id i) (in_ts i) (in_actor i) (in_evidence i) (in_confidence i) (in_device_seq i)
        (in_captured_ts i) (in_override i) \<and>
      payload_ok (in_kind i) (in_payload i) \<and>
      superRefine (in_device_id i) (in_device_seq i) (in_actor i) (in_sig i) (in_kind i)
        (unwitnessed (in_payload i)) = [])"

text \<open>The stored event built from an input and the fields the sequencer owns.\<close>

definition assemble ::
  "payload event_input \<Rightarrow> string \<Rightarrow> string option \<Rightarrow> int \<Rightarrow> string \<Rightarrow> int \<Rightarrow> visibility \<Rightarrow> payload ledger_event" where
  "assemble i streamId derivedShipmentId n prev now vis =
     \<lparr> ev_id = in_id i, stream_id = streamId,
        shipment_id = (case derivedShipmentId of Some s \<Rightarrow> Some s | None \<Rightarrow> in_shipment_id i),
        seq = n, ts = in_ts i, recorded_at = now, actor = in_actor i, party_refs = in_party_refs i,
        evidence = in_evidence i, prev_hash = prev, ev_hash = None, sig = in_sig i, visibility = vis,
        source = in_source i, confidence = in_confidence i, device_id = in_device_id i,
        device_seq = in_device_seq i, captured_ts = in_captured_ts i, override = in_override i,
        kind = in_kind i, payload = in_payload i \<rparr>"

definition LedgerEvent_ok :: "(string \<Rightarrow> bool) \<Rightarrow> payload ledger_event \<Rightarrow> bool" where
  "LedgerEvent_ok isUuid e =
     (envelope_ok isUuid (ev_id e) (ts e) (actor e) (evidence e) (confidence e) (device_seq e) (captured_ts e)
        (override e) \<and>
      STREAM_ID_RE (stream_id e) \<and> safe (seq e) \<and> safe (recorded_at e) \<and> Hash64 (prev_hash e) \<and>
      payload_ok (kind e) (payload e) \<and>
      superRefine (device_id e) (device_seq e) (actor e) (sig e) (kind e) (unwitnessed (payload e)) = [])"

text \<open>The signature is checked over the client's own fields (\<open>clientView\<close> reads no server-owned field).\<close>

definition inputSigOk :: "('k \<Rightarrow> string \<Rightarrow> bytes \<Rightarrow> bool option) \<Rightarrow> 'k option \<Rightarrow> payload event_input \<Rightarrow> bool" where
  "inputSigOk verify jwk i =
     (case jwk of
        None \<Rightarrow> False
      | Some k \<Rightarrow> verifyEventSig (verify k) (stored (assemble i [] None 0 [] 0 Internal)))"

definition deriveShipmentId :: "string \<Rightarrow> string option" where
  "deriveShipmentId streamId = (if take 2 streamId = ''s:'' then Some (drop 2 streamId) else None)"

definition findById :: "tenant_db \<Rightarrow> string \<Rightarrow> payload ledger_event option" where
  "findById db i = find (\<lambda>e. ev_id e = i) (t_events db)"

definition findByDevice :: "tenant_db \<Rightarrow> string \<Rightarrow> string \<Rightarrow> int \<Rightarrow> payload ledger_event option" where
  "findByDevice db streamId dev n =
     find (\<lambda>e. stream_id e = streamId \<and> device_id e = Some dev \<and> device_seq e = Some n) (t_events db)"

definition streamEvents :: "tenant_db \<Rightarrow> string \<Rightarrow> payload ledger_event list" where
  "streamEvents db streamId = sort_key seq (filter (\<lambda>e. stream_id e = streamId) (t_events db))"

definition GENESIS_TAIL :: "int \<times> string" where
  "GENESIS_TAIL = (- 1, GENESIS_HASH)"

text \<open>\<open>SELECT seq, hash \<dots> ORDER BY seq DESC LIMIT 1\<close>.\<close>

definition storedTail :: "tenant_db \<Rightarrow> string \<Rightarrow> int \<times> string" where
  "storedTail db streamId =
     (case rev (streamEvents db streamId) of
        [] \<Rightarrow> GENESIS_TAIL
      | e # _ \<Rightarrow> (seq e, case ev_hash e of Some h \<Rightarrow> h | None \<Rightarrow> []))"

definition loadTail :: "db_ref \<Rightarrow> string \<Rightarrow> ('k, int \<times> string) action" where
  "loadTail r streamId =
     sbind (reads tail) (\<lambda>cached.
       case cached of
         Some t \<Rightarrow> ret t
       | None \<Rightarrow>
           sbind (getDb r) (\<lambda>db.
           sbind (modify (\<lambda>s. s \<lparr> tail := Some (storedTail db streamId) \<rparr>)) (\<lambda>_.
           ret (storedTail db streamId))))"

definition isPlatformCreditInvoiceIssued :: "string \<Rightarrow> event_kind \<Rightarrow> payload \<Rightarrow> bool" where
  "isPlatformCreditInvoiceIssued tenant k p =
     (if k \<noteq> InvoiceIssued then False
      else if \<not> isPlatformTenant tenant then False
      else
        case p of
          InvoiceIssuedP q \<Rightarrow> ii_lines q \<noteq> [] \<and> list_all (\<lambda>l. il_kind l = CreditPurchase) (ii_lines q)
        | _ \<Rightarrow> False)"

definition assertPodSigned :: "tenant_db \<Rightarrow> string \<Rightarrow> tenant_policy \<Rightarrow> string option \<Rightarrow> gate_error + unit" where
  "assertPodSigned db streamId policy serviceClass =
     (let exempt = (case tp_invoice_without_pod_classes policy of None \<Rightarrow> [] | Some cs \<Rightarrow> cs) in
      if (case serviceClass of None \<Rightarrow> False | Some c \<Rightarrow> c \<in> set exempt) then Inr ()
      else if list_ex (\<lambda>e. stream_id e = streamId \<and> kind e = PodSigned) (t_events db) then Inr ()
      else Inl (GateError [NeedPodSigned]))"

definition parentInvoiceVisibility :: "tenant_db \<Rightarrow> string \<Rightarrow> string \<Rightarrow> visibility option" where
  "parentInvoiceVisibility db streamId eventId =
     map_option visibility (find (\<lambda>e. stream_id e = streamId \<and> ev_id e = eventId
       \<and> kind e \<in> {InvoiceIssued, InvoiceCorrected}) (t_events db))"

section \<open>Gate contexts\<close>

definition GATED_KINDS :: "event_kind list" where
  "GATED_KINDS = [StopDeparted, DeliveryEvidenced, CustodyTransferred, ExceptionRaised, OsdCaptured, StopArrived,
     AppointmentSet, BookingCreated, DispatchAssigned]"

definition DEFAULT_FENCE_RADIUS_M :: rat where
  "DEFAULT_FENCE_RADIUS_M = 150"

fun jnumber :: "jvalue \<Rightarrow> jsnum option" where
  "jnumber (JNum (JInt i)) = Some (Whole i)"
| "jnumber (JNum NegZero) = Some (Whole 0)"
| "jnumber (JNum NotInteger) = Some Fractional"
| "jnumber _ = None"

definition deliveryFence :: "tenant_db \<Rightarrow> string option \<Rightarrow> tenant_policy \<Rightarrow> fence option" where
  "deliveryFence db shipmentId policy =
     (case shipmentId of
        None \<Rightarrow> None
      | Some ship \<Rightarrow>
          (case sort_key (\<lambda>l. (if lg_geo l = Some (JObj []) then 1 else 0 :: nat, lg_seq l))
                  (filter (\<lambda>l. lg_shipment l = ship \<and> lg_kind l = ''delivery'') (t_legs db)) of
             [] \<Rightarrow> None
           | l # _ \<Rightarrow>
               (case lg_geo l of
                  None \<Rightarrow> None
                | Some geo \<Rightarrow>
                    (case (jnumber (jfield ''lat_e6'' geo), jnumber (jfield ''lon_e6'' geo)) of
                       (Some lat, Some lon) \<Rightarrow>
                         Some \<lparr> fence_lat = lat, fence_lon = lon,
                           radius_m = (case tp_geofence_radius_m policy of None \<Rightarrow> DEFAULT_FENCE_RADIUS_M | Some r \<Rightarrow> r) \<rparr>
                     | _ \<Rightarrow> None))))"

definition hasInterlineLeg :: "tenant_db \<Rightarrow> string option \<Rightarrow> bool" where
  "hasInterlineLeg db shipmentId =
     (case shipmentId of
        None \<Rightarrow> False
      | Some ship \<Rightarrow> list_ex (\<lambda>l. lg_shipment l = ship \<and> lg_kind l = ''interline'') (t_legs db))"

definition appointmentCtx ::
  "'k env \<Rightarrow> int \<Rightarrow> tenant_db \<Rightarrow> string option \<Rightarrow> appointment_set \<Rightarrow> facility_row option \<Rightarrow> gate_override option \<Rightarrow>
   appointment_ctx"
where
  "appointmentCtx env now db shipmentId p fac given =
     (let w = map_option (\<lambda>f. localWall env (ap_window_start_ts p) (fa_tz f)) fac;
          date = (case w of None \<Rightarrow> [] | Some x \<Rightarrow> lw_serviceDate x) in
      \<lparr> facility = map_option fa_config fac,
         serviceDate = date,
         localMinuteOfDay = (case w of None \<Rightarrow> 0 | Some x \<Rightarrow> lw_minuteOfDay x),
         localWindowEndMinute =
           (case fac of None \<Rightarrow> 0 | Some f \<Rightarrow> lw_minuteOfDay (localWall env (ap_window_end_ts p) (fa_tz f))),
         localDow = (case w of None \<Rightarrow> 0 | Some x \<Rightarrow> lw_dow x),
         now_ms = now,
         nowServiceDate = (case fac of None \<Rightarrow> [] | Some f \<Rightarrow> lw_serviceDate (localWall env now (fa_tz f))),
         legExists = (case shipmentId of
             None \<Rightarrow> False
           | Some ship \<Rightarrow> list_ex (\<lambda>l. lg_shipment l = ship \<and> lg_kind l = stop_kind_name (ap_leg_kind p)) (t_legs db)),
         occupied = (case (fac, shipmentId) of
             (Some _, Some ship) \<Rightarrow> list_ex (\<lambda>l. lg_facility l = Some (ap_facility_id p)
                 \<and> lg_slot l = Some (ap_slot_key p) \<and> lg_service_date l = Some date \<and> lg_shipment l \<noteq> ship) (t_legs db)
           | _ \<Rightarrow> False),
         ac_override = given \<rparr>)"

definition enforceAppointment ::
  "'k env \<Rightarrow> int \<Rightarrow> db_ref \<Rightarrow> string option \<Rightarrow> payload ledger_event list \<Rightarrow> appointment_set \<Rightarrow> gate_override option \<Rightarrow>
   ('k, string) action"
where
  "enforceAppointment env now r shipmentId prior p given =
     sbind (getDb r) (\<lambda>db.
       case t_facilities db (ap_facility_id p) of
         Some None \<Rightarrow> fail MalformedFacility
       | row \<Rightarrow>
           let ctx = appointmentCtx env now db shipmentId p (Option.bind row id) given in
           sbind (gated (assertAppointment prior p ctx)) (\<lambda>_. ret (serviceDate ctx)))"

definition quoteAuthority :: "tenant_db \<Rightarrow> string \<Rightarrow> string \<Rightarrow> seq_error option" where
  "quoteAuthority db streamId quoteId =
     (case find (\<lambda>e. stream_id e = streamId \<and> ev_id e = quoteId) (t_events db) of
        None \<Rightarrow> None
      | Some q \<Rightarrow>
          if kind q \<noteq> QuotePriced then Some (ValidationFailed ''booking_quote_not_priced'')
          else if \<not> list_ex (\<lambda>e. stream_id e = streamId \<and> kind e = QuoteAccepted
                     \<and> readField (payload e) ''quote_event_id'' = jtext quoteId) (t_events db)
          then Some (ValidationFailed ''booking_quote_not_accepted'')
          else None)"

definition enforceBooking ::
  "db_ref \<Rightarrow> payload ledger_event \<Rightarrow> booking_created \<Rightarrow> gate_ctx \<Rightarrow> ('k, unit) action" where
  "enforceBooking r incoming p ctx =
     sbind (getDb r) (\<lambda>db.
     sbind (demand (\<not> list_ex (\<lambda>e. stream_id e = stream_id incoming \<and> kind e = BookingCreated) (t_events db))
       (GateRefusal (GateValidationError ''shipment_already_booked''))) (\<lambda>_.
     sbind (case quoteAuthority db (stream_id incoming) (bk_quote_event_id p) of
              Some err \<Rightarrow> fail err | None \<Rightarrow> ret ()) (\<lambda>_.
     sbind (reads hazmatCache) (\<lambda>hazmat.
     sbind (demand (bk_hazmat p = Some True \<longrightarrow> hazmat = Some True) (Forbidden ''hazmat_not_enabled'')) (\<lambda>_.
     sbind (putDb r (fst (reconcileCreditForParty db (bk_bill_to_party_id p)))) (\<lambda>_.
     sbind (getDb r) (\<lambda>db1.
       let billTo = t_parties db1 (bk_bill_to_party_id p);
           contacts = (case Option.bind billTo pt_contacts of None \<Rightarrow> JNull | Some c \<Rightarrow> c) in
       sbind (gated (assertBookingCredit (Option.bind billTo pt_credit_status)
         (openGap db1 (bk_bill_to_party_id p)) (Some ctx))) (\<lambda>_.
       gated (assertBookingRecipientContact incoming contacts)))))))))"

definition dispatchCtx :: "tenant_db \<Rightarrow> string option \<Rightarrow> gate_override option \<Rightarrow> dispatch_ctx" where
  "dispatchCtx db shipmentId given =
     \<lparr> hasAppointment = (case shipmentId of
          None \<Rightarrow> False
        | Some ship \<Rightarrow> list_ex (\<lambda>l. lg_shipment l = ship \<and> lg_slot l \<noteq> None) (t_legs db)),
        hasDocs = (case shipmentId of
          None \<Rightarrow> False
        | Some ship \<Rightarrow> list_ex (\<lambda>d. dc_shipment d = Some ship \<and> dc_kind d = DISPATCH_REQUIRED_DOC_KIND
            \<and> dc_retention_status d = ''active'') (t_documents db)),
        dc_override = given \<rparr>"

text \<open>\<open>#enforceTransitionGate\<close>: the service date of an appointment is passed on to its projection.\<close>

definition enforceTransitionGate ::
  "'k env \<Rightarrow> int \<Rightarrow> db_ref \<Rightarrow> string \<Rightarrow> payload ledger_event \<Rightarrow> tenant_policy \<Rightarrow> ('k, string option) action"
where
  "enforceTransitionGate env now r streamId incoming policy =
     (if source incoming = Legacy then ret None
      else if kind incoming \<notin> set GATED_KINDS then ret None
      else
        let ship = deriveShipmentId streamId;
            ctx = \<lparr> gc_fence = None, gc_override = override incoming, gc_dimsRequired = None \<rparr>;
            done = (\<lambda>g. sbind (gated g) (\<lambda>_. ret None)) in
        sbind (getDb r) (\<lambda>db.
          let prior = streamEvents db streamId in
          case (kind incoming, payload incoming) of
            (StopDeparted, _) \<Rightarrow>
              done (assertPickupDepart prior incoming (Some (ctx \<lparr> gc_dimsRequired := Some (tp_dims_required policy = Some True) \<rparr>)))
          | (DeliveryEvidenced, _) \<Rightarrow>
              done (assertDelivery (haversine env) prior incoming (ctx \<lparr> gc_fence := deliveryFence db ship policy \<rparr>))
          | (CustodyTransferred, _) \<Rightarrow> done (assertInterline prior incoming (hasInterlineLeg db ship) (Some ctx))
          | (ExceptionRaised, _) \<Rightarrow> done (assertException incoming (Some ctx))
          | (OsdCaptured, _) \<Rightarrow> done (assertException incoming (Some ctx))
          | (StopArrived, StopArrivedP geo auto) \<Rightarrow>
              done (assertConsentBeforeGps prior StopArrived (operatingState env geo))
          | (AppointmentSet, AppointmentSetP p) \<Rightarrow>
              sbind (enforceAppointment env now r ship prior p (override incoming)) (\<lambda>d. ret (Some d))
          | (BookingCreated, BookingCreatedP p) \<Rightarrow> sbind (enforceBooking r incoming p ctx) (\<lambda>_. ret None)
          | (DispatchAssigned, _) \<Rightarrow> done (assertDispatch (dispatchCtx db ship (override incoming)))
          | _ \<Rightarrow> fail SchemaBackstop))"

section \<open>Money dependencies\<close>

definition matchOpenInvoice :: "tenant_db \<Rightarrow> payload ledger_event \<Rightarrow> settle_target option" where
  "matchOpenInvoice db e =
     (let target = (\<lambda>(i, row). \<lparr> st_id = i, st_total_cents = iv_total_cents row \<rparr>) in
      if kind e \<noteq> PaymentReceived then None
      else
        case asText (readField (payload e) ''invoice_id'') of
          Some invoiceId \<Rightarrow>
            map_option target (find (\<lambda>(i, row). jlit i = invoiceId \<and> iv_status row = ''issued'') (t_invoices db))
        | None \<Rightarrow>
            (case shipment_id e of
               None \<Rightarrow> None
             | Some ship \<Rightarrow>
                 (case sort_key (\<lambda>(ev, _). (recorded_at ev, seq ev))
                         [(ev, row). row \<leftarrow> t_invoices db, ev \<leftarrow> t_events db,
                            ev_id ev = iv_issued_event_id (snd row) \<and> shipment_id ev = Some ship
                              \<and> iv_status (snd row) = ''issued''] of
                    [] \<Rightarrow> None
                  | (_, row) # _ \<Rightarrow> Some (target row))))"

definition moneyDeps :: "tenant_db \<Rightarrow> payload ledger_event \<Rightarrow> string \<Rightarrow> money_deps" where
  "moneyDeps db e tenant =
     (case payload e of
        InvoiceCorrectedP p \<Rightarrow> no_deps \<lparr> originalLines := Some (originalsOf (t_lines db) (corrects_event_id p)) \<rparr>
      | _ \<Rightarrow>
          if kind e = InvoiceIssued then
            (if isPlatformTenant tenant then no_deps else no_deps \<lparr> termsDays := Some DEFAULT_TERMS_DAYS \<rparr>)
          else if kind e \<in> {SplitComputed, PaymentReceived, SettlementExecuted} then
            no_deps \<lparr>
              deps_division := Option.bind (shipment_id e) (\<lambda>ship. map_option (jlit \<circ> sh_division) (t_shipments db ship)),
              settleInvoice := (if kind e = PaymentReceived then matchOpenInvoice db e else None) \<rparr>
          else no_deps)"

section \<open>Triggers\<close>

datatype trigger =
    BillerTrigger string string string
  | BookingTrigger string string string
  | ConciergeTrigger string "string option" string

definition conciergeTriggerFor :: "payload ledger_event \<Rightarrow> string \<Rightarrow> trigger option" where
  "conciergeTriggerFor e tenant =
     (if kind e \<noteq> MessageReceived \<or> visibility e = Internal then None
      else Some (ConciergeTrigger tenant (shipment_id e) (ev_id e)))"

text \<open>The messages a committed event sends to the agent queue, in order.\<close>

definition triggersFor :: "payload ledger_event \<Rightarrow> string \<Rightarrow> trigger list" where
  "triggersFor e tenant =
     (case shipment_id e of
        Some ship \<Rightarrow>
          if kind e = PodSigned then [BillerTrigger tenant ship (ev_id e)]
          else if kind e = QuoteAccepted then [BookingTrigger tenant ship (ev_id e)] else []
      | None \<Rightarrow> []) @
     (case conciergeTriggerFor e tenant of None \<Rightarrow> [] | Some t \<Rightarrow> [t])"

section \<open>Append\<close>

text \<open>The structural pinning: the declared identity hashes to this object, the stream id is well-formed,
  the pin agrees or is set.\<close>

definition admit :: "'k env \<Rightarrow> string \<Rightarrow> string \<Rightarrow> ('k, unit) action" where
  "admit env tenant streamId =
     sbind (reads do_id) (\<lambda>me.
     sbind (demand (idFromName env (tenant @ ''|'' @ streamId) = me) (Forbidden ''sequencer identity mismatch'')) (\<lambda>_.
     sbind (demand (STREAM_ID_RE streamId) (ValidationFailed ''malformed stream id'')) (\<lambda>_.
     sbind (reads pin) (\<lambda>pinned.
       case pinned of
         Some p \<Rightarrow> demand (p = (tenant, streamId)) (Forbidden ''pin mismatch'')
       | None \<Rightarrow> modify (\<lambda>s. s \<lparr> pin := Some (tenant, streamId) \<rparr>)))))"

definition validate :: "'k env \<Rightarrow> string \<Rightarrow> payload event_input \<Rightarrow> ('k, unit) action" where
  "validate env streamId i =
     sbind (demand (EventInput_ok (uuid env) i) (ValidationFailed ''event input schema'')) (\<lambda>_.
     sbind (demand (in_kind i \<noteq> PositionUpdated)
       (ValidationFailed ''position.updated bypasses the sequencer'')) (\<lambda>_.
     demand (in_kind i = AuthorityFlipped \<longrightarrow> streamId = ''t:root'')
       (Forbidden ''authority.flipped may only append on t:root (WP-15 flip guard)'')))"

definition verifyDevice :: "'k env \<Rightarrow> string \<Rightarrow> string \<Rightarrow> payload event_input \<Rightarrow> ('k, unit) action" where
  "verifyDevice env tenant device i =
     sbind (deviceKey tenant device) (\<lambda>jwk.
     demand (inputSigOk (verifyKey env) jwk i) (Unauthorized ''device signature''))"

text \<open>The two replays, by event id and by the offline dedupe key, with the device binding between them.\<close>

definition findReplay ::
  "'k env \<Rightarrow> db_ref \<Rightarrow> string \<Rightarrow> string \<Rightarrow> payload event_input \<Rightarrow> ('k, payload ledger_event option) action"
where
  "findReplay env r tenant streamId i =
     sbind (getDb r) (\<lambda>db.
       case findById db (in_id i) of
         Some e \<Rightarrow> ret (Some e)
       | None \<Rightarrow>
           (case in_device_id i of
              Some d \<Rightarrow>
                sbind (demand (act_device (in_actor i) = Some d)
                  (ValidationFailed ''device_id must equal actor.device'')) (\<lambda>_.
                sbind (verifyDevice env tenant d i) (\<lambda>_.
                ret (findByDevice db streamId d (case in_device_seq i of None \<Rightarrow> - 1 | Some n \<Rightarrow> n))))
            | None \<Rightarrow>
                (case act_device (in_actor i) of
                   None \<Rightarrow> ret None
                 | Some d \<Rightarrow> sbind (verifyDevice env tenant d i) (\<lambda>_. ret None))))"

definition creditPartyKnown :: "db_ref \<Rightarrow> payload event_input \<Rightarrow> ('k, unit) action" where
  "creditPartyKnown r i =
     sbind (getDb r) (\<lambda>db.
       demand (case in_payload i of
           CreditCheckedP c \<Rightarrow> in_source i = Native \<longrightarrow> t_parties db (cc_party_id c) \<noteq> None
         | _ \<Rightarrow> True)
         (ValidationFailed ''credit_party_not_found''))"

definition podGate :: "db_ref \<Rightarrow> string \<Rightarrow> string \<Rightarrow> tenant_policy \<Rightarrow> payload event_input \<Rightarrow> ('k, unit) action" where
  "podGate r tenant streamId policy i =
     (if in_kind i = InvoiceIssued \<and> in_source i \<noteq> Legacy
         \<and> \<not> isPlatformCreditInvoiceIssued tenant (in_kind i) (in_payload i)
      then sbind (getDb r) (\<lambda>db. gated (assertPodSigned db streamId policy None))
      else ret ())"

definition stampVisibility ::
  "db_ref \<Rightarrow> string \<Rightarrow> string \<Rightarrow> tenant_policy \<Rightarrow> payload event_input \<Rightarrow> ('k, visibility) action"
where
  "stampVisibility r tenant streamId policy i =
     sbind (getDb r) (\<lambda>db.
       let correctedVis = (case in_payload i of
             InvoiceCorrectedP p \<Rightarrow> parentInvoiceVisibility db streamId (corrects_event_id p)
           | _ \<Rightarrow> None) in
       case resolveVisibility (in_kind i) (tp_visibility policy) (requested_visibility i) correctedVis of
         Unresolved \<Rightarrow> fail (ValidationFailed ''invoice_correction_unresolved_parent'')
       | Resolved v \<Rightarrow>
           ret (if isPlatformTenant tenant \<and> in_kind i \<in> {InvoiceIssued, PaymentReceived} then Internal else v))"

text \<open>The statements of the batch and the offset of the status statements.\<close>

definition batchOf ::
  "tenant_db \<Rightarrow> string \<Rightarrow> payload ledger_event \<Rightarrow> string option \<Rightarrow> seq_error + stmt list \<times> nat" where
  "batchOf db tenant full date =
     (if source full = Legacy then Inr ([InsertEvent full], 0)
      else
        case applyMoneyProjection full (moneyDeps db full tenant) of
          Inl err \<Rightarrow> Inl (ProjectionFailed err)
        | Inr money \<Rightarrow>
            (case projectStatusCache full of
               Inl err \<Rightarrow> Inl (ProjectionThrew err)
             | Inr status \<Rightarrow>
                 Inr (InsertEvent full # money @ projectPassport full @ status @ projectAppointment full date
                        @ applyMessageProjection full @ projectApprovals full @ projectAgentRuns full
                        @ projectAuthority full,
                      1 + length money + length (projectPassport full))))"

definition batchError :: "batch_refusal \<Rightarrow> event_kind \<Rightarrow> seq_error" where
  "batchError err k =
     (if err = SlotUniqueFailed then ValidationFailed ''slot_taken''
      else case mapMoneyProjectionError err k of
             Some reason \<Rightarrow> ValidationFailed reason
           | None \<Rightarrow> DatabaseFault err)"

definition commit ::
  "db_ref \<Rightarrow> string \<Rightarrow> payload ledger_event \<Rightarrow> string option \<Rightarrow> ('k, payload ledger_event \<times> trigger list) action"
where
  "commit r tenant full date =
     sbind (getDb r) (\<lambda>db.
       case batchOf db tenant full date of
         Inl err \<Rightarrow> fail err
       | Inr (stmts, statusOffset) \<Rightarrow>
           (case batch stmts db of
              Inl refusal \<Rightarrow> fail (batchError refusal (kind full))
            | Inr (db1, changes) \<Rightarrow>
                sbind (putDb r db1) (\<lambda>_.
                sbind (modify (\<lambda>s. s \<lparr> tail := Some (seq full, case ev_hash full of None \<Rightarrow> [] | Some h \<Rightarrow> h) \<rparr>)) (\<lambda>_.
                  if source full = Legacy then ret (full, [])
                  else
                    sbind (if kind full = CreditChecked
                           then putDb r (surfaceCreditProjectionGapIfMissed db1 full (changes ! statusOffset))
                           else ret ()) (\<lambda>_.
                    ret (full, triggersFor full tenant))))))"

text \<open>The assembled event: the schema backstop, the transition gates, the hash, the batch.\<close>

definition gateAndCommit ::
  "'k env \<Rightarrow> int \<Rightarrow> db_ref \<Rightarrow> string \<Rightarrow> string \<Rightarrow> tenant_policy \<Rightarrow> payload ledger_event \<Rightarrow>
   ('k, payload ledger_event \<times> trigger list) action"
where
  "gateAndCommit env now r tenant streamId policy event =
     sbind (demand (LedgerEvent_ok (uuid env) event) SchemaBackstop) (\<lambda>_.
     sbind (enforceTransitionGate env now r streamId event policy) (\<lambda>date.
       case hashEvent (sha256 env) (stored event) of
         Inl err \<Rightarrow> fail (NotCanonical err)
       | Inr h \<Rightarrow> commit r tenant (event \<lparr> ev_hash := Some h \<rparr>) date))"

definition appendNew ::
  "'k env \<Rightarrow> int \<Rightarrow> db_ref \<Rightarrow> string \<Rightarrow> string \<Rightarrow> payload event_input \<Rightarrow>
   ('k, payload ledger_event \<times> trigger list) action"
where
  "appendNew env now r tenant streamId i =
     sbind (creditPartyKnown r i) (\<lambda>_.
     sbind (loadPolicy tenant) (\<lambda>policy.
     sbind (podGate r tenant streamId policy i) (\<lambda>_.
     sbind (loadTail r streamId) (\<lambda>t.
     sbind (stampVisibility r tenant streamId policy i) (\<lambda>vis.
       gateAndCommit env now r tenant streamId policy
         (assemble i streamId (deriveShipmentId streamId) (fst t + 1) (snd t) now vis))))))"

definition append_event ::
  "'k env \<Rightarrow> int \<Rightarrow> string \<Rightarrow> string \<Rightarrow> payload event_input \<Rightarrow> bool \<Rightarrow>
   ('k, payload ledger_event \<times> trigger list) action"
where
  "append_event env now tenant streamId i platform =
     sbind (admit env tenant streamId) (\<lambda>_.
     sbind (resolveDb tenant platform) (\<lambda>r.
     sbind (validate env streamId i) (\<lambda>_.
     sbind (findReplay env r tenant streamId i) (\<lambda>replay.
       case replay of
         Some e \<Rightarrow> ret (e, [])
       | None \<Rightarrow> appendNew env now r tenant streamId i))))"

end
