(* ===== verification/SequencerLaws.thy ===== *)
theory SequencerLaws
  imports Sequencer
begin

text \<open>
  What one append does. Every action of the sequencer but its commit only fills caches and reconciles a
  credit read-model (\<open>quiet\<close>); the locale \<open>frame\<close> carries such a relation through the sequencing of actions
  and is interpreted on \<open>steady\<close>, which adds what a pinned instance knows about its database and its tail.
  \<open>append_cases\<close> is the summary the properties rest on: an append is refused and leaves the ledger as it was,
  answers with a stored event, or commits one new event behind the stored tail.
\<close>

section \<open>Actions\<close>

lemma ret_simp [simp]: "ret x s = (Inr x, s)"
  by (simp add: ret_def)

lemma fail_simp [simp]: "fail err s = (Inl err, s)"
  by (simp add: fail_def)

lemma reads_simp [simp]: "reads f s = (Inr (f s), s)"
  by (simp add: reads_def)

lemma modify_simp [simp]: "modify f s = (Inr (), f s)"
  by (simp add: modify_def)

lemma demand_simp [simp]: "demand p err s = (if p then Inr () else Inl err, s)"
  by (simp add: demand_def)

lemma gated_simp [simp]: "gated g s = ((case g of Inl err \<Rightarrow> Inl (GateRefusal err) | Inr x \<Rightarrow> Inr x), s)"
  by (cases g) (simp_all add: gated_def)

lemma getDb_simp [simp]: "getDb r s = (Inr (readDb (world s) r), s)"
  by (simp add: getDb_def)

lemma putDb_simp [simp]: "putDb r db s = (Inr (), s \<lparr> world := writeDb r db (world s) \<rparr>)"
  by (simp add: putDb_def)

lemma sbind_step: "sbind m f s = (case m s of (Inl err, s') \<Rightarrow> (Inl err, s') | (Inr x, s') \<Rightarrow> f x s')"
  by (simp add: sbind_def)

lemma sbind_Inr:
  "sbind m f s = (Inr y, s') \<longleftrightarrow> (\<exists>x s1. m s = (Inr x, s1) \<and> f x s1 = (Inr y, s'))"
  by (auto simp: sbind_def split: prod.splits sum.splits)

lemma sbind_Inl:
  "sbind m f s = (Inl err, s') \<longleftrightarrow>
     m s = (Inl err, s') \<or> (\<exists>x s1. m s = (Inr x, s1) \<and> f x s1 = (Inl err, s'))"
  by (auto simp: sbind_def split: prod.splits sum.splits)

lemma readDb_writeDb [simp]: "readDb (writeDb r db w) r' = (if r' = r then db else readDb w r')"
  by (cases r; cases r') (auto simp: readDb_def writeDb_def)

lemma writeDb_control [simp]:
  "control (writeDb r db w) = control w" "registered (writeDb r db w) = registered w"
  "resolvable (writeDb r db w) = resolvable w"
  by (cases r; simp add: writeDb_def)+

section \<open>Frames\<close>

definition confined :: "('k sequencer \<Rightarrow> 'k sequencer \<Rightarrow> bool) \<Rightarrow> ('k, 'a) action \<Rightarrow> bool" where
  "confined keeps m \<longleftrightarrow> (\<forall>s. keeps s (snd (m s)))"

locale frame =
  fixes keeps :: "'k sequencer \<Rightarrow> 'k sequencer \<Rightarrow> bool"
  assumes stays: "keeps s s"
    and onward: "keeps s s1 \<Longrightarrow> keeps s1 s2 \<Longrightarrow> keeps s s2"
begin

lemma confined_pure: "confined keeps (ret x)" "confined keeps (fail err)" "confined keeps (demand p err)"
  "confined keeps (reads g)" "confined keeps (gated q)" "confined keeps (getDb d)"
  by (simp_all add: confined_def stays)

lemma confined_sbind:
  assumes "confined keeps m" "\<And>x. confined keeps (f x)"
  shows "confined keeps (sbind m f)"
  unfolding confined_def
proof
  fix s
  obtain v s1 where m: "m s = (v, s1)"
    by (cases "m s")
  have "keeps s s1"
    using assms(1) m by (metis confined_def snd_conv)
  then show "keeps s (snd (sbind m f s))"
  proof (cases v)
    case (Inr x)
    have "keeps s1 (snd (f x s1))"
      using assms(2) by (simp add: confined_def)
    then show ?thesis
      using \<open>keeps s s1\<close> onward m Inr by (auto simp: sbind_def)
  qed (simp add: sbind_def m)
qed

lemma confined_modify: "(\<And>s. keeps s (g s)) \<Longrightarrow> confined keeps (modify g)"
  by (simp add: confined_def)

lemma confined_if: "confined keeps m \<Longrightarrow> confined keeps n \<Longrightarrow> confined keeps (if b then m else n)"
  by simp

lemma confined_option:
  "confined keeps m \<Longrightarrow> (\<And>x. confined keeps (f x)) \<Longrightarrow> confined keeps (case v of None \<Rightarrow> m | Some x \<Rightarrow> f x)"
  by (cases v) simp_all

lemmas confined_intros = confined_pure confined_sbind confined_modify confined_if confined_option

lemma along:
  assumes "confined keeps m" "m s = (v, s')"
  shows "keeps s s'"
  using assms by (metis confined_def snd_conv)

end

section \<open>Quiet actions\<close>

text \<open>The tables no action but the commit writes.\<close>

definition same_books :: "tenant_db \<Rightarrow> tenant_db \<Rightarrow> bool" where
  "same_books db db' \<longleftrightarrow> t_events db' = t_events db \<and> t_lines db' = t_lines db \<and> t_invoices db' = t_invoices db
     \<and> t_shipments db' = t_shipments db \<and> t_legs db' = t_legs db \<and> t_documents db' = t_documents db
     \<and> t_messages db' = t_messages db \<and> t_approvals db' = t_approvals db \<and> t_agent_runs db' = t_agent_runs db
     \<and> t_authority db' = t_authority db \<and> t_passports db' = t_passports db \<and> t_facilities db' = t_facilities db"

definition quiet :: "'k sequencer \<Rightarrow> 'k sequencer \<Rightarrow> bool" where
  "quiet s s' \<longleftrightarrow> do_id s' = do_id s \<and> (\<forall>p. pin s = Some p \<longrightarrow> pin s' = Some p)
     \<and> (\<forall>r. dbHandle s = Some r \<longrightarrow> dbHandle s' = Some r)
     \<and> control (world s') = control (world s) \<and> registered (world s') = registered (world s)
     \<and> resolvable (world s') = resolvable (world s)
     \<and> (\<forall>r. same_books (readDb (world s) r) (readDb (world s') r))"

definition dbOf :: "string \<Rightarrow> db_ref" where
  "dbOf tenant = (if isPlatformTenant tenant then PlatformDb else CustomerDb tenant)"

text \<open>What a pinned instance knows.\<close>

definition bound :: "string \<Rightarrow> string \<Rightarrow> 'k sequencer \<Rightarrow> bool" where
  "bound t st s \<longleftrightarrow> pin s = Some (t, st) \<and> (\<forall>r. dbHandle s = Some r \<longrightarrow> r = dbOf t)
     \<and> (\<forall>x. tail s = Some x \<longrightarrow> x = storedTail (readDb (world s) (dbOf t)) st)"

definition steady :: "string \<Rightarrow> string \<Rightarrow> 'k sequencer \<Rightarrow> 'k sequencer \<Rightarrow> bool" where
  "steady t st s s' \<longleftrightarrow> quiet s s' \<and> (bound t st s \<longrightarrow> bound t st s')"

lemma same_books_refl [simp]: "same_books db db"
  by (simp add: same_books_def)

lemma same_books_trans: "same_books a b \<Longrightarrow> same_books b c \<Longrightarrow> same_books a c"
  by (simp add: same_books_def)

lemma storedTail_same: "same_books a b \<Longrightarrow> storedTail b st = storedTail a st"
  by (simp add: storedTail_def streamEvents_def same_books_def)

lemma quiet_refl [simp]: "quiet s s"
  by (simp add: quiet_def)

lemma quiet_trans: "quiet a b \<Longrightarrow> quiet b c \<Longrightarrow> quiet a c"
  unfolding quiet_def using same_books_trans by (metis (no_types, lifting))

interpretation steady: frame "steady t st"
  by unfold_locales (auto simp: steady_def intro: quiet_trans)

lemma dbOf_inject [simp]: "dbOf t = dbOf u \<longleftrightarrow> t = u"
  by (auto simp: dbOf_def isPlatformTenant_def)

lemma same_books_reconcile: "same_books db (fst (reconcileCreditForParty db party))"
  by (auto simp: reconcileCreditForParty_def Let_def same_books_def split: option.splits)

lemma quiet_cache [simp]:
  "dbHandle s = None \<Longrightarrow> quiet s (s \<lparr> dbHandle := h \<rparr>)" "quiet s (s \<lparr> tail := x \<rparr>)" "quiet s (s \<lparr> policyCache := p \<rparr>)"
  "quiet s (s \<lparr> hazmatCache := q \<rparr>)" "quiet s (s \<lparr> deviceKeys := k \<rparr>)"
  by (simp_all add: quiet_def)

lemma steady_modify:
  "steady t st s (s \<lparr> policyCache := p \<rparr>)" "steady t st s (s \<lparr> hazmatCache := q \<rparr>)"
  "steady t st s (s \<lparr> deviceKeys := k \<rparr>)" "dbHandle s = None \<Longrightarrow> steady t st s (s \<lparr> dbHandle := Some (dbOf t) \<rparr>)"
  by (auto simp: steady_def bound_def)

lemma steady_putDb:
  "same_books (readDb (world s) r) db \<Longrightarrow> steady t st s (s \<lparr> world := writeDb r db (world s) \<rparr>)"
  by (auto simp: steady_def bound_def quiet_def storedTail_same)

section \<open>Every action before the commit is steady\<close>

lemma admit_bound:
  assumes "admit env t st s = (Inr (), s1)" "bound t st s \<or> (pin s = None \<and> tail s = None \<and> dbHandle s = None)"
  shows "quiet s s1 \<and> bound t st s1 \<and> world s1 = world s \<and> idFromName env (t @ ''|'' @ st) = do_id s \<and> STREAM_ID_RE st"
  using assms by (auto simp: admit_def sbind_Inr bound_def quiet_def split: option.splits if_splits)

lemma admit_quiet: "quiet s (snd (admit env t st s))"
  by (auto simp: admit_def sbind_step quiet_def split: option.splits)

lemma admit_world: "world (snd (admit env t st s)) = world s"
  by (auto simp: admit_def sbind_step split: option.splits)

lemma resolveDb_steady: "confined (steady t st) (resolveDb t platform)"
proof -
  have "PlatformDb = dbOf t" if "isPlatformTenant t"
    using that by (simp add: dbOf_def)
  moreover have "CustomerDb t = dbOf t" if "\<not> isPlatformTenant t"
    using that by (simp add: dbOf_def)
  ultimately show ?thesis
    unfolding confined_def resolveDb_def
    by (auto simp: sbind_step steady.stays steady_modify(4) split: option.splits)
       (metis steady_modify(4) steady.stays)+
qed

lemma resolveDb_handle: "resolveDb t platform s = (Inr r, s1) \<Longrightarrow> dbHandle s1 = Some r"
  by (auto simp: resolveDb_def sbind_Inr split: option.splits if_splits)

lemma resolveDb_dbOf:
  assumes "resolveDb t platform s = (Inr r, s1)" "bound t st s"
  shows "r = dbOf t"
  using assms by (auto simp: resolveDb_def sbind_Inr bound_def dbOf_def split: option.splits if_splits)

lemma validate_steady: "confined (steady t st) (validate env st' i)"
  unfolding validate_def by (intro steady.confined_intros)

lemma deviceKey_steady: "confined (steady t st) (deviceKey t' d)"
  unfolding deviceKey_def by (intro steady.confined_intros steady_modify)

lemma findReplay_steady: "confined (steady t st) (findReplay env r t' st' i)"
  unfolding findReplay_def verifyDevice_def
  by (intro steady.confined_intros deviceKey_steady)

lemma creditPartyKnown_steady: "confined (steady t st) (creditPartyKnown r i)"
  unfolding creditPartyKnown_def by (intro steady.confined_intros)

lemma loadPolicy_steady: "confined (steady t st) (loadPolicy t')"
  unfolding loadPolicy_def by (intro steady.confined_intros steady_modify)

lemma podGate_steady: "confined (steady t st) (podGate r t' st' policy i)"
  unfolding podGate_def by (intro steady.confined_intros)

lemma loadTail_steady: "confined (steady t st) (loadTail (dbOf t) st)"
  unfolding confined_def loadTail_def
  by (auto simp: sbind_step steady.stays steady_def bound_def split: option.splits)

lemma loadTail_exact:
  assumes "loadTail (dbOf t) st s = (Inr x, s1)" "bound t st s"
  shows "x = storedTail (readDb (world s) (dbOf t)) st"
  using assms by (auto simp: loadTail_def sbind_Inr bound_def simp del: split_paired_All split: option.splits)

lemma stampVisibility_steady: "confined (steady t st) (stampVisibility r t' st' policy i)"
proof -
  have "confined (steady t st) (case v of Unresolved \<Rightarrow> fail err | Resolved x \<Rightarrow> ret (f x))" for v err f
    by (cases v) (simp_all add: steady.confined_pure)
  then show ?thesis
    unfolding stampVisibility_def Let_def by (intro steady.confined_intros)
qed

lemma enforceAppointment_steady: "confined (steady t st) (enforceAppointment env now r ship prior p given)"
proof -
  have "confined (steady t st) (case row of Some None \<Rightarrow> fail err | _ \<Rightarrow> m)"
    if "confined (steady t st) m" for row :: "facility_row option option" and err m
    using that by (cases row) (auto simp: steady.confined_pure split: option.splits)
  then show ?thesis
    unfolding enforceAppointment_def Let_def by (intro steady.confined_intros)
qed

lemma enforceBooking_reconciles:
  "snd (enforceBooking r e p ctx s) \<in>
     {s, s \<lparr> world := writeDb r (fst (reconcileCreditForParty (readDb (world s) r) (bk_bill_to_party_id p))) (world s) \<rparr>}"
  by (simp add: enforceBooking_def sbind_step Let_def split: option.splits sum.splits)

lemma enforceBooking_steady: "confined (steady t st) (enforceBooking r e p ctx)"
  unfolding confined_def
  using enforceBooking_reconciles same_books_reconcile steady_putDb steady.stays by (metis insert_iff singletonD)

lemma enforceTransitionGate_steady: "confined (steady t st) (enforceTransitionGate env now r st' e policy)"
proof -
  have gate: "confined (steady t st) (sbind (gated g) (\<lambda>_. ret None))" for g
    by (intro steady.confined_intros)
  note rules = steady.confined_pure steady.confined_if gate
  have arrived: "confined (steady t st) (case p of StopArrivedP g auto \<Rightarrow> m g | _ \<Rightarrow> fail err)"
    if "\<And>g. confined (steady t st) (m g)" for p m err
    using that by (cases p) (simp_all add: steady.confined_pure)
  have appointed: "confined (steady t st) (case p of AppointmentSetP a \<Rightarrow> m a | _ \<Rightarrow> fail err)"
    if "\<And>a. confined (steady t st) (m a)" for p m err
    using that by (cases p) (simp_all add: steady.confined_pure)
  have booked: "confined (steady t st) (case p of BookingCreatedP b \<Rightarrow> m b | _ \<Rightarrow> fail err)"
    if "\<And>b. confined (steady t st) (m b)" for p m err
    using that by (cases p) (simp_all add: steady.confined_pure)
  have "confined (steady t st) (sbind (enforceAppointment env now r ship prior p given) (\<lambda>d. ret (Some d)))"
    for ship prior p given
    by (intro steady.confined_sbind enforceAppointment_steady steady.confined_pure)
  moreover have "confined (steady t st) (sbind (enforceBooking r e p ctx) (\<lambda>_. ret None))" for p ctx
    by (intro steady.confined_sbind enforceBooking_steady steady.confined_pure)
  ultimately show ?thesis
    unfolding enforceTransitionGate_def Let_def
    by (intro steady.confined_if steady.confined_sbind steady.confined_pure)
       (cases "kind e"; simp only: prod.case event_kind.case; intro rules arrived appointed booked; assumption?)
qed

section \<open>The commit\<close>

fun event_rows :: "stmt \<Rightarrow> payload ledger_event list" where
  "event_rows (InsertEvent e) = [e]"
| "event_rows _ = []"

fun line_rows :: "stmt \<Rightarrow> money_row list" where
  "line_rows (InsertLine r) = [r]"
| "line_rows _ = []"

lemma slotsUnique_insert:
  "slotKey l = None \<Longrightarrow> slotsUnique legs \<Longrightarrow> slotsUnique (insertOrIgnore lg_id l legs)"
  by (simp add: slotsUnique_def insertOrIgnore_def)

lemma execute_effect:
  assumes "execute x db = Inr (db1, n)"
  shows "t_events db1 = t_events db @ event_rows x \<and> t_lines db1 = t_lines db @ line_rows x
    \<and> (slotsUnique (t_legs db) \<longrightarrow> slotsUnique (t_legs db1))"
  using assms by (cases x) (auto simp: Let_def slotsUnique_insert slotKey_def split: option.splits if_splits)

lemma batch_effect:
  assumes "batch ss db = Inr (db1, ns)"
  shows "t_events db1 = t_events db @ concat (map event_rows ss)
    \<and> t_lines db1 = t_lines db @ concat (map line_rows ss)
    \<and> (slotsUnique (t_legs db) \<longrightarrow> slotsUnique (t_legs db1)) \<and> length ns = length ss"
  using assms
proof (induction ss arbitrary: db ns)
  case (Cons x ss)
  then obtain db2 n ms where "execute x db = Inr (db2, n)" "batch ss db2 = Inr (db1, ms)" "ns = n # ms"
    by auto
  then show ?case
    using Cons.IH execute_effect by fastforce
qed simp

lemma projectPassport_rows:
  "concat (map event_rows (projectPassport e)) = [] \<and> concat (map line_rows (projectPassport e)) = []"
  by (cases "kind e") (simp_all add: projectPassport_def)

lemma projectAppointment_rows:
  "concat (map event_rows (projectAppointment e d)) = [] \<and> concat (map line_rows (projectAppointment e d)) = []"
proof (cases "kind e = AppointmentSet")
  case True
  then show ?thesis
    by (cases "payload e") (simp_all add: projectAppointment_def del: concat_eq_Nil_conv split: option.split)
next
  case False
  then show ?thesis
    by (cases "kind e") (simp_all add: projectAppointment_def)
qed

lemma projectApprovals_rows:
  "concat (map event_rows (projectApprovals e)) = [] \<and> concat (map line_rows (projectApprovals e)) = []"
  by (simp add: projectApprovals_def del: concat_eq_Nil_conv split: option.split)

lemma projectAgentRuns_rows:
  "concat (map event_rows (projectAgentRuns e)) = [] \<and> concat (map line_rows (projectAgentRuns e)) = []"
  by (cases "asText (readField (payload e) ''agent'')") (simp_all add: projectAgentRuns_def Let_def)

lemma projectAuthority_rows:
  "concat (map event_rows (projectAuthority e)) = [] \<and> concat (map line_rows (projectAuthority e)) = []"
proof (cases "kind e = AuthorityFlipped")
  case True
  then show ?thesis
    by (cases "payload e") (simp_all add: projectAuthority_def)
next
  case False
  then show ?thesis
    by (cases "kind e") (simp_all add: projectAuthority_def)
qed

lemma applyMessageProjection_rows:
  "concat (map event_rows (applyMessageProjection e)) = [] \<and> concat (map line_rows (applyMessageProjection e)) = []"
  by (simp add: applyMessageProjection_def comp_def)

lemmas projection_rows = projectPassport_rows projectAppointment_rows projectApprovals_rows projectAgentRuns_rows
  projectAuthority_rows applyMessageProjection_rows

lemma projectStatusCache_rows:
  "projectStatusCache e = Inr ss \<Longrightarrow> concat (map event_rows ss) = [] \<and> concat (map line_rows ss) = []"
  by (auto simp: projectStatusCache_def split: event_kind.splits payload.splits option.splits if_splits)

lemma concat_line_inserts:
  "concat (map event_rows (map InsertLine rs)) = [] \<and> concat (map line_rows (map InsertLine rs)) = rs"
  by (induction rs) simp_all

lemma concat_invoice_writes:
  "concat (map event_rows (map WriteInvoice us)) = [] \<and> concat (map line_rows (map WriteInvoice us)) = []"
  by (induction us) simp_all

lemma batchOf_rows:
  assumes "batchOf db t full date = Inr (ss, off)"
  shows "(\<exists>rest. ss = InsertEvent full # rest) \<and> concat (map event_rows ss) = [full]
    \<and> (if source full = Legacy then concat (map line_rows ss) = []
       else \<exists>m. projectMoneyLines full (moneyDeps db full t) = Inr m \<and> concat (map line_rows ss) = mp_lines m)"
  using assms
  by (auto simp: batchOf_def applyMoneyProjection_def projection_rows concat_line_inserts concat_invoice_writes
      dest: projectStatusCache_rows simp del: map_map split: if_splits sum.splits)

lemma surface_same_books: "same_books db (surfaceCreditProjectionGapIfMissed db e n)"
  by (auto simp: surfaceCreditProjectionGapIfMissed_def same_books_def split: payload.splits)

text \<open>The world after a commit: one database got the event and its lines, nothing else changed.\<close>

definition recorded :: "db_ref \<Rightarrow> string \<Rightarrow> payload ledger_event \<Rightarrow> 'k world \<Rightarrow> 'k world \<Rightarrow> bool" where
  "recorded r tenant full w w' \<longleftrightarrow>
     control w' = control w \<and> registered w' = registered w \<and> resolvable w' = resolvable w
     \<and> (\<forall>q. q \<noteq> r \<longrightarrow> readDb w' q = readDb w q)
     \<and> eventRefused (readDb w r) full = None
     \<and> t_events (readDb w' r) = t_events (readDb w r) @ [full]
     \<and> (slotsUnique (t_legs (readDb w r)) \<longrightarrow> slotsUnique (t_legs (readDb w' r)))
     \<and> (\<exists>ls. t_lines (readDb w' r) = t_lines (readDb w r) @ ls
          \<and> (if source full = Legacy then ls = []
             else \<exists>m. projectMoneyLines full (moneyDeps (readDb w r) full tenant) = Inr m \<and> ls = mp_lines m))"

lemma commit_Inl: "commit r t full date s = (Inl err, s') \<Longrightarrow> s' = s"
  by (auto simp: commit_def sbind_step split: sum.splits if_splits prod.splits)

lemma commit_Inr:
  assumes "commit r t full date s = (Inr (e, trs), s')"
  shows "e = full \<and> trs = (if source full = Legacy then [] else triggersFor full t)
    \<and> recorded r t full (world s) (world s')
    \<and> tail s' = Some (seq full, case ev_hash full of None \<Rightarrow> [] | Some h \<Rightarrow> h)
    \<and> pin s' = pin s \<and> dbHandle s' = dbHandle s \<and> do_id s' = do_id s
    \<and> policyCache s' = policyCache s \<and> hazmatCache s' = hazmatCache s \<and> deviceKeys s' = deviceKeys s"
proof -
  obtain ss off where b: "batchOf (readDb (world s) r) t full date = Inr (ss, off)"
    using assms by (cases "batchOf (readDb (world s) r) t full date") (auto simp: commit_def sbind_step)
  obtain db1 ns where k: "batch ss (readDb (world s) r) = Inr (db1, ns)"
    using assms b by (cases "batch ss (readDb (world s) r)") (auto simp: commit_def sbind_step)
  obtain rest where "ss = InsertEvent full # rest"
    using batchOf_rows[OF b] by blast
  then have fresh: "eventRefused (readDb (world s) r) full = None"
    using k by (auto split: option.splits)
  note eff = batch_effect[OF k] and rows = batchOf_rows[OF b]
  let ?w = "\<lambda>db. writeDb r db (world s)"
  have put: "recorded r t full (world s) w"
    if "same_books db1 (readDb w r)" "\<And>q. q \<noteq> r \<Longrightarrow> readDb w q = readDb (world s) q"
      "control w = control (world s)" "registered w = registered (world s)" "resolvable w = resolvable (world s)" for w
    using that eff rows fresh unfolding recorded_def same_books_def by auto
  have e: "e = full"
    using assms b k by (auto simp: commit_def sbind_step split: if_splits)
  have "recorded r t full (world s) (world s')"
    by (rule put; use assms b k in \<open>auto simp: commit_def sbind_step surface_same_books split: if_splits\<close>)
  with e show ?thesis
    using assms b k by (auto simp: commit_def sbind_step split: if_splits)
qed

section \<open>One append\<close>

text \<open>What an accepted new event went through, over the database \<open>db\<close> it was judged against.\<close>

definition correctedVis :: "tenant_db \<Rightarrow> string \<Rightarrow> payload event_input \<Rightarrow> visibility option" where
  "correctedVis db st i = (case in_payload i of
     InvoiceCorrectedP p \<Rightarrow> parentInvoiceVisibility db st (corrects_event_id p) | _ \<Rightarrow> None)"

definition stamped ::
  "'k env \<Rightarrow> int \<Rightarrow> string \<Rightarrow> string \<Rightarrow> payload event_input \<Rightarrow> tenant_db \<Rightarrow> visibility \<Rightarrow> payload ledger_event"
where
  "stamped env now t st i db vis =
     assemble i st (deriveShipmentId st) (fst (storedTail db st) + 1) (snd (storedTail db st)) now vis"

definition judged ::
  "'k env \<Rightarrow> int \<Rightarrow> string \<Rightarrow> string \<Rightarrow> payload event_input \<Rightarrow> 'k sequencer \<Rightarrow> payload ledger_event \<Rightarrow> 'k sequencer \<Rightarrow> bool"
where
  "judged env now t st i s full s1 \<longleftrightarrow>
     (let r = dbOf t; db = readDb (world s) r in
      \<exists>policy v vis date h s0.
        quiet s s0
        \<and> (in_kind i = InvoiceIssued \<and> in_source i \<noteq> Legacy
             \<and> \<not> isPlatformCreditInvoiceIssued t (in_kind i) (in_payload i)
           \<longrightarrow> (\<exists>p \<in> set (t_events db). stream_id p = st \<and> kind p = PodSigned))
        \<and> resolveVisibility (in_kind i) (tp_visibility policy) (requested_visibility i) (correctedVis db st i) = Resolved v
        \<and> vis = (if isPlatformTenant t \<and> in_kind i \<in> {InvoiceIssued, PaymentReceived} then Internal else v)
        \<and> LedgerEvent_ok (uuid env) (stamped env now t st i db vis)
        \<and> enforceTransitionGate env now r st (stamped env now t st i db vis) policy s0 = (Inr date, s1)
        \<and> hashEvent (sha256 env) (stored (stamped env now t st i db vis)) = Inr h
        \<and> full = stamped env now t st i db vis \<lparr> ev_hash := Some h \<rparr>)"

lemma podGate_Inr:
  assumes "podGate r t st policy i s = (Inr u, s1)"
    "in_kind i = InvoiceIssued" "in_source i \<noteq> Legacy" "\<not> isPlatformCreditInvoiceIssued t (in_kind i) (in_payload i)"
  shows "\<exists>p \<in> set (t_events (readDb (world s) r)). stream_id p = st \<and> kind p = PodSigned"
  using assms by (auto simp: podGate_def sbind_Inr assertPodSigned_def list_ex_iff split: sum.splits if_splits)

lemma stampVisibility_Inr:
  assumes "stampVisibility r t st policy i s = (Inr vis, s1)"
  shows "\<exists>v. resolveVisibility (in_kind i) (tp_visibility policy) (requested_visibility i)
      (correctedVis (readDb (world s) r) st i) = Resolved v
    \<and> vis = (if isPlatformTenant t \<and> in_kind i \<in> {InvoiceIssued, PaymentReceived} then Internal else v)"
  using assms
  by (cases "resolveVisibility (in_kind i) (tp_visibility policy) (requested_visibility i)
      (correctedVis (readDb (world s) r) st i)")
     (auto simp: stampVisibility_def sbind_Inr Let_def correctedVis_def)

lemma books_at: "quiet s s' \<Longrightarrow> same_books (readDb (world s) r) (readDb (world s') r)"
  by (simp add: quiet_def)

lemma correctedVis_same: "same_books a b \<Longrightarrow> correctedVis b st i = correctedVis a st i"
  by (simp add: correctedVis_def parentInvoiceVisibility_def same_books_def split: payload.split)

lemma steady_pair: "steady t st s s' \<Longrightarrow> bound t st s \<Longrightarrow> quiet s s' \<and> bound t st s'"
  by (simp add: steady_def)

lemma sbindE:
  assumes "sbind m f s = (Inr y, s')"
  obtains x s1 where "m s = (Inr x, s1)" "f x s1 = (Inr y, s')"
  using assms by (auto simp: sbind_Inr)

lemma gateAndCommit_Inr:
  assumes "gateAndCommit env now r t st policy ev s = (Inr (e, trs), s')"
  shows "\<exists>s1 date h. LedgerEvent_ok (uuid env) ev \<and> enforceTransitionGate env now r st ev policy s = (Inr date, s1)
    \<and> hashEvent (sha256 env) (stored ev) = Inr h \<and> commit r t (ev \<lparr> ev_hash := Some h \<rparr>) date s1 = (Inr (e, trs), s')"
  using assms by (cases "hashEvent (sha256 env) (stored ev)") (auto simp: gateAndCommit_def sbind_Inr split: if_splits)

lemma appendNew_Inr:
  assumes "appendNew env now (dbOf t) t st i s = (Inr (e, trs), s')" "bound t st s"
  shows "\<exists>s1 date. judged env now t st i s e s1 \<and> quiet s s1 \<and> bound t st s1
    \<and> commit (dbOf t) t e date s1 = (Inr (e, trs), s')"
proof -
  from assms(1)[unfolded appendNew_def]
  obtain s1 policy s2 s3 tl s4 vis s5 where 1: "creditPartyKnown (dbOf t) i s = (Inr (), s1)"
    and 2: "loadPolicy t s1 = (Inr policy, s2)"
    and 3: "podGate (dbOf t) t st policy i s2 = (Inr (), s3)"
    and 4: "loadTail (dbOf t) st s3 = (Inr tl, s4)"
    and 5: "stampVisibility (dbOf t) t st policy i s4 = (Inr vis, s5)"
    and g: "gateAndCommit env now (dbOf t) t st policy
      (assemble i st (deriveShipmentId st) (fst tl + 1) (snd tl) now vis) s5 = (Inr (e, trs), s')"
    by (elim sbindE) (rule that; simp)
  from gateAndCommit_Inr[OF g] obtain s6 date h where
    ok: "LedgerEvent_ok (uuid env) (assemble i st (deriveShipmentId st) (fst tl + 1) (snd tl) now vis)"
    and 6: "enforceTransitionGate env now (dbOf t) st
      (assemble i st (deriveShipmentId st) (fst tl + 1) (snd tl) now vis) policy s5 = (Inr date, s6)"
    and h: "hashEvent (sha256 env) (stored (assemble i st (deriveShipmentId st) (fst tl + 1) (snd tl) now vis)) = Inr h"
    and c: "commit (dbOf t) t (assemble i st (deriveShipmentId st) (fst tl + 1) (snd tl) now vis \<lparr> ev_hash := Some h \<rparr>) date s6
      = (Inr (e, trs), s')"
    by blast
  note q1 = steady_pair[OF steady.along[OF creditPartyKnown_steady 1] assms(2)]
  note q2 = steady_pair[OF steady.along[OF loadPolicy_steady 2] q1[THEN conjunct2]]
  note q3 = steady_pair[OF steady.along[OF podGate_steady 3] q2[THEN conjunct2]]
  note q4 = steady_pair[OF steady.along[OF loadTail_steady 4] q3[THEN conjunct2]]
  note q5 = steady_pair[OF steady.along[OF stampVisibility_steady 5] q4[THEN conjunct2]]
  note q6 = steady_pair[OF steady.along[OF enforceTransitionGate_steady 6] q5[THEN conjunct2]]
  have quiets: "quiet s s2" "quiet s s3" "quiet s s4" "quiet s s5" "quiet s s6"
    using q1 q2 q3 q4 q5 q6 quiet_trans by blast+
  let ?db = "readDb (world s) (dbOf t)"
  have tl: "tl = storedTail ?db st"
    using loadTail_exact[OF 4] q3 storedTail_same[OF books_at[OF quiets(2)]] by simp
  obtain v where vis: "resolveVisibility (in_kind i) (tp_visibility policy) (requested_visibility i) (correctedVis ?db st i) = Resolved v"
    "vis = (if isPlatformTenant t \<and> in_kind i \<in> {InvoiceIssued, PaymentReceived} then Internal else v)"
    using stampVisibility_Inr[OF 5] correctedVis_same[OF books_at[OF quiets(3)]] by auto
  have pod: "\<exists>p \<in> set (t_events ?db). stream_id p = st \<and> kind p = PodSigned"
    if "in_kind i = InvoiceIssued" "in_source i \<noteq> Legacy" "\<not> isPlatformCreditInvoiceIssued t (in_kind i) (in_payload i)"
    using podGate_Inr[OF 3 that] books_at[OF quiets(1), of "dbOf t"] by (simp add: same_books_def)
  have e: "e = stamped env now t st i ?db vis \<lparr> ev_hash := Some h \<rparr>"
    using commit_Inr[OF c] by (simp add: stamped_def tl)
  have asm: "assemble i st (deriveShipmentId st) (fst tl + 1) (snd tl) now vis = stamped env now t st i ?db vis"
    by (simp add: stamped_def tl)
  have "judged env now t st i s e s6"
    unfolding judged_def Let_def
  proof (intro exI conjI)
    show "quiet s s5"
      by (rule quiets)
    show "enforceTransitionGate env now (dbOf t) st (stamped env now t st i ?db vis) policy s5 = (Inr date, s6)"
      using 6 by (simp only: asm)
    show "hashEvent (sha256 env) (stored (stamped env now t st i ?db vis)) = Inr h"
      using h by (simp only: asm)
    show "LedgerEvent_ok (uuid env) (stamped env now t st i ?db vis)"
      using ok by (simp only: asm)
  qed (use pod in blast, rule vis, rule vis, rule e)
  then show ?thesis
    using quiets(5) q6 c e by (auto simp: stamped_def tl)
qed

definition instance_ok :: "'k env \<Rightarrow> 'k sequencer \<Rightarrow> bool" where
  "instance_ok env s =
     (case pin s of
        None \<Rightarrow> tail s = None \<and> dbHandle s = None
      | Some (t, st) \<Rightarrow> bound t st s \<and> idFromName env (t @ ''|'' @ st) = do_id s \<and> STREAM_ID_RE st)"

definition replays :: "tenant_db \<Rightarrow> string \<Rightarrow> payload event_input \<Rightarrow> payload ledger_event \<Rightarrow> bool" where
  "replays db st i e \<longleftrightarrow> findById db (in_id i) = Some e
     \<or> findById db (in_id i) = None
        \<and> (\<exists>d. in_device_id i = Some d \<and> findByDevice db st d (case in_device_seq i of None \<Rightarrow> - 1 | Some n \<Rightarrow> n) = Some e)"

lemma bound_instance_ok:
  "bound t st s \<Longrightarrow> idFromName env (t @ ''|'' @ st) = do_id s \<Longrightarrow> STREAM_ID_RE st \<Longrightarrow> instance_ok env s"
  by (simp add: instance_ok_def bound_def)

lemma admitted:
  assumes "admit env t st s = (Inr (), s1)" "instance_ok env s"
  shows "quiet s s1 \<and> bound t st s1 \<and> world s1 = world s \<and> idFromName env (t @ ''|'' @ st) = do_id s \<and> STREAM_ID_RE st"
proof -
  have "pin s = None \<or> pin s = Some (t, st)"
    using assms(1) by (auto simp: admit_def sbind_Inr split: option.splits if_splits)
  then show ?thesis
    using assms(2) by (intro admit_bound[OF assms(1)]) (auto simp: instance_ok_def)
qed

lemma admit_Inl: "admit env t st s = (Inl err, s1) \<Longrightarrow> s1 = s"
  by (auto simp: admit_def sbind_step split: option.splits if_splits)

lemma validate_Inr:
  "validate env st i s = (Inr u, s1) \<longleftrightarrow> s1 = s \<and> EventInput_ok (uuid env) i \<and> in_kind i \<noteq> PositionUpdated
     \<and> (in_kind i = AuthorityFlipped \<longrightarrow> st = ''t:root'')"
  by (auto simp: validate_def sbind_Inr)

lemma findReplay_Inr:
  assumes "findReplay env r t st i s = (Inr v, s1)"
  shows "case v of Some e \<Rightarrow> replays (readDb (world s) r) st i e | None \<Rightarrow> findById (readDb (world s) r) (in_id i) = None"
  using assms
  by (auto simp: findReplay_def sbind_Inr replays_def split: option.splits)

lemma gateAndCommit_Inl:
  assumes "gateAndCommit env now (dbOf t) t st policy ev s = (Inl err, s')"
  shows "steady t st s s'"
  using assms steady.along[OF enforceTransitionGate_steady] commit_Inl steady.stays
  by (cases "hashEvent (sha256 env) (stored ev)")
     (fastforce simp: gateAndCommit_def sbind_Inl split: if_splits)+

lemma appendNew_Inl:
  assumes "appendNew env now (dbOf t) t st i s = (Inl err, s')"
  shows "steady t st s s'"
  using assms unfolding appendNew_def sbind_Inl
  by (meson steady.onward steady.along creditPartyKnown_steady loadPolicy_steady podGate_steady loadTail_steady
      stampVisibility_steady gateAndCommit_Inl)

text \<open>A refused append leaves the ledger as it was.\<close>

lemma append_Inl:
  assumes "append_event env now t st i platform s = (Inl err, s')" "instance_ok env s"
  shows "quiet s s' \<and> instance_ok env s'"
proof -
  consider "admit env t st s = (Inl err, s')"
    | s1 where "admit env t st s = (Inr (), s1)"
        "sbind (resolveDb t platform) (\<lambda>r. sbind (validate env st i) (\<lambda>_. sbind (findReplay env r t st i) (\<lambda>replay.
           case replay of Some e \<Rightarrow> ret (e, []) | None \<Rightarrow> appendNew env now r t st i))) s1 = (Inl err, s')"
    using assms(1) unfolding append_event_def sbind_Inl[of "admit env t st"] by auto
  then show ?thesis
  proof cases
    case 1
    then show ?thesis
      using admit_Inl assms(2) by fastforce
  next
    case 2
    note b = admitted[OF 2(1) assms(2)]
    have "steady t st s1 s'"
    proof (cases "fst (resolveDb t platform s1)")
      case (Inl x)
      then show ?thesis
        using 2(2) steady.along[OF resolveDb_steady] by (auto simp: sbind_step split: prod.splits)
    next
      case (Inr r)
      then obtain s2 where r: "resolveDb t platform s1 = (Inr r, s2)"
        by (metis prod.collapse)
      have "r = dbOf t"
        using resolveDb_dbOf[OF r] b by blast
      then have "steady t st s2 s'"
        using 2(2) r unfolding sbind_Inl
        by (auto split: option.splits intro: steady.onward steady.along[OF findReplay_steady]
            dest: appendNew_Inl steady.along[OF validate_steady] steady.along[OF findReplay_steady])
           (meson appendNew_Inl steady.along steady.onward findReplay_steady validate_steady)+
      then show ?thesis
        using steady.onward steady.along[OF resolveDb_steady r] by blast
    qed
    then have "quiet s1 s' \<and> bound t st s'"
      using b steady_pair by blast
    then show ?thesis
      using b quiet_trans bound_instance_ok by (metis quiet_def)
  qed
qed

lemma append_Inr:
  assumes "append_event env now t st i platform s = (Inr (e, trs), s')" "instance_ok env s"
  shows "idFromName env (t @ ''|'' @ st) = do_id s \<and> STREAM_ID_RE st \<and> EventInput_ok (uuid env) i
    \<and> in_kind i \<noteq> PositionUpdated \<and> (in_kind i = AuthorityFlipped \<longrightarrow> st = ''t:root'')
    \<and> pin s' = Some (t, st) \<and> dbHandle s' = Some (dbOf t)
    \<and> (trs = [] \<and> quiet s s' \<and> bound t st s' \<and> replays (readDb (world s) (dbOf t)) st i e
         \<and> (\<exists>s3. findReplay env (dbOf t) t st i s3 = (Inr (Some e), s'))
       \<or> (\<exists>s0 s1 date. quiet s s0 \<and> findById (readDb (world s) (dbOf t)) (in_id i) = None
            \<and> judged env now t st i s0 e s1 \<and> quiet s s1 \<and> bound t st s1
            \<and> commit (dbOf t) t e date s1 = (Inr (e, trs), s')))"
proof -
  from assms(1)[unfolded append_event_def]
  obtain s1 r s2 s3 v s4 where 1: "admit env t st s = (Inr (), s1)" and 2: "resolveDb t platform s1 = (Inr r, s2)"
    and 3: "validate env st i s2 = (Inr (), s3)" and 4: "findReplay env r t st i s3 = (Inr v, s4)"
    and 5: "(case v of Some e \<Rightarrow> ret (e, []) | None \<Rightarrow> appendNew env now r t st i) s4 = (Inr (e, trs), s')"
    by (elim sbindE) (rule that; simp)
  note b1 = admitted[OF 1 assms(2)]
  then have r: "r = dbOf t"
    using resolveDb_dbOf[OF 2] by blast
  note q2 = steady_pair[OF steady.along[OF resolveDb_steady 2]]
  note v = 3[unfolded validate_Inr]
  note q4 = steady_pair[OF steady.along[OF findReplay_steady 4]]
  have q: "quiet s s2" "bound t st s2" "quiet s s4" "bound t st s4"
    using b1 q2 q4 v quiet_trans by blast+
  have db: "t_events (readDb (world s3) r) = t_events (readDb (world s) r)"
    using books_at[OF q(1), of r] v by (simp add: same_books_def)
  have handle: "dbHandle s4 = Some (dbOf t)"
    using resolveDb_handle[OF 2] v q4 q r by (auto simp: quiet_def)
  show ?thesis
  proof (cases v)
    case None
    obtain s5 date where n: "judged env now t st i s4 e s5" "quiet s4 s5" "bound t st s5"
      "commit (dbOf t) t e date s5 = (Inr (e, trs), s')"
      using appendNew_Inr[of env now t st i s4 e trs s'] 5 None r q by auto
    have "findById (readDb (world s) (dbOf t)) (in_id i) = None"
      using findReplay_Inr[OF 4] None db r by (simp add: findById_def)
    moreover have "dbHandle s' = Some (dbOf t)" "pin s' = Some (t, st)"
      using commit_Inr[OF n(4)] n(2,3) handle by (auto simp: quiet_def bound_def)
    ultimately show ?thesis
      using b1 v n q quiet_trans by blast
  next
    case (Some x)
    then have "replays (readDb (world s) (dbOf t)) st i e"
      using findReplay_Inr[OF 4] 5 db r by (simp add: replays_def findById_def findByDevice_def)
    moreover have "e = x" "s' = s4" "trs = []"
      using 5 Some by simp_all
    moreover have "pin s4 = Some (t, st)"
      using q(4) by (simp add: bound_def)
    ultimately show ?thesis
      using b1 v q 4 Some r handle by blast
  qed
qed

end
