(* ===== verification/LedgerSystem.thy ===== *)
theory LedgerSystem
  imports SequencerLaws
begin

text \<open>
  The ledger as a transition system: many sequencer objects over one world of databases. A step is one
  \<open>append\<close> at any object with any request, the eviction of an object (its caches are lost, the pin is
  durable), a change of the control plane, or a write by another part of the program to the tables
  that are not append-only (the unique slot index still holds). \<open>reachable\<close> starts from empty event
  tables. The invariant is proved by rule induction and says of every event what held of the events
  before it.
\<close>

section \<open>The system\<close>

record 'k ledger_system =
  sys_world :: "'k world"
  objects :: "string \<Rightarrow> 'k sequencer"

definition instance_at :: "string \<Rightarrow> 'k ledger_system \<Rightarrow> 'k sequencer" where
  "instance_at i S = (objects S i) \<lparr> do_id := i, world := sys_world S \<rparr>"

definition settled :: "string \<Rightarrow> 'k sequencer \<Rightarrow> 'k ledger_system \<Rightarrow> 'k ledger_system" where
  "settled i s S = \<lparr> sys_world = world s, objects = (objects S)(i := s) \<rparr>"

definition evicted :: "'k sequencer \<Rightarrow> 'k sequencer" where
  "evicted s = s \<lparr> tail := None, policyCache := None, hazmatCache := None, deviceKeys := Map.empty, dbHandle := None \<rparr>"

inductive step :: "'k env \<Rightarrow> 'k ledger_system \<Rightarrow> 'k ledger_system \<Rightarrow> bool" for env where
  Request: "step env S (settled i (snd (append_event env now t st input platform (instance_at i S))) S)"
| Evict: "step env S (S \<lparr> objects := (objects S)(i := evicted (objects S i)) \<rparr>)"
| Control: "step env S (S \<lparr> sys_world := (sys_world S) \<lparr> control := c, registered := k, resolvable := q \<rparr> \<rparr>)"
| Elsewhere: "t_events db = t_events (readDb (sys_world S) r) \<Longrightarrow> t_lines db = t_lines (readDb (sys_world S) r) \<Longrightarrow>
    slotsUnique (t_legs db) \<Longrightarrow> step env S (S \<lparr> sys_world := writeDb r db (sys_world S) \<rparr>)"

definition initial :: "'k ledger_system \<Rightarrow> bool" where
  "initial S \<longleftrightarrow>
     (\<forall>r. let db = readDb (sys_world S) r in t_events db = [] \<and> t_lines db = [] \<and> slotsUnique (t_legs db))
     \<and> (\<forall>i. pin (objects S i) = None \<and> tail (objects S i) = None \<and> dbHandle (objects S i) = None)"

inductive reachable :: "'k env \<Rightarrow> 'k ledger_system \<Rightarrow> bool" for env where
  Start: "initial S \<Longrightarrow> reachable env S"
| Step: "reachable env S \<Longrightarrow> step env S S' \<Longrightarrow> reachable env S'"

inductive_cases stepE: "step env S S'"

section \<open>Histories\<close>

text \<open>A property of every element and the elements before it.\<close>

definition history :: "('a list \<Rightarrow> 'a \<Rightarrow> bool) \<Rightarrow> 'a list \<Rightarrow> bool" where
  "history P xs \<longleftrightarrow> (\<forall>n < length xs. P (take n xs) (xs ! n))"

lemma history_Nil [simp]: "history P []"
  by (simp add: history_def)

lemma history_snoc [simp]: "history P (xs @ [x]) \<longleftrightarrow> history P xs \<and> P xs x"
  by (auto simp: history_def nth_append less_Suc_eq)

lemma history_split: "history P (xs @ x # ys) \<Longrightarrow> P xs x"
  unfolding history_def by (drule spec[of _ "length xs"]) simp

lemma history_prefix: "history P (xs @ ys) \<Longrightarrow> history P xs"
  by (induction ys rule: rev_induct) (simp_all flip: append_assoc)

lemma history_induct:
  assumes "history P xs" "\<And>xs x. history P xs \<Longrightarrow> P xs x \<Longrightarrow> Q xs \<Longrightarrow> Q (xs @ [x])" "Q []"
  shows "Q xs"
  using assms(1)
proof (induction xs rule: rev_induct)
  case (snoc x xs)
  then show ?case
    using assms(2) by simp
qed (rule assms(3))

section \<open>What holds of a stored event\<close>

definition on_stream :: "string \<Rightarrow> payload ledger_event list \<Rightarrow> payload ledger_event list" where
  "on_stream st evs = filter (\<lambda>e. stream_id e = st) evs"

definition headOf :: "payload ledger_event list \<Rightarrow> string" where
  "headOf evs = (case rev evs of [] \<Rightarrow> GENESIS_HASH | e # _ \<Rightarrow> (case ev_hash e of None \<Rightarrow> [] | Some h \<Rightarrow> h))"

definition owner :: "db_ref \<Rightarrow> string" where
  "owner r = (case r of CustomerDb t \<Rightarrow> t | PlatformDb \<Rightarrow> PLATFORM_TENANT_ID)"

text \<open>The link of an event behind the events \<open>xs\<close> of its stream.\<close>

definition linked :: "'k env \<Rightarrow> payload ledger_event list \<Rightarrow> payload ledger_event \<Rightarrow> bool" where
  "linked env xs e \<longleftrightarrow> seq e = int (length (on_stream (stream_id e) xs))
     \<and> prev_hash e = headOf (on_stream (stream_id e) xs)
     \<and> (\<exists>h. hashEvent (sha256 env) (stored e) = Inr h \<and> ev_hash e = Some h)
     \<and> ev_id e \<notin> ev_id ` set xs"

definition permitted :: "'k env \<Rightarrow> db_ref \<Rightarrow> payload ledger_event list \<Rightarrow> payload ledger_event \<Rightarrow> bool" where
  "permitted env r xs e \<longleftrightarrow>
     STREAM_ID_RE (stream_id e)
     \<and> LedgerEvent_ok (uuid env) e
     \<and> kind e \<noteq> PositionUpdated
     \<and> (kind e = AuthorityFlipped \<longrightarrow> stream_id e = ''t:root'')
     \<and> (KIND_VISIBILITY_DEFAULTS (kind e) = Internal \<longrightarrow> visibility e = Internal)
     \<and> (\<forall>p. payload e = InvoiceCorrectedP p \<longrightarrow>
          (\<exists>x \<in> set xs. stream_id x = stream_id e \<and> ev_id x = corrects_event_id p
             \<and> kind x \<in> {InvoiceIssued, InvoiceCorrected} \<and> visibility x = visibility e))
     \<and> (kind e = InvoiceIssued \<and> source e \<noteq> Legacy
          \<and> \<not> isPlatformCreditInvoiceIssued (owner r) (kind e) (payload e) \<longrightarrow>
          (\<exists>x \<in> set xs. stream_id x = stream_id e \<and> kind x = PodSigned))
     \<and> (kind e = BookingCreated \<and> source e \<noteq> Legacy \<longrightarrow>
          (\<forall>x \<in> set xs. stream_id x = stream_id e \<longrightarrow> kind x \<noteq> BookingCreated))"

lemma on_stream_snoc [simp]:
  "on_stream st (xs @ [e]) = (if stream_id e = st then on_stream st xs @ [e] else on_stream st xs)"
  by (simp add: on_stream_def)

lemma on_stream_in: "e \<in> set (on_stream st xs) \<longleftrightarrow> e \<in> set xs \<and> stream_id e = st"
  by (auto simp: on_stream_def)

lemma headOf_snoc [simp]: "ev_hash e = Some h \<Longrightarrow> headOf (xs @ [e]) = h"
  by (simp add: headOf_def)

lemma owner_dbOf [simp]: "owner (dbOf t) = t"
  by (simp add: owner_def dbOf_def isPlatformTenant_def)

text \<open>A linked history verifies stream by stream, in the order of insertion.\<close>

lemma linked_verifies:
  assumes "history (linked env) evs"
  shows "verifyFrom (sha256 env) 0 GENESIS_HASH 0 (map stored (on_stream st evs))
    = Inr (ChainOk (headOf (on_stream st evs)) (length (on_stream st evs)))"
  using assms
proof (rule history_induct)
  fix xs e
  assume "linked env xs e"
    and IH: "verifyFrom (sha256 env) 0 GENESIS_HASH 0 (map stored (on_stream st xs))
      = Inr (ChainOk (headOf (on_stream st xs)) (length (on_stream st xs)))"
  then show "verifyFrom (sha256 env) 0 GENESIS_HASH 0 (map stored (on_stream st (xs @ [e])))
      = Inr (ChainOk (headOf (on_stream st (xs @ [e]))) (length (on_stream st (xs @ [e]))))"
    by (auto simp: verifyFrom_snoc linked_def)
qed (simp add: on_stream_def headOf_def)

lemma linked_seqs:
  assumes "history (linked env) evs"
  shows "map seq (on_stream st evs) = map int [0..<length (on_stream st evs)]"
  using assms
  by (rule history_induct) (auto simp: linked_def on_stream_def)

lemma sort_key_sorted: "sorted (map f xs) \<Longrightarrow> sort_key f xs = xs"
  by (simp add: sort_key_id_if_sorted)

lemma streamEvents_linked:
  assumes "history (linked env) (t_events db)"
  shows "streamEvents db st = on_stream st (t_events db)"
proof -
  have "sorted (map seq (on_stream st (t_events db)))"
    unfolding linked_seqs[OF assms] by (simp add: sorted_map sorted_wrt_upt)
  then show ?thesis
    by (simp add: streamEvents_def on_stream_def sort_key_sorted)
qed

lemma storedTail_linked:
  assumes "history (linked env) (t_events db)"
  shows "storedTail db st = (int (length (on_stream st (t_events db))) - 1, headOf (on_stream st (t_events db)))"
proof (cases "on_stream st (t_events db)" rule: rev_cases)
  case Nil
  then show ?thesis
    by (simp add: storedTail_def streamEvents_linked[OF assms] headOf_def GENESIS_TAIL_def)
next
  case (snoc ys y)
  have "map seq (ys @ [y]) = map int [0..<length (ys @ [y])]"
    using linked_seqs[OF assms, of st] unfolding snoc .
  then have "seq y = int (length ys)"
    by simp
  then show ?thesis
    by (simp add: storedTail_def streamEvents_linked[OF assms] headOf_def snoc)
qed

section \<open>A judged event is linked and permitted\<close>

lemma assemble_simps [simp]:
  "stream_id (assemble i st d n p now v) = st" "seq (assemble i st d n p now v) = n"
  "prev_hash (assemble i st d n p now v) = p" "ev_id (assemble i st d n p now v) = in_id i"
  "kind (assemble i st d n p now v) = in_kind i" "payload (assemble i st d n p now v) = in_payload i"
  "source (assemble i st d n p now v) = in_source i" "visibility (assemble i st d n p now v) = v"
  "override (assemble i st d n p now v) = in_override i" "device_id (assemble i st d n p now v) = in_device_id i"
  "device_seq (assemble i st d n p now v) = in_device_seq i" "recorded_at (assemble i st d n p now v) = now"
  "ev_hash (assemble i st d n p now v) = None"
  by (simp_all add: assemble_def)

lemma LedgerEvent_ok_hash [simp]: "LedgerEvent_ok (uuid env) (e \<lparr> ev_hash := h \<rparr>) = LedgerEvent_ok (uuid env) e"
  by (simp add: LedgerEvent_ok_def)

lemma booked_payload: "payload_ok BookingCreated p \<Longrightarrow> \<exists>b. p = BookingCreatedP b"
  by (cases p) (simp_all add: payload_ok_def LOOSE_KINDS_def)

lemma corrected_kind: "payload_ok k (InvoiceCorrectedP p) \<Longrightarrow> k = InvoiceCorrected"
  by (simp add: payload_ok_def)

lemma enforceBooking_first:
  assumes "enforceBooking r e p ctx s = (Inr u, s1)" "x \<in> set (t_events (readDb (world s) r))" "stream_id x = stream_id e"
  shows "kind x \<noteq> BookingCreated"
  using assms by (auto simp: enforceBooking_def sbind_Inr list_ex_iff split: if_splits)

lemma enforceTransitionGate_booking:
  assumes "enforceTransitionGate env now r st e policy s = (Inr date, s1)" "kind e = BookingCreated" "source e \<noteq> Legacy"
    "payload e = BookingCreatedP b" "x \<in> set (t_events (readDb (world s) r))" "stream_id x = stream_id e"
  shows "kind x \<noteq> BookingCreated"
  using assms by (auto simp: enforceTransitionGate_def GATED_KINDS_def sbind_Inr Let_def dest: enforceBooking_first)

lemma eventRefused_None:
  "eventRefused db e = None \<Longrightarrow> ev_id e \<notin> ev_id ` set (t_events db)"
  by (auto simp: eventRefused_def list_ex_iff guard_def split: if_splits)

lemma judged_full:
  assumes "judged env now t st i s full s1"
  obtains vis h where "full = stamped env now t st i (readDb (world s) (dbOf t)) vis \<lparr> ev_hash := Some h \<rparr>"
    "hashEvent (sha256 env) (stored (stamped env now t st i (readDb (world s) (dbOf t)) vis)) = Inr h"
  using assms by (auto simp: judged_def Let_def)

lemma judged_linked:
  assumes "judged env now t st i s full s1" "history (linked env) (t_events (readDb (world s) (dbOf t)))"
    "eventRefused (readDb (world s) (dbOf t)) full = None"
  shows "linked env (t_events (readDb (world s) (dbOf t))) full"
proof -
  obtain vis h where f: "full = stamped env now t st i (readDb (world s) (dbOf t)) vis \<lparr> ev_hash := Some h \<rparr>"
    "hashEvent (sha256 env) (stored (stamped env now t st i (readDb (world s) (dbOf t)) vis)) = Inr h"
    using judged_full[OF assms(1)] .
  have "hashEvent (sha256 env) (stored full) = Inr h"
    using f by (simp add: stored_hash_update hashEvent_ignores_hash)
  then show ?thesis
    using f eventRefused_None[OF assms(3)] storedTail_linked[OF assms(2), of st]
    by (simp add: linked_def stamped_def)
qed

lemma judged_stream:
  assumes "judged env now t st i s full s1"
  shows "stream_id full = st" "kind full = in_kind i" "payload full = in_payload i" "source full = in_source i"
    "ev_id full = in_id i" "recorded_at full = now"
  by (rule judged_full[OF assms]; simp add: stamped_def)+

lemma judged_permitted:
  assumes j: "judged env now t st i s full s1"
    and i: "STREAM_ID_RE st" "EventInput_ok (uuid env) i" "in_kind i \<noteq> PositionUpdated" "in_kind i = AuthorityFlipped \<longrightarrow> st = ''t:root''"
  shows "permitted env (dbOf t) (t_events (readDb (world s) (dbOf t))) full"
proof -
  let ?db = "readDb (world s) (dbOf t)"
  note f = judged_stream[OF j]
  obtain policy v vis date h s0 where q: "quiet s s0"
    and pod: "in_kind i = InvoiceIssued \<and> in_source i \<noteq> Legacy \<and> \<not> isPlatformCreditInvoiceIssued t (in_kind i) (in_payload i)
      \<longrightarrow> (\<exists>p \<in> set (t_events ?db). stream_id p = st \<and> kind p = PodSigned)"
    and v: "resolveVisibility (in_kind i) (tp_visibility policy) (requested_visibility i) (correctedVis ?db st i) = Resolved v"
    and vis: "vis = (if isPlatformTenant t \<and> in_kind i \<in> {InvoiceIssued, PaymentReceived} then Internal else v)"
    and ok: "LedgerEvent_ok (uuid env) (stamped env now t st i ?db vis)"
    and gate: "enforceTransitionGate env now (dbOf t) st (stamped env now t st i ?db vis) policy s0 = (Inr date, s1)"
    and full: "full = stamped env now t st i ?db vis \<lparr> ev_hash := Some h \<rparr>"
    using j unfolding judged_def Let_def by blast
  have pay: "payload_ok (in_kind i) (in_payload i)"
    using i(2) by (simp add: EventInput_ok_def)
  have visf: "visibility full = vis"
    by (simp add: full stamped_def)
  have internal: "visibility full = Internal" if "KIND_VISIBILITY_DEFAULTS (kind full) = Internal"
    using that v vis f(2) visf by (cases "in_kind i") (auto simp: resolveVisibility_def INHERITED_VISIBILITY_KINDS_def Let_def)
  have parent: "\<exists>x \<in> set (t_events ?db). stream_id x = st \<and> ev_id x = corrects_event_id p
      \<and> kind x \<in> {InvoiceIssued, InvoiceCorrected} \<and> visibility x = visibility full"
    if p: "payload full = InvoiceCorrectedP p" for p
  proof -
    have k: "in_kind i = InvoiceCorrected"
      using p f pay corrected_kind by metis
    then have "correctedVis ?db st i = Some v" "vis = v"
      using v vis by (auto simp: resolveVisibility_def INHERITED_VISIBILITY_KINDS_def split: option.splits)
    then show ?thesis
      using p f visf find_Some_in by (fastforce simp: correctedVis_def parentInvoiceVisibility_def)
  qed
  have first: "kind x \<noteq> BookingCreated"
    if b: "kind full = BookingCreated" "source full \<noteq> Legacy" and x: "x \<in> set (t_events ?db)" "stream_id x = st" for x
  proof -
    obtain p where "in_payload i = BookingCreatedP p"
      using booked_payload pay b f by metis
    moreover have "x \<in> set (t_events (readDb (world s0) (dbOf t)))"
      using x books_at[OF q, of "dbOf t"] by (simp add: same_books_def)
    ultimately show ?thesis
      using enforceTransitionGate_booking[OF gate, of p x] b f x(2) by (simp add: stamped_def)
  qed
  show ?thesis
    unfolding permitted_def using f i pod internal parent first ok by (auto simp: full)
qed

section \<open>The invariant\<close>

definition lines_backed :: "tenant_db \<Rightarrow> bool" where
  "lines_backed db \<longleftrightarrow> (\<forall>l \<in> set (t_lines db). \<exists>e \<in> set (t_events db).
     ev_id e = ml_event_id l \<and> source e \<noteq> Legacy \<and> kind e \<in> set MONEY_KINDS \<and> ml_shipment_id l = shipment_id e)"

definition db_ok :: "'k env \<Rightarrow> db_ref \<Rightarrow> tenant_db \<Rightarrow> bool" where
  "db_ok env r db \<longleftrightarrow> history (linked env) (t_events db) \<and> history (permitted env r) (t_events db)
     \<and> lines_backed db \<and> slotsUnique (t_legs db)"

definition system_ok :: "'k env \<Rightarrow> 'k ledger_system \<Rightarrow> bool" where
  "system_ok env S \<longleftrightarrow> (\<forall>r. db_ok env r (readDb (sys_world S) r)) \<and> (\<forall>i. instance_ok env (instance_at i S))"

lemma db_ok_same: "same_books a b \<Longrightarrow> db_ok env r b = db_ok env r a"
  by (simp add: db_ok_def same_books_def lines_backed_def)

lemma recorded_db_ok:
  assumes "recorded (dbOf t) t full w w'" "db_ok env (dbOf t) (readDb w (dbOf t))"
    "linked env (t_events (readDb w (dbOf t))) full" "permitted env (dbOf t) (t_events (readDb w (dbOf t))) full"
  shows "db_ok env (dbOf t) (readDb w' (dbOf t))"
proof -
  let ?db = "readDb w (dbOf t)" and ?db' = "readDb w' (dbOf t)"
  obtain ls where ev: "t_events ?db' = t_events ?db @ [full]" and ln: "t_lines ?db' = t_lines ?db @ ls"
    and legs: "slotsUnique (t_legs ?db) \<longrightarrow> slotsUnique (t_legs ?db')"
    and ls: "if source full = Legacy then ls = []
      else \<exists>m. projectMoneyLines full (moneyDeps ?db full t) = Inr m \<and> ls = mp_lines m"
    using assms(1) unfolding recorded_def by blast
  have "typed_payload (kind full) (payload full)"
    using assms(4) by (simp add: permitted_def LedgerEvent_ok_def payload_ok_def)
  note proj = typed_projection[OF this, of "moneyDeps ?db full t"]
  have "source full \<noteq> Legacy \<and> kind full \<in> set MONEY_KINDS \<and> ml_event_id l = ev_id full \<and> ml_shipment_id l = shipment_id full"
    if "l \<in> set ls" for l
    using that ls proj by (auto split: if_splits)
  then have "lines_backed ?db'"
    using assms(2) by (fastforce simp: db_ok_def lines_backed_def ev ln)
  then show ?thesis
    using assms(2-4) ev legs by (simp add: db_ok_def)
qed

lemma instance_ok_transfer:
  assumes "instance_ok env s" "do_id s' = do_id s" "pin s' = pin s"
    "tail s' = tail s \<or> tail s' = None" "dbHandle s' = dbHandle s \<or> dbHandle s' = None"
    "\<And>r st. storedTail (readDb (world s') r) st = storedTail (readDb (world s) r) st"
  shows "instance_ok env s'"
  using assms by (cases "pin s") (auto simp: instance_ok_def bound_def)

lemma quiet_settled:
  assumes "system_ok env S" "quiet (instance_at i S) s'" "instance_ok env s'"
  shows "system_ok env (settled i s' S)"
proof -
  have w: "same_books (readDb (sys_world S) r) (readDb (world s') r)" for r
    using assms(2) by (simp add: quiet_def instance_at_def)
  have "instance_ok env (instance_at j (settled i s' S))" for j
  proof (cases "j = i")
    case True
    have "instance_at i (settled i s' S) = s'"
      using assms(2) by (simp add: instance_at_def settled_def quiet_def)
    then show ?thesis
      using assms(3) True by simp
  next
    case False
    show ?thesis
      by (rule instance_ok_transfer[of env "instance_at j S"])
         (use assms(1) False storedTail_same[OF w] in \<open>auto simp: system_ok_def instance_at_def settled_def\<close>)
  qed
  then show ?thesis
    using assms(1) db_ok_same[OF w, where env = env] by (simp add: system_ok_def settled_def)
qed

lemma storedTail_foreign:
  assumes "recorded (dbOf t) t full w w'" "stream_id full = st" "(t', st') \<noteq> (t, st)"
  shows "storedTail (readDb w' (dbOf t')) st' = storedTail (readDb w (dbOf t')) st'"
proof (cases "t' = t")
  case True
  then show ?thesis
    using assms by (simp add: recorded_def storedTail_def streamEvents_def)
next
  case False
  then show ?thesis
    using assms(1) by (simp add: recorded_def)
qed

lemma committed_settled:
  assumes inv: "system_ok env S"
    and id: "idFromName env (t @ ''|'' @ st) = i" "STREAM_ID_RE st" "EventInput_ok (uuid env) input"
      "in_kind input \<noteq> PositionUpdated" "in_kind input = AuthorityFlipped \<longrightarrow> st = ''t:root''"
    and q: "quiet (instance_at i S) s0" "judged env now t st input s0 e s1" "quiet (instance_at i S) s1" "bound t st s1"
    and c: "commit (dbOf t) t e date s1 = (Inr (e, trs), s')"
  shows "system_ok env (settled i s' S) \<and> linked env (t_events (readDb (sys_world S) (dbOf t))) e"
proof -
  note k = commit_Inr[OF c]
  let ?w = "sys_world S"
  have w0: "same_books (readDb ?w r) (readDb (world s0) r)" and w1: "same_books (readDb ?w r) (readDb (world s1) r)" for r
    using q by (simp_all add: quiet_def instance_at_def)
  have ok: "db_ok env r (readDb (world s1) r)" for r
    using inv db_ok_same[OF w1, where env = env] by (simp add: system_ok_def)
  have ev: "t_events (readDb (world s0) (dbOf t)) = t_events (readDb ?w (dbOf t))"
    "t_events (readDb (world s1) (dbOf t)) = t_events (readDb ?w (dbOf t))"
    using w0 w1 by (simp_all add: same_books_def)
  have fresh: "eventRefused (readDb (world s0) (dbOf t)) e = None"
    using k ev by (simp add: recorded_def eventRefused_def)
  have lin: "linked env (t_events (readDb ?w (dbOf t))) e"
    using judged_linked[OF q(2) _ fresh] inv ev by (simp add: system_ok_def db_ok_def)
  have per: "permitted env (dbOf t) (t_events (readDb ?w (dbOf t))) e"
    using judged_permitted[OF q(2) id(2-5)] ev by simp
  have here: "db_ok env (dbOf t) (readDb (world s') (dbOf t))"
    using recorded_db_ok[of t e "world s1" "world s'" env] k ok lin per ev by simp
  have "readDb (world s') r = readDb (world s1) r" if "r \<noteq> dbOf t" for r
    using k that by (simp add: recorded_def)
  then have dbs: "db_ok env r (readDb (world s') r)" for r
    using here ok by (cases "r = dbOf t") simp_all
  have st: "stream_id e = st"
    using judged_stream(1)[OF q(2)] .
  obtain h where h: "ev_hash e = Some h"
    using lin by (auto simp: linked_def)
  have evs: "t_events (readDb (world s') (dbOf t)) = t_events (readDb ?w (dbOf t)) @ [e]"
    using k ev by (simp add: recorded_def)
  have "storedTail (readDb (world s') (dbOf t)) st = (seq e, h)"
    using storedTail_linked[of env "readDb (world s') (dbOf t)" st] here lin st h
    by (simp add: db_ok_def evs linked_def)
  then have mine: "instance_ok env s'"
    using k q(3,4) id(1,2) h by (intro bound_instance_ok[of t st]) (auto simp: bound_def quiet_def instance_at_def)
  have "instance_ok env (instance_at j (settled i s' S))" for j
  proof (cases "j = i")
    case True
    have "instance_at i (settled i s' S) = s'"
      using k q(3) by (simp add: instance_at_def settled_def quiet_def)
    then show ?thesis
      using mine True by simp
  next
    case False
    have old: "instance_ok env (instance_at j S)"
      using inv by (simp add: system_ok_def)
    show ?thesis
    proof (cases "pin (objects S j)")
      case None
      then show ?thesis
        using old False by (simp add: instance_ok_def instance_at_def settled_def)
    next
      case (Some p)
      obtain t' st' where p: "p = (t', st')"
        by (cases p)
      then have "idFromName env (t' @ ''|'' @ st') = j"
        using old Some by (simp add: instance_ok_def instance_at_def)
      then have "(t', st') \<noteq> (t, st)"
        using id(1) False by auto
      then have "storedTail (readDb (world s') (dbOf t')) st' = storedTail (readDb (world s1) (dbOf t')) st'"
        using storedTail_foreign[of t e "world s1" "world s'" st] k st by blast
      then show ?thesis
        using old Some p False storedTail_same[OF w1]
        by (simp add: instance_ok_def instance_at_def settled_def bound_def)
    qed
  qed
  then show ?thesis
    using dbs lin by (simp add: system_ok_def settled_def)
qed

lemma initial_ok: "initial S \<Longrightarrow> system_ok env S"
  by (auto simp: initial_def Let_def system_ok_def db_ok_def lines_backed_def instance_ok_def instance_at_def)

lemma step_ok:
  assumes "step env S S'" "system_ok env S"
  shows "system_ok env S'"
  using assms(1)
proof (cases rule: step.cases)
  case (Request i now t st input platform)
  let ?s = "instance_at i S"
  have ok: "instance_ok env ?s"
    using assms(2) by (simp add: system_ok_def)
  have me: "do_id ?s = i"
    by (simp add: instance_at_def)
  obtain v s' where a: "append_event env now t st input platform ?s = (v, s')"
    by (cases "append_event env now t st input platform ?s")
  show ?thesis
  proof (cases v)
    case (Inl err)
    then show ?thesis
      using append_Inl[OF a[unfolded Inl] ok] quiet_settled[OF assms(2), of i s'] a Request by simp
  next
    case (Inr x)
    obtain e trs where x: "x = (e, trs)"
      by (cases x)
    note facts = append_Inr[OF a[unfolded Inr x] ok]
    from facts consider (replay) "quiet ?s s'" "bound t st s'"
      | (new) s0 s1 date where "judged env now t st input s0 e s1" "quiet ?s s0" "quiet ?s s1" "bound t st s1"
          "commit (dbOf t) t e date s1 = (Inr (e, trs), s')"
      by blast
    then show ?thesis
    proof cases
      case replay
      then have "do_id s' = i"
        by (simp add: quiet_def me)
      then have "instance_ok env s'"
        using replay(2) facts me by (intro bound_instance_ok[of t st]) auto
      then show ?thesis
        using quiet_settled[OF assms(2) replay(1)] a Request by simp
    next
      case new
      have "system_ok env (settled i s' S)"
        by (rule committed_settled[OF assms(2) _ _ _ _ _ new(2,1,3-5), THEN conjunct1]) (use facts me in auto)
      then show ?thesis
        using a Request by simp
    qed
  qed
next
  case (Evict i)
  have "instance_ok env (instance_at j S')" for j
    by (rule instance_ok_transfer[of env "instance_at j S"])
       (use assms(2) Evict in \<open>auto simp: system_ok_def instance_at_def evicted_def\<close>)
  then show ?thesis
    using assms(2) Evict by (simp add: system_ok_def)
next
  case (Control q k c)
  have db: "readDb (sys_world S') r = readDb (sys_world S) r" for r
    using Control by (cases r) (simp_all add: readDb_def)
  have "instance_ok env (instance_at j S')" for j
    by (rule instance_ok_transfer[of env "instance_at j S"])
       (use assms(2) db Control in \<open>auto simp: system_ok_def instance_at_def\<close>)
  then show ?thesis
    using assms(2) db by (simp add: system_ok_def)
next
  case (Elsewhere db r)
  have t: "storedTail (readDb (sys_world S') q) st = storedTail (readDb (sys_world S) q) st" for q st
    using Elsewhere by (simp add: storedTail_def streamEvents_def)
  have "instance_ok env (instance_at j S')" for j
    by (rule instance_ok_transfer[of env "instance_at j S"])
       (use assms(2) t Elsewhere in \<open>auto simp: system_ok_def instance_at_def\<close>)
  moreover have "db_ok env q (readDb (sys_world S') q)" for q
    using assms(2) Elsewhere by (auto simp: system_ok_def db_ok_def lines_backed_def)
  ultimately show ?thesis
    by (simp add: system_ok_def)
qed

lemma reachable_ok: "reachable env S \<Longrightarrow> system_ok env S"
  by (induction rule: reachable.induct) (auto intro: initial_ok step_ok)

lemma reachable_db: "reachable env S \<Longrightarrow> db_ok env r (readDb (sys_world S) r)"
  using reachable_ok[of env S] by (simp add: system_ok_def)

lemma reachable_instance: "reachable env S \<Longrightarrow> instance_ok env (instance_at i S)"
  using reachable_ok[of env S] by (simp add: system_ok_def)

lemma reachable_linked: "reachable env S \<Longrightarrow> history (linked env) (t_events (readDb (sys_world S) r))"
  using reachable_db[of env S r] by (simp add: db_ok_def)

lemma reachable_permitted:
  assumes "reachable env S" "t_events (readDb (sys_world S) r) = xs @ e # ys"
  shows "permitted env r xs e"
  using reachable_db[OF assms(1), of r] assms(2) by (auto simp: db_ok_def intro: history_split)

lemma reachable_member:
  assumes "reachable env S" "e \<in> set (t_events (readDb (sys_world S) r))"
  obtains xs ys where "t_events (readDb (sys_world S) r) = xs @ e # ys" "permitted env r xs e" "linked env xs e"
  using assms reachable_permitted[OF assms(1)] reachable_linked[OF assms(1), of r] history_split
  by (metis split_list)

end
