(* ===== verification/Acceptance.thy ===== *)
theory Acceptance
  imports LedgerSystem
begin

text \<open>
  When an append succeeds: \<open>append_commits\<close> runs a request of a customer tenant through every stage and gives
  the state it ends in. From it, the acceptance of the plain kinds: nothing but a duplicate or a
  malformed request keeps such an event off the ledger.
\<close>

lemma sbind_run: "m s = (Inr x, s1) \<Longrightarrow> sbind m f s = f x s1"
  by (simp add: sbind_def)

lemma writeDb_readDb: "writeDb r (readDb w r) w = w"
  by (cases r) (simp_all add: writeDb_def readDb_def)

section \<open>The stages\<close>

lemma admit_run:
  assumes "idFromName env (t @ ''|'' @ st) = do_id s" "STREAM_ID_RE st" "pin s \<in> {None, Some (t, st)}"
  shows "admit env t st s = (Inr (), s \<lparr> pin := Some (t, st) \<rparr>)"
  using assms by (cases "pin s") (auto simp: admit_def sbind_step)

lemma resolveDb_run:
  assumes "\<not> isPlatformTenant t" "resolvable (world s) t" "dbHandle s \<in> {None, Some (dbOf t)}"
  shows "resolveDb t False s = (Inr (dbOf t), s \<lparr> dbHandle := Some (dbOf t) \<rparr>)"
  using assms by (cases "dbHandle s") (auto simp: resolveDb_def sbind_step dbOf_def)

text \<open>The request names no device, or one whose key, cached or registered, verifies its signature and whose own
  sequence number is new on the stream.\<close>

definition signer_ok :: "'k env \<Rightarrow> string \<Rightarrow> string \<Rightarrow> payload event_input \<Rightarrow> 'k sequencer \<Rightarrow> tenant_db \<Rightarrow> bool" where
  "signer_ok env t st i s db \<longleftrightarrow>
     (case act_device (in_actor i) of
        None \<Rightarrow> in_device_id i = None
      | Some d \<Rightarrow>
          (in_device_id i = None \<or> in_device_id i = Some d
             \<and> findByDevice db st d (case in_device_seq i of None \<Rightarrow> - 1 | Some n \<Rightarrow> n) = None)
          \<and> (\<exists>k. (deviceKeys s d = Some (Some k) \<or> deviceKeys s d = None \<and> registered (world s) t d = Some k)
                \<and> inputSigOk (verifyKey env) (Some k) i))"

lemma verifyDevice_run:
  assumes "deviceKeys s d = Some (Some k) \<or> deviceKeys s d = None \<and> registered (world s) t d = Some k"
    "inputSigOk (verifyKey env) (Some k) i"
  shows "verifyDevice env t d i s = (Inr (), s \<lparr> deviceKeys := (deviceKeys s)(d \<mapsto> Some k) \<rparr>)"
  using assms by (auto simp: verifyDevice_def deviceKey_def sbind_step fun_upd_idem split: option.split)

lemma findReplay_run:
  assumes "findById (readDb (world s) r) (in_id i) = None" "signer_ok env t st i s (readDb (world s) r)"
  shows "\<exists>ks. findReplay env r t st i s = (Inr None, s \<lparr> deviceKeys := ks \<rparr>)"
proof (cases "act_device (in_actor i)")
  case None
  then show ?thesis
    using assms by (intro exI[of _ "deviceKeys s"]) (simp add: findReplay_def sbind_step signer_ok_def)
next
  case (Some d)
  then obtain k where k: "deviceKeys s d = Some (Some k) \<or> deviceKeys s d = None \<and> registered (world s) t d = Some k"
    "inputSigOk (verifyKey env) (Some k) i"
    using assms(2) by (auto simp: signer_ok_def)
  then show ?thesis
    using assms Some verifyDevice_run[OF k]
    by (intro exI[of _ "(deviceKeys s)(d \<mapsto> Some k)"]) (auto simp: findReplay_def sbind_step signer_ok_def)
qed

lemma loadPolicy_run:
  assumes "policyCache s \<in> {None, Some p}" "control (world s) t = Some row" "ct_policy row = Some p"
  shows "\<exists>q. loadPolicy t s = (Inr p, s \<lparr> policyCache := Some p, hazmatCache := q \<rparr>)"
proof (cases "policyCache s")
  case None
  then show ?thesis
    using assms by (intro exI[of _ "Some (ct_hazmat_enabled row)"]) (simp add: loadPolicy_def sbind_step)
next
  case (Some p')
  then show ?thesis
    using assms by (intro exI[of _ "hazmatCache s"]) (auto simp: loadPolicy_def sbind_step)
qed

lemma loadTail_run:
  assumes "tail s \<in> {None, Some (storedTail (readDb (world s) r) st)}"
  shows "loadTail r st s = (Inr (storedTail (readDb (world s) r) st), s \<lparr> tail := Some (storedTail (readDb (world s) r) st) \<rparr>)"
  using assms by (cases "tail s") (auto simp: loadTail_def sbind_step)

lemma stampVisibility_run:
  assumes "resolveVisibility (in_kind i) (tp_visibility policy) (requested_visibility i)
      (correctedVis (readDb (world s) r) st i) = Resolved v" "\<not> isPlatformTenant t"
  shows "stampVisibility r t st policy i s = (Inr v, s)"
  using assms by (simp add: stampVisibility_def sbind_step Let_def correctedVis_def)

lemma commit_run:
  assumes "batchOf (readDb (world s) r) t full date = Inr (ss, off)" "batch ss (readDb (world s) r) = Inr (db1, ns)"
    "kind full \<noteq> CreditChecked" "ev_hash full = Some h"
  shows "commit r t full date s = (Inr (full, if source full = Legacy then [] else triggersFor full t),
    s \<lparr> world := writeDb r db1 (world s), tail := Some (seq full, h) \<rparr>)"
  using assms by (simp add: commit_def sbind_step)

section \<open>A whole append\<close>

text \<open>A request the customer tenant \<open>t\<close> may make of its instance, and what its event passes.\<close>

definition admissible_request :: "'k env \<Rightarrow> string \<Rightarrow> string \<Rightarrow> payload event_input \<Rightarrow> 'k sequencer \<Rightarrow> tenant_policy \<Rightarrow> bool" where
  "admissible_request env t st i s p \<longleftrightarrow>
     idFromName env (t @ ''|'' @ st) = do_id s \<and> STREAM_ID_RE st \<and> pin s \<in> {None, Some (t, st)}
     \<and> \<not> isPlatformTenant t \<and> resolvable (world s) t \<and> dbHandle s \<in> {None, Some (dbOf t)}
     \<and> tail s \<in> {None, Some (storedTail (readDb (world s) (dbOf t)) st)}
     \<and> policyCache s \<in> {None, Some p} \<and> (\<exists>row. control (world s) t = Some row \<and> ct_policy row = Some p)
     \<and> EventInput_ok (uuid env) i \<and> in_kind i \<noteq> PositionUpdated \<and> (in_kind i = AuthorityFlipped \<longrightarrow> st = ''t:root'')
     \<and> in_kind i \<noteq> CreditChecked \<and> signer_ok env t st i s (readDb (world s) (dbOf t))
     \<and> findById (readDb (world s) (dbOf t)) (in_id i) = None"

definition passes_gates ::
  "'k env \<Rightarrow> int \<Rightarrow> string \<Rightarrow> string \<Rightarrow> payload event_input \<Rightarrow> 'k sequencer \<Rightarrow> tenant_policy \<Rightarrow> visibility \<Rightarrow> string option \<Rightarrow> bool"
where
  "passes_gates env now t st i s p v date \<longleftrightarrow>
     (let db = readDb (world s) (dbOf t) in
      (in_kind i = InvoiceIssued \<longrightarrow> list_ex (\<lambda>e. stream_id e = st \<and> kind e = PodSigned) (t_events db))
      \<and> resolveVisibility (in_kind i) (tp_visibility p) (requested_visibility i) (correctedVis db st i) = Resolved v
      \<and> LedgerEvent_ok (uuid env) (stamped env now t st i db v)
      \<and> (\<forall>x. world x = world s \<longrightarrow>
           enforceTransitionGate env now (dbOf t) st (stamped env now t st i db v) p x = (Inr date, x)))"

lemma append_commits:
  assumes req: "admissible_request env t st i s p" and gates: "passes_gates env now t st i s p v date"
    and db: "db = readDb (world s) (dbOf t)"
    and h: "hashEvent (sha256 env) (stored (stamped env now t st i db v)) = Inr h"
    and full: "full = stamped env now t st i db v \<lparr> ev_hash := Some h \<rparr>"
    and b: "batchOf db t full date = Inr (ss, off)" "batch ss db = Inr (db1, ns)"
  shows "\<exists>ks q. append_event env now t st i False s =
    (Inr (full, if in_source i = Legacy then [] else triggersFor full t),
     s \<lparr> pin := Some (t, st), dbHandle := Some (dbOf t), deviceKeys := ks, policyCache := Some p, hazmatCache := q,
        tail := Some (seq full, h), world := writeDb (dbOf t) db1 (world s) \<rparr>)"
proof -
  note r = req[unfolded admissible_request_def] and g = gates[unfolded passes_gates_def Let_def]
  obtain row where row: "control (world s) t = Some row" "ct_policy row = Some p"
    using r by blast
  let ?s1 = "s \<lparr> pin := Some (t, st) \<rparr>"
  let ?s0 = "?s1 \<lparr> dbHandle := Some (dbOf t) \<rparr>"
  have "signer_ok env t st i ?s0 (readDb (world ?s0) (dbOf t))"
    using r by (simp add: signer_ok_def split: option.splits)
  then obtain ks where f: "findReplay env (dbOf t) t st i ?s0 = (Inr None, ?s0 \<lparr> deviceKeys := ks \<rparr>)"
    using r findReplay_run[of ?s0 "dbOf t" i env t st] by auto
  let ?s2 = "?s0 \<lparr> deviceKeys := ks \<rparr>"
  obtain q where q: "loadPolicy t ?s2 = (Inr p, ?s2 \<lparr> policyCache := Some p, hazmatCache := q \<rparr>)"
    using loadPolicy_run[of ?s2 p t row] r row by auto
  let ?s3 = "?s2 \<lparr> policyCache := Some p, hazmatCache := q \<rparr>"
  let ?s4 = "?s3 \<lparr> tail := Some (storedTail db st) \<rparr>"
  have k: "kind full \<noteq> CreditChecked" "ev_hash full = Some h" "source full = in_source i"
    using r by (simp_all add: full stamped_def)
  have pay: "payload_ok (in_kind i) (in_payload i)"
    using r by (simp add: EventInput_ok_def)
  have "creditPartyKnown (dbOf t) i ?s2 = (Inr (), ?s2)"
    using r pay by (cases "in_payload i") (auto simp: creditPartyKnown_def sbind_step payload_ok_def)
  moreover have "podGate (dbOf t) t st p i ?s3 = (Inr (), ?s3)"
    using g by (simp add: podGate_def sbind_step assertPodSigned_def)
  moreover have "loadTail (dbOf t) st ?s3 = (Inr (storedTail db st), ?s4)"
    using loadTail_run[of ?s3 "dbOf t" st] r by (simp add: db)
  moreover have "stampVisibility (dbOf t) t st p i ?s4 = (Inr v, ?s4)"
    using stampVisibility_run[of i p ?s4 "dbOf t" st v t] g r by simp
  moreover have "gateAndCommit env now (dbOf t) t st p (stamped env now t st i db v) ?s4 =
    (Inr (full, if in_source i = Legacy then [] else triggersFor full t),
     ?s4 \<lparr> tail := Some (seq full, h), world := writeDb (dbOf t) db1 (world s) \<rparr>)"
    using g h commit_run[of ?s4 "dbOf t" t full date ss off db1 ns h] b k
    by (simp add: gateAndCommit_def sbind_step flip: db full)
  ultimately have new: "appendNew env now (dbOf t) t st i ?s2 =
    (Inr (full, if in_source i = Legacy then [] else triggersFor full t),
     ?s4 \<lparr> tail := Some (seq full, h), world := writeDb (dbOf t) db1 (world s) \<rparr>)"
    using q unfolding appendNew_def stamped_def by (simp add: sbind_run)
  have "validate env st i ?s0 = (Inr (), ?s0)"
    using r by (simp add: validate_def sbind_step)
  moreover have "admit env t st s = (Inr (), ?s1)" "resolveDb t False ?s1 = (Inr (dbOf t), ?s0)"
    using r by (auto intro!: admit_run resolveDb_run)
  ultimately show ?thesis
    unfolding append_event_def using new f by (intro exI[of _ ks] exI[of _ q]) (simp add: sbind_run)
qed

section \<open>Reachable systems\<close>

text \<open>The name of an object determines its tenant and stream: a stream id has no bar in it.\<close>

lemma STREAM_ID_RE_no_bar: "STREAM_ID_RE st \<Longrightarrow> CHR ''|'' \<notin> set st"
proof -
  assume re: "STREAM_ID_RE st"
  have word: "\<not> wordchar (CHR ''|'')"
    by (simp add: wordchar_def)
  consider "st = ''t:root''" | "take 2 st \<in> {''s:'', ''q:''}" "list_all wordchar (drop 2 st)"
    using re by (auto simp: STREAM_ID_RE_def)
  then show ?thesis
  proof cases
    case 2
    then have "CHR ''|'' \<notin> set (drop 2 st)" "CHR ''|'' \<notin> set (take 2 st)"
      using word by (auto simp: list_all_iff)
    then show ?thesis
      by (metis UnE append_take_drop_id set_append)
  qed simp
qed

lemma object_name_inject:
  assumes "t @ ''|'' @ st = t' @ ''|'' @ st'" "STREAM_ID_RE st" "STREAM_ID_RE st'"
  shows "t = t' \<and> st = st'"
  using assms(1) STREAM_ID_RE_no_bar[OF assms(2)] STREAM_ID_RE_no_bar[OF assms(3)]
  by (auto simp: append_eq_append_conv2 Cons_eq_append_conv append_eq_Cons_conv)

lemma instance_pinned:
  assumes "instance_ok env s" "inj (idFromName env)" "idFromName env (t @ ''|'' @ st) = do_id s" "STREAM_ID_RE st"
  shows "pin s \<in> {None, Some (t, st)} \<and> dbHandle s \<in> {None, Some (dbOf t)}
    \<and> tail s \<in> {None, Some (storedTail (readDb (world s) (dbOf t)) st)}"
proof (cases "pin s")
  case None
  then show ?thesis
    using assms(1) by (simp add: instance_ok_def)
next
  case (Some p)
  obtain t' st' where p: "p = (t', st')"
    by (cases p)
  then have b: "bound t' st' s" "idFromName env (t' @ ''|'' @ st') = do_id s" "STREAM_ID_RE st'"
    using assms(1) Some by (simp_all add: instance_ok_def)
  then have "t' @ ''|'' @ st' = t @ ''|'' @ st"
    using assms(2,3) by (metis injD)
  then have "t' = t \<and> st' = st"
    using object_name_inject b(3) assms(4) by blast
  then show ?thesis
    using b Some p by (cases "dbHandle s"; cases "tail s") (auto simp: bound_def)
qed

text \<open>A request served at the object of its stream.\<close>

definition served ::
  "'k env \<Rightarrow> int \<Rightarrow> string \<Rightarrow> string \<Rightarrow> payload event_input \<Rightarrow> 'k ledger_system \<Rightarrow> 'k ledger_system"
where
  "served env now t st i S =
     (let me = idFromName env (t @ ''|'' @ st) in
      settled me (snd (append_event env now t st i False (instance_at me S))) S)"

lemma served_step: "step env S (served env now t st i S)"
  by (simp add: served_def Let_def step.Request)

lemma served_reachable: "reachable env S \<Longrightarrow> reachable env (served env now t st i S)"
  by (rule reachable.Step[OF _ served_step])

lemma instance_at_simps [simp]:
  "do_id (instance_at j S) = j" "world (instance_at j S) = sys_world S"
  "policyCache (instance_at j S) = policyCache (objects S j)"
  by (simp_all add: instance_at_def)

definition policy_served :: "string \<Rightarrow> tenant_policy \<Rightarrow> 'k ledger_system \<Rightarrow> bool" where
  "policy_served t p S \<longleftrightarrow>
     (\<exists>row. control (sys_world S) t = Some row \<and> ct_policy row = Some p) \<and> resolvable (sys_world S) t
     \<and> (\<forall>j. policyCache (objects S j) \<in> {None, Some p})"

lemma served_commits:
  assumes reach: "reachable env S" and inj: "inj (idFromName env)" and t: "\<not> isPlatformTenant t" "STREAM_ID_RE st"
    and p: "policy_served t p S" and db: "db = readDb (sys_world S) (dbOf t)"
    and i: "EventInput_ok (uuid env) i" "in_kind i \<noteq> PositionUpdated" "in_kind i = AuthorityFlipped \<longrightarrow> st = ''t:root''"
      "in_kind i \<noteq> CreditChecked" "signer_ok env t st i (instance_at (idFromName env (t @ ''|'' @ st)) S) db"
      "findById db (in_id i) = None"
    and pod: "in_kind i = InvoiceIssued \<longrightarrow> list_ex (\<lambda>e. stream_id e = st \<and> kind e = PodSigned) (t_events db)"
    and vis: "resolveVisibility (in_kind i) (tp_visibility p) (requested_visibility i) (correctedVis db st i) = Resolved v"
    and ok: "LedgerEvent_ok (uuid env) (stamped env now t st i db v)"
    and gate: "\<And>x. readDb (world x) (dbOf t) = db \<Longrightarrow>
      enforceTransitionGate env now (dbOf t) st (stamped env now t st i db v) p x = (Inr date, x)"
    and h: "hashEvent (sha256 env) (stored (stamped env now t st i db v)) = Inr h"
    and full: "full = stamped env now t st i db v \<lparr> ev_hash := Some h \<rparr>"
    and b: "batchOf db t full date = Inr (ss, off)" "batch ss db = Inr (db1, ns)"
  shows "fst (append_event env now t st i False (instance_at (idFromName env (t @ ''|'' @ st)) S)) =
      Inr (full, if in_source i = Legacy then [] else triggersFor full t)
    \<and> readDb (sys_world (served env now t st i S)) (dbOf t) = db1 \<and> policy_served t p (served env now t st i S)"
proof -
  let ?me = "idFromName env (t @ ''|'' @ st)"
  let ?s = "instance_at ?me S"
  note pinned = instance_pinned[OF reachable_instance[OF reach, of ?me] inj, of t st]
  have req: "admissible_request env t st i ?s p"
    using pinned t p i db unfolding admissible_request_def policy_served_def by simp
  have gates: "passes_gates env now t st i ?s p v date"
    unfolding passes_gates_def Let_def using pod vis ok gate db by simp
  obtain ks q where q: "append_event env now t st i False ?s =
    (Inr (full, if in_source i = Legacy then [] else triggersFor full t),
     ?s \<lparr> pin := Some (t, st), dbHandle := Some (dbOf t), deviceKeys := ks, policyCache := Some p, hazmatCache := q,
        tail := Some (seq full, h), world := writeDb (dbOf t) db1 (world ?s) \<rparr>)"
    using append_commits[OF req gates, of db h full ss off db1 ns] db h full b by auto
  then show ?thesis
    using p by (auto simp: served_def settled_def policy_served_def Let_def)
qed

section \<open>The plain kinds are always accepted\<close>

definition PLAIN_KINDS :: "event_kind list" where
  "PLAIN_KINDS = [QuoteRequested, QuotePriced, QuoteSent, QuoteAccepted, QuoteExpired, PickupScheduled, FreightCounted,
     FreightPhotographed, DimsCaptured, SealApplied, MessageReceived, MessageSent, CallTranscribed, DocumentAttached,
     ApprovalRequested, ApprovalDecided, AgentActed]"

fun harmless :: "stmt \<Rightarrow> bool" where
  "harmless (InsertMessage _) = True"
| "harmless (OpenApproval _) = True"
| "harmless (DecideApproval _ _) = True"
| "harmless (InsertAgentRun _) = True"
| "harmless _ = False"

lemma harmless_batch: "list_all harmless ss \<Longrightarrow> \<exists>db1 ns. batch ss db = Inr (db1, ns)"
proof (induction ss arbitrary: db)
  case (Cons x ss)
  obtain db2 n where "execute x db = Inr (db2, n)"
    using Cons.prems by (cases x) simp_all
  then show ?case
    using Cons.IH[of db2] Cons.prems by auto
qed simp

lemma plain_batchOf:
  assumes "kind full \<in> set PLAIN_KINDS" "typed_payload (kind full) (payload full)" "source full \<noteq> Legacy"
    "eventRefused db full = None"
  shows "\<exists>ss off db1 ns. batchOf db t full None = Inr (ss, off) \<and> batch ss db = Inr (db1, ns)"
proof -
  have "kind full \<notin> set MONEY_KINDS"
    using assms(1) by (auto simp: PLAIN_KINDS_def MONEY_KINDS_def)
  then obtain m where m: "projectMoneyLines full (moneyDeps db full t) = Inr m" "mp_lines m = []" "mp_invoices m = []"
    using typed_projection[OF assms(2), of "moneyDeps db full t"] assms(1)
    by (auto simp: PLAIN_KINDS_def split: sum.splits projection_error.splits)
  have s: "projectStatusCache full = Inr []"
    using assms(1) by (auto simp: PLAIN_KINDS_def projectStatusCache_def split: option.split)
  have p: "projectPassport full = []" "projectAppointment full None = []" "projectAuthority full = []"
    using assms(1) by (auto simp: PLAIN_KINDS_def projectPassport_def projectAppointment_def projectAuthority_def)
  let ?rest = "applyMessageProjection full @ projectApprovals full @ projectAgentRuns full"
  have "list_all harmless (applyMessageProjection full)"
    by (simp add: applyMessageProjection_def list_all_iff)
  moreover have "list_all harmless (projectApprovals full)"
    by (simp add: projectApprovals_def split: option.split)
  moreover have "list_all harmless (projectAgentRuns full)"
    by (simp add: projectAgentRuns_def Let_def split: option.split)
  ultimately have "list_all harmless ?rest"
    by simp
  then obtain db1 ns where k: "batch ?rest (db \<lparr> t_events := t_events db @ [full] \<rparr>) = Inr (db1, ns)"
    using harmless_batch by blast
  have "batchOf db t full None = Inr (InsertEvent full # ?rest, 1)"
    using m s p assms(3) by (simp add: batchOf_def applyMoneyProjection_def)
  moreover have "batch (InsertEvent full # ?rest) db = Inr (db1, 1 # ns)"
    using k assms(4) by simp
  ultimately show ?thesis
    by blast
qed

lemma plain_gate:
  "kind e \<in> set PLAIN_KINDS \<Longrightarrow> enforceTransitionGate env now r st e p x = (Inr None, x)"
  by (auto simp: enforceTransitionGate_def GATED_KINDS_def PLAIN_KINDS_def)

lemma plain_visibility:
  "k \<in> set PLAIN_KINDS \<Longrightarrow> \<exists>v. resolveVisibility k pol rq c = Resolved v"
  by (auto simp: resolveVisibility_def INHERITED_VISIBILITY_KINDS_def PLAIN_KINDS_def Let_def)

lemma hexdigit_hex: "n < 16 \<Longrightarrow> hexdigit n \<in> set ''0123456789abcdef''"
  unfolding hexdigit_def by (rule nth_mem) simp

lemma Hash64_of_digest:
  assumes "length bs = 32"
  shows "Hash64 (bytesToHex bs)"
proof -
  define digits where "digits = set ''0123456789abcdef''"
  have "unat b div 16 < 16" "unat b mod 16 < 16" for b :: byte
    using unsigned_less[of b, where 'a = nat] by simp_all
  then have "hexdigit (unat b div 16) \<in> digits" "hexdigit (unat b mod 16) \<in> digits" for b :: byte
    unfolding digits_def using hexdigit_hex by blast+
  then have "list_all (\<lambda>c. c \<in> digits) (bytesToHex bs)"
    by (auto simp: bytesToHex_def byteToHex_def list_all_iff)
  then show ?thesis
    using assms unfolding Hash64_def digits_def by (simp only: bytesToHex_length) simp
qed

lemma linked_seq_bound:
  assumes "history (linked env) evs" "x \<in> set evs"
  shows "0 \<le> seq x \<and> seq x < int (length (on_stream (stream_id x) evs))"
proof -
  have "x \<in> set (on_stream (stream_id x) evs)"
    using assms(2) by (simp add: on_stream_in)
  then have "seq x \<in> set (map seq (on_stream (stream_id x) evs))"
    by simp
  then show ?thesis
    unfolding linked_seqs[OF assms(1)] by auto
qed

lemma linked_head_Hash64:
  assumes "history (linked env) evs" "\<And>bs. length (sha256 env bs) = 32"
  shows "Hash64 (headOf (on_stream st evs))"
  using assms(1)
proof (rule history_induct)
  have "Hash64 GENESIS_HASH"
    by (simp add: Hash64_def GENESIS_HASH_def list_all_iff)
  then show "Hash64 (headOf (on_stream st []))"
    by (simp add: on_stream_def headOf_def)
next
  fix xs e
  assume "linked env xs e" and IH: "Hash64 (headOf (on_stream st xs))"
  then obtain h where h: "hashEvent (sha256 env) (stored e) = Inr h" "ev_hash e = Some h"
    by (auto simp: linked_def)
  then have "Hash64 h"
    using Hash64_of_digest assms(2) by (auto simp: hashEvent_def sha256Hex_def)
  then show "Hash64 (headOf (on_stream st (xs @ [e])))"
    using IH h by simp
qed

lemma stamped_schema:
  assumes "history (linked env) (t_events db)" "\<And>bs. length (sha256 env bs) = 32" "STREAM_ID_RE st" "EventInput_ok (uuid env) i" "safe now"
    "int (length (t_events db)) \<le> MAX_SAFE"
  shows "LedgerEvent_ok (uuid env) (stamped env now t st i db v)"
proof -
  have "int (length (on_stream st (t_events db))) \<le> MAX_SAFE"
    using assms(6) length_filter_le[of "\<lambda>e. stream_id e = st" "t_events db"] unfolding on_stream_def by linarith
  then show ?thesis
    using assms linked_head_Hash64[OF assms(1,2), of st]
    by (simp add: safe_def LedgerEvent_ok_def EventInput_ok_def stamped_def storedTail_linked[OF assms(1)] assemble_def)
qed

lemma stamped_not_refused:
  assumes "history (linked env) (t_events db)" "findById db (in_id i) = None"
    "\<forall>d. in_device_id i = Some d \<longrightarrow> in_device_seq i \<noteq> None
       \<and> findByDevice db st d (case in_device_seq i of None \<Rightarrow> - 1 | Some n \<Rightarrow> n) = None"
    "take 2 st \<noteq> ''s:'' \<longrightarrow> in_shipment_id i = None" "\<forall>x \<in> set (t_events db). ev_hash x \<noteq> Some h"
  shows "eventRefused db (stamped env now t st i db v \<lparr> ev_hash := Some h \<rparr>) = None"
proof -
  have "\<forall>x \<in> set (t_events db). ev_id x \<noteq> in_id i"
    using assms(2) by (auto simp: findById_def find_None_all)
  moreover have "seq x \<noteq> int (length (on_stream st (t_events db)))" if "x \<in> set (t_events db)" "stream_id x = st" for x
    using linked_seq_bound[OF assms(1) that(1)] that(2) by simp
  moreover have "st = ''s:'' @ drop 2 st" if "take 2 st = ''s:''"
    using that by (metis append_take_drop_id)
  ultimately show ?thesis
    using assms(3-5) storedTail_linked[OF assms(1), of st]
    by (auto simp: eventRefused_def list_ex_iff guard_def stamped_def assemble_def deriveShipmentId_def firstSome_None
        findByDevice_def find_None_all split: option.splits)
qed

lemma plain_served:
  assumes reach: "reachable env S" and inj: "inj (idFromName env)" and sha: "\<And>bs. length (sha256 env bs) = 32"
    and t: "\<not> isPlatformTenant t" "STREAM_ID_RE st" and p: "policy_served t p S" and now: "safe now" "int (length (t_events db)) \<le> MAX_SAFE"
    and i: "EventInput_ok (uuid env) i" "in_kind i \<in> set PLAIN_KINDS" "in_source i \<noteq> Legacy"
      "signer_ok env t st i (instance_at (idFromName env (t @ ''|'' @ st)) S) db" "take 2 st \<noteq> ''s:'' \<longrightarrow> in_shipment_id i = None"
    and db: "db = readDb (sys_world S) (dbOf t)" and new: "findById db (in_id i) = None"
    and hash: "\<forall>v. \<exists>h. hashEvent (sha256 env) (stored (stamped env now t st i db v)) = Inr h
      \<and> (\<forall>x \<in> set (t_events db). ev_hash x \<noteq> Some h)"
  shows "\<exists>v h. let full = stamped env now t st i db v \<lparr> ev_hash := Some h \<rparr> in
    fst (append_event env now t st i False (instance_at (idFromName env (t @ ''|'' @ st)) S)) = Inr (full, triggersFor full t)
    \<and> t_events (readDb (sys_world (served env now t st i S)) (dbOf t)) = t_events db @ [full]
    \<and> policy_served t p (served env now t st i S)"
proof -
  note links = reachable_linked[OF reach, of "dbOf t", folded db]
  obtain v where v: "resolveVisibility (in_kind i) (tp_visibility p) (requested_visibility i) (correctedVis db st i) = Resolved v"
    using plain_visibility i(2) by blast
  obtain h where h: "hashEvent (sha256 env) (stored (stamped env now t st i db v)) = Inr h"
    "\<forall>x \<in> set (t_events db). ev_hash x \<noteq> Some h"
    using hash by blast
  define full where "full = stamped env now t st i db v \<lparr> ev_hash := Some h \<rparr>"
  have full_sel: "kind full = in_kind i" "payload full = in_payload i" "source full = in_source i"
    by (simp_all add: full_def stamped_def)
  have typed: "typed_payload (in_kind i) (in_payload i)"
    using i(1) by (simp add: EventInput_ok_def payload_ok_def)
  have dev: "\<forall>d. in_device_id i = Some d \<longrightarrow> in_device_seq i \<noteq> None
      \<and> findByDevice db st d (case in_device_seq i of None \<Rightarrow> - 1 | Some n \<Rightarrow> n) = None"
  proof (intro allI impI)
    fix d
    assume d: "in_device_id i = Some d"
    then have "in_device_seq i \<noteq> None" "act_device (in_actor i) = Some d"
      using i(1) superRefine_device[of d] by (auto simp: EventInput_ok_def)
    then show "in_device_seq i \<noteq> None
      \<and> findByDevice db st d (case in_device_seq i of None \<Rightarrow> - 1 | Some n \<Rightarrow> n) = None"
      using i(4) d by (simp add: signer_ok_def)
  qed
  have ok: "eventRefused db full = None"
    unfolding full_def by (rule stamped_not_refused[OF links new dev i(5) h(2)])
  obtain ss off db1 ns where b: "batchOf db t full None = Inr (ss, off)" "batch ss db = Inr (db1, ns)"
    using plain_batchOf[of full db t] i typed ok full_sel by auto
  have kinds: "in_kind i \<noteq> PositionUpdated" "in_kind i \<noteq> AuthorityFlipped" "in_kind i \<noteq> CreditChecked" "in_kind i \<noteq> InvoiceIssued"
    using i(2) by (auto simp: PLAIN_KINDS_def)
  have plain: "kind (stamped env now t st i db v) \<in> set PLAIN_KINDS"
    using i(2) by (simp add: stamped_def)
  have "fst (append_event env now t st i False (instance_at (idFromName env (t @ ''|'' @ st)) S)) =
      Inr (full, if in_source i = Legacy then [] else triggersFor full t)
    \<and> readDb (sys_world (served env now t st i S)) (dbOf t) = db1 \<and> policy_served t p (served env now t st i S)"
    by (rule served_commits[OF reach inj t p db i(1) _ _ _ i(4) new _ v stamped_schema[OF links sha t(2) i(1) now]
          plain_gate[OF plain] h(1) full_def b]) (use kinds in simp_all)
  moreover have "t_events db1 = t_events db @ [full]"
    using batch_effect[OF b(2)] batchOf_rows[OF b(1)] by simp
  ultimately show ?thesis
    unfolding Let_def full_def using i(3) by (intro exI[of _ v] exI[of _ h]) simp
qed

section \<open>What an append and a step do\<close>

text \<open>What an append at a reachable instance did.\<close>

lemma append_outcome:
  assumes "reachable env S" "append_event env now t st i platform (instance_at j S) = (v, s')"
  obtains (refused) err where "v = Inl err" "quiet (instance_at j S) s'"
  | (replayed) e s3 where "v = Inr (e, [])" "quiet (instance_at j S) s'" "bound t st s'"
      "replays (readDb (sys_world S) (dbOf t)) st i e" "findReplay env (dbOf t) t st i s3 = (Inr (Some e), s')"
  | (committed) e trs s0 s1 date where "v = Inr (e, trs)" "findById (readDb (sys_world S) (dbOf t)) (in_id i) = None"
      "quiet (instance_at j S) s0" "judged env now t st i s0 e s1" "quiet (instance_at j S) s1" "bound t st s1"
      "commit (dbOf t) t e date s1 = (Inr (e, trs), s')"
proof (cases v)
  case (Inl err)
  then show thesis
    using refused append_Inl assms(2) reachable_instance[OF assms(1)] by blast
next
  case (Inr x)
  obtain e trs where x: "x = (e, trs)"
    by (cases x)
  show thesis
    using append_Inr[OF assms(2)[unfolded Inr x] reachable_instance[OF assms(1)]] replayed committed Inr x
    by (auto simp: instance_at_def)
qed

lemma served_instance:
  assumes "reachable env S" "me = idFromName env (t @ ''|'' @ st)"
    "t_events (readDb (sys_world (served env now t st i S)) r) \<noteq> t_events (readDb (sys_world S) r)"
  shows "pin (objects (served env now t st i S) me) = Some (t, st) \<and> tail (objects (served env now t st i S) me) \<noteq> None"
proof -
  obtain v s' where a: "append_event env now t st i False (instance_at me S) = (v, s')"
    by (cases "append_event env now t st i False (instance_at me S)")
  then have w: "sys_world (served env now t st i S) = world s'" "objects (served env now t st i S) me = s'"
    using assms(2) by (simp_all add: served_def settled_def Let_def)
  from assms(1) a show ?thesis
  proof (cases rule: append_outcome)
    case committed
    then show ?thesis
      using commit_Inr[OF committed(7)] by (simp add: w bound_def)
  qed (use assms(3) w in \<open>auto simp: quiet_def same_books_def\<close>)
qed

text \<open>How a step changes the event tables.\<close>

lemma step_events:
  assumes "reachable env S" "step env S S'"
  shows "(\<forall>r. t_events (readDb (sys_world S') r) = t_events (readDb (sys_world S) r))
    \<or> (\<exists>r e. t_events (readDb (sys_world S') r) = t_events (readDb (sys_world S) r) @ [e]
         \<and> (\<forall>q. q \<noteq> r \<longrightarrow> t_events (readDb (sys_world S') q) = t_events (readDb (sys_world S) q)))"
  using assms(2)
proof (cases rule: step.cases)
  case (Request i now t st input platform)
  let ?s = "instance_at i S"
  note ok = reachable_instance[OF assms(1), of i]
  obtain v s' where a: "append_event env now t st input platform ?s = (v, s')"
    by (cases "append_event env now t st input platform ?s")
  then have w: "sys_world S' = world s'"
    using Request by (simp add: settled_def)
  show ?thesis
  proof (cases v)
    case (Inl err)
    then have "quiet ?s s'"
      using append_Inl[OF a[unfolded Inl] ok] by simp
    then show ?thesis
      by (simp add: w quiet_def same_books_def)
  next
    case (Inr x)
    obtain e trs where x: "x = (e, trs)"
      by (cases x)
    from append_Inr[OF a[unfolded Inr x] ok] consider "quiet ?s s'"
      | s1 date where "quiet ?s s1" "commit (dbOf t) t e date s1 = (Inr (e, trs), s')"
      by blast
    then show ?thesis
    proof cases
      case 1
      then show ?thesis
        by (simp add: w quiet_def same_books_def)
    next
      case 2
      have "t_events (readDb (world s1) r) = t_events (readDb (sys_world S) r)" for r
        using 2(1) by (simp add: quiet_def same_books_def)
      then have "t_events (readDb (world s') (dbOf t)) = t_events (readDb (sys_world S) (dbOf t)) @ [e]
          \<and> (\<forall>q. q \<noteq> dbOf t \<longrightarrow> t_events (readDb (world s') q) = t_events (readDb (sys_world S) q))"
        using commit_Inr[OF 2(2)] by (simp add: recorded_def)
      then show ?thesis
        unfolding w by blast
    qed
  qed
next
  case (Control q k c)
  have "readDb (sys_world S') r = readDb (sys_world S) r" for r
    using Control by (cases r) (simp_all add: readDb_def)
  then show ?thesis
    by simp
qed simp_all

end
