(* ===== verification/LedgerSamples.thy ===== *)
theory LedgerSamples
  imports Acceptance "HOL-Library.Code_Target_Numeral"
begin

text \<open>
  A concrete run of the ledger for the witnesses: one customer tenant \<open>a\<close> with one party, a toy digest that
  is the length of its input, requests on a shipment stream and on \<open>t:root\<close>, evaluated by the simplifier.
\<close>

definition toy_digest :: "bytes \<Rightarrow> bytes" where
  "toy_digest bs = replicate 31 0 @ [of_nat (length bs)]"

definition sample_env :: "unit env" where
  "sample_env = \<lparr> idFromName = (\<lambda>x. x), sha256 = toy_digest, uuid = (\<lambda>s. s \<noteq> []), verifyKey = (\<lambda>_ _ _. Some True),
     haversine = (\<lambda>_ _ _ _. 0), operatingState = (\<lambda>_. ''CA''),
     localWall = (\<lambda>_ _. \<lparr> lw_minuteOfDay = 0, lw_dow = 0, lw_serviceDate = [] \<rparr>) \<rparr>"

definition sample_db :: tenant_db where
  "sample_db = \<lparr> t_events = [], t_lines = [], t_invoices = [], t_shipments = Map.empty, t_legs = [],
     t_parties = [''p'' \<mapsto> \<lparr> pt_credit_status = None, pt_contacts = None \<rparr>], t_documents = [], t_anomalies = [],
     t_messages = [], t_approvals = [], t_agent_runs = [], t_authority = Map.empty, t_passports = Map.empty,
     t_facilities = Map.empty \<rparr>"

definition sample_world :: "unit world" where
  "sample_world = \<lparr> control = [''a'' \<mapsto> \<lparr> ct_policy = Some no_policy, ct_hazmat_enabled = False \<rparr>],
     registered = (\<lambda>_ _. Some ()), resolvable = (\<lambda>_. True), customer_dbs = (\<lambda>_. sample_db), platform_db = sample_db \<rparr>"

definition cold :: "'k world \<Rightarrow> 'k sequencer" where
  "cold w = \<lparr> do_id = [], tail = None, pin = None, policyCache = None, hazmatCache = None, deviceKeys = Map.empty,
     dbHandle = None, world = w \<rparr>"

definition sample_start :: "unit ledger_system" where
  "sample_start = \<lparr> sys_world = sample_world, objects = (\<lambda>_. cold sample_world) \<rparr>"

definition sample_input :: "string \<Rightarrow> event_kind \<Rightarrow> payload \<Rightarrow> payload event_input" where
  "sample_input i k p = \<lparr> in_id = i, in_shipment_id = None, in_ts = 1,
     in_actor = \<lparr> act_party = ''p'', act_user = None, act_device = None \<rparr>, in_party_refs = [''p''],
     in_evidence = [], in_sig = None, in_source = Native, in_confidence = 10000, in_device_id = None,
     in_device_seq = None, in_captured_ts = None, requested_visibility = None, in_override = None,
     in_kind = k, in_payload = p \<rparr>"

definition pod_input :: "payload event_input" where
  "pod_input = sample_input ''e1'' PodSigned
     (PodSignedP (replicate 64 (CHR ''a'')) \<lparr> lat_e6 = 0, lon_e6 = 0, accuracy_m = None \<rparr> True)"

definition invoice_input :: "payload event_input" where
  "invoice_input = sample_input ''e2'' InvoiceIssued (InvoiceIssuedP \<lparr> ii_invoice_id = ''A'', ii_party_id = ''p'',
     ii_division = ''d'', ii_lines = [\<lparr> line_no = 1, il_kind = Freight, il_amount_cents = 100, gl_map = ''g'' \<rparr>] \<rparr>)"

definition correction_input :: "payload event_input" where
  "correction_input = sample_input ''e3'' InvoiceCorrected (InvoiceCorrectedP \<lparr> ic_invoice_id = ''A'',
     corrects_event_id = ''e2'', ic_reason = ''r'', reissue_lines = [] \<rparr>)"

definition booking_input :: "payload event_input" where
  "booking_input = sample_input ''e4'' BookingCreated (BookingCreatedP \<lparr> bk_quote_event_id = ''q'',
     bk_shipper_party_id = ''p'', bk_consignee_party_id = ''p'', bk_bill_to_party_id = ''p'', bk_division = ''d'',
     bk_mode = None, bk_service = None, bk_bill_terms = None, evidence_contact_opt_out = Some True,
     bk_hazmat = None \<rparr>)"

definition flip_input :: "payload event_input" where
  "flip_input = sample_input ''e5'' AuthorityFlipped (AuthorityFlippedP \<lparr> af_module = Rating, af_from = LegacyLevel,
     af_to = NativeLevel, af_reason = ''r'', af_gate_snapshot = None, af_drift_ref = None \<rparr>)"

section \<open>The stored events\<close>

definition event_of :: "payload event_input \<Rightarrow> string \<Rightarrow> int \<Rightarrow> string \<Rightarrow> visibility \<Rightarrow> payload ledger_event" where
  "event_of i st n prev v = assemble i st (deriveShipmentId st) n prev 5 v"

definition digest :: "string \<Rightarrow> string" where
  "digest suf = replicate 62 (CHR ''0'') @ suf"

definition pod_event :: "payload ledger_event" where
  "pod_event = event_of pod_input ''s:1'' 0 GENESIS_HASH Counterparty"

definition invoice_event :: "payload ledger_event" where
  "invoice_event = event_of invoice_input ''s:1'' 1 (digest ''ba'') Counterparty"

definition correction_event :: "payload ledger_event" where
  "correction_event = event_of correction_input ''s:1'' 2 (digest ''b1'') Counterparty"

definition booking_event :: "payload ledger_event" where
  "booking_event = event_of booking_input ''s:1'' 0 GENESIS_HASH Counterparty"

definition flip_event :: "payload ledger_event" where
  "flip_event = event_of flip_input ''t:root'' 0 GENESIS_HASH Internal"

lemma sample_run_hashes:
  "hashEvent toy_digest (stored pod_event) = Inr (digest ''ba'')"
  "hashEvent toy_digest (stored invoice_event) = Inr (digest ''b1'')"
  "hashEvent toy_digest (stored correction_event) = Inr (digest ''86'')"
  "hashEvent toy_digest (stored booking_event) = Inr (digest ''c5'')"
  "hashEvent toy_digest (stored flip_event) = Inr (digest ''66'')"
  by code_simp+

lemma sample_inputs_ok:
  "EventInput_ok (uuid sample_env) pod_input" "EventInput_ok (uuid sample_env) invoice_input" "EventInput_ok (uuid sample_env) correction_input"
  "EventInput_ok (uuid sample_env) booking_input" "EventInput_ok (uuid sample_env) flip_input"
  by code_simp+

lemma sample_events_ok:
  "LedgerEvent_ok (uuid sample_env) pod_event" "LedgerEvent_ok (uuid sample_env) invoice_event" "LedgerEvent_ok (uuid sample_env) correction_event"
  "LedgerEvent_ok (uuid sample_env) booking_event" "LedgerEvent_ok (uuid sample_env) flip_event"
  by code_simp+

lemma sample_streams: "STREAM_ID_RE ''s:1''" "STREAM_ID_RE ''t:root''"
  by code_simp+

section \<open>The run\<close>

lemma sample_customer: "\<not> isPlatformTenant ''a''"
  by (simp add: isPlatformTenant_def PLATFORM_TENANT_ID_def)

lemma sample_env_inj: "inj (idFromName sample_env)"
  by (simp add: sample_env_def inj_def)

lemma sample_start_db: "readDb (sys_world sample_start) r = sample_db"
  by (cases r) (simp_all add: sample_start_def sample_world_def readDb_def)

lemma sample_start_reachable: "reachable sample_env sample_start"
  by (rule reachable.Start)
     (simp only: initial_def sample_start_db, simp add: sample_db_def sample_start_def cold_def slotsUnique_def)

lemma sample_start_policy: "policy_served ''a'' no_policy sample_start"
  by (simp add: policy_served_def sample_start_def sample_world_def cold_def)

lemma sample_input_simps [simp]:
  "in_id (sample_input i k p) = i" "in_kind (sample_input i k p) = k" "in_payload (sample_input i k p) = p"
  "in_source (sample_input i k p) = Native" "in_device_id (sample_input i k p) = None"
  "in_device_seq (sample_input i k p) = None" "act_device (in_actor (sample_input i k p)) = None"
  "requested_visibility (sample_input i k p) = None" "in_shipment_id (sample_input i k p) = None"
  "in_override (sample_input i k p) = None" "act_party (in_actor (sample_input i k p)) = ''p''"
  by (simp_all add: sample_input_def)

lemmas sample_inputs = pod_input_def invoice_input_def correction_input_def booking_input_def flip_input_def

lemma event_of_simps [simp]:
  "stream_id (event_of i st n prev v) = st" "seq (event_of i st n prev v) = n" "ev_id (event_of i st n prev v) = in_id i"
  "kind (event_of i st n prev v) = in_kind i" "payload (event_of i st n prev v) = in_payload i"
  "source (event_of i st n prev v) = in_source i" "visibility (event_of i st n prev v) = v"
  "device_id (event_of i st n prev v) = in_device_id i" "actor (event_of i st n prev v) = in_actor i"
  "device_seq (event_of i st n prev v) = in_device_seq i"
  "shipment_id (event_of i st n prev v) = (case deriveShipmentId st of None \<Rightarrow> in_shipment_id i | Some x \<Rightarrow> Some x)"
  by (simp_all add: event_of_def assemble_def split: option.split)

lemmas sample_events = pod_event_def invoice_event_def correction_event_def booking_event_def flip_event_def

lemma stamped_event_of:
  "storedTail db st = (n - 1, prev) \<Longrightarrow> stamped sample_env 5 t st i db v = event_of i st n prev v"
  by (simp add: stamped_def event_of_def)

lemma ungated: "kind e \<notin> set GATED_KINDS \<Longrightarrow> enforceTransitionGate env now r st e p x = (Inr None, x)"
  by (simp add: enforceTransitionGate_def)

lemmas batch_defs = batchOf_def applyMoneyProjection_def projectMoneyLines_def nothing_def projectPassport_def
  projectStatusCache_def projectAppointment_def applyMessageProjection_def projectMessages_def projectApprovals_def
  projectAgentRuns_def projectAuthority_def deriveShipmentId_def

text \<open>One served request of the run: from the tables of a reachable system to those of the next.\<close>

definition at_tables :: "unit ledger_system \<Rightarrow> payload ledger_event list \<Rightarrow> money_row list \<Rightarrow> bool" where
  "at_tables S evs ls \<longleftrightarrow> reachable sample_env S \<and> policy_served ''a'' no_policy S
     \<and> t_events (readDb (sys_world S) (dbOf ''a'')) = evs \<and> t_lines (readDb (sys_world S) (dbOf ''a'')) = ls"

lemma sample_step:
  assumes S: "at_tables S evs ls" and st: "STREAM_ID_RE st" and db: "db = readDb (sys_world S) (dbOf ''a'')"
    and i: "EventInput_ok (uuid sample_env) i" "in_kind i \<noteq> PositionUpdated" "in_kind i = AuthorityFlipped \<longrightarrow> st = ''t:root''"
      "in_kind i \<noteq> CreditChecked" "in_device_id i = None" "act_device (in_actor i) = None" "findById db (in_id i) = None"
    and pod: "in_kind i = InvoiceIssued \<longrightarrow> list_ex (\<lambda>e. stream_id e = st \<and> kind e = PodSigned) evs"
    and vis: "resolveVisibility (in_kind i) (tp_visibility no_policy) (requested_visibility i) (correctedVis db st i) = Resolved v"
    and e: "stamped sample_env 5 ''a'' st i db v = e" "LedgerEvent_ok (uuid sample_env) e" "hashEvent toy_digest (stored e) = Inr h"
    and gate: "\<And>x. readDb (world x) (dbOf ''a'') = db \<Longrightarrow> enforceTransitionGate sample_env 5 (dbOf ''a'') st e no_policy x = (Inr None, x)"
    and b: "batchOf db ''a'' (e \<lparr> ev_hash := Some h \<rparr>) None = Inr (ss, off)" "batch ss db = Inr (db1, ns)"
  shows "at_tables (served sample_env 5 ''a'' st i S) (evs @ [e \<lparr> ev_hash := Some h \<rparr>]) (ls @ concat (map line_rows ss))"
proof -
  have sha: "sha256 sample_env = toy_digest"
    by (simp add: sample_env_def)
  have "signer_ok sample_env ''a'' st i (instance_at (idFromName sample_env (''a'' @ ''|'' @ st)) S) db"
    using i by (simp add: signer_ok_def)
  then have "readDb (sys_world (served sample_env 5 ''a'' st i S)) (dbOf ''a'') = db1 \<and> policy_served ''a'' no_policy (served sample_env 5 ''a'' st i S)"
    using served_commits[of sample_env S "''a''" st no_policy db i v 5 None h "e \<lparr> ev_hash := Some h \<rparr>" ss off db1 ns]
      S st db i pod vis e gate b sample_env_inj sample_customer by (simp add: at_tables_def sha)
  then show ?thesis
    using S served_reachable[of sample_env S] batch_effect[OF b(2)] batchOf_rows[OF b(1)] db by (simp add: at_tables_def)
qed

lemma at_tables_start: "at_tables sample_start [] []"
  using sample_start_reachable sample_start_policy by (simp add: at_tables_def sample_start_db) (simp add: sample_db_def)

lemma sample_pod:
  "at_tables (served sample_env 5 ''a'' ''s:1'' pod_input sample_start) [pod_event \<lparr> ev_hash := Some (digest ''ba'') \<rparr>] []"
proof -
  let ?e = "pod_event \<lparr> ev_hash := Some (digest ''ba'') \<rparr>"
  let ?ss = "[InsertEvent ?e, BumpPassport ''p'' ''deliveries'' (recorded_at ?e), SetState ''delivered'' ''1'']"
  have ss: "batchOf sample_db ''a'' ?e None = Inr (?ss, 2)"
    by (simp add: batch_defs sample_events sample_inputs)
  obtain db1 ns where b: "batch ?ss sample_db = Inr (db1, ns)"
    by (auto simp: eventRefused_def firstSome_None guard_def sample_db_def Let_def sample_events sample_inputs deriveShipmentId_def)
  have e: "stamped sample_env 5 ''a'' ''s:1'' pod_input sample_db Counterparty = pod_event"
    unfolding pod_event_def
    by (rule stamped_event_of) (simp add: storedTail_def streamEvents_def sample_db_def GENESIS_TAIL_def)
  have "at_tables (served sample_env 5 ''a'' ''s:1'' pod_input sample_start) ([] @ [?e]) ([] @ concat (map line_rows ?ss))"
    by (rule sample_step[OF at_tables_start sample_streams(1) sample_start_db[symmetric] sample_inputs_ok(1) _ _ _ _ _ _ _ _
          e sample_events_ok(1) sample_run_hashes(1) _ ss b])
       (simp_all add: sample_events ungated GATED_KINDS_def sample_inputs findById_def sample_db_def no_policy_def
          resolveVisibility_def INHERITED_VISIBILITY_KINDS_def Let_def base_visibility_def)
  then show ?thesis
    by simp
qed

abbreviation "e1 \<equiv> pod_event \<lparr> ev_hash := Some (digest ''ba'') \<rparr>"
abbreviation "e2 \<equiv> invoice_event \<lparr> ev_hash := Some (digest ''b1'') \<rparr>"
abbreviation "e3 \<equiv> correction_event \<lparr> ev_hash := Some (digest ''86'') \<rparr>"
abbreviation "e4 \<equiv> booking_event \<lparr> ev_hash := Some (digest ''c5'') \<rparr>"
abbreviation "e5 \<equiv> flip_event \<lparr> ev_hash := Some (digest ''66'') \<rparr>"

definition charge_row :: money_row where
  "charge_row = money_row_of e2 1 AR (Charge Freight) 100 (jlit ''p'') (jlit ''d'') ''g'' None"

definition credit_row :: money_row where
  "credit_row = money_row_of e3 1 AR CorrectionCredit (- 100) (jlit ''p'') (jlit ''d'') ''g'' (Some ''e2'')"

lemma e_simps [simp]:
  "stream_id e1 = ''s:1''" "stream_id e2 = ''s:1''" "stream_id e3 = ''s:1''" "stream_id e4 = ''s:1''"
  "stream_id e5 = ''t:root''" "kind e1 = PodSigned" "kind e2 = InvoiceIssued" "kind e3 = InvoiceCorrected"
  "kind e4 = BookingCreated" "kind e5 = AuthorityFlipped" "seq e1 = 0" "seq e2 = 1" "seq e3 = 2" "seq e4 = 0" "seq e5 = 0"
  "ev_id e1 = ''e1''" "ev_id e2 = ''e2''" "ev_id e3 = ''e3''" "ev_id e4 = ''e4''" "ev_id e5 = ''e5''"
  "visibility e1 = Counterparty" "visibility e2 = Counterparty" "visibility e3 = Counterparty"
  "visibility e4 = Counterparty" "visibility e5 = Internal" "source e1 = Native" "source e2 = Native"
  "source e3 = Native" "source e4 = Native" "source e5 = Native" "device_id e1 = None" "device_id e2 = None"
  "device_id e3 = None" "device_id e4 = None" "device_id e5 = None" "shipment_id e1 = Some ''1''"
  "shipment_id e2 = Some ''1''" "shipment_id e3 = Some ''1''" "shipment_id e4 = Some ''1''" "shipment_id e5 = None"
  by (simp_all add: sample_events sample_inputs deriveShipmentId_def)

lemma digest_inject [simp]: "digest a = digest b \<longleftrightarrow> a = b"
  by (simp add: digest_def)

lemmas refusal_defs = eventRefused_def firstSome_None guard_def

lemmas own_visibility = no_policy_def resolveVisibility_def INHERITED_VISIBILITY_KINDS_def Let_def base_visibility_def

lemma sample_invoice:
  assumes S: "at_tables S [e1] []"
  shows "at_tables (served sample_env 5 ''a'' ''s:1'' invoice_input S) [e1, e2] [charge_row]"
proof -
  define db where "db = readDb (sys_world S) (dbOf ''a'')"
  have t: "t_events db = [e1]" "t_lines db = []"
    using S by (simp_all add: at_tables_def db_def)
  let ?u = "InvoiceInsert ''A'' ''p'' ''d'' [''1''] 100 ''issued'' ''e2'' (Some (''net'' @ intText DEFAULT_TERMS_DAYS))
    (Some (ts e2 + DEFAULT_TERMS_DAYS * DAY_MS))"
  let ?ss = "[InsertEvent e2, InsertLine charge_row, WriteInvoice ?u]"
  have ss: "batchOf db ''a'' e2 None = Inr (?ss, 3)"
    by (simp add: batch_defs sample_events sample_inputs moneyDeps_def sample_customer no_deps_def projectIssued_def charge_row_def)
  obtain db1 ns where b: "batch ?ss db = Inr (db1, ns)"
    by (simp add: refusal_defs t lineRefused_def charge_row_def)
  have e: "stamped sample_env 5 ''a'' ''s:1'' invoice_input db Counterparty = invoice_event"
    unfolding invoice_event_def by (rule stamped_event_of) (simp add: storedTail_def streamEvents_def t)
  have v: "resolveVisibility (in_kind invoice_input) (tp_visibility no_policy) (requested_visibility invoice_input)
      (correctedVis db ''s:1'' invoice_input) = Resolved Counterparty"
    by (simp add: own_visibility sample_inputs)
  have g: "kind invoice_event \<notin> set GATED_KINDS"
    by (simp add: GATED_KINDS_def sample_events sample_inputs)
  have "at_tables (served sample_env 5 ''a'' ''s:1'' invoice_input S) ([e1] @ [e2]) ([] @ concat (map line_rows ?ss))"
    by (rule sample_step[OF S sample_streams(1) db_def sample_inputs_ok(2) _ _ _ _ _ _ _ v
          e sample_events_ok(2) sample_run_hashes(2) ungated[OF g] ss b]) (simp_all add: findById_def t sample_inputs)
  then show ?thesis
    by simp
qed

lemma sample_correction:
  assumes S: "at_tables S [e1, e2] [charge_row]"
  shows "at_tables (served sample_env 5 ''a'' ''s:1'' correction_input S) [e1, e2, e3] [charge_row, credit_row]"
proof -
  define db where "db = readDb (sys_world S) (dbOf ''a'')"
  have t: "t_events db = [e1, e2]" "t_lines db = [charge_row]"
    using S by (simp_all add: at_tables_def db_def)
  let ?ss = "[InsertEvent e3, InsertLine credit_row, WriteInvoice (InvoiceVoid ''A'' 0 ''void'')]"
  have ss: "batchOf db ''a'' e3 None = Inr (?ss, 3)"
    by (simp add: batch_defs sample_events sample_inputs moneyDeps_def no_deps_def projectCorrected_def originalsOf_def t
        charge_row_def credit_row_def reversals_def reissues_def)
       (simp add: money_row_of_def)
  obtain db1 ns where b: "batch ?ss db = Inr (db1, ns)"
    by (simp add: refusal_defs t lineRefused_def charge_row_def credit_row_def lineId_def)
  have e: "stamped sample_env 5 ''a'' ''s:1'' correction_input db Counterparty = correction_event"
    unfolding correction_event_def by (rule stamped_event_of) (simp add: storedTail_def streamEvents_def t)
  have v: "resolveVisibility (in_kind correction_input) (tp_visibility no_policy) (requested_visibility correction_input)
      (correctedVis db ''s:1'' correction_input) = Resolved Counterparty"
    by (simp add: own_visibility correctedVis_def parentInvoiceVisibility_def t correction_input_def)
  have g: "kind correction_event \<notin> set GATED_KINDS"
    by (simp add: GATED_KINDS_def sample_events sample_inputs)
  have "at_tables (served sample_env 5 ''a'' ''s:1'' correction_input S) ([e1, e2] @ [e3]) ([charge_row] @ concat (map line_rows ?ss))"
    by (rule sample_step[OF S sample_streams(1) db_def sample_inputs_ok(3) _ _ _ _ _ _ _ v
          e sample_events_ok(3) sample_run_hashes(3) ungated[OF g] ss b]) (simp_all add: findById_def t sample_inputs)
  then show ?thesis
    by simp
qed

lemma sample_flip:
  assumes S: "at_tables S [e1, e2, e3] ls"
  shows "at_tables (served sample_env 5 ''a'' ''t:root'' flip_input S) [e1, e2, e3, e5] ls"
proof -
  define db where "db = readDb (sys_world S) (dbOf ''a'')"
  have t: "t_events db = [e1, e2, e3]"
    using S by (simp_all add: at_tables_def db_def)
  let ?ss = "[InsertEvent e5, FlipAuthority Rating NativeLevel None ''e5'']"
  have ss: "batchOf db ''a'' e5 None = Inr (?ss, 1)"
    by (simp add: batch_defs sample_events sample_inputs)
  obtain db1 ns where b: "batch ?ss db = Inr (db1, ns)"
    by (simp add: refusal_defs t)
  have e: "stamped sample_env 5 ''a'' ''t:root'' flip_input db Internal = flip_event"
    unfolding flip_event_def by (rule stamped_event_of) (simp add: storedTail_def streamEvents_def t GENESIS_TAIL_def)
  have v: "resolveVisibility (in_kind flip_input) (tp_visibility no_policy) (requested_visibility flip_input)
      (correctedVis db ''t:root'' flip_input) = Resolved Internal"
    by (simp add: own_visibility flip_input_def)
  have g: "kind flip_event \<notin> set GATED_KINDS"
    by (simp add: GATED_KINDS_def sample_events sample_inputs)
  have "at_tables (served sample_env 5 ''a'' ''t:root'' flip_input S) ([e1, e2, e3] @ [e5]) (ls @ concat (map line_rows ?ss))"
    by (rule sample_step[OF S sample_streams(2) db_def sample_inputs_ok(5) _ _ _ _ _ _ _ v
          e sample_events_ok(5) sample_run_hashes(5) ungated[OF g] ss b]) (simp_all add: findById_def t sample_inputs)
  then show ?thesis
    by simp
qed

text \<open>The booking of a first stream: its gate reads the parties.\<close>

lemma sample_booking:
  "at_tables (served sample_env 5 ''a'' ''s:1'' booking_input sample_start) [e4] []"
proof -
  let ?ss = "[InsertEvent e4, UpsertBooking ''1'' ''d'' ''p'' ''p'' ''p'' (ts e4),
    InsertLegSkeleton ''1:pickup'' ''1'' 0 ''pickup'' ''p'', InsertLegSkeleton ''1:delivery'' ''1'' 1 ''delivery'' ''p'']"
  have ss: "batchOf sample_db ''a'' e4 None = Inr (?ss, 1)"
    by (simp add: batch_defs sample_events sample_inputs)
  obtain db1 ns where b: "batch ?ss sample_db = Inr (db1, ns)"
    by (simp add: refusal_defs sample_db_def)
  have e: "stamped sample_env 5 ''a'' ''s:1'' booking_input sample_db Counterparty = booking_event"
    unfolding booking_event_def
    by (rule stamped_event_of) (simp add: storedTail_def streamEvents_def sample_db_def GENESIS_TAIL_def)
  have v: "resolveVisibility (in_kind booking_input) (tp_visibility no_policy) (requested_visibility booking_input)
      (correctedVis sample_db ''s:1'' booking_input) = Resolved Counterparty"
    by (simp add: own_visibility booking_input_def)
  have g: "enforceTransitionGate sample_env 5 (dbOf ''a'') ''s:1'' booking_event no_policy x = (Inr None, x)"
    if "readDb (world x) (dbOf ''a'') = sample_db" for x
  proof -
    have "reconcileCreditForParty sample_db ''p'' =
        (sample_db, \<lparr> cr_party_id = ''p'', cr_resolved = False, cr_applied_status = None \<rparr>)"
      by (simp add: reconcileCreditForParty_def openGap_def sample_db_def Let_def)
    moreover have "writeDb (dbOf ''a'') sample_db (world x) = world x"
      using writeDb_readDb[of "dbOf ''a''" "world x"] that by simp
    moreover have "override booking_event = None"
      by (simp add: booking_event_def event_of_def assemble_def booking_input_def)
    ultimately show ?thesis
      using that
      by (simp add: enforceTransitionGate_def GATED_KINDS_def booking_event_def booking_input_def enforceBooking_def
          sbind_step quoteAuthority_def assertBookingCredit_def assertBookingRecipientContact_def readField_def openGap_def
          sample_db_def Let_def jopt_def jbool_def)
  qed
  have "at_tables (served sample_env 5 ''a'' ''s:1'' booking_input sample_start) ([] @ [e4]) ([] @ concat (map line_rows ?ss))"
    by (rule sample_step[OF at_tables_start sample_streams(1) sample_start_db[symmetric] sample_inputs_ok(4) _ _ _ _ _ _ _ v
          e sample_events_ok(4) sample_run_hashes(4) g ss b]) (simp_all add: findById_def sample_db_def sample_inputs)
  then show ?thesis
    by simp
qed

definition sample_run :: "unit ledger_system" where
  "sample_run = served sample_env 5 ''a'' ''t:root'' flip_input (served sample_env 5 ''a'' ''s:1'' correction_input
     (served sample_env 5 ''a'' ''s:1'' invoice_input (served sample_env 5 ''a'' ''s:1'' pod_input sample_start)))"

lemma sample_run_tables: "at_tables sample_run [e1, e2, e3, e5] [charge_row, credit_row]"
  unfolding sample_run_def by (rule sample_flip[OF sample_correction[OF sample_invoice[OF sample_pod]]])

lemma sample_run_reachable: "reachable sample_env sample_run"
  and sample_run_events: "t_events (readDb (sys_world sample_run) (dbOf ''a'')) = [e1, e2, e3, e5]"
  and sample_run_lines: "t_lines (readDb (sys_world sample_run) (dbOf ''a'')) = [charge_row, credit_row]"
  using sample_run_tables by (simp_all add: at_tables_def)

definition booked_run :: "unit ledger_system" where
  "booked_run = served sample_env 5 ''a'' ''s:1'' booking_input sample_start"

lemma booked_run_reachable: "reachable sample_env booked_run"
  and booked_run_events: "t_events (readDb (sys_world booked_run) (dbOf ''a'')) = [e4]"
  using sample_booking by (simp_all add: at_tables_def booked_run_def)

end
