(* ===== verification/LedgerProps.thy ===== *)
theory LedgerProps
  imports LedgerSamples
begin

text \<open>
  The properties of the sequencer and of the ledger it keeps, over the reachable systems of \<open>LedgerSystem\<close>.
\<close>

section \<open>The chains\<close>

text \<open>C1: Whatever requests arrive, in whatever order, at whatever objects, with evictions, control-plane changes and
  writes to the other tables in between, every stream of every database verifies as a hash chain from
  genesis with its full count, the verified head being the stored tail, and no stored event lacks its hash.\<close>

theorem reachable_streams_verify:
  assumes "reachable env S"
  shows "let db = readDb (sys_world S) r; es = streamEvents db st in
    verifyChain (sha256 env) (map stored es) None None = Inr (ChainOk (snd (storedTail db st)) (length es))
    \<and> fst (storedTail db st) = int (length es) - 1 \<and> (\<forall>e \<in> set es. ev_hash e \<noteq> None)"
proof -
  let ?db = "readDb (sys_world S) r"
  note links = reachable_linked[OF assms, of r]
  have "ev_hash e \<noteq> None" if e: "e \<in> set (on_stream st (t_events ?db))" for e
  proof -
    have "e \<in> set (t_events ?db)"
      using e by (simp add: on_stream_in)
    then show ?thesis
      using reachable_member[OF assms, of e r] by (auto simp: linked_def)
  qed
  then show ?thesis
    using linked_verifies[OF links, of st] storedTail_linked[OF links, of st]
    by (simp add: Let_def verifyChain_def streamEvents_linked[OF links])
qed

theorem reachable_streams_verify_witness:
  "reachable sample_env sample_run \<and>
   verifyChain toy_digest (map stored [e1, e2, e3]) None None = Inr (ChainOk (digest ''86'') 3)"
proof -
  have "streamEvents (readDb (sys_world sample_run) (dbOf ''a'')) ''s:1'' = [e1, e2, e3]"
    by (simp add: streamEvents_def sample_run_events)
  then show ?thesis
    using reachable_streams_verify[OF sample_run_reachable, of "dbOf ''a''" "''s:1''"] sample_run_reachable
    by (simp add: Let_def storedTail_def sample_env_def)
qed

text \<open>An instance's cached tail is never stale: it is the head its database holds for the stream it is pinned to,
  so an append that starts from the cache links to the last stored event.\<close>

theorem cached_tails_are_exact:
  assumes "reachable env S" "pin (objects S i) = Some (t, st)" "tail (objects S i) = Some x"
  shows "x = storedTail (readDb (sys_world S) (dbOf t)) st \<and> idFromName env (t @ ''|'' @ st) = i \<and> STREAM_ID_RE st"
  using reachable_instance[OF assms(1), of i] assms(2,3)
  by (simp add: instance_ok_def bound_def instance_at_def)

theorem cached_tails_are_exact_witness:
  "\<exists>x. tail (objects booked_run ''a|s:1'') = Some x \<and> x = (0, digest ''c5'')"
proof -
  have name: "idFromName sample_env (''a'' @ ''|'' @ ''s:1'') = ''a|s:1''"
    by (simp add: sample_env_def)
  have ran: "pin (objects booked_run ''a|s:1'') = Some (''a'', ''s:1'') \<and> tail (objects booked_run ''a|s:1'') \<noteq> None"
    unfolding booked_run_def
    by (rule served_instance[OF sample_start_reachable name[symmetric], of _ _ "dbOf ''a''"])
       (use booked_run_events in \<open>simp add: booked_run_def sample_start_db\<close>, simp add: sample_db_def)
  then obtain x where "tail (objects booked_run ''a|s:1'') = Some x"
    by blast
  then show ?thesis
    using cached_tails_are_exact[OF booked_run_reachable _ , of "''a|s:1''" "''a''" "''s:1''" x] ran
    by (simp add: storedTail_def streamEvents_def booked_run_events)
qed

section \<open>Refinement of an append-only log\<close>

text \<open>The abstract ledger: a list of events per database and stream, which only ever grows by one linked event.\<close>

type_synonym log = "db_ref \<times> string \<Rightarrow> jvalue ledger_event list"

definition log_of :: "'k ledger_system \<Rightarrow> log" where
  "log_of S = (\<lambda>(r, st). map stored (streamEvents (readDb (sys_world S) r) st))"

definition log_head :: "jvalue ledger_event list \<Rightarrow> string" where
  "log_head es = (case rev es of [] \<Rightarrow> GENESIS_HASH | e # _ \<Rightarrow> (case ev_hash e of None \<Rightarrow> [] | Some h \<Rightarrow> h))"

inductive log_step :: "(bytes \<Rightarrow> bytes) \<Rightarrow> log \<Rightarrow> log \<Rightarrow> bool" for sha where
  Unchanged: "log_step sha l l"
| Extended: "seq e = int (length (l (r, st))) \<Longrightarrow> prev_hash e = log_head (l (r, st)) \<Longrightarrow> stream_id e = st \<Longrightarrow>
    hashEvent sha e = Inr h \<Longrightarrow> ev_hash e = Some h \<Longrightarrow> log_step sha l (l((r, st) := l (r, st) @ [e]))"

lemma log_head_map: "log_head (map stored es) = headOf es"
  by (cases es rule: rev_cases) (simp_all add: log_head_def headOf_def)

lemma log_of_linked:
  "history (linked env) (t_events (readDb (sys_world S) r)) \<Longrightarrow>
     log_of S (r, st) = map stored (on_stream st (t_events (readDb (sys_world S) r)))"
  by (simp add: log_of_def streamEvents_linked)

lemma log_extends:
  assumes "reachable env S" "reachable env S'"
    and ev: "t_events (readDb (sys_world S') r) = t_events (readDb (sys_world S) r) @ [e]"
    and others: "\<And>q. q \<noteq> r \<Longrightarrow> t_events (readDb (sys_world S') q) = t_events (readDb (sys_world S) q)"
  shows "log_step (sha256 env) (log_of S) (log_of S')"
proof -
  have lin: "linked env (t_events (readDb (sys_world S) r)) e"
    using reachable_linked[OF assms(2), of r] by (simp add: ev)
  then obtain h where h: "hashEvent (sha256 env) (stored e) = Inr h" "ev_hash e = Some h"
    by (auto simp: linked_def)
  have old: "log_of S (q, st) = map stored (on_stream st (t_events (readDb (sys_world S) q)))" for q st
    by (rule log_of_linked[OF reachable_linked[OF assms(1)]])
  have new: "log_of S' (q, st) = map stored (on_stream st (t_events (readDb (sys_world S') q)))" for q st
    by (rule log_of_linked[OF reachable_linked[OF assms(2)]])
  have "log_of S' = (log_of S)((r, stream_id e) := log_of S (r, stream_id e) @ [stored e])"
  proof
    fix k :: "db_ref \<times> string"
    obtain q st where "k = (q, st)"
      by (cases k)
    then show "log_of S' k = ((log_of S)((r, stream_id e) := log_of S (r, stream_id e) @ [stored e])) k"
      using others by (cases "q = r") (auto simp: old new ev)
  qed
  then show ?thesis
    using log_step.Extended[of "stored e" "log_of S" r "stream_id e" "sha256 env" h] lin h
    by (simp add: old linked_def log_head_map)
qed

text \<open>C2: The sequencers implement the abstract log: every step of the system, whatever part of the program takes it,
  either leaves every stream as it was or appends one event to one stream of one database, numbered by
  the length of the stream, linked to its head and carrying its own hash.\<close>

theorem steps_refine_the_log:
  assumes "reachable env S" "step env S S'"
  shows "log_step (sha256 env) (log_of S) (log_of S')"
  using step_events[OF assms]
proof (elim disjE exE conjE)
  assume "\<forall>r. t_events (readDb (sys_world S') r) = t_events (readDb (sys_world S) r)"
  then have "log_of S' = log_of S"
    by (simp add: log_of_def streamEvents_def fun_eq_iff)
  then show ?thesis
    by (simp add: log_step.Unchanged)
next
  fix r e
  assume "t_events (readDb (sys_world S') r) = t_events (readDb (sys_world S) r) @ [e]"
    "\<forall>q. q \<noteq> r \<longrightarrow> t_events (readDb (sys_world S') q) = t_events (readDb (sys_world S) q)"
  then show ?thesis
    using log_extends[OF assms(1) reachable.Step[OF assms]] by blast
qed

theorem steps_refine_the_log_witness:
  "log_step toy_digest (log_of sample_start) (log_of booked_run)
   \<and> log_of booked_run (dbOf ''a'', ''s:1'') \<noteq> log_of sample_start (dbOf ''a'', ''s:1'')"
proof -
  have "log_step (sha256 sample_env) (log_of sample_start) (log_of booked_run)"
    unfolding booked_run_def by (rule steps_refine_the_log[OF sample_start_reachable served_step])
  then show ?thesis
    by (simp add: sample_env_def log_of_def streamEvents_def booked_run_events sample_start_db) (simp add: sample_db_def)
qed

section \<open>What every stored event went through\<close>



text \<open>C3: No invoice without a signed POD (REQ-030): every invoice stored in a customer's database that is not a
  mirror of the incumbent has a POD stored on its own stream before it.\<close>

theorem customer_invoices_follow_their_pod:
  assumes "reachable env S" "\<not> isPlatformTenant t" "t_events (readDb (sys_world S) (dbOf t)) = xs @ e # ys"
    "kind e = InvoiceIssued" "source e \<noteq> Legacy"
  shows "\<exists>p \<in> set xs. stream_id p = stream_id e \<and> kind p = PodSigned"
  using reachable_permitted[OF assms(1,3)] assms(2,4,5)
  by (auto simp: permitted_def isPlatformCreditInvoiceIssued_def)

theorem customer_invoices_follow_their_pod_witness:
  "t_events (readDb (sys_world sample_run) (dbOf ''a'')) = [e1] @ e2 # [e3, e5] \<and> kind e2 = InvoiceIssued
   \<and> (\<exists>p \<in> {e1}. stream_id p = stream_id e2 \<and> kind p = PodSigned)"
  using customer_invoices_follow_their_pod[OF sample_run_reachable sample_customer, of "[e1]" e2 "[e3, e5]"]
  by (simp add: sample_run_events)

text \<open>The lens of a stored event: a kind whose default is internal is stored internal whatever the policy or the
  client asked, and a correction has exactly the visibility of an invoice event stored before it on its
  own stream, the one it corrects.\<close>

theorem stored_visibility:
  assumes "reachable env S" "t_events (readDb (sys_world S) r) = xs @ e # ys"
  shows "(KIND_VISIBILITY_DEFAULTS (kind e) = Internal \<longrightarrow> visibility e = Internal)
    \<and> (\<forall>p. payload e = InvoiceCorrectedP p \<longrightarrow>
         (\<exists>x \<in> set xs. stream_id x = stream_id e \<and> ev_id x = corrects_event_id p
            \<and> kind x \<in> {InvoiceIssued, InvoiceCorrected} \<and> visibility x = visibility e))"
  using reachable_permitted[OF assms] by (auto simp: permitted_def)

theorem stored_visibility_witness:
  "t_events (readDb (sys_world sample_run) (dbOf ''a'')) = [e1, e2] @ e3 # [e5]
   \<and> (\<exists>x \<in> {e1, e2}. ev_id x = ''e2'' \<and> visibility x = visibility e3)
   \<and> visibility e5 = Internal"
proof -
  obtain p where p: "payload e3 = InvoiceCorrectedP p" "corrects_event_id p = ''e2''"
    by (simp add: correction_event_def correction_input_def)
  have "\<exists>x \<in> {e1, e2}. ev_id x = ''e2'' \<and> visibility x = visibility e3"
    using stored_visibility[OF sample_run_reachable, of "dbOf ''a''" "[e1, e2]" e3 "[e5]"] p by (simp add: sample_run_events)
  then show ?thesis
    using stored_visibility[OF sample_run_reachable, of "dbOf ''a''" "[e1, e2, e3]" e5 "[]"] by (simp add: sample_run_events)
qed

text \<open>C29: A shipment is booked once (REQ-191): no booking that this ledger made of its own comes after another booking
  of the same stream.\<close>

theorem bookings_are_first:
  assumes "reachable env S" "t_events (readDb (sys_world S) r) = xs @ e # ys" "kind e = BookingCreated" "source e \<noteq> Legacy"
  shows "\<forall>x \<in> set xs. stream_id x = stream_id e \<longrightarrow> kind x \<noteq> BookingCreated"
  using reachable_permitted[OF assms(1,2)] assms(3,4) by (auto simp: permitted_def)

theorem bookings_are_first_witness:
  "t_events (readDb (sys_world booked_run) (dbOf ''a'')) = [] @ e4 # [] \<and> kind e4 = BookingCreated
   \<and> list_all (\<lambda>x. stream_id x \<noteq> stream_id e4 \<or> kind x \<noteq> BookingCreated) []"
  using bookings_are_first[OF booked_run_reachable, of "dbOf ''a''" "[]" e4 "[]"] by (simp add: booked_run_events)

lemma slotsUnique_nth:
  assumes "slotsUnique legs" "m < length legs" "n < length legs" "slotKey (legs ! m) = Some k" "slotKey (legs ! n) = Some k"
  shows "m = n"
  using assms
proof (induction legs arbitrary: m n)
  case (Cons l legs)
  have "Some k \<notin> set (map slotKey legs)" if "slotKey l = Some k"
    using Cons.prems(1) that by (simp add: slotsUnique_def del: not_None_eq) 
  then have "slotKey (legs ! j) \<noteq> Some k" if "slotKey l = Some k" "j < length legs" for j
    using that by (metis length_map nth_map nth_mem)
  moreover have "slotsUnique legs"
    using Cons.prems(1) by (simp add: slotsUnique_def split: if_splits)
  ultimately show ?case
    using Cons.IH Cons.prems by (cases m; cases n) auto
qed simp


definition held_leg :: "string \<Rightarrow> string \<Rightarrow> leg_row" where
  "held_leg i slot = \<lparr> lg_id = i, lg_shipment = i, lg_seq = 0, lg_kind = ''pickup'', lg_executor = ''p'', lg_geo = None,
     lg_facility = Some ''f'', lg_slot = Some slot, lg_service_date = Some ''2026-01-01'', lg_window_start = None,
     lg_window_end = None \<rparr>"


text \<open>Money lines exist only behind the ledger: each line of each database names a stored event of a money kind that
  is not a mirror of the incumbent, and carries that event's shipment.\<close>

theorem money_lines_are_backed:
  assumes "reachable env S" "l \<in> set (t_lines (readDb (sys_world S) r))"
  shows "\<exists>e \<in> set (t_events (readDb (sys_world S) r)). ev_id e = ml_event_id l \<and> source e \<noteq> Legacy
    \<and> kind e \<in> set MONEY_KINDS \<and> ml_shipment_id l = shipment_id e"
  using reachable_db[OF assms(1), of r] assms(2) by (simp add: db_ok_def lines_backed_def)

theorem money_lines_are_backed_witness:
  "credit_row \<in> set (t_lines (readDb (sys_world sample_run) (dbOf ''a'')))
   \<and> (\<exists>e \<in> {e1, e2, e3, e5}. ev_id e = ml_event_id credit_row \<and> kind e \<in> set MONEY_KINDS)"
  using money_lines_are_backed[OF sample_run_reachable, of credit_row "dbOf ''a''"]
  by (auto simp: sample_run_lines sample_run_events)

section \<open>Refusals, replays, acceptance\<close>

text \<open>C8: A refused append is atomic: whatever it failed on - identity, schema, signature, a gate after the credit read-model
  was reconciled, a projection, the batch - no event, money line, invoice, shipment, leg, message,
  approval or authority row of any database changed.\<close>

theorem refused_appends_change_nothing:
  assumes "reachable env S" "append_event env now t st i platform (instance_at j S) = (Inl err, s')"
  shows "\<forall>r. same_books (readDb (sys_world S) r) (readDb (world s') r)"
  using append_Inl[OF assms(2) reachable_instance[OF assms(1)]] by (simp add: quiet_def instance_at_def)

text \<open>An invoice without a POD, at a cold instance.\<close>

lemma sample_invoice_refused:
  "\<exists>s'. append_event sample_env 5 ''a'' ''s:1'' invoice_input False (instance_at ''a|s:1'' sample_start) =
     (Inl (GateRefusal (GateError [NeedPodSigned])), s')"
proof -
  let ?s = "instance_at ''a|s:1'' sample_start"
  let ?s1 = "?s \<lparr> pin := Some (''a'', ''s:1'') \<rparr>"
  let ?s2 = "?s1 \<lparr> dbHandle := Some (dbOf ''a'') \<rparr>"
  have w: "world ?s = sample_world" "control sample_world ''a'' = Some \<lparr> ct_policy = Some no_policy, ct_hazmat_enabled = False \<rparr>"
    "readDb sample_world r = sample_db" for r
    using sample_start_db[of r] by (simp_all add: sample_start_def sample_world_def instance_at_def)
  have "pin ?s = None" "dbHandle ?s = None" "policyCache ?s = None"
    by (simp_all add: instance_at_def sample_start_def cold_def)
  then have a: "admit sample_env ''a'' ''s:1'' ?s = (Inr (), ?s1)" and r: "resolveDb ''a'' False ?s1 = (Inr (dbOf ''a''), ?s2)"
    using sample_streams sample_customer w by (auto intro!: admit_run resolveDb_run simp: sample_env_def sample_world_def)
  have v: "validate sample_env ''s:1'' invoice_input ?s2 = (Inr (), ?s2)"
    using sample_inputs_ok by (simp add: validate_def sbind_step) (simp add: invoice_input_def)
  have f: "findReplay sample_env (dbOf ''a'') ''a'' ''s:1'' invoice_input ?s2 = (Inr None, ?s2)"
    by (simp add: findReplay_def sbind_step sample_start_db findById_def invoice_input_def) (simp add: sample_db_def)
  obtain q where l: "loadPolicy ''a'' ?s2 = (Inr no_policy, ?s2 \<lparr> policyCache := Some no_policy, hazmatCache := q \<rparr>)"
    using loadPolicy_run[of ?s2 no_policy "''a''"] w \<open>policyCache ?s = None\<close> by auto
  have "appendNew sample_env 5 (dbOf ''a'') ''a'' ''s:1'' invoice_input ?s2 =
    (Inl (GateRefusal (GateError [NeedPodSigned])), ?s2 \<lparr> policyCache := Some no_policy, hazmatCache := q \<rparr>)"
    using l w by (simp add: appendNew_def sbind_step creditPartyKnown_def podGate_def assertPodSigned_def sample_db_def
        invoice_input_def isPlatformCreditInvoiceIssued_def sample_customer no_policy_def)
  then show ?thesis
    using a r v f by (simp add: append_event_def sbind_run)
qed

theorem refused_appends_change_nothing_witness:
  "\<exists>err s'. append_event sample_env 5 ''a'' ''s:1'' invoice_input False (instance_at ''a|s:1'' sample_start) = (Inl err, s')
     \<and> same_books sample_db (readDb (world s') (dbOf ''a''))"
  using sample_invoice_refused refused_appends_change_nothing[OF sample_start_reachable] sample_start_db by metis

lemma find_snoc: "find P (xs @ [x]) = (case find P xs of Some y \<Rightarrow> Some y | None \<Rightarrow> if P x then Some x else None)"
  by (induction xs) simp_all

lemma verifyDevice_again:
  assumes "verifyDevice env t d i s = (Inr (), s1)"
  shows "verifyDevice env t d i s1 = (Inr (), s1) \<and> world s1 = world s"
  using assms by (auto simp: verifyDevice_def deviceKey_def sbind_step split: option.splits if_splits)

lemma findReplay_again:
  assumes "findReplay env r t st i s = (Inr v, s1)"
  shows "findReplay env r t st i s1 = (Inr v, s1)"
proof (cases "findById (readDb (world s) r) (in_id i)")
  case (Some e)
  then have "v = Some e" "s1 = s"
    using assms by (simp_all add: findReplay_def sbind_step)
  then show ?thesis
    using Some by (simp add: findReplay_def sbind_step)
next
  case None
  show ?thesis
  proof (cases "in_device_id i")
    case d: (Some d)
    then have act: "act_device (in_actor i) = Some d"
      using assms None by (auto simp: findReplay_def sbind_Inr split: if_splits)
    obtain u where v: "verifyDevice env t d i s = (Inr u, s1)"
      using assms None d act by (auto simp: findReplay_def sbind_Inr)
    have "u = ()"
      by simp
    then show ?thesis
      using assms None d act verifyDevice_again[of env t d i s s1] v by (auto simp: findReplay_def sbind_step)
  next
    case d: None
    show ?thesis
    proof (cases "act_device (in_actor i)")
      case None
      then show ?thesis
        using assms d by (auto simp: findReplay_def sbind_step split: option.splits)
    next
      case a: (Some d)
      obtain u where v: "verifyDevice env t d i s = (Inr u, s1)"
        using assms None d a by (auto simp: findReplay_def sbind_Inr)
      have "u = ()"
        by simp
      then show ?thesis
        using assms None d a verifyDevice_again[of env t d i s s1] v by (auto simp: findReplay_def sbind_step)
    qed
  qed
qed

lemma append_found:
  assumes "pin s = Some (t, st)" "dbHandle s = Some (dbOf t)" "idFromName env (t @ ''|'' @ st) = do_id s" "STREAM_ID_RE st"
    "EventInput_ok (uuid env) i" "in_kind i \<noteq> PositionUpdated" "in_kind i = AuthorityFlipped \<longrightarrow> st = ''t:root''"
    "findReplay env (dbOf t) t st i s = (Inr (Some e), s)"
  shows "append_event env now t st i platform s = (Inr (e, []), s)"
  using assms by (simp add: append_event_def sbind_step admit_def resolveDb_def validate_def)

text \<open>C11: Idempotence: an append that succeeded, repeated at the object it left behind, answers with the same event,
  sends no message and changes nothing, at any later time, whether the first one stored the event or
  found it by its id or by the device's own sequence number.\<close>

theorem replays_are_idempotent:
  assumes "reachable env S" "append_event env now t st i platform (instance_at j S) = (Inr (e, trs), s1)"
  shows "append_event env now' t st i platform s1 = (Inr (e, []), s1)"
proof -
  note facts = append_Inr[OF assms(2) reachable_instance[OF assms(1)]]
  from assms have "findReplay env (dbOf t) t st i s1 = (Inr (Some e), s1) \<and> do_id s1 = j"
  proof (cases rule: append_outcome)
    case (replayed x s3)
    then show ?thesis
      using findReplay_again[OF replayed(5)] by (simp add: quiet_def instance_at_def)
  next
    case (committed x trs' s0 s2 date)
    have "t_events (readDb (world s2) (dbOf t)) = t_events (readDb (sys_world S) (dbOf t))"
      using committed(5) by (simp add: quiet_def same_books_def instance_at_def)
    then have "t_events (readDb (world s1) (dbOf t)) = t_events (readDb (sys_world S) (dbOf t)) @ [e]" "do_id s1 = do_id s2"
      using commit_Inr[OF committed(7)] committed(1) by (simp_all add: recorded_def)
    then have "findById (readDb (world s1) (dbOf t)) (in_id i) = Some e"
      using committed(1,2) judged_stream(5)[OF committed(4)] by (simp add: findById_def find_snoc)
    then show ?thesis
      using \<open>do_id s1 = do_id s2\<close> committed(5) by (simp add: findReplay_def sbind_step quiet_def instance_at_def)
  qed simp
  then show ?thesis
    using facts by (intro append_found) (auto simp: instance_at_def)
qed

lemma sample_booking_accepted:
  "\<exists>s1. append_event sample_env 5 ''a'' ''s:1'' booking_input False (instance_at ''a|s:1'' sample_start) = (Inr (e4, []), s1)"
proof -
  let ?me = "idFromName sample_env (''a'' @ ''|'' @ ''s:1'')"
  obtain v s1 where a: "append_event sample_env 5 ''a'' ''s:1'' booking_input False (instance_at ?me sample_start) = (v, s1)"
    by (cases "append_event sample_env 5 ''a'' ''s:1'' booking_input False (instance_at ?me sample_start)")
  have w: "t_events (readDb (world s1) (dbOf ''a'')) = [e4]"
    using booked_run_events a by (simp add: booked_run_def served_def settled_def Let_def)
  from sample_start_reachable a have "v = Inr (e4, [])"
  proof (cases rule: append_outcome)
    case (committed e trs s0 s2 date)
    have "t_events (readDb (world s2) (dbOf ''a'')) = []"
      using committed(5) by (simp add: quiet_def same_books_def sample_start_db) (simp add: sample_db_def)
    then have "e = e4"
      using commit_Inr[OF committed(7)] w by (simp add: recorded_def)
    moreover have "triggersFor e4 ''a'' = []"
      by (simp add: triggersFor_def conciergeTriggerFor_def)
    ultimately show ?thesis
      using commit_Inr[OF committed(7)] committed(1) by simp
  qed (use w in \<open>simp_all add: quiet_def same_books_def sample_start_db\<close>, (simp add: sample_db_def)+)
  moreover have "?me = ''a|s:1''"
    by (simp add: sample_env_def)
  ultimately show ?thesis
    using a by simp
qed

theorem replays_are_idempotent_witness:
  "\<exists>s1. append_event sample_env 5 ''a'' ''s:1'' booking_input False (instance_at ''a|s:1'' sample_start) = (Inr (e4, []), s1)
     \<and> append_event sample_env 77 ''a'' ''s:1'' booking_input False s1 = (Inr (e4, []), s1)"
  using sample_booking_accepted replays_are_idempotent[OF sample_start_reachable] by blast

text \<open>Acceptance: in any reachable system, a schema-valid event of one of the seventeen kinds without a gate, sent
  natively by a customer tenant whose control row is in order, unsigned or signed by a device under its
  key, is stored, and its triggers are sent, provided its id and device sequence number are new, it has
  canonical bytes, their hash is new, and on a stream that is not a shipment's it names no shipment.\<close>

theorem plain_events_are_accepted:
  assumes "reachable env S" "inj (idFromName env)" "\<And>bs. length (sha256 env bs) = 32"
    "\<not> isPlatformTenant t" "STREAM_ID_RE st" "policy_served t p S" "safe now" "int (length (t_events db)) \<le> MAX_SAFE"
    "EventInput_ok (uuid env) i" "in_kind i \<in> set PLAIN_KINDS" "in_source i \<noteq> Legacy"
    "signer_ok env t st i (instance_at (idFromName env (t @ ''|'' @ st)) S) db"
    "take 2 st \<noteq> ''s:'' \<longrightarrow> in_shipment_id i = None"
    "db = readDb (sys_world S) (dbOf t)" "findById db (in_id i) = None"
    "\<forall>v. \<exists>h. hashEvent (sha256 env) (stored (stamped env now t st i db v)) = Inr h
      \<and> (\<forall>x \<in> set (t_events db). ev_hash x \<noteq> Some h)"
  shows "\<exists>e. fst (append_event env now t st i False (instance_at (idFromName env (t @ ''|'' @ st)) S)) = Inr (e, triggersFor e t)
    \<and> t_events (readDb (sys_world (served env now t st i S)) (dbOf t)) = t_events db @ [e]
    \<and> ev_id e = in_id i \<and> stream_id e = st \<and> kind e = in_kind i \<and> payload e = in_payload i \<and> recorded_at e = now"
proof -
  obtain v h where "fst (append_event env now t st i False (instance_at (idFromName env (t @ ''|'' @ st)) S)) =
      Inr (stamped env now t st i db v \<lparr> ev_hash := Some h \<rparr>, triggersFor (stamped env now t st i db v \<lparr> ev_hash := Some h \<rparr>) t)
    \<and> t_events (readDb (sys_world (served env now t st i S)) (dbOf t)) =
        t_events db @ [stamped env now t st i db v \<lparr> ev_hash := Some h \<rparr>]"
    using plain_served[OF assms] by (auto simp: Let_def)
  then show ?thesis
    by (intro exI[of _ "stamped env now t st i db v \<lparr> ev_hash := Some h \<rparr>"]) (simp add: stamped_def)
qed

text \<open>A piece count signed by a registered device.\<close>

definition count_input :: "payload event_input" where
  "count_input = (sample_input ''e9'' FreightCounted (FreightCountedP 4 None))
     \<lparr> in_actor := \<lparr> act_party = ''p'', act_user = None, act_device = Some ''d'' \<rparr>, in_sig := Some ''x'',
        in_device_id := Some ''d'', in_device_seq := Some 7 \<rparr>"

lemma count_input_simps [simp]:
  "in_id count_input = ''e9''" "in_kind count_input = FreightCounted" "in_source count_input = Native"
  "in_device_id count_input = Some ''d''" "in_device_seq count_input = Some 7"
  "act_device (in_actor count_input) = Some ''d''"
  by (simp_all add: count_input_def)

lemma count_hashes:
  "hashEvent toy_digest (stored (event_of count_input ''s:1'' 0 GENESIS_HASH Internal)) = Inr (digest ''6d'')"
  "hashEvent toy_digest (stored (event_of count_input ''s:1'' 0 GENESIS_HASH Counterparty)) = Inr (digest ''71'')"
  "hashEvent toy_digest (stored (event_of count_input ''s:1'' 0 GENESIS_HASH Public)) = Inr (digest ''6b'')"
  by code_simp+

lemma count_signed: "inputSigOk (verifyKey sample_env) (Some ()) count_input"
  by code_simp

lemma count_accepted:
  "signer_ok sample_env ''a'' ''s:1'' count_input (instance_at j sample_start) sample_db"
  "EventInput_ok (uuid sample_env) count_input"
  "\<exists>h. hashEvent (sha256 sample_env) (stored (stamped sample_env 5 ''a'' ''s:1'' count_input sample_db v)) = Inr h
     \<and> (\<forall>x \<in> set (t_events sample_db). ev_hash x \<noteq> Some h)"
proof -
  have "deviceKeys (instance_at j sample_start) = Map.empty" "registered (sys_world sample_start) ''a'' ''d'' = Some ()"
    by (simp_all add: instance_at_def sample_start_def cold_def sample_world_def)
  then show "signer_ok sample_env ''a'' ''s:1'' count_input (instance_at j sample_start) sample_db"
    using count_signed by (simp add: signer_ok_def findByDevice_def) (simp add: sample_db_def)
  show "EventInput_ok (uuid sample_env) count_input"
    by code_simp
  have "stamped sample_env 5 ''a'' ''s:1'' count_input sample_db v = event_of count_input ''s:1'' 0 GENESIS_HASH v"
    by (rule stamped_event_of) (simp add: storedTail_def streamEvents_def sample_db_def GENESIS_TAIL_def)
  moreover have "sha256 sample_env = toy_digest" "t_events sample_db = []"
    by (simp_all add: sample_env_def sample_db_def)
  ultimately show "\<exists>h. hashEvent (sha256 sample_env) (stored (stamped sample_env 5 ''a'' ''s:1'' count_input sample_db v)) = Inr h
      \<and> (\<forall>x \<in> set (t_events sample_db). ev_hash x \<noteq> Some h)"
    by (cases v) (simp_all add: count_hashes)
qed

theorem plain_events_are_accepted_witness:
  "\<exists>e. fst (append_event sample_env 5 ''a'' ''s:1'' count_input False
        (instance_at (idFromName sample_env (''a'' @ ''|'' @ ''s:1'')) sample_start)) = Inr (e, triggersFor e ''a'')
     \<and> ev_id e = ''e9''"
proof -
  have sha: "length (sha256 sample_env bs) = 32" for bs
    by (simp add: sample_env_def toy_digest_def)
  have "\<exists>e. fst (append_event sample_env 5 ''a'' ''s:1'' count_input False
        (instance_at (idFromName sample_env (''a'' @ ''|'' @ ''s:1'')) sample_start)) = Inr (e, triggersFor e ''a'')
      \<and> t_events (readDb (sys_world (served sample_env 5 ''a'' ''s:1'' count_input sample_start)) (dbOf ''a'')) = t_events sample_db @ [e]
      \<and> ev_id e = in_id count_input \<and> stream_id e = ''s:1'' \<and> kind e = in_kind count_input
      \<and> payload e = in_payload count_input \<and> recorded_at e = 5"
    by (rule plain_events_are_accepted[OF sample_start_reachable sample_env_inj sha sample_customer sample_streams(1)
          sample_start_policy _ _ count_accepted(2) _ _ count_accepted(1) _ sample_start_db[symmetric] _ allI[OF count_accepted(3)]])
       (simp_all add: PLAIN_KINDS_def findById_def safe_def MAX_SAFE_def, simp_all add: sample_db_def)
  then show ?thesis
    by auto
qed

section \<open>Messages to the agents\<close>

text \<open>The agents are told of committed native events only: an append either leaves the event tables as they were and
  sends nothing, or stores one event and sends exactly that event's triggers, none for a mirror of the
  incumbent. A stored POD or accepted quote of a shipment is sent with its shipment, and an internal
  message is never sent to the Concierge.\<close>

theorem triggers_follow_commits:
  assumes "reachable env S" "append_event env now t st i platform (instance_at j S) = (Inr (e, trs), s')"
  shows "trs = [] \<and> (\<forall>r. t_events (readDb (world s') r) = t_events (readDb (sys_world S) r))
    \<or> t_events (readDb (world s') (dbOf t)) = t_events (readDb (sys_world S) (dbOf t)) @ [e]
      \<and> trs = (if source e = Legacy then [] else triggersFor e t)
      \<and> (source e \<noteq> Legacy \<and> kind e = PodSigned \<longrightarrow> (\<forall>ship. shipment_id e = Some ship \<longrightarrow> trs = [BillerTrigger t ship (ev_id e)]))
      \<and> (source e \<noteq> Legacy \<and> kind e = QuoteAccepted \<longrightarrow> (\<forall>ship. shipment_id e = Some ship \<longrightarrow> trs = [BookingTrigger t ship (ev_id e)]))
      \<and> (visibility e = Internal \<longrightarrow> (\<forall>ship. ConciergeTrigger t ship (ev_id e) \<notin> set trs))"
  using assms
proof (cases rule: append_outcome)
  case (committed x trs' s0 s1 date)
  have "t_events (readDb (world s1) (dbOf t)) = t_events (readDb (sys_world S) (dbOf t))"
    using committed(5) by (simp add: quiet_def same_books_def instance_at_def)
  then show ?thesis
    using commit_Inr[OF committed(7)] committed(1)
    by (auto simp: recorded_def triggersFor_def conciergeTriggerFor_def split: option.splits)
qed (auto simp: quiet_def same_books_def instance_at_def)

theorem triggers_follow_commits_witness:
  "\<exists>s1. append_event sample_env 5 ''a'' ''s:1'' booking_input False (instance_at ''a|s:1'' sample_start) = (Inr (e4, []), s1)
     \<and> ([] = [] \<and> (\<forall>r. t_events (readDb (world s1) r) = t_events (readDb (sys_world sample_start) r))
        \<or> t_events (readDb (world s1) (dbOf ''a'')) = [e4])"
proof -
  have "t_events (readDb (sys_world sample_start) r) = []" for r
    by (simp add: sample_start_db) (simp add: sample_db_def)
  then show ?thesis
    using sample_booking_accepted triggers_follow_commits[OF sample_start_reachable] by fastforce
qed

section \<open>Devices\<close>

lemma verifyEventSig_cong:
  "clientView a = clientView b \<Longrightarrow> sig a = sig b \<Longrightarrow> verifyEventSig verify a = verifyEventSig verify b"
  by (simp only: verifyEventSig_def)

lemma admit_keys: "admit env t st s = (v, s1) \<Longrightarrow> deviceKeys s1 = deviceKeys s \<and> world s1 = world s"
  by (auto simp: admit_def sbind_step split: option.splits if_splits)

lemma resolveDb_keys: "resolveDb t platform s = (v, s1) \<Longrightarrow> deviceKeys s1 = deviceKeys s \<and> world s1 = world s"
  by (auto simp: resolveDb_def sbind_step split: option.splits if_splits)

lemma verifyDevice_Inr:
  assumes "verifyDevice env t d i s = (Inr u, s1)"
  shows "\<exists>k. (deviceKeys s d = Some (Some k) \<or> deviceKeys s d = None \<and> registered (world s) t d = Some k)
    \<and> inputSigOk (verifyKey env) (Some k) i"
proof -
  obtain jwk s2 where jwk: "deviceKey t d s = (Inr jwk, s2)" and ok: "inputSigOk (verifyKey env) jwk i"
    using assms by (auto simp: verifyDevice_def sbind_Inr split: if_splits)
  obtain k where k: "jwk = Some k"
    using ok by (cases jwk) (simp_all add: inputSigOk_def)
  then have "deviceKeys s d = Some (Some k) \<or> deviceKeys s d = None \<and> registered (world s) t d = Some k"
    using jwk by (auto simp: deviceKey_def sbind_Inr split: option.splits)
  then show ?thesis
    using ok k by blast
qed

lemma append_verified:
  assumes "append_event env now t st i platform s = (Inr (e, trs), s')" "instance_ok env s"
    "t_events (readDb (world s') (dbOf t)) \<noteq> t_events (readDb (world s) (dbOf t))" "act_device (in_actor i) = Some d"
  shows "(\<exists>s3 s4. deviceKeys s3 = deviceKeys s \<and> world s3 = world s \<and> verifyDevice env t d i s3 = (Inr (), s4))
    \<and> (in_device_id i = None \<or> in_device_id i = Some d)"
proof -
  from assms(1)[unfolded append_event_def]
  obtain s1 r s2 s3 v s4 where 1: "admit env t st s = (Inr (), s1)" and 2: "resolveDb t platform s1 = (Inr r, s2)"
    and 3: "validate env st i s2 = (Inr (), s3)" and 4: "findReplay env r t st i s3 = (Inr v, s4)"
    and 5: "(case v of Some e \<Rightarrow> ret (e, []) | None \<Rightarrow> appendNew env now r t st i) s4 = (Inr (e, trs), s')"
    by (elim sbindE) (rule that; simp)
  have s3: "deviceKeys s3 = deviceKeys s" "world s3 = world s" "s3 = s2"
    using admit_keys[OF 1] resolveDb_keys[OF 2] 3 by (simp_all add: validate_Inr)
  have "world s4 = world s3"
    using 4 by (auto simp: findReplay_def verifyDevice_def deviceKey_def sbind_step split: option.splits if_splits)
  then have new: "v = None"
    using 5 assms(3) s3 by (cases v) auto
  have "findById (readDb (world s3) r) (in_id i) = None"
    using findReplay_Inr[OF 4] new by simp
  then show ?thesis
    using 4 new assms(4) s3
    by (cases "in_device_id i") (auto simp: findReplay_def sbind_Inr split: if_splits)
qed


lemma count_stored:
  "\<exists>e. fst (append_event sample_env 5 ''a'' ''s:1'' count_input False
        (instance_at (idFromName sample_env (''a'' @ ''|'' @ ''s:1'')) sample_start)) = Inr (e, triggersFor e ''a'')
     \<and> t_events (readDb (sys_world (served sample_env 5 ''a'' ''s:1'' count_input sample_start)) (dbOf ''a'')) = [e]
     \<and> act_device (actor e) = Some ''d''"
proof -
  have sha: "length (sha256 sample_env bs) = 32" for bs
    by (simp add: sample_env_def toy_digest_def)
  have "\<exists>v h. let full = stamped sample_env 5 ''a'' ''s:1'' count_input sample_db v \<lparr> ev_hash := Some h \<rparr> in
      fst (append_event sample_env 5 ''a'' ''s:1'' count_input False
        (instance_at (idFromName sample_env (''a'' @ ''|'' @ ''s:1'')) sample_start)) = Inr (full, triggersFor full ''a'')
      \<and> t_events (readDb (sys_world (served sample_env 5 ''a'' ''s:1'' count_input sample_start)) (dbOf ''a'')) =
          t_events sample_db @ [full]
      \<and> policy_served ''a'' no_policy (served sample_env 5 ''a'' ''s:1'' count_input sample_start)"
    by (rule plain_served[OF sample_start_reachable sample_env_inj sha sample_customer sample_streams(1)
          sample_start_policy _ _ count_accepted(2) _ _ count_accepted(1) _ sample_start_db[symmetric] _ allI[OF count_accepted(3)]])
       (simp_all add: PLAIN_KINDS_def findById_def safe_def MAX_SAFE_def, simp_all add: sample_db_def)
  then show ?thesis
    by (auto simp: Let_def stamped_def assemble_def sample_db_def)
qed


text \<open>A revocation reaches an instance only when it wakes again: an instance that has a device's key in its cache goes on
  accepting that device's signatures after the control plane has revoked every key, and refuses them
  from its next eviction on.\<close>

theorem revocation_waits_for_eviction:
  assumes "deviceKeys (objects S j) d = Some (Some k)" "inputSigOk (verifyKey env) (Some k) i"
    "S1 = S \<lparr> sys_world := (sys_world S) \<lparr> control := control (sys_world S), registered := (\<lambda>_ _. None),
       resolvable := resolvable (sys_world S) \<rparr> \<rparr>"
    "S2 = S1 \<lparr> objects := (objects S1)(j := evicted (objects S1 j)) \<rparr>"
  shows "step env S S1 \<and> fst (verifyDevice env t d i (instance_at j S1)) = Inr ()
    \<and> step env S1 S2 \<and> fst (verifyDevice env t d i (instance_at j S2)) = Inl (Unauthorized ''device signature'')"
proof -
  have "step env S S1"
    unfolding assms(3) by (rule step.Control)
  moreover have "step env S1 S2"
    unfolding assms(4) by (rule step.Evict)
  moreover have "fst (verifyDevice env t d i (instance_at j S1)) = Inr ()"
    using assms(1,2) by (simp add: verifyDevice_def deviceKey_def sbind_step instance_at_def assms(3))
  moreover have "fst (verifyDevice env t d i (instance_at j S2)) = Inl (Unauthorized ''device signature'')"
    by (simp add: verifyDevice_def deviceKey_def sbind_step instance_at_def assms(3,4) evicted_def inputSigOk_def)
  ultimately show ?thesis
    by blast
qed

theorem revocation_waits_for_eviction_witness:
  "fst (verifyDevice sample_env ''a'' ''d'' count_input
     \<lparr> do_id = ''a|s:1'', tail = None, pin = None, policyCache = None, hazmatCache = None, deviceKeys = [''d'' \<mapsto> Some ()],
        dbHandle = None, world = sample_world \<lparr> registered := (\<lambda>_ _. None) \<rparr> \<rparr>) = Inr ()"
proof -
  let ?S = "sample_start \<lparr> objects := (\<lambda>_. cold sample_world \<lparr> deviceKeys := [''d'' \<mapsto> Some ()] \<rparr>) \<rparr>"
  have "deviceKeys (objects ?S ''a|s:1'') ''d'' = Some (Some ())"
    by simp
  from revocation_waits_for_eviction[OF this count_signed refl refl, of "''a''"]
  show ?thesis
    by (simp add: instance_at_def cold_def sample_start_def)
qed

text \<open>Which door a database is reached through matters to a cold instance only: a cold instance refuses a customer
  append that names the platform tenant, a warm one serves it exactly as the platform's own.\<close>

theorem warm_instances_ignore_the_door:
  "(dbHandle s \<noteq> None \<longrightarrow> append_event env now t st i False s = append_event env now t st i True s)
   \<and> (dbHandle s = None \<longrightarrow> admit env PLATFORM_TENANT_ID st s = (Inr (), s1) \<longrightarrow>
        append_event env now PLATFORM_TENANT_ID st i False s = (Inl (Forbidden ''unknown tenant''), s1))"
proof (intro conjI impI)
  assume "dbHandle s \<noteq> None"
  then have warm: "dbHandle (snd (admit env t st s)) \<noteq> None"
    by (auto simp: admit_def sbind_step split: option.splits)
  have "resolveDb t False x = resolveDb t True x" if "dbHandle x \<noteq> None" for x :: "'a sequencer"
    using that by (auto simp: resolveDb_def sbind_step)
  then show "append_event env now t st i False s = append_event env now t st i True s"
    using warm by (cases "admit env t st s") (simp add: append_event_def sbind_step split: sum.split)
next
  assume cold: "dbHandle s = None" "admit env PLATFORM_TENANT_ID st s = (Inr (), s1)"
  then have "dbHandle s1 = None"
    by (auto simp: admit_def sbind_Inr split: option.splits if_splits)
  then show "append_event env now PLATFORM_TENANT_ID st i False s = (Inl (Forbidden ''unknown tenant''), s1)"
    using cold(2) by (simp add: append_event_def sbind_run resolveDb_def sbind_step isPlatformTenant_def)
qed

theorem warm_instances_ignore_the_door_witness:
  "\<exists>s1. append_event sample_env 5 PLATFORM_TENANT_ID ''s:1'' count_input False
      (instance_at (PLATFORM_TENANT_ID @ ''|s:1'') sample_start) = (Inl (Forbidden ''unknown tenant''), s1)
   \<and> append_event sample_env 5 PLATFORM_TENANT_ID ''s:1'' count_input False (s1 \<lparr> dbHandle := Some PlatformDb \<rparr>) =
     append_event sample_env 5 PLATFORM_TENANT_ID ''s:1'' count_input True (s1 \<lparr> dbHandle := Some PlatformDb \<rparr>)"
proof -
  let ?s = "instance_at (PLATFORM_TENANT_ID @ ''|s:1'') sample_start"
  have s: "pin ?s = None" "dbHandle ?s = None"
    by (simp_all add: instance_at_def sample_start_def cold_def)
  then have "admit sample_env PLATFORM_TENANT_ID ''s:1'' ?s = (Inr (), ?s \<lparr> pin := Some (PLATFORM_TENANT_ID, ''s:1'') \<rparr>)"
    using sample_streams by (intro admit_run) (simp_all add: sample_env_def)
  then show ?thesis
    using s warm_instances_ignore_the_door[of ?s] warm_instances_ignore_the_door[of "?s \<lparr> pin := Some (PLATFORM_TENANT_ID, ''s:1''), dbHandle := Some PlatformDb \<rparr>"]
    by (intro exI[of _ "?s \<lparr> pin := Some (PLATFORM_TENANT_ID, ''s:1'') \<rparr>"]) simp
qed

end
