(* ===== verification/Driver.thy ===== *)
theory Driver
  imports Sequencer
begin

text \<open>
  The driver's device (\<open>packages/driver-core/src\<close>, \<open>apps/driver/src/storage\<close>, \<open>apps/driver/src/session.ts\<close>): the durable
  counter of device sequence numbers, signed capture, the offline queue, the synchronization engine
  and the client-side merge.

  The queue's store is the IndexedDB object store, kept in ascending order of its key. The engine
  runs over ports: the clock, the random source and the two transports are state transformers of an
  arbitrary world \<open>'w\<close>, so that a later theory can put the real server there.
\<close>

section \<open>The durable counter (\<open>durable-seq.ts\<close>)\<close>

definition BLOCK :: int where "BLOCK = 1024"
definition REFILL_AT :: int where "REFILL_AT = 256"

record seq_counter =
  sc_next :: int
  sc_ceiling :: int
  sc_refilling :: bool

text \<open>\<open>open\<close>: the new session and the ceiling it commits to the disk before it hands out a number.\<close>

definition openCounter :: "int \<Rightarrow> seq_counter \<times> int" where
  "openCounter persisted =
     (\<lparr> sc_next = persisted, sc_ceiling = persisted + BLOCK, sc_refilling = False \<rparr>, persisted + BLOCK)"

text \<open>\<open>nextSeq\<close>: the number and whether a refill was started; \<open>Inl\<close> is the refusal to mint past the ceiling.\<close>

definition nextSeq :: "seq_counter \<Rightarrow> string + int \<times> seq_counter" where
  "nextSeq c =
     (if sc_ceiling c \<le> sc_next c then Inl ''reservation exhausted''
      else
        let value = sc_next c;
            low = sc_ceiling c - (value + 1) \<le> REFILL_AT in
        Inr (value, c \<lparr> sc_next := value + 1, sc_refilling := sc_refilling c \<or> low \<rparr>))"

text \<open>\<open>reserve\<close> in three parts: the ceiling it writes, and its two settlements.\<close>

definition reserveCeiling :: "seq_counter \<Rightarrow> int" where
  "reserveCeiling c = sc_ceiling c + BLOCK"

definition reserved :: "seq_counter \<Rightarrow> seq_counter" where
  "reserved c = c \<lparr> sc_ceiling := reserveCeiling c, sc_refilling := False \<rparr>"

definition reserveFailed :: "seq_counter \<Rightarrow> seq_counter" where
  "reserveFailed c = c \<lparr> sc_refilling := False \<rparr>"

section \<open>The offline queue (\<open>queue.ts\<close>, \<open>idb-queue-store.ts\<close>)\<close>

datatype evidence_field = PhotoHash | PlacedPhotoHash | SignatureHash

record deferred_upload =
  du_hash :: string
  du_bytes :: bytes
  du_field :: evidence_field

datatype sync_phase = Captured | EventPending | EventAcked | EvidencePending | EvidenceAcked | Drained

datatype block_kind = AuthBlock | OperatorBlock

record sync_state =
  sy_phase :: sync_phase
  sy_attempts :: nat
  sy_nextAttemptAt :: int
  sy_blocked :: "(block_kind \<times> int) option"

record queue_item =
  qi_id :: string
  qi_event :: "payload event_input"
  qi_deferred :: "deferred_upload option"
  qi_sync :: "sync_state option"

type_synonym queue_store = "queue_item list"

fun storePut :: "queue_item \<Rightarrow> queue_store \<Rightarrow> queue_store" where
  "storePut item [] = [item]"
| "storePut item (x # xs) =
     (if qi_id item < qi_id x then item # x # xs
      else if qi_id item = qi_id x then item # xs
      else x # storePut item xs)"

definition storeRemove :: "string \<Rightarrow> queue_store \<Rightarrow> queue_store" where
  "storeRemove i s = filter (\<lambda>x. qi_id x \<noteq> i) s"

definition enqueue :: "payload event_input \<Rightarrow> deferred_upload option \<Rightarrow> queue_store \<Rightarrow> queue_store" where
  "enqueue e d s = storePut \<lparr> qi_id = in_id e, qi_event = e, qi_deferred = d, qi_sync = None \<rparr> s"

text \<open>Capture order: by device sequence number, the items without one last, ties in store order.\<close>

definition captureKey :: "queue_item \<Rightarrow> nat \<times> int" where
  "captureKey item = (case in_device_seq (qi_event item) of None \<Rightarrow> (1, 0) | Some n \<Rightarrow> (0, n))"

definition pending :: "queue_store \<Rightarrow> queue_item list" where
  "pending s = sort_key captureKey s"

definition markSynced :: "string \<Rightarrow> queue_store \<Rightarrow> queue_store" where
  "markSynced i s = storeRemove i s"

definition persist :: "queue_item \<Rightarrow> queue_store \<Rightarrow> queue_store" where
  "persist item s = storePut item s"

section \<open>The synchronization engine (\<open>sync.ts\<close>)\<close>

datatype retry_class = Ack | Retry | AuthRefused | OperatorRefused

definition classifyStatus :: "int \<Rightarrow> retry_class" where
  "classifyStatus status =
     (if 200 \<le> status \<and> status < 300 then Ack
      else if status = 401 then AuthRefused
      else if status = 0 \<or> status = 408 \<or> status = 429 \<or> (500 \<le> status \<and> status < 600) then Retry
      else if 400 \<le> status \<and> status < 500 then OperatorRefused
      else Retry)"

record backoff_options =
  bo_baseMs :: int
  bo_maxMs :: int
  bo_factor :: int
  bo_jitterMs :: int

definition DEFAULT_BACKOFF :: backoff_options where
  "DEFAULT_BACKOFF = \<lparr> bo_baseMs = 1000, bo_maxMs = 60000, bo_factor = 2, bo_jitterMs = 500 \<rparr>"

text \<open>\<open>r\<close> is the draw of the random source, in [0, 1). The options are integers, so \<open>Math.round\<close> is the identity
  below the cap, and a power that overflows is above it.\<close>

definition backoffDelay :: "nat \<Rightarrow> backoff_options \<Rightarrow> rat \<Rightarrow> int" where
  "backoffDelay attempts opts r =
     min (bo_maxMs opts) (bo_baseMs opts * bo_factor opts ^ (attempts - 1)) + \<lfloor>r * of_int (bo_jitterMs opts)\<rfloor>"

definition OPERATOR_REPROBE_MS :: int where
  "OPERATOR_REPROBE_MS = 15 * 60000"

record 'w sync_ports =
  clock :: "'w \<Rightarrow> int \<times> 'w"
  draw :: "'w \<Rightarrow> rat \<times> 'w"
  sendEvent :: "payload event_input \<Rightarrow> 'w \<Rightarrow> int \<times> 'w"
  sendEvidence :: "deferred_upload \<Rightarrow> payload event_input \<Rightarrow> 'w \<Rightarrow> int \<times> 'w"
  backoff :: backoff_options

record sync_pass =
  sp_synced :: "string list"
  sp_authBlocked :: bool
  sp_nextWake :: "int option"
  sp_parked :: nat

datatype sync_step = Moved | ItemDrained string | Waiting int | AuthStop | OperatorStop

datatype sync_leg = EventLeg | EvidenceLeg

definition phaseOf :: "queue_item \<Rightarrow> sync_phase" where
  "phaseOf item = (case qi_sync item of None \<Rightarrow> Captured | Some s \<Rightarrow> sy_phase s)"

definition attemptsOf :: "queue_item \<Rightarrow> nat" where
  "attemptsOf item = (case qi_sync item of None \<Rightarrow> 0 | Some s \<Rightarrow> sy_attempts s)"

definition atPhase :: "sync_phase \<Rightarrow> nat \<Rightarrow> int \<Rightarrow> (block_kind \<times> int) option \<Rightarrow> queue_item \<Rightarrow> queue_item" where
  "atPhase p n t b item =
     item \<lparr> qi_sync := Some \<lparr> sy_phase = p, sy_attempts = n, sy_nextAttemptAt = t, sy_blocked = b \<rparr> \<rparr>"

fun pendingPhase :: "sync_leg \<Rightarrow> sync_phase" where
  "pendingPhase EventLeg = EventPending"
| "pendingPhase EvidenceLeg = EvidencePending"

fun ackedPhase :: "sync_leg \<Rightarrow> sync_phase" where
  "ackedPhase EventLeg = EventAcked"
| "ackedPhase EvidenceLeg = EvidenceAcked"

text \<open>A step answers with its kind, the item as it now is in memory, the store and the world.\<close>

definition applyResult ::
  "'w sync_ports \<Rightarrow> queue_item \<Rightarrow> sync_leg \<Rightarrow> int \<Rightarrow> queue_store \<Rightarrow> 'w \<Rightarrow> sync_step \<times> queue_item \<times> queue_store \<times> 'w"
where
  "applyResult ports item leg status s w =
     (case classifyStatus status of
        Ack \<Rightarrow>
          (let item1 = atPhase (ackedPhase leg) 0 0 None item in (Moved, item1, persist item1 s, w))
      | Retry \<Rightarrow>
          (let n = attemptsOf item + 1;
               (now, w1) = clock ports w;
               (r, w2) = draw ports w1;
               wake = now + backoffDelay n (backoff ports) r;
               item1 = atPhase (pendingPhase leg) n wake None item in
           (Waiting wake, item1, persist item1 s, w2))
      | AuthRefused \<Rightarrow>
          (let (now, w1) = clock ports w;
               item1 = atPhase (pendingPhase leg) (attemptsOf item) now (Some (AuthBlock, status)) item in
           (AuthStop, item1, persist item1 s, w1))
      | OperatorRefused \<Rightarrow>
          (let (now, w1) = clock ports w;
               item1 = atPhase (pendingPhase leg) (attemptsOf item + 1) (now + OPERATOR_REPROBE_MS)
                 (Some (OperatorBlock, status)) item in
           (OperatorStop, item1, persist item1 s, w1)))"

definition drain :: "queue_item \<Rightarrow> queue_store \<Rightarrow> 'w \<Rightarrow> sync_step \<times> queue_item \<times> queue_store \<times> 'w" where
  "drain item s w = (ItemDrained (qi_id item), atPhase Drained 0 0 None item, markSynced (qi_id item) s, w)"

definition sendEventLeg ::
  "'w sync_ports \<Rightarrow> queue_item \<Rightarrow> queue_store \<Rightarrow> 'w \<Rightarrow> sync_step \<times> queue_item \<times> queue_store \<times> 'w" where
  "sendEventLeg ports item s w =
     (let (status, w1) = sendEvent ports (qi_event item) w in applyResult ports item EventLeg status s w1)"

definition advanceItem ::
  "'w sync_ports \<Rightarrow> queue_item \<Rightarrow> queue_store \<Rightarrow> 'w \<Rightarrow> sync_step \<times> queue_item \<times> queue_store \<times> 'w" where
  "advanceItem ports item s w =
     (case phaseOf item of
        Captured \<Rightarrow> sendEventLeg ports item s w
      | EventPending \<Rightarrow> sendEventLeg ports item s w
      | EventAcked \<Rightarrow>
          (case qi_deferred item of
             Some _ \<Rightarrow> (let item1 = atPhase EvidencePending 0 0 None item in (Moved, item1, persist item1 s, w))
           | None \<Rightarrow> drain item s w)
      | EvidencePending \<Rightarrow>
          (case qi_deferred item of
             None \<Rightarrow> drain item s w
           | Some d \<Rightarrow>
               (let (status, w1) = sendEvidence ports d (qi_event item) w in
                applyResult ports item EvidenceLeg status s w1))
      | EvidenceAcked \<Rightarrow> drain item s w
      | Drained \<Rightarrow> drain item s w)"

text \<open>The inner loop: \<open>None\<close> when the guard of \<open>fuel\<close> transitions ends it.\<close>

fun advanceLoop ::
  "nat \<Rightarrow> 'w sync_ports \<Rightarrow> queue_item \<Rightarrow> queue_store \<Rightarrow> 'w \<Rightarrow> sync_step option \<times> queue_item \<times> queue_store \<times> 'w"
where
  "advanceLoop 0 ports item s w = (None, item, s, w)"
| "advanceLoop (Suc fuel) ports item s w =
     (case advanceItem ports item s w of
        (Moved, item1, s1, w1) \<Rightarrow> advanceLoop fuel ports item1 s1 w1
      | (st, item1, s1, w1) \<Rightarrow> (Some st, item1, s1, w1))"

definition SYNC_GUARD :: nat where
  "SYNC_GUARD = 8"

definition noteWake :: "int \<Rightarrow> sync_pass \<Rightarrow> sync_pass" where
  "noteWake wake p = p \<lparr> sp_nextWake := Some (case sp_nextWake p of None \<Rightarrow> wake | Some t \<Rightarrow> min t wake) \<rparr>"

definition parkedNow :: "queue_item \<Rightarrow> bool" where
  "parkedNow item = (case qi_sync item of
       Some s \<Rightarrow> (case sy_blocked s of Some (OperatorBlock, _) \<Rightarrow> True | _ \<Rightarrow> False)
     | None \<Rightarrow> False)"

definition notePark :: "queue_item \<Rightarrow> sync_pass \<Rightarrow> sync_pass" where
  "notePark item p = (if parkedNow item then p \<lparr> sp_parked := sp_parked p + 1 \<rparr> else p)"

definition noteStep :: "sync_step option \<Rightarrow> sync_pass \<Rightarrow> sync_pass" where
  "noteStep st p =
     (case st of
        Some (ItemDrained i) \<Rightarrow> p \<lparr> sp_synced := sp_synced p @ [i] \<rparr>
      | Some (Waiting wake) \<Rightarrow> noteWake wake p
      | Some AuthStop \<Rightarrow> p \<lparr> sp_authBlocked := True \<rparr>
      | _ \<Rightarrow> p)"

text \<open>Whether the item is still backing off (or parked), with the world after the clock was read.\<close>

definition backingOff :: "'w sync_ports \<Rightarrow> queue_item \<Rightarrow> 'w \<Rightarrow> int option \<times> 'w" where
  "backingOff ports item w =
     (case qi_sync item of
        None \<Rightarrow> (None, w)
      | Some st \<Rightarrow>
          (let (now, w1) = clock ports w in
           (if now < sy_nextAttemptAt st then Some (sy_nextAttemptAt st) else None, w1)))"

fun syncItems ::
  "'w sync_ports \<Rightarrow> queue_item list \<Rightarrow> sync_pass \<Rightarrow> queue_store \<Rightarrow> 'w \<Rightarrow> sync_pass \<times> queue_store \<times> 'w"
where
  "syncItems ports [] p s w = (p, s, w)"
| "syncItems ports (item # items) p s w =
     (case backingOff ports item w of
        (Some wake, w1) \<Rightarrow> syncItems ports items (notePark item (noteWake wake p)) s w1
      | (None, w1) \<Rightarrow>
          (case advanceLoop SYNC_GUARD ports item s w1 of
             (st, item1, s1, w2) \<Rightarrow>
               let p1 = notePark item1 (noteStep st p) in
               if sp_authBlocked p1 then (p1, s1, w2) else syncItems ports items p1 s1 w2))"

definition syncOnce :: "'w sync_ports \<Rightarrow> queue_store \<Rightarrow> 'w \<Rightarrow> sync_pass \<times> queue_store \<times> 'w" where
  "syncOnce ports s w =
     syncItems ports (pending s) \<lparr> sp_synced = [], sp_authBlocked = False, sp_nextWake = None, sp_parked = 0 \<rparr> s w"

section \<open>The client-side merge (\<open>merge.ts\<close>)\<close>

definition seqKey :: "payload event_input \<Rightarrow> (string option \<times> string \<times> int) option" where
  "seqKey e = (case (in_device_id e, in_device_seq e) of
       (Some d, Some n) \<Rightarrow> Some (in_shipment_id e, d, n) | _ \<Rightarrow> None)"

fun keepFirst ::
  "(string option \<times> string \<times> int) list \<Rightarrow> payload event_input list \<Rightarrow> payload event_input list" where
  "keepFirst seen [] = []"
| "keepFirst seen (e # es) =
     (case seqKey e of
        None \<Rightarrow> e # keepFirst seen es
      | Some k \<Rightarrow> if k \<in> set seen then keepFirst seen es else e # keepFirst (k # seen) es)"

definition mergeOrder :: "payload event_input \<Rightarrow> int \<times> string \<times> int \<times> string" where
  "mergeOrder e =
     (case in_captured_ts e of None \<Rightarrow> in_ts e | Some t \<Rightarrow> t,
      case in_device_id e of None \<Rightarrow> [] | Some d \<Rightarrow> d,
      case in_device_seq e of None \<Rightarrow> - 1 | Some n \<Rightarrow> n,
      in_id e)"

definition mergeByDeviceSeq :: "payload event_input list \<Rightarrow> payload event_input list" where
  "mergeByDeviceSeq es = sort_key mergeOrder (keepFirst [] es)"

section \<open>Signed capture (\<open>capture.ts\<close>)\<close>

record capture_params =
  cp_shipment_id :: "string option"
  cp_kind :: event_kind
  cp_payload :: payload
  cp_actor_party :: "string option"
  cp_actor_user :: "string option"
  cp_ts :: int
  cp_captured_ts :: "int option"
  cp_confidence :: "int option"
  cp_evidence :: "(bytes \<times> evidence_field) option"

record device_context =
  dx_device_id :: string
  dx_party :: string
  dx_sign :: "bytes \<Rightarrow> string"

definition field_name :: "evidence_field \<Rightarrow> string" where
  "field_name f = (case f of PhotoHash \<Rightarrow> ''photo_hash'' | PlacedPhotoHash \<Rightarrow> ''placed_photo_hash''
     | SignatureHash \<Rightarrow> ''signature_hash'')"

text \<open>\<open>payload[field] = hash\<close> followed by the strict parse: a typed payload takes the hash in the field its kind has, and
  a payload without that field no longer parses.\<close>

fun withHash :: "evidence_field \<Rightarrow> string \<Rightarrow> payload \<Rightarrow> payload option" where
  "withHash PhotoHash h (FreightPhotographedP _ k) = Some (FreightPhotographedP h k)"
| "withHash PhotoHash h (SealAppliedP s _) = Some (SealAppliedP s h)"
| "withHash PhotoHash h (OsdCapturedP _ r n) = Some (OsdCapturedP h r n)"
| "withHash SignatureHash h (PodSignedP _ g u) = Some (PodSignedP h g u)"
| "withHash PlacedPhotoHash h (DeliveryEvidencedP _ g) = Some (DeliveryEvidencedP h g)"
| "withHash f h (Loose (JObj kvs)) =
     Some (Loose (JObj (filter (\<lambda>kv. fst kv \<noteq> jlit (field_name f)) kvs @ [(jlit (field_name f), jtext h)])))"
| "withHash _ _ _ = None"

definition DEFAULT_CONFIDENCE :: int where
  "DEFAULT_CONFIDENCE = 10000"

datatype capture_error = CaptureInvalid | CaptureExhausted | CaptureUnsignable canon_error

text \<open>The candidate is parsed before a number is drawn; then the device id, the number and the signature over the
  client view are attached. \<open>newId\<close> is \<open>crypto.randomUUID()\<close>.\<close>

definition candidateOf :: "capture_params \<Rightarrow> device_context \<Rightarrow> string \<Rightarrow> payload \<Rightarrow> payload event_input" where
  "candidateOf p dx newId pl =
     \<lparr> in_id = newId, in_shipment_id = cp_shipment_id p, in_ts = cp_ts p,
        in_actor = \<lparr> act_party = (case cp_actor_party p of None \<Rightarrow> dx_party dx | Some a \<Rightarrow> a),
                     act_user = cp_actor_user p, act_device = Some (dx_device_id dx) \<rparr>,
        in_party_refs = [], in_evidence = [], in_sig = None, in_source = Native,
        in_confidence = (case cp_confidence p of None \<Rightarrow> DEFAULT_CONFIDENCE | Some c \<Rightarrow> c),
        in_device_id = None, in_device_seq = None,
        in_captured_ts = Some (case cp_captured_ts p of None \<Rightarrow> cp_ts p | Some t \<Rightarrow> t),
        requested_visibility = None, in_override = None, in_kind = cp_kind p, in_payload = pl \<rparr>"

definition signInput :: "(bytes \<Rightarrow> string) \<Rightarrow> payload event_input \<Rightarrow> canon_error + payload event_input" where
  "signInput sign i =
     ebind (canonicalBytes (clientView (stored (assemble i [] None 0 [] 0 Internal))))
       (\<lambda>bs. Inr (i \<lparr> in_sig := Some (sign bs) \<rparr>))"

definition capture ::
  "(string \<Rightarrow> bool) \<Rightarrow> (bytes \<Rightarrow> bytes) \<Rightarrow> string \<Rightarrow> capture_params \<Rightarrow> device_context \<Rightarrow> seq_counter \<Rightarrow>
   (capture_error + payload event_input \<times> deferred_upload option) \<times> seq_counter"
where
  "capture isUuid sha newId p dx c =
     (let hashed = (case cp_evidence p of
              None \<Rightarrow> Some (cp_payload p, None)
            | Some (bs, f) \<Rightarrow>
                (let h = sha256Hex sha bs in
                 map_option (\<lambda>pl. (pl, Some \<lparr> du_hash = h, du_bytes = bs, du_field = f \<rparr>)) (withHash f h (cp_payload p)))) in
      case hashed of
        None \<Rightarrow> (Inl CaptureInvalid, c)
      | Some (pl, d) \<Rightarrow>
          let candidate = candidateOf p dx newId pl in
          if \<not> EventInput_ok isUuid candidate then (Inl CaptureInvalid, c)
          else
            case nextSeq c of
              Inl _ \<Rightarrow> (Inl CaptureExhausted, c)
            | Inr (n, c1) \<Rightarrow>
                (case signInput (dx_sign dx) (candidate \<lparr> in_device_id := Some (dx_device_id dx), in_device_seq := Some n \<rparr>) of
                   Inl err \<Rightarrow> (Inl (CaptureUnsignable err), c1)
                 | Inr e \<Rightarrow> (Inr (e, d), c1)))"

text \<open>\<open>session.ts\<close>: capture, then enqueue; a failed capture leaves the queue alone.\<close>

definition captureAndEnqueue ::
  "(string \<Rightarrow> bool) \<Rightarrow> (bytes \<Rightarrow> bytes) \<Rightarrow> string \<Rightarrow> capture_params \<Rightarrow> device_context \<Rightarrow> seq_counter \<Rightarrow> queue_store \<Rightarrow>
   (capture_error + string option) \<times> seq_counter \<times> queue_store"
where
  "captureAndEnqueue isUuid sha newId p dx c s =
     (case capture isUuid sha newId p dx c of
        (Inl err, c1) \<Rightarrow> (Inl err, c1, s)
      | (Inr (e, d), c1) \<Rightarrow> (Inr (map_option du_hash d), c1, enqueue e d s))"

end
