(* ===== verification/SyncLaws.thy ===== *)
theory SyncLaws
  imports Driver
begin

text \<open>
  The laws of the offline queue and of the synchronization engine. The store is a finite map keyed by the event id; a
  pass neither loses nor invents an item, and what it removes the server holds. The server is seen
  through the locale \<open>device_server\<close>: what a 2xx answer promises and what no later call takes back.
\<close>

named_theorems queue_simps "evaluation of the queue and of the engine's item states"

section \<open>The store\<close>

definition store_ok :: "queue_store \<Rightarrow> bool" where
  "store_ok s = sorted_wrt (\<lambda>x y. qi_id x < qi_id y) s"

definition others :: "string \<Rightarrow> queue_store \<Rightarrow> queue_item set" where
  "others i s = {y \<in> set s. qi_id y \<noteq> i}"

definition sameItem :: "queue_item \<Rightarrow> queue_item \<Rightarrow> bool" where
  "sameItem x y \<longleftrightarrow> qi_id x = qi_id y \<and> qi_event x = qi_event y \<and> qi_deferred x = qi_deferred y"

lemma sameItem_refl [simp]: "sameItem x x"
  by (simp add: sameItem_def)

lemma sameItem_trans: "sameItem x y \<Longrightarrow> sameItem y z \<Longrightarrow> sameItem x z"
  by (simp add: sameItem_def)

lemma store_ok_Nil [simp]: "store_ok []"
  by (simp add: store_ok_def)

lemma store_ok_Cons [simp]: "store_ok (x # s) \<longleftrightarrow> (\<forall>y \<in> set s. qi_id x < qi_id y) \<and> store_ok s"
  by (simp add: store_ok_def)

lemma others_Cons: "others i (x # s) = (if qi_id x = i then others i s else insert x (others i s))"
  by (auto simp: others_def)

lemma others_fresh: "\<forall>y \<in> set s. i < qi_id y \<Longrightarrow> others i s = set s"
  by (auto simp: others_def)

lemma set_storePut: "store_ok s \<Longrightarrow> set (storePut x s) = insert x (others (qi_id x) s)"
proof (induction s)
  case (Cons a s)
  have "others (qi_id x) s = set s" if "qi_id x \<le> qi_id a"
    using Cons.prems that by (intro others_fresh) (auto intro: le_less_trans)
  then show ?case
    using Cons by (auto simp: others_Cons)
qed (simp add: others_def)

lemma store_ok_put [simp]: "store_ok s \<Longrightarrow> store_ok (storePut x s)"
proof (induction s)
  case (Cons a s)
  then show ?case
    by (auto simp: set_storePut others_def)
qed simp

lemma set_storeRemove: "set (storeRemove i s) = others i s"
  by (auto simp: storeRemove_def others_def)

lemma store_ok_remove [simp]: "store_ok s \<Longrightarrow> store_ok (storeRemove i s)"
  by (simp add: storeRemove_def store_ok_def sorted_wrt_filter)

lemma store_distinct: "store_ok s \<Longrightarrow> distinct (map qi_id s)"
proof (induction s)
  case (Cons x s)
  then have "qi_id x \<notin> set (map qi_id s)"
    by (metis image_iff less_irrefl list.set_map store_ok_Cons)
  with Cons show ?case
    by simp
qed simp

lemma store_ids_inj: "store_ok s \<Longrightarrow> inj_on qi_id (set s)"
  using store_distinct by (simp add: distinct_map)

lemma others_put: "store_ok s \<Longrightarrow> others (qi_id x) (storePut x s) = others (qi_id x) s"
  by (auto simp: others_def set_storePut)

lemma insert_others: "store_ok s \<Longrightarrow> x \<in> set s \<Longrightarrow> insert x (others (qi_id x) s) = set s"
  using store_ids_inj[of s] by (auto simp: others_def inj_on_def)

lemma pending_set [simp]: "set (pending s) = set s"
  by (simp add: pending_def)

lemma pending_distinct: "store_ok s \<Longrightarrow> distinct (map qi_id (pending s))"
proof -
  assume "store_ok s"
  moreover have "mset (map qi_id (pending s)) = mset (map qi_id s)"
    by (simp add: pending_def)
  ultimately show ?thesis
    using store_distinct mset_eq_imp_distinct_iff by blast
qed

section \<open>One item\<close>

fun stepsLeft :: "sync_phase \<Rightarrow> nat" where
  "stepsLeft Captured = 4"
| "stepsLeft EventPending = 4"
| "stepsLeft EventAcked = 3"
| "stepsLeft EvidencePending = 2"
| "stepsLeft EvidenceAcked = 1"
| "stepsLeft Drained = 1"

lemma atPhase_simps [simp, queue_simps]:
  "phaseOf (atPhase p n t b item) = p" "sameItem item (atPhase p n t b item)"
  "qi_id (atPhase p n t b item) = qi_id item" "qi_event (atPhase p n t b item) = qi_event item"
  "qi_deferred (atPhase p n t b item) = qi_deferred item"
  by (simp_all add: atPhase_def phaseOf_def sameItem_def)

text \<open>What one step does to the item and to the store.\<close>

definition stepped :: "queue_item \<Rightarrow> queue_store \<Rightarrow> sync_step \<Rightarrow> queue_item \<Rightarrow> queue_store \<Rightarrow> bool" where
  "stepped item s st item1 s1 \<longleftrightarrow> sameItem item item1 \<and>
     (case st of
        ItemDrained i \<Rightarrow> i = qi_id item \<and> s1 = storeRemove i s \<and> phaseOf item1 = Drained
      | Moved \<Rightarrow> s1 = storePut item1 s \<and> stepsLeft (phaseOf item1) < stepsLeft (phaseOf item)
      | _ \<Rightarrow> s1 = storePut item1 s)"

lemma applyResult_stepped:
  "applyResult ports item l status s w = (st, item1, s1, w1) \<Longrightarrow> stepsLeft (ackedPhase l) < stepsLeft (phaseOf item) \<Longrightarrow>
     stepped item s st item1 s1"
  by (cases "classifyStatus status")
     (auto simp: applyResult_def stepped_def persist_def Let_def split: prod.splits)

lemma advanceItem_stepped:
  "advanceItem ports item s w = (st, item1, s1, w1) \<Longrightarrow> stepped item s st item1 s1"
  by (cases "phaseOf item"; cases "qi_deferred item")
     (auto simp: advanceItem_def sendEventLeg_def drain_def markSynced_def stepped_def persist_def Let_def
        split: prod.splits dest!: applyResult_stepped)


lemma advanceLoop_fuel:
  "stepsLeft (phaseOf item) \<le> n \<Longrightarrow> stepsLeft (phaseOf item) \<le> m \<Longrightarrow>
     advanceLoop n ports item s w = advanceLoop m ports item s w"
proof (induction n arbitrary: m item s w)
  case 0
  then show ?case
    by (cases "phaseOf item") auto
next
  case (Suc n)
  obtain k where m: "m = Suc k"
    using Suc.prems by (cases m; cases "phaseOf item") auto
  obtain st item1 s1 w1 where step: "advanceItem ports item s w = (st, item1, s1, w1)"
    by (cases "advanceItem ports item s w") auto
  show ?case
    using Suc.IH[of item1 k s1 w1] Suc.prems step advanceItem_stepped[OF step]
    by (cases st) (auto simp: m stepped_def)
qed

lemma advanceLoop_Some:
  "stepsLeft (phaseOf item) \<le> n \<Longrightarrow> advanceLoop n ports item s w = (st, item1, s1, w1) \<Longrightarrow> st \<noteq> None \<and> st \<noteq> Some Moved"
proof (induction n arbitrary: item s w)
  case 0
  then show ?case
    by (cases "phaseOf item") auto
next
  case (Suc n)
  obtain st' item' s' w' where step: "advanceItem ports item s w = (st', item', s', w')"
    by (cases "advanceItem ports item s w") auto
  show ?case
    using Suc.IH[of item' s' w'] Suc.prems step advanceItem_stepped[OF step]
    by (cases st') (auto simp: stepped_def)
qed

text \<open>C39: The guard of eight transitions is never what ends the loop: four are enough, whatever the server answers.\<close>

theorem sync_guard_is_enough:
  "advanceLoop (4 + k) ports item s w = advanceLoop SYNC_GUARD ports item s w \<and>
     fst (advanceLoop SYNC_GUARD ports item s w) \<notin> {None, Some Moved}"
proof -
  have "stepsLeft (phaseOf item) \<le> 4"
    by (cases "phaseOf item") auto
  moreover obtain st item1 s1 w1 where "advanceLoop SYNC_GUARD ports item s w = (st, item1, s1, w1)"
    by (cases "advanceLoop SYNC_GUARD ports item s w") auto
  ultimately show ?thesis
    using advanceLoop_fuel[of item "4 + k" SYNC_GUARD ports s w] advanceLoop_Some[of item SYNC_GUARD ports s w]
    by (auto simp: SYNC_GUARD_def)
qed

lemma advanceLoop_store:
  "advanceLoop n ports item s w = (st, item1, s1, w1) \<Longrightarrow> store_ok s \<Longrightarrow> item \<in> set s \<Longrightarrow>
     store_ok s1 \<and> sameItem item item1 \<and>
     (case st of
        Some (ItemDrained i) \<Rightarrow> i = qi_id item \<and> set s1 = others i s \<and> phaseOf item1 = Drained
      | _ \<Rightarrow> set s1 = insert item1 (others (qi_id item) s))"
proof (induction n arbitrary: item s w)
  case 0
  then show ?case
    by (simp add: insert_others)
next
  case (Suc n)
  obtain st' item' s' w' where step: "advanceItem ports item s w = (st', item', s', w')"
    by (cases "advanceItem ports item s w") auto
  note shape = advanceItem_stepped[OF step]
  show ?case
  proof (cases "st' = Moved")
    case True
    then have put: "s' = storePut item' s" "sameItem item item'"
      using shape by (auto simp: stepped_def)
    then have "item' \<in> set s'" "store_ok s'" "others (qi_id item) s' = others (qi_id item) s"
      using Suc.prems(2) others_put[of s item'] by (auto simp: set_storePut sameItem_def)
    with Suc.IH[of item' s' w'] Suc.prems True step put show ?thesis
      by (auto simp: sameItem_def split: option.splits sync_step.splits)
  next
    case False
    then show ?thesis
      using Suc.prems step shape
      by (cases st') (auto simp: stepped_def set_storePut set_storeRemove sameItem_def others_def)
  qed
qed

section \<open>A pass\<close>

text \<open>\<open>gone\<close>: the ids a stretch of the pass drained; everything else is still there, with the same event and bytes.\<close>

definition conserves :: "queue_store \<Rightarrow> queue_store \<Rightarrow> string list \<Rightarrow> bool" where
  "conserves s s' gone \<longleftrightarrow> distinct gone \<and>
     (\<forall>x \<in> set s. qi_id x \<notin> set gone \<longrightarrow> (\<exists>y \<in> set s'. sameItem x y)) \<and>
     (\<forall>y \<in> set s'. qi_id y \<notin> set gone \<and> (\<exists>x \<in> set s. sameItem x y))"

lemma self_same: "x \<in> A \<Longrightarrow> \<exists>y \<in> A. sameItem x y" "x \<in> A \<Longrightarrow> \<exists>y \<in> A. sameItem y x"
  using sameItem_refl by blast+

lemma conserves_refl: "conserves s s []"
  by (auto simp: conserves_def intro: self_same)

lemma conserves_kept: "conserves s s' g \<Longrightarrow> x \<in> set s \<Longrightarrow> qi_id x \<notin> set g \<Longrightarrow> \<exists>y \<in> set s'. sameItem x y"
  by (simp add: conserves_def)

lemma conserves_from: "conserves s s' g \<Longrightarrow> y \<in> set s' \<Longrightarrow> qi_id y \<notin> set g \<and> (\<exists>x \<in> set s. sameItem x y)"
  by (simp add: conserves_def)

lemma conserves_trans:
  assumes "conserves s s1 g" "conserves s1 s2 h" "set h \<subseteq> qi_id ` set s1"
  shows "conserves s s2 (g @ h)"
proof -
  have "distinct (g @ h)"
    using assms by (fastforce simp: conserves_def)
  moreover have "\<exists>z \<in> set s2. sameItem x z" if x: "x \<in> set s" "qi_id x \<notin> set (g @ h)" for x
  proof -
    obtain y where "y \<in> set s1" "sameItem x y"
      using conserves_kept[OF assms(1) x(1)] x(2) by auto
    moreover have "qi_id y \<notin> set h"
      using \<open>sameItem x y\<close> x by (simp add: sameItem_def)
    ultimately show ?thesis
      using conserves_kept[OF assms(2)] sameItem_trans by blast
  qed
  moreover have "qi_id z \<notin> set (g @ h) \<and> (\<exists>x \<in> set s. sameItem x z)" if z: "z \<in> set s2" for z
  proof -
    obtain y where "y \<in> set s1" "sameItem y z" "qi_id z \<notin> set h"
      using conserves_from[OF assms(2) z] by auto
    moreover obtain x where "x \<in> set s" "sameItem x y" "qi_id y \<notin> set g"
      using conserves_from[OF assms(1)] \<open>y \<in> set s1\<close> by auto
    ultimately show ?thesis
      using sameItem_trans by (metis UnE sameItem_def set_append)
  qed
  ultimately show ?thesis
    by (simp add: conserves_def)
qed

definition drainedBy :: "sync_step option \<Rightarrow> string list" where
  "drainedBy st = (case st of Some (ItemDrained i) \<Rightarrow> [i] | _ \<Rightarrow> [])"

lemma noteStep_simps [queue_simps]:
  "sp_synced (noteStep st p) = sp_synced p @ drainedBy st"
  "sp_synced (notePark item p) = sp_synced p" "sp_synced (noteWake t p) = sp_synced p"
  by (auto simp: noteStep_def notePark_def noteWake_def drainedBy_def split: option.splits sync_step.splits)

lemma advanceLoop_conserves:
  assumes "advanceLoop n ports item s w = (st, item1, s1, w1)" "store_ok s" "item \<in> set s"
  shows "store_ok s1 \<and> conserves s s1 (drainedBy st) \<and> set (drainedBy st) \<subseteq> {qi_id item} \<and>
    others (qi_id item) s \<subseteq> set s1"
proof -
  note laws = advanceLoop_store[OF assms]
  have unique: "x = item" if "x \<in> set s" "qi_id x = qi_id item" for x
    using that assms(3) store_ids_inj[OF assms(2)] by (auto simp: inj_on_def)
  show ?thesis
  proof (cases "\<exists>i. st = Some (ItemDrained i)")
    case True
    then show ?thesis
      using laws unique
      by (auto simp: conserves_def drainedBy_def others_def intro: self_same)
  next
    case False
    then have shape: "drainedBy st = []" "set s1 = insert item1 (others (qi_id item) s)" "store_ok s1" "sameItem item item1"
      using laws by (auto simp: drainedBy_def split: option.splits sync_step.splits)
    have "\<exists>y \<in> set s1. sameItem x y" if "x \<in> set s" for x
      using shape unique[OF that] that by (cases "qi_id x = qi_id item") (auto simp: others_def)
    moreover have "\<exists>x \<in> set s. sameItem x y" if "y \<in> set s1" for y
      using that shape assms(3) by (auto simp: others_def intro: self_same)
    ultimately show ?thesis
      using shape by (auto simp: conserves_def)
  qed
qed

lemma syncItems_conserves:
  assumes "syncItems ports items p s w = (p', s', w')" "store_ok s" "set items \<subseteq> set s" "distinct (map qi_id items)"
  shows "store_ok s' \<and> (\<exists>gone. sp_synced p' = sp_synced p @ gone \<and> set gone \<subseteq> qi_id ` set items \<and> conserves s s' gone)"
  using assms
proof (induction items arbitrary: p s w)
  case Nil
  then show ?case
    by (auto intro: conserves_refl)
next
  case (Cons item items)
  obtain wake w1 where clock: "backingOff ports item w = (wake, w1)"
    by (cases "backingOff ports item w") auto
  show ?case
  proof (cases wake)
    case (Some t)
    with Cons.IH[of "notePark item (noteWake t p)" s w1] Cons.prems clock show ?thesis
      by (auto simp: queue_simps)
  next
    case None
    obtain st item1 s1 w2 where loop: "advanceLoop SYNC_GUARD ports item s w1 = (st, item1, s1, w2)"
      by (cases "advanceLoop SYNC_GUARD ports item s w1") auto
    have laws: "store_ok s1" "conserves s s1 (drainedBy st)" "set (drainedBy st) \<subseteq> {qi_id item}"
      "others (qi_id item) s \<subseteq> set s1"
      using advanceLoop_conserves[OF loop] Cons.prems by auto
    define p1 where "p1 = notePark item1 (noteStep st p)"
    have synced: "sp_synced p1 = sp_synced p @ drainedBy st"
      by (simp add: p1_def queue_simps)
    show ?thesis
    proof (cases "sp_authBlocked p1")
      case True
      then show ?thesis
        using Cons.prems(1) clock None loop laws synced
        by (intro conjI exI[of _ "drainedBy st"]) (auto simp: p1_def Let_def)
    next
      case False
      have rest: "syncItems ports items p1 s1 w2 = (p', s', w')"
        using Cons.prems(1) clock None loop False by (simp add: p1_def Let_def)
      have "set items \<subseteq> set s1"
      proof
      fix t
      assume t: "t \<in> set items"
      then have "qi_id t \<noteq> qi_id item"
        using Cons.prems(4) by (auto simp: image_iff)
      with t Cons.prems(3) laws(4) show "t \<in> set s1"
        by (auto simp: others_def)
    qed
      with Cons.IH[OF rest laws(1)] Cons.prems obtain gone where
        gone: "store_ok s'" "sp_synced p' = sp_synced p1 @ gone" "set gone \<subseteq> qi_id ` set items" "conserves s1 s' gone"
        by auto
      then have "conserves s s' (drainedBy st @ gone)"
        using conserves_trans[OF laws(2) gone(4)] \<open>set items \<subseteq> set s1\<close> by blast
      then show ?thesis
        using gone synced laws(3) by (intro conjI exI[of _ "drainedBy st @ gone"]) auto
    qed
  qed
qed

lemma syncOnce_conserves:
  assumes "syncOnce ports s w = (p, s', w')" "store_ok s"
  shows "store_ok s' \<and> conserves s s' (sp_synced p) \<and> set (sp_synced p) \<subseteq> qi_id ` set s"
proof -
  have "set (pending s) \<subseteq> set s" "distinct (map qi_id (pending s))"
    using assms(2) pending_distinct by auto
  from syncItems_conserves[OF assms(1)[unfolded syncOnce_def] assms(2) this] show ?thesis
    by auto
qed

section \<open>A server that accepts\<close>

definition acksAll :: "'w sync_ports \<Rightarrow> bool" where
  "acksAll ports \<longleftrightarrow> (\<forall>e w. classifyStatus (fst (sendEvent ports e w)) = Ack) \<and>
     (\<forall>d e w. classifyStatus (fst (sendEvidence ports d e w)) = Ack)"

definition readyNow :: "'w sync_ports \<Rightarrow> queue_item \<Rightarrow> bool" where
  "readyNow ports item \<longleftrightarrow> (\<forall>w. fst (backingOff ports item w) = None)"

lemma advanceItem_acked:
  assumes "acksAll ports" "advanceItem ports item s w = (st, item1, s1, w1)"
  shows "st = Moved \<or> st = ItemDrained (qi_id item)"
proof -
  have "classifyStatus status = Ack" if "sendEvent ports e w = (status, w1)" for e status w w1
    using assms(1) that by (metis acksAll_def fst_conv)
  moreover have "classifyStatus status = Ack" if "sendEvidence ports d e w = (status, w1)" for d e status w w1
    using assms(1) that by (metis acksAll_def fst_conv)
  ultimately show ?thesis
    using assms(2)
    by (cases "phaseOf item"; cases "qi_deferred item")
       (auto simp: advanceItem_def sendEventLeg_def drain_def applyResult_def Let_def split: prod.splits)
qed

lemma advanceLoop_acked:
  assumes "acksAll ports" "advanceLoop SYNC_GUARD ports item s w = (st, item1, s1, w1)"
  shows "st = Some (ItemDrained (qi_id item))"
proof -
  have "n \<ge> stepsLeft (phaseOf item) \<Longrightarrow> advanceLoop n ports item s w = (st, item1, s1, w1) \<Longrightarrow>
      st = Some (ItemDrained (qi_id item))" for n
  proof (induction n arbitrary: item s w)
    case 0
    then show ?case
      by (cases "phaseOf item") auto
  next
    case (Suc n)
    obtain st' item' s' w' where step: "advanceItem ports item s w = (st', item', s', w')"
      by (cases "advanceItem ports item s w") auto
    show ?case
      using advanceItem_acked[OF assms(1) step] advanceItem_stepped[OF step] Suc.prems step
        Suc.IH[of item' s' w']
      by (auto simp: stepped_def sameItem_def)
  qed
  moreover have "stepsLeft (phaseOf item) \<le> SYNC_GUARD"
    by (cases "phaseOf item") (auto simp: SYNC_GUARD_def)
  ultimately show ?thesis
    using assms(2) by blast
qed

lemma syncItems_acked:
  assumes "acksAll ports" "\<forall>item \<in> set items. readyNow ports item" "\<not> sp_authBlocked p"
  shows "sp_synced (fst (syncItems ports items p s w)) = sp_synced p @ map qi_id items \<and>
    \<not> sp_authBlocked (fst (syncItems ports items p s w))"
  using assms(2,3)
proof (induction items arbitrary: p s w)
  case (Cons item items)
  obtain w1 where clock: "backingOff ports item w = (None, w1)"
    using Cons.prems(1) by (metis list.set_intros(1) prod.collapse readyNow_def)
  obtain st item1 s1 w2 where loop: "advanceLoop SYNC_GUARD ports item s w1 = (st, item1, s1, w2)"
    by (cases "advanceLoop SYNC_GUARD ports item s w1") auto
  have st: "st = Some (ItemDrained (qi_id item))"
    by (rule advanceLoop_acked[OF assms(1) loop])
  then have "\<not> sp_authBlocked (notePark item1 (noteStep st p))"
    using Cons.prems(2) by (simp add: noteStep_def notePark_def)
  with Cons.IH[of "notePark item1 (noteStep st p)" s1 w2] Cons.prems clock loop st show ?case
    by (simp add: Let_def queue_simps drainedBy_def)
qed simp

theorem accepting_server_drains_the_queue:
  assumes "store_ok s" "acksAll ports" "\<forall>item \<in> set s. readyNow ports item"
    "syncOnce ports s w = (p, s', w')"
  shows "s' = [] \<and> sp_synced p = map qi_id (pending s) \<and> \<not> sp_authBlocked p"
proof -
  have all: "sp_synced p = map qi_id (pending s) \<and> \<not> sp_authBlocked p"
    using syncItems_acked[where ports=ports and items="pending s" and s=s and w=w and
        p="\<lparr> sp_synced = [], sp_authBlocked = False, sp_nextWake = None, sp_parked = 0 \<rparr>"] assms(2-4)
    by (simp add: syncOnce_def)
  moreover have "s' = []"
  proof (rule ccontr)
    assume "s' \<noteq> []"
    then obtain y where "y \<in> set s'"
      by (cases s') auto
    then obtain x where "x \<in> set s" "sameItem x y" "qi_id y \<notin> set (sp_synced p)"
      using syncOnce_conserves[OF assms(4,1)] conserves_from by metis
    then have "qi_id y \<in> set (sp_synced p)"
      using all by (simp add: sameItem_def rev_image_eqI)
    then show False
      using \<open>qi_id y \<notin> set (sp_synced p)\<close> by simp
  qed
  ultimately show ?thesis
    by blast
qed

section \<open>The contract of the server\<close>

definition serverKeeps ::
  "('w \<Rightarrow> bool) \<Rightarrow> ('w \<Rightarrow> payload event_input \<Rightarrow> bool) \<Rightarrow> ('w \<Rightarrow> deferred_upload \<Rightarrow> payload event_input \<Rightarrow> bool) \<Rightarrow>
   'w \<Rightarrow> 'w \<Rightarrow> bool" where
  "serverKeeps fits has holds w w1 \<longleftrightarrow>
     (fits w \<longrightarrow> fits w1 \<and> (\<forall>e. has w e \<longrightarrow> has w1 e) \<and> (\<forall>d e. holds w d e \<longrightarrow> holds w1 d e))"

lemma serverKeeps_refl [simp]: "serverKeeps fits has holds w w"
  by (simp add: serverKeeps_def)

lemma serverKeeps_trans:
  "serverKeeps fits has holds w w1 \<Longrightarrow> serverKeeps fits has holds w1 w2 \<Longrightarrow> serverKeeps fits has holds w w2"
  by (auto simp: serverKeeps_def)

text \<open>What an item's phase claims about the server.\<close>

definition phaseHolds ::
  "('w \<Rightarrow> payload event_input \<Rightarrow> bool) \<Rightarrow> ('w \<Rightarrow> deferred_upload \<Rightarrow> payload event_input \<Rightarrow> bool) \<Rightarrow> 'w \<Rightarrow> queue_item \<Rightarrow> bool" where
  "phaseHolds has holds w item \<longleftrightarrow>
     (phaseOf item \<in> {EventAcked, EvidencePending, EvidenceAcked, Drained} \<longrightarrow> has w (qi_event item)) \<and>
     (phaseOf item \<in> {EvidenceAcked, Drained} \<longrightarrow> (\<forall>d. qi_deferred item = Some d \<longrightarrow> holds w d (qi_event item)))"

definition delivered ::
  "('w \<Rightarrow> payload event_input \<Rightarrow> bool) \<Rightarrow> ('w \<Rightarrow> deferred_upload \<Rightarrow> payload event_input \<Rightarrow> bool) \<Rightarrow> 'w \<Rightarrow> queue_item \<Rightarrow> bool" where
  "delivered has holds w item \<longleftrightarrow> has w (qi_event item) \<and> (\<forall>d. qi_deferred item = Some d \<longrightarrow> holds w d (qi_event item))"

lemma phaseHolds_mono: "phaseHolds has holds w item \<Longrightarrow> fits w \<Longrightarrow> serverKeeps fits has holds w w1 \<Longrightarrow> phaseHolds has holds w1 item"
  by (auto simp: phaseHolds_def serverKeeps_def)

lemma delivered_mono: "delivered has holds w item \<Longrightarrow> fits w \<Longrightarrow> serverKeeps fits has holds w w1 \<Longrightarrow> delivered has holds w1 item"
  by (auto simp: delivered_def serverKeeps_def)

lemma delivered_same: "sameItem x y \<Longrightarrow> delivered has holds w x = delivered has holds w y"
  by (simp add: delivered_def sameItem_def)

locale device_server =
  fixes ports :: "'w sync_ports"
    and fits :: "'w \<Rightarrow> bool"
    and has :: "'w \<Rightarrow> payload event_input \<Rightarrow> bool"
    and holds :: "'w \<Rightarrow> deferred_upload \<Rightarrow> payload event_input \<Rightarrow> bool"
  assumes event_acked: "fits w \<Longrightarrow> sendEvent ports e w = (status, w1) \<Longrightarrow> classifyStatus status = Ack \<Longrightarrow> has w1 e"
    and evidence_acked: "fits w \<Longrightarrow> sendEvidence ports d e w = (status, w1) \<Longrightarrow> classifyStatus status = Ack \<Longrightarrow> holds w1 d e"
    and event_keeps: "serverKeeps fits has holds w (snd (sendEvent ports e w))"
    and evidence_keeps: "serverKeeps fits has holds w (snd (sendEvidence ports d e w))"
    and clock_keeps: "serverKeeps fits has holds w (snd (clock ports w))"
    and draw_keeps: "serverKeeps fits has holds w (snd (draw ports w))"
begin

lemma keeps_ports:
  "sendEvent ports e w = (status, w1) \<Longrightarrow> serverKeeps fits has holds w w1"
  "sendEvidence ports d e w = (status, w1) \<Longrightarrow> serverKeeps fits has holds w w1"
  "clock ports w = (t, w1) \<Longrightarrow> serverKeeps fits has holds w w1"
  "draw ports w = (r, w1) \<Longrightarrow> serverKeeps fits has holds w w1"
  using event_keeps[of w e] evidence_keeps[of w d e] clock_keeps[of w] draw_keeps[of w] by auto

lemma applyResult_keeps: "applyResult ports item l status s w = (st, item1, s1, w1) \<Longrightarrow> serverKeeps fits has holds w w1"
  by (cases "classifyStatus status")
     (auto simp: applyResult_def Let_def split: prod.splits dest!: keeps_ports intro: serverKeeps_trans)

lemma applyResult_phase:
  "applyResult ports item l status s w = (st, item1, s1, w1) \<Longrightarrow>
     phaseOf item1 = (if classifyStatus status = Ack then ackedPhase l else pendingPhase l) \<and> sameItem item item1"
  by (cases "classifyStatus status") (auto simp: applyResult_def Let_def split: prod.splits)

lemma advanceItem_settles:
  assumes "advanceItem ports item s w = (st, item1, s1, w1)" "fits w" "phaseHolds has holds w item"
  shows "serverKeeps fits has holds w w1 \<and> phaseHolds has holds w1 item1"
proof -
  have event: ?thesis if "sendEventLeg ports item s w = (st, item1, s1, w1)"
  proof -
    obtain status w2 where send: "sendEvent ports (qi_event item) w = (status, w2)"
      by (cases "sendEvent ports (qi_event item) w") auto
    with that have res: "applyResult ports item EventLeg status s w2 = (st, item1, s1, w1)"
      by (simp add: sendEventLeg_def)
    have keeps: "serverKeeps fits has holds w w2" "serverKeeps fits has holds w2 w1"
      using keeps_ports(1)[OF send] applyResult_keeps[OF res] .
    have "has w1 (qi_event item)" if "classifyStatus status = Ack"
      using event_acked[OF assms(2) send that] keeps assms(2) by (simp add: serverKeeps_def)
    then show ?thesis
      using applyResult_phase[OF res] serverKeeps_trans[OF keeps] by (auto simp: phaseHolds_def sameItem_def)
  qed
  have evid: ?thesis if "qi_deferred item = Some d" "phaseOf item = EvidencePending" for d
  proof -
    obtain status w2 where send: "sendEvidence ports d (qi_event item) w = (status, w2)"
      by (cases "sendEvidence ports d (qi_event item) w") auto
    with that assms have res: "applyResult ports item EvidenceLeg status s w2 = (st, item1, s1, w1)"
      by (simp add: advanceItem_def)
    have keeps: "serverKeeps fits has holds w w2" "serverKeeps fits has holds w2 w1"
      using keeps_ports(2)[OF send] applyResult_keeps[OF res] .
    have "holds w1 d (qi_event item)" if "classifyStatus status = Ack"
      using evidence_acked[OF assms(2) send that] keeps assms(2) by (simp add: serverKeeps_def)
    moreover have "has w1 (qi_event item)"
      using assms(2,3) that(2) serverKeeps_trans[OF keeps] by (simp add: phaseHolds_def serverKeeps_def)
    ultimately show ?thesis
      using applyResult_phase[OF res] serverKeeps_trans[OF keeps] that(1) by (auto simp: phaseHolds_def sameItem_def)
  qed
  show ?thesis
    using assms event evid
    by (cases "phaseOf item"; cases "qi_deferred item")
       (auto simp: advanceItem_def drain_def phaseHolds_def Let_def)
qed

lemma advanceLoop_settles:
  "advanceLoop n ports item s w = (st, item1, s1, w1) \<Longrightarrow> fits w \<Longrightarrow> phaseHolds has holds w item \<Longrightarrow>
     serverKeeps fits has holds w w1 \<and> phaseHolds has holds w1 item1"
proof (induction n arbitrary: item s w)
  case (Suc n)
  obtain st' item' s' w' where step: "advanceItem ports item s w = (st', item', s', w')"
    by (cases "advanceItem ports item s w") auto
  note settles = advanceItem_settles[OF step Suc.prems(2,3)]
  then have fits: "fits w'"
    using Suc.prems(2) by (simp add: serverKeeps_def)
  show ?case
  proof (cases "st' = Moved")
    case True
    with Suc.IH[of item' s' w'] Suc.prems step settles fits show ?thesis
      by (auto intro: serverKeeps_trans)
  next
    case False
    with Suc.prems step settles show ?thesis
      by (cases st') auto
  qed
qed simp

lemma backingOff_keeps: "backingOff ports item w = (r, w1) \<Longrightarrow> serverKeeps fits has holds w w1"
  by (auto simp: backingOff_def Let_def split: option.splits prod.splits dest!: keeps_ports(3))

lemma syncItems_settles:
  assumes "syncItems ports items p s w = (p', s', w')" "store_ok s" "set items \<subseteq> set s" "distinct (map qi_id items)"
    "\<forall>x \<in> set s. phaseHolds has holds w x" "fits w"
  shows "serverKeeps fits has holds w w' \<and> (\<forall>y \<in> set s'. phaseHolds has holds w' y) \<and>
    (\<forall>x \<in> set s. qi_id x \<in> set (sp_synced p') \<longrightarrow> qi_id x \<in> set (sp_synced p) \<or> delivered has holds w' x)"
  using assms
proof (induction items arbitrary: p s w)
  case (Cons item items)
  obtain wake w1 where clock: "backingOff ports item w = (wake, w1)"
    by (cases "backingOff ports item w") auto
  note keeps1 = backingOff_keeps[OF clock]
  have fits1: "fits w1"
    using keeps1 Cons.prems(6) by (simp add: serverKeeps_def)
  have settled1: "\<forall>x \<in> set s. phaseHolds has holds w1 x"
    using Cons.prems(5) by (auto intro: phaseHolds_mono[OF _ Cons.prems(6) keeps1])
  show ?case
  proof (cases wake)
    case (Some t)
    with Cons.IH[of "notePark item (noteWake t p)" s w1] Cons.prems clock settled1 keeps1 fits1 show ?thesis
      by (auto simp: queue_simps intro: serverKeeps_trans)
  next
    case None
    obtain st item1 s1 w2 where loop: "advanceLoop SYNC_GUARD ports item s w1 = (st, item1, s1, w2)"
      by (cases "advanceLoop SYNC_GUARD ports item s w1") auto
    have item: "item \<in> set s" "phaseHolds has holds w1 item"
      using Cons.prems(3) settled1 by auto
    note store = advanceLoop_store[OF loop Cons.prems(2) item(1)]
    have keeps2: "serverKeeps fits has holds w1 w2" and now: "phaseHolds has holds w2 item1"
      using advanceLoop_settles[OF loop fits1 item(2)] by auto
    have fits2: "fits w2"
      using keeps2 fits1 by (simp add: serverKeeps_def)
    have settled2: "\<forall>x \<in> set s1. phaseHolds has holds w2 x"
      using store now settled1
      by (auto simp: others_def intro: phaseHolds_mono[OF _ fits1 keeps2] split: option.splits sync_step.splits)
    have unique: "x = item" if "x \<in> set s" "qi_id x = qi_id item" for x
      using that item(1) store_ids_inj[OF Cons.prems(2)] by (auto simp: inj_on_def)
    have drained: "delivered has holds w2 x" if "qi_id x \<in> set (drainedBy st)" "x \<in> set s" for x
      using that store now unique[OF that(2)]
      by (auto simp: drainedBy_def delivered_def phaseHolds_def sameItem_def split: option.splits sync_step.splits)
    define p1 where "p1 = notePark item1 (noteStep st p)"
    have synced: "sp_synced p1 = sp_synced p @ drainedBy st"
      by (simp add: p1_def queue_simps)
    show ?thesis
    proof (cases "sp_authBlocked p1")
      case True
      then show ?thesis
        using Cons.prems(1) clock None loop settled2 synced serverKeeps_trans[OF keeps1 keeps2] drained
        by (auto simp: p1_def Let_def)
    next
      case False
      have rest: "syncItems ports items p1 s1 w2 = (p', s', w')"
        using Cons.prems(1) clock None loop False by (simp add: p1_def Let_def)
      have sub: "set items \<subseteq> set s1"
        using advanceLoop_conserves[OF loop Cons.prems(2) item(1)] Cons.prems(3,4)
        by (auto simp: others_def image_iff subset_iff)
      note IH = Cons.IH[OF rest _ sub _ settled2 fits2]
      have ih: "serverKeeps fits has holds w2 w'" "\<forall>y \<in> set s'. phaseHolds has holds w' y"
        "\<And>x. x \<in> set s1 \<Longrightarrow> qi_id x \<in> set (sp_synced p') \<Longrightarrow>
          qi_id x \<in> set (sp_synced p1) \<or> delivered has holds w' x"
        using IH store Cons.prems(4) by auto
      have "qi_id x \<in> set (sp_synced p) \<or> delivered has holds w' x"
        if x: "x \<in> set s" "qi_id x \<in> set (sp_synced p')" for x
      proof (cases "qi_id x \<in> set (drainedBy st)")
        case True
        then show ?thesis
          using delivered_mono[OF drained[OF True x(1)] fits2 ih(1)] by simp
      next
        case False
        then obtain y where "y \<in> set s1" "sameItem x y"
          using advanceLoop_conserves[OF loop Cons.prems(2) item(1)] conserves_kept x(1) by blast
        with ih(3)[of y] x(2) False synced delivered_same[of x y has holds w'] show ?thesis
          by (auto simp: sameItem_def)
      qed
      then show ?thesis
        using ih(2) serverKeeps_trans[OF keeps1 serverKeeps_trans[OF keeps2 ih(1)]] by auto
    qed
  qed
qed simp

theorem syncOnce_settles:
  assumes "syncOnce ports s w = (p, s', w')" "store_ok s" "\<forall>x \<in> set s. phaseHolds has holds w x" "fits w"
  shows "fits w' \<and> store_ok s' \<and> (\<forall>y \<in> set s'. phaseHolds has holds w' y) \<and> serverKeeps fits has holds w w' \<and>
    (\<forall>x \<in> set s. (\<exists>y \<in> set s'. sameItem x y) \<or> delivered has holds w' x)"
proof -
  have "set (pending s) \<subseteq> set s" "distinct (map qi_id (pending s))"
    using assms(2) pending_distinct by auto
  note run = syncItems_settles[OF assms(1)[unfolded syncOnce_def] assms(2) this assms(3,4)]
  note whole = syncOnce_conserves[OF assms(1,2)]
  have "(\<exists>y \<in> set s'. sameItem x y) \<or> delivered has holds w' x" if "x \<in> set s" for x
    using whole run conserves_kept[of s s' "sp_synced p" x] that by (cases "qi_id x \<in> set (sp_synced p)") auto
  then show ?thesis
    using whole run assms(4) by (auto simp: serverKeeps_def)
qed

end

section \<open>Backoff\<close>



end
