(* ===== verification/Rater.thy ===== *)
theory Rater
  imports Money
begin

text \<open>
  \<open>packages/rater/src\<close>: the freight core (\<open>engine.ts\<close>), the composer (\<open>compose.ts\<close>), the three
  floors (\<open>floors.ts\<close>), the price-per-pound net (\<open>anomaly.ts\<close>), the transit window
  (\<open>transit.ts\<close>) and the entry point \<open>priceShipment\<close> (\<open>price.ts\<close>). The tariff shapes are those of
  \<open>packages/contracts/src/rating.ts\<close>; \<open>schema_tariff\<close> and its siblings are the refinements that
  the contract's parsers enforce. A JavaScript object used as a dictionary is an association list;
  the lookup by \<open>Object.hasOwn\<close> is \<open>map_of\<close>.
\<close>

section \<open>Data\<close>

datatype unknown_reason = MissingPhysics | NoZone | NoRateGroup

datatype rater_error =
    BreaksNotAscending string int int
  | NoBreaks string
  | MoneyError money_error
  | BadFreight
  | UnknownAccessorial string
  | BadCost
  | LadderNotMonotonic int int int
  | BadCap
  | BadSell
  | BadWeight
  | MissingWeight
  | BadEvaluated
  | BadGross
  | BadLegSplit string
  | SplitNotWhole int
  | LegsWithoutTenant
  | TenantWithoutLegs
  | UnknownCell string unknown_reason
  | BadTemplateParam string

definition money :: "money_error + 'a \<Rightarrow> rater_error + 'a" where
  "money r = (case r of Inl e \<Rightarrow> Inl (MoneyError e) | Inr x \<Rightarrow> Inr x)"

lemma money_simps [simp]:
  "money (Inr x) = Inr x" "money (Inl e) = Inl (MoneyError e)"
  "money r = Inr y \<longleftrightarrow> r = Inr y"
  by (auto simp: money_def split: sum.splits)

record dims =
  l_in :: jsnum
  w_in :: jsnum
  h_in :: jsnum
  pieces :: jsnum

record shipment_physics =
  origin_zip :: string
  dest_zip :: string
  weight_lb :: "jsnum option"
  shipment_dims :: "dims option"

record rate_request = shipment_physics +
  accessorials :: "string list option"

record rate_break =
  min_lb :: int
  cwt_cents :: int

record rate_group =
  rg_id :: string
  zones :: "string list"
  breaks :: "rate_break list"
  min_charge_cents :: int

record zone_tariff =
  zt_id :: string
  zt_version :: string
  zip_to_zone :: "(string \<times> string) list"
  rate_groups :: "rate_group list"

record floors_config =
  fl_id :: string
  fl_version :: string
  target_or_bps :: int
  full_cost_bps :: int
  contribution_bps :: int

record fsc_config =
  fsc_id :: string
  fsc_version :: string
  pct_bps :: int

record accessorial_schedule =
  as_id :: string
  as_version :: string
  as_items :: "(string \<times> int) list"

record transit_matrix =
  tm_id :: string
  tm_version :: string
  days :: "(string \<times> (string \<times> int) list) list"
  default_days :: "int option"

record freight_basis =
  fb_zone :: string
  rate_group_id :: string
  matched_zip_prefix :: string
  as_rated_lb :: int
  applied_cwt_cents :: int
  min_charge_applied :: bool

datatype freight_result =
    FreightUnknown unknown_reason
  | FreightPriced (freight_cents: int) (freight_basis: freight_basis)

section \<open>The contract's refinements\<close>

definition MAX_CWT_CENTS :: int where "MAX_CWT_CENTS = 10000000"
definition MAX_CONFIG_CENTS :: int where "MAX_CONFIG_CENTS = 1000000000"
definition MAX_REQUEST_ACCESSORIALS :: nat where "MAX_REQUEST_ACCESSORIALS = 32"
definition MAX_WEIGHT_LB :: int where "MAX_WEIGHT_LB = 1000000"

definition is_bps :: "int \<Rightarrow> bool" where
  "is_bps b = (0 \<le> b \<and> b \<le> 10000)"

definition is_safe :: "int \<Rightarrow> bool" where
  "is_safe n = (- MAX_SAFE \<le> n \<and> n \<le> MAX_SAFE)"

definition schema_break :: "rate_break \<Rightarrow> bool" where
  "schema_break b = (is_safe (min_lb b) \<and> 0 \<le> cwt_cents b \<and> cwt_cents b \<le> MAX_CWT_CENTS)"

definition schema_group :: "rate_group \<Rightarrow> bool" where
  "schema_group g = (rg_id g \<noteq> [] \<and> zones g \<noteq> [] \<and> breaks g \<noteq> [] \<and> list_all schema_break (breaks g) \<and>
     0 \<le> min_charge_cents g \<and> min_charge_cents g \<le> MAX_CONFIG_CENTS)"

definition zip_key :: "string \<Rightarrow> bool" where
  "zip_key k = (list_all (\<lambda>c. CHR ''0'' \<le> c \<and> c \<le> CHR ''9'') k \<and> 3 \<le> length k \<and> length k \<le> 5)"

definition schema_tariff :: "zone_tariff \<Rightarrow> bool" where
  "schema_tariff t = (zt_id t \<noteq> [] \<and> zt_version t \<noteq> [] \<and> rate_groups t \<noteq> [] \<and>
     list_all schema_group (rate_groups t) \<and>
     distinct (map fst (zip_to_zone t)) \<and> list_all (\<lambda>(k, _). zip_key k) (zip_to_zone t))"

definition schema_floors :: "floors_config \<Rightarrow> bool" where
  "schema_floors f = (fl_id f \<noteq> [] \<and> fl_version f \<noteq> [] \<and>
     is_bps (target_or_bps f) \<and> is_bps (full_cost_bps f) \<and> is_bps (contribution_bps f) \<and>
     contribution_bps f \<le> full_cost_bps f \<and> full_cost_bps f \<le> target_or_bps f)"

definition schema_fsc :: "fsc_config \<Rightarrow> bool" where
  "schema_fsc f = (fsc_id f \<noteq> [] \<and> fsc_version f \<noteq> [] \<and> is_bps (pct_bps f))"

definition schema_accessorials :: "accessorial_schedule \<Rightarrow> bool" where
  "schema_accessorials s = (as_id s \<noteq> [] \<and> as_version s \<noteq> [] \<and> distinct (map fst (as_items s)) \<and>
     list_all (\<lambda>(_, c). 0 \<le> c \<and> c \<le> MAX_CONFIG_CENTS) (as_items s))"

section \<open>The freight core (\<open>engine.ts\<close>)\<close>

definition startsWith :: "string \<Rightarrow> string \<Rightarrow> bool" where
  "startsWith s p = (take (length p) s = p)"

fun matchZoneFrom ::
  "string \<Rightarrow> (string \<times> string) list \<Rightarrow> (string \<times> string) option \<Rightarrow> (string \<times> string) option" where
  "matchZoneFrom zipcode [] best = best"
| "matchZoneFrom zipcode ((prefix, zone) # rest) best =
     (if \<not> startsWith zipcode prefix then matchZoneFrom zipcode rest best
      else case best of
          None \<Rightarrow> matchZoneFrom zipcode rest (Some (prefix, zone))
        | Some (p, z) \<Rightarrow>
            matchZoneFrom zipcode rest
              (if length prefix > length p then Some (prefix, zone) else Some (p, z)))"

definition matchZone :: "string \<Rightarrow> (string \<times> string) list \<Rightarrow> (string \<times> string) option" where
  "matchZone zipcode zipToZone = matchZoneFrom zipcode zipToZone None"

definition CWT :: int where "CWT = 100"

definition positiveInt :: "jsnum \<Rightarrow> bool" where
  "positiveInt x = (case x of Whole n \<Rightarrow> n > 0 | Fractional \<Rightarrow> False)"

fun checkAscending :: "string \<Rightarrow> rate_break list \<Rightarrow> rater_error + unit" where
  "checkAscending gid (prev # cur # rest) =
     (if min_lb cur \<le> min_lb prev then Inl (BreaksNotAscending gid (min_lb prev) (min_lb cur))
      else checkAscending gid (cur # rest))"
| "checkAscending gid _ = Inr ()"

record winner =
  charge :: int
  ratedLb :: int
  cwtCents :: int

definition break_charge :: "int \<Rightarrow> rate_break \<Rightarrow> rater_error + int" where
  "break_charge weight b =
     money (mulDivHalfUp (Whole (max weight (min_lb b))) (Whole (cwt_cents b)) (Whole CWT))"

fun cheapestBreak :: "int \<Rightarrow> rate_break list \<Rightarrow> winner option \<Rightarrow> rater_error + winner option" where
  "cheapestBreak weight [] w = Inr w"
| "cheapestBreak weight (b # bs) w =
     ebind (break_charge weight b) (\<lambda>c.
       let this = \<lparr> charge = c, ratedLb = max weight (min_lb b), cwtCents = cwt_cents b \<rparr>
       in cheapestBreak weight bs
            (case w of None \<Rightarrow> Some this
             | Some old \<Rightarrow> if c < charge old then Some this else Some old))"

definition measured :: "shipment_physics \<Rightarrow> int option" where
  "measured s =
     (case weight_lb s of
        Some (Whole w) \<Rightarrow>
          if w \<le> 0 then None
          else (case shipment_dims s of
              None \<Rightarrow> None
            | Some d \<Rightarrow> if list_all positiveInt [l_in d, w_in d, h_in d, pieces d] then Some w else None)
      | _ \<Rightarrow> None)"

definition priceFreight :: "shipment_physics \<Rightarrow> zone_tariff \<Rightarrow> rater_error + freight_result" where
  "priceFreight shipment tariff =
     (case measured shipment of
        None \<Rightarrow> Inr (FreightUnknown MissingPhysics)
      | Some weight \<Rightarrow>
     (case matchZone (dest_zip shipment) (zip_to_zone tariff) of
        None \<Rightarrow> Inr (FreightUnknown NoZone)
      | Some (prefix, zone) \<Rightarrow>
     (case find (\<lambda>g. zone \<in> set (zones g)) (rate_groups tariff) of
        None \<Rightarrow> Inr (FreightUnknown NoRateGroup)
      | Some grp \<Rightarrow>
          ebind (checkAscending (rg_id grp) (breaks grp)) (\<lambda>_.
          ebind (cheapestBreak weight (breaks grp) None) (\<lambda>best.
            case best of
              None \<Rightarrow> Inl (NoBreaks (rg_id grp))
            | Some w \<Rightarrow>
                let minCharge = min_charge_cents grp; asRated = charge w
                in Inr (FreightPriced (max asRated minCharge)
                     \<lparr> fb_zone = zone, rate_group_id = rg_id grp, matched_zip_prefix = prefix,
                       as_rated_lb = ratedLb w, applied_cwt_cents = cwtCents w,
                       min_charge_applied = (minCharge > asRated) \<rparr>))))))"

section \<open>The composer (\<open>compose.ts\<close>)\<close>

datatype price_line_kind = FreightLine | FscLine | AccessorialLine

record price_line =
  pl_kind :: price_line_kind
  pl_code :: string
  amount_cents :: int

record composed =
  co_lines :: "price_line list"
  co_sell_cents :: int

fun unknownAccessorialsFrom :: "string list \<Rightarrow> (string \<times> int) list \<Rightarrow> string list \<Rightarrow> string list" where
  "unknownAccessorialsFrom seen items [] = []"
| "unknownAccessorialsFrom seen items (code # rest) =
     (if code \<in> set seen then unknownAccessorialsFrom seen items rest
      else (if map_of items code = None then [code] else []) @
           unknownAccessorialsFrom (code # seen) items rest)"

definition unknownAccessorials :: "string list \<Rightarrow> accessorial_schedule \<Rightarrow> string list" where
  "unknownAccessorials requested s = unknownAccessorialsFrom [] (as_items s) requested"

fun accessorialLines ::
  "string list \<Rightarrow> (string \<times> int) list \<Rightarrow> string list \<Rightarrow> rater_error + price_line list" where
  "accessorialLines seen items [] = Inr []"
| "accessorialLines seen items (code # rest) =
     (if code \<in> set seen then accessorialLines seen items rest
      else case map_of items code of
          None \<Rightarrow> Inl (UnknownAccessorial code)
        | Some amount \<Rightarrow>
            ebind (accessorialLines (code # seen) items rest) (\<lambda>ls.
              Inr ((if amount > 0
                    then [\<lparr> pl_kind = AccessorialLine, pl_code = code, amount_cents = amount \<rparr>]
                    else []) @ ls)))"

definition BPS_DIVISOR :: int where "BPS_DIVISOR = 10000"

definition compose ::
  "jsnum \<Rightarrow> string list \<Rightarrow> fsc_config \<Rightarrow> accessorial_schedule \<Rightarrow> rater_error + composed" where
  "compose freightCents requested fsc schedule =
     ebind (asWhole BadFreight freightCents) (\<lambda>freight.
     ebind (require (\<not> freight < 0) BadFreight) (\<lambda>_.
     ebind (money (mulDivHalfUp (Whole freight) (Whole (pct_bps fsc)) (Whole BPS_DIVISOR))) (\<lambda>fscCents.
     ebind (accessorialLines [] (as_items schedule) requested) (\<lambda>acc.
       let ls = (if freight > 0
                 then [\<lparr> pl_kind = FreightLine, pl_code = ''freight'', amount_cents = freight \<rparr>] else []) @
                (if fscCents > 0
                 then [\<lparr> pl_kind = FscLine, pl_code = ''fsc'', amount_cents = fscCents \<rparr>] else []) @
                sort_key pl_code acc
       in Inr \<lparr> co_lines = ls, co_sell_cents = sum_list (map amount_cents ls) \<rparr>))))"

section \<open>The floors (\<open>floors.ts\<close>)\<close>

record floors =
  contribution :: int
  full :: int
  target :: int

definition computeFloors :: "jsnum \<Rightarrow> floors_config \<Rightarrow> rater_error + floors" where
  "computeFloors costCents cfg =
     ebind (asWhole BadCost costCents) (\<lambda>cost.
     ebind (require (\<not> cost < 0) BadCost) (\<lambda>_.
     ebind (money (mulDivHalfUp (Whole cost) (Whole (contribution_bps cfg)) (Whole BPS_DIVISOR))) (\<lambda>c.
     ebind (money (mulDivHalfUp (Whole cost) (Whole (full_cost_bps cfg)) (Whole BPS_DIVISOR))) (\<lambda>f.
     ebind (money (mulDivHalfUp (Whole cost) (Whole (target_or_bps cfg)) (Whole BPS_DIVISOR))) (\<lambda>t.
       if c > f \<or> f > t then Inl (LadderNotMonotonic c f t)
       else Inr \<lparr> contribution = c, full = f, target = t \<rparr>)))))"

section \<open>The anomaly net (\<open>anomaly.ts\<close>)\<close>

definition DEFAULT_MAX_CENTS_PER_LB :: int where "DEFAULT_MAX_CENTS_PER_LB = 200000"

datatype anomaly_flag =
    Negative int
  | OverPerLb (per_lb_cents: int) (cap_cents_per_lb: int)

definition detectAnomaly :: "jsnum \<Rightarrow> jsnum \<Rightarrow> jsnum option \<Rightarrow> rater_error + anomaly_flag option" where
  "detectAnomaly sell weight maxCentsPerLb =
     (let cap = (case maxCentsPerLb of None \<Rightarrow> Whole DEFAULT_MAX_CENTS_PER_LB | Some c \<Rightarrow> c) in
      ebind (asWhole BadCap cap) (\<lambda>c.
      ebind (require (\<not> c \<le> 0) BadCap) (\<lambda>_.
      ebind (asWhole BadSell sell) (\<lambda>s.
      ebind (asWhole BadWeight weight) (\<lambda>w.
      ebind (require (\<not> w \<le> 0) BadWeight) (\<lambda>_.
        if s < 0 then Inr (Some (Negative s))
        else let threshold = c * w
             in if s > threshold
                then ebind (money (roundHalfUp (Whole s) (Whole w))) (\<lambda>per_lb.
                       Inr (Some (OverPerLb per_lb c)))
                else Inr None))))))"

section \<open>The transit window (\<open>transit.ts\<close>)\<close>

datatype transit_result = Known int | Unknown

definition resolveTransitDays ::
  "string \<Rightarrow> string \<Rightarrow> transit_matrix \<Rightarrow> zone_tariff \<Rightarrow> transit_result" where
  "resolveTransitDays originZip destZip matrix zoneTariff =
     (case (matchZone originZip (zip_to_zone zoneTariff), matchZone destZip (zip_to_zone zoneTariff)) of
        (Some (_, oz), Some (_, dz)) \<Rightarrow>
          (case Option.bind (map_of (days matrix) oz) (\<lambda>row. map_of row dz) of
             Some lane \<Rightarrow> Known lane
           | None \<Rightarrow> (case default_days matrix of Some d \<Rightarrow> Known d | None \<Rightarrow> Unknown))
      | _ \<Rightarrow> Unknown)"

section \<open>The entry point (\<open>price.ts\<close>)\<close>

record tenant_rating_config =
  cfg_zone_tariff :: zone_tariff
  cfg_floors :: floors_config
  cfg_fsc :: fsc_config
  cfg_accessorials :: accessorial_schedule

record quote_basis =
  qb_freight :: freight_basis
  qb_cost_cents :: int
  qb_contribution_bps :: int
  qb_full_cost_bps :: int
  qb_target_or_bps :: int
  requested_accessorials :: "string list"

record priced_quote =
  sell_cents :: int
  lines :: "price_line list"
  quote_floors :: floors
  cost_cents :: int
  rate_config_ids :: "string list"
  basis :: quote_basis
  anomaly :: "anomaly_flag option"

datatype quote_result =
    QuoteUnknown unknown_reason
  | Priced priced_quote

definition pin :: "string \<Rightarrow> string \<Rightarrow> string" where
  "pin cid version = cid @ ''@'' @ version"

definition costBasis :: "int \<Rightarrow> tenant_rating_config \<Rightarrow> int" where
  "costBasis freight config = freight"

definition request_physics :: "rate_request \<Rightarrow> shipment_physics" where
  "request_physics r = \<lparr> origin_zip = origin_zip r, dest_zip = dest_zip r, weight_lb = weight_lb r,
     shipment_dims = shipment_dims r \<rparr>"

definition requested :: "rate_request \<Rightarrow> string list" where
  "requested r = (case accessorials r of None \<Rightarrow> [] | Some cs \<Rightarrow> cs)"

definition priceShipment :: "rate_request \<Rightarrow> tenant_rating_config \<Rightarrow> rater_error + quote_result" where
  "priceShipment request config =
     ebind (priceFreight (request_physics request) (cfg_zone_tariff config)) (\<lambda>freight.
     case freight of
       FreightUnknown reason \<Rightarrow> Inr (QuoteUnknown reason)
     | FreightPriced cents fb \<Rightarrow>
         ebind (compose (Whole cents) (requested request) (cfg_fsc config) (cfg_accessorials config))
           (\<lambda>composed.
         let cost = costBasis cents config in
         ebind (computeFloors (Whole cost) (cfg_floors config)) (\<lambda>fl.
         let ids = uniq [pin (zt_id (cfg_zone_tariff config)) (zt_version (cfg_zone_tariff config)),
                         pin (fl_id (cfg_floors config)) (fl_version (cfg_floors config)),
                         pin (fsc_id (cfg_fsc config)) (fsc_version (cfg_fsc config)),
                         pin (as_id (cfg_accessorials config)) (as_version (cfg_accessorials config))];
             b = \<lparr> qb_freight = fb, qb_cost_cents = cost,
                   qb_contribution_bps = contribution_bps (cfg_floors config),
                   qb_full_cost_bps = full_cost_bps (cfg_floors config),
                   qb_target_or_bps = target_or_bps (cfg_floors config),
                   requested_accessorials = requested request \<rparr>
         in case weight_lb request of
              None \<Rightarrow> Inl MissingWeight
            | Some w \<Rightarrow>
                ebind (detectAnomaly (Whole (co_sell_cents composed)) w None) (\<lambda>flag.
                  Inr (Priced \<lparr> sell_cents = co_sell_cents composed, lines = co_lines composed,
                    quote_floors = fl, cost_cents = cost, rate_config_ids = ids, basis = b,
                    anomaly = flag \<rparr>)))))"

end
