(* ===== verification/RaterLaws.thy ===== *)
theory RaterLaws
  imports Rater
begin

text \<open>
  Lemmas and properties of the rater: longest-prefix zone match, deficit-weight rating (cheapest
  break, monotone in the weight), the composed sell, the floor ladder, the anomaly net and the
  totality of \<open>priceShipment\<close> on configurations the contract's parsers accept.
\<close>

section \<open>Zone match\<close>

definition zone_step :: "string \<Rightarrow> string \<times> string \<Rightarrow> (string \<times> string) option \<Rightarrow> (string \<times> string) option" where
  "zone_step z q best =
     (if \<not> startsWith z (fst q) then best
      else case best of None \<Rightarrow> Some q | Some r \<Rightarrow> if length (fst q) > length (fst r) then Some q else Some r)"

lemma matchZoneFrom_Cons:
  "matchZoneFrom z (q # ps) best = matchZoneFrom z ps (zone_step z q best)"
  by (cases q; cases best) (auto simp: zone_step_def)

lemma matchZoneFrom_sound:
  assumes "matchZoneFrom z ps best = Some r"
  shows "(r \<in> set ps \<and> startsWith z (fst r)) \<or> best = Some r"
  using assms
proof (induction ps arbitrary: best)
  case (Cons q ps)
  have "zone_step z q best = best \<or> zone_step z q best = Some q \<and> startsWith z (fst q)"
    by (auto simp: zone_step_def split: option.splits)
  then show ?case
    using Cons.IH[of "zone_step z q best"] Cons.prems unfolding matchZoneFrom_Cons by auto
qed simp

lemma matchZoneFrom_longest:
  assumes "matchZoneFrom z ps best = Some r"
  shows "(\<forall>q \<in> set ps. startsWith z (fst q) \<longrightarrow> length (fst q) \<le> length (fst r)) \<and>
    (\<forall>q. best = Some q \<longrightarrow> length (fst q) \<le> length (fst r))"
  using assms
proof (induction ps arbitrary: best)
  case (Cons q ps)
  note IH = Cons.IH[OF Cons.prems[unfolded matchZoneFrom_Cons]]
  have "length (fst q) \<le> length (fst r)" if pre: "startsWith z (fst q)"
  proof -
    have "\<exists>x. zone_step z q best = Some x \<and> length (fst q) \<le> length (fst x)"
      using pre by (cases best; cases q) (auto simp: zone_step_def)
    then show ?thesis
      using IH le_trans by blast
  qed
  moreover have "length (fst y) \<le> length (fst r)" if pre: "best = Some y" for y
  proof -
    have "\<exists>x. zone_step z q best = Some x \<and> length (fst y) \<le> length (fst x)"
      using pre by (cases y; cases q) (auto simp: zone_step_def)
    then show ?thesis
      using IH le_trans by blast
  qed
  ultimately show ?case
    using IH by simp
qed simp

lemma matchZoneFrom_keeps: "\<exists>r. matchZoneFrom z ps (Some b) = Some r"
proof (induction ps arbitrary: b)
  case (Cons q ps)
  then show ?case
    by (cases q; cases b) simp
qed simp

lemma matchZoneFrom_None:
  "matchZoneFrom z ps None = None \<longleftrightarrow> (\<forall>q \<in> set ps. \<not> startsWith z (fst q))"
proof (induction ps)
  case (Cons q ps)
  then show ?case
    using matchZoneFrom_keeps[of z ps q] by (cases q) auto
qed simp

lemma startsWith_same_length:
  "startsWith z p \<Longrightarrow> startsWith z q \<Longrightarrow> length p = length q \<Longrightarrow> p = q"
  by (simp add: startsWith_def)

lemma matchZone_Some_iff:
  assumes "distinct (map fst m)"
  shows "matchZone z m = Some r \<longleftrightarrow> r \<in> set m \<and> startsWith z (fst r) \<and>
    (\<forall>q \<in> set m. startsWith z (fst q) \<and> q \<noteq> r \<longrightarrow> length (fst q) < length (fst r))"
    (is "_ \<longleftrightarrow> ?best r")
proof -
  have sound: "?best r" if "matchZone z m = Some r" for r
  proof -
    have r: "r \<in> set m" "startsWith z (fst r)"
      using matchZoneFrom_sound[of z m None r] that by (auto simp: matchZone_def)
    have "length (fst q) < length (fst r)" if "q \<in> set m" "startsWith z (fst q)" "q \<noteq> r" for q
    proof -
      have "fst q \<noteq> fst r"
        using assms that(1,3) r(1) by (auto simp: distinct_map inj_on_def)
      moreover have "length (fst q) \<le> length (fst r)"
        using matchZoneFrom_longest[of z m None r] \<open>matchZone z m = Some r\<close> that
        by (auto simp: matchZone_def)
      ultimately show ?thesis
        using startsWith_same_length[OF that(2) r(2)] le_neq_implies_less by blast
    qed
    then show ?thesis
      using r by blast
  qed
  show ?thesis
  proof
    assume best: "?best r"
    then have "matchZone z m \<noteq> None"
      by (auto simp: matchZone_def matchZoneFrom_None)
    then obtain r' where r': "matchZone z m = Some r'"
      by auto
    then have "r' = r"
      using sound[OF r'] best by (metis order_less_asym)
    then show "matchZone z m = Some r"
      using r' by simp
  qed (rule sound)
qed

section \<open>Deficit-weight rating\<close>

lemma cheapestBreak_spec:
  assumes "cheapestBreak weight bs w0 = Inr (Some w)"
  shows "(w0 = Some w \<or> (\<exists>b \<in> set bs. break_charge weight b = Inr (charge w) \<and>
            ratedLb w = max weight (min_lb b) \<and> cwtCents w = cwt_cents b)) \<and>
    (\<forall>b \<in> set bs. \<exists>c. break_charge weight b = Inr c \<and> charge w \<le> c) \<and>
    (\<forall>old. w0 = Some old \<longrightarrow> charge w \<le> charge old)"
  using assms
proof (induction bs arbitrary: w0)
  case (Cons b bs)
  obtain c where c: "break_charge weight b = Inr c"
    using Cons.prems by auto
  define this' where "this' = \<lparr> charge = c, ratedLb = max weight (min_lb b), cwtCents = cwt_cents b \<rparr>"
  define w1 where "w1 = (case w0 of None \<Rightarrow> this' | Some old \<Rightarrow> if c < charge old then this' else old)"
  have "cheapestBreak weight bs (Some w1) = Inr (Some w)"
    using Cons.prems c by (cases w0) (auto simp: Let_def w1_def this'_def split: if_splits)
  note IH = Cons.IH[OF this]
  have "charge w \<le> charge w1"
    using IH by simp
  moreover have "charge w1 \<le> c" "\<forall>old. w0 = Some old \<longrightarrow> charge w1 \<le> charge old"
    "w1 = this' \<or> w0 = Some w1"
    by (auto simp: w1_def this'_def split: option.splits)
  ultimately show ?case
    using IH c by (fastforce simp: this'_def)
qed simp

lemma cheapestBreak_answers:
  assumes "\<forall>b \<in> set bs. \<exists>c. break_charge weight b = Inr c"
  shows "\<exists>w. cheapestBreak weight bs w0 = Inr w \<and> (w = None \<longleftrightarrow> w0 = None \<and> bs = [])"
  using assms
proof (induction bs arbitrary: w0)
  case (Cons b bs)
  then obtain c where "break_charge weight b = Inr c"
    by auto
  moreover have "\<exists>w. cheapestBreak weight bs (Some x) = Inr (Some w)" for x
    using Cons.IH[of "Some x"] Cons.prems by fastforce
  ultimately show ?case
    by (cases w0) (fastforce simp: Let_def)+
qed simp

lemma break_charge_mono:
  assumes "break_charge v b = Inr c" "break_charge w b = Inr d" "v \<le> w"
  shows "c \<le> d"
  using assms unfolding break_charge_def money_simps
  by (auto intro: rater_half_up.monotone)

lemma break_charge_nonneg: "break_charge v b = Inr c \<Longrightarrow> 0 \<le> c"
  by (auto simp: break_charge_def dest: rater_half_up.result_nonneg)

lemma priceFreight_PricedD:
  assumes "priceFreight s t = Inr (FreightPriced c b)"
  obtains weight prefix zone g w where "measured s = Some weight"
    "matchZone (dest_zip s) (zip_to_zone t) = Some (prefix, zone)"
    "find (\<lambda>g. zone \<in> set (zones g)) (rate_groups t) = Some g"
    "checkAscending (rg_id g) (breaks g) = Inr ()"
    "cheapestBreak weight (breaks g) None = Inr (Some w)"
    "c = max (charge w) (min_charge_cents g)"
    "b = \<lparr> fb_zone = zone, rate_group_id = rg_id g, matched_zip_prefix = prefix,
       as_rated_lb = ratedLb w, applied_cwt_cents = cwtCents w,
       min_charge_applied = (min_charge_cents g > charge w) \<rparr>"
  using assms that by (auto simp: priceFreight_def Let_def split: option.splits prod.splits)

lemma measured_SomeD:
  "measured s = Some w \<Longrightarrow> weight_lb s = Some (Whole w) \<and> 0 < w \<and> shipment_dims s \<noteq> None"
  by (auto simp: measured_def split: option.splits jsnum.splits if_splits)

lemma priceFreight_cheapest:
  assumes "priceFreight s t = Inr (FreightPriced c b)"
    and "find (\<lambda>g. fb_zone b \<in> set (zones g)) (rate_groups t) = Some g"
    and "weight_lb s = Some (Whole w)"
  shows "\<forall>br \<in> set (breaks g). \<exists>x. break_charge w br = Inr x \<and> c \<le> max x (min_charge_cents g)"
  using assms
  by (auto elim!: priceFreight_PricedD dest!: measured_SomeD cheapestBreak_spec)
     (force simp: le_max_iff_disj)

section \<open>Composition\<close>

definition accessorial_line :: "(string \<times> int) list \<Rightarrow> string \<Rightarrow> price_line" where
  "accessorial_line items c =
     \<lparr> pl_kind = AccessorialLine, pl_code = c, amount_cents = the (map_of items c) \<rparr>"

lemma accessorialLines_value:
  "accessorialLines seen items rs =
     (case find (\<lambda>c. map_of items c = None) (uniq_from seen rs) of
        Some c \<Rightarrow> Inl (UnknownAccessorial c)
      | None \<Rightarrow> Inr (map (accessorial_line items)
          (filter (\<lambda>c. 0 < the (map_of items c)) (uniq_from seen rs))))"
  by (induction seen items rs rule: accessorialLines.induct)
     (auto simp: accessorial_line_def split: option.splits)

lemma unknownAccessorialsFrom_eq:
  "unknownAccessorialsFrom seen items rs = filter (\<lambda>c. map_of items c = None) (uniq_from seen rs)"
  by (induction seen items rs rule: unknownAccessorialsFrom.induct) auto

lemma unknownAccessorials_eq:
  "unknownAccessorials rs s = filter (\<lambda>c. map_of (as_items s) c = None) (uniq rs)"
  by (simp add: unknownAccessorials_def unknownAccessorialsFrom_eq uniq_def)

lemma accessorialLines_iff:
  "(\<exists>ls. accessorialLines [] (as_items s) rs = Inr ls) \<longleftrightarrow> unknownAccessorials rs s = []"
proof (cases "find (\<lambda>c. map_of (as_items s) c = None) (uniq_from [] rs)")
  case None
  then have "\<forall>c \<in> set (uniq_from [] rs). map_of (as_items s) c \<noteq> None"
    by (simp only: find_None_all)
  then show ?thesis
    using None by (simp add: accessorialLines_value unknownAccessorials_eq uniq_def filter_empty_conv)
next
  case (Some c)
  then show ?thesis
    using find_Some_in[OF Some]
    by (auto simp: accessorialLines_value unknownAccessorials_eq uniq_def filter_empty_conv)
qed

lemma compose_InrD:
  assumes "compose f rs fsc s = Inr co"
  obtains freight fscCents acc where "f = Whole freight" "0 \<le> freight"
    "mulDivHalfUp (Whole freight) (Whole (pct_bps fsc)) (Whole BPS_DIVISOR) = Inr fscCents"
    "accessorialLines [] (as_items s) rs = Inr acc"
    "co_lines co = (if freight > 0
        then [\<lparr> pl_kind = FreightLine, pl_code = ''freight'', amount_cents = freight \<rparr>] else []) @
      (if fscCents > 0
        then [\<lparr> pl_kind = FscLine, pl_code = ''fsc'', amount_cents = fscCents \<rparr>] else []) @
      sort_key pl_code acc"
    "co_sell_cents co = sum_list (map amount_cents (co_lines co))"
  using assms that by (auto simp: compose_def Let_def)

lemma compose_lines_positive:
  assumes "compose f rs fsc s = Inr co"
  shows "\<forall>l \<in> set (co_lines co). 0 < amount_cents l"
  using assms
  by (auto elim!: compose_InrD simp: accessorialLines_value accessorial_line_def split: option.splits)

lemma sum_list_pos_nonneg:
  fixes g :: "'a \<Rightarrow> int"
  shows "\<forall>x \<in> set xs. 0 < g x \<Longrightarrow> 0 \<le> sum_list (map g xs)"
  by (induction xs) auto

lemma compose_sell_nonneg: "compose f rs fsc s = Inr co \<Longrightarrow> 0 \<le> co_sell_cents co"
  using compose_lines_positive sum_list_pos_nonneg by (metis compose_InrD)

lemma compose_sell_value:
  assumes "compose (Whole freight) rs fsc s = Inr co"
  shows "\<exists>fscCents. mulDivHalfUp (Whole freight) (Whole (pct_bps fsc)) (Whole BPS_DIVISOR) = Inr fscCents \<and>
    co_sell_cents co = freight + fscCents +
      (\<Sum>c\<leftarrow>filter (\<lambda>c. 0 < the (map_of (as_items s) c)) (uniq rs). the (map_of (as_items s) c))"
proof -
  have perm: "sum_list (map amount_cents (sort_key pl_code acc)) = sum_list (map amount_cents acc)" for acc
    by (metis mset_map mset_sort sum_mset_sum_list)
  obtain fscCents acc where
    f: "0 \<le> freight" "mulDivHalfUp (Whole freight) (Whole (pct_bps fsc)) (Whole BPS_DIVISOR) = Inr fscCents"
    and a: "accessorialLines [] (as_items s) rs = Inr acc"
    and c: "co_lines co = (if freight > 0
        then [\<lparr> pl_kind = FreightLine, pl_code = ''freight'', amount_cents = freight \<rparr>] else []) @
      (if fscCents > 0
        then [\<lparr> pl_kind = FscLine, pl_code = ''fsc'', amount_cents = fscCents \<rparr>] else []) @
      sort_key pl_code acc" "co_sell_cents co = sum_list (map amount_cents (co_lines co))"
    using assms by (auto elim: compose_InrD)
  have "0 \<le> fscCents"
    using f(2) by (rule rater_half_up.result_nonneg)
  then have "co_sell_cents co = freight + fscCents + sum_list (map amount_cents acc)"
    using f(1) c perm by auto
  moreover have "sum_list (map amount_cents acc) =
      (\<Sum>c\<leftarrow>filter (\<lambda>c. 0 < the (map_of (as_items s) c)) (uniq rs). the (map_of (as_items s) c))"
    using a by (auto simp: uniq_def comp_def accessorialLines_value accessorial_line_def
        split: option.splits)
  ultimately show ?thesis
    using f(2) by simp
qed

section \<open>Floors\<close>

lemma computeFloors_InrD:
  assumes "computeFloors x cfg = Inr fl"
  obtains cost where "x = Whole cost" "0 \<le> cost"
    "mulDivHalfUp (Whole cost) (Whole (contribution_bps cfg)) (Whole BPS_DIVISOR) = Inr (contribution fl)"
    "mulDivHalfUp (Whole cost) (Whole (full_cost_bps cfg)) (Whole BPS_DIVISOR) = Inr (full fl)"
    "mulDivHalfUp (Whole cost) (Whole (target_or_bps cfg)) (Whole BPS_DIVISOR) = Inr (target fl)"
    "contribution fl \<le> full fl" "full fl \<le> target fl"
  using assms that by (auto simp: computeFloors_def split: if_splits)

lemma computeFloors_answers:
  assumes "schema_floors cfg" "0 \<le> cost" "cost \<le> MAX_SAFE"
  shows "\<exists>fl. computeFloors (Whole cost) cfg = Inr fl"
proof -
  have bps: "0 \<le> contribution_bps cfg" "contribution_bps cfg \<le> full_cost_bps cfg"
    "full_cost_bps cfg \<le> target_or_bps cfg" "target_or_bps cfg \<le> BPS_DIVISOR"
    using assms(1) by (auto simp: schema_floors_def is_bps_def BPS_DIVISOR_def)
  have ans: "\<exists>r. mulDivHalfUp (Whole cost) (Whole b) (Whole BPS_DIVISOR) = Inr r"
    if "0 \<le> b" "b \<le> BPS_DIVISOR" for b
    using rater_half_up.answers_within[of cost b BPS_DIVISOR] assms(2,3) that
    by (simp add: BPS_DIVISOR_def)
  obtain c f t where
    r: "mulDivHalfUp (Whole cost) (Whole (contribution_bps cfg)) (Whole BPS_DIVISOR) = Inr c"
      "mulDivHalfUp (Whole cost) (Whole (full_cost_bps cfg)) (Whole BPS_DIVISOR) = Inr f"
      "mulDivHalfUp (Whole cost) (Whole (target_or_bps cfg)) (Whole BPS_DIVISOR) = Inr t"
    using ans[of "contribution_bps cfg"] ans[of "full_cost_bps cfg"] ans[of "target_or_bps cfg"] bps
    by auto
  have "c \<le> f" "f \<le> t"
    using rater_half_up.monotone[OF r(1,2)] rater_half_up.monotone[OF r(2,3)] bps by auto
  then show ?thesis
    using r assms(2) by (simp add: computeFloors_def)
qed

section \<open>The anomaly net\<close>

lemma detectAnomaly_default:
  assumes "0 < w"
  shows "\<exists>flag. detectAnomaly (Whole s) (Whole w) None = Inr flag \<and>
    (flag = None \<longleftrightarrow> 0 \<le> s \<and> s \<le> DEFAULT_MAX_CENTS_PER_LB * w)"
  using assms by (auto simp: detectAnomaly_def DEFAULT_MAX_CENTS_PER_LB_def Let_def roundHalfUp_def)


section \<open>Totality on accepted configurations\<close>

definition config_accepted :: "tenant_rating_config \<Rightarrow> bool" where
  "config_accepted cfg = (schema_tariff (cfg_zone_tariff cfg) \<and> schema_floors (cfg_floors cfg) \<and>
     schema_fsc (cfg_fsc cfg) \<and> schema_accessorials (cfg_accessorials cfg))"

text \<open>What the parsers do not check: breaks strictly ascending, and a break minimum inside the
  weight ceiling.\<close>

definition breaks_ready :: "zone_tariff \<Rightarrow> bool" where
  "breaks_ready t = list_all (\<lambda>g. checkAscending (rg_id g) (breaks g) = Inr () \<and>
     list_all (\<lambda>b. min_lb b \<le> MAX_WEIGHT_LB) (breaks g)) (rate_groups t)"

definition request_accepted :: "rate_request \<Rightarrow> accessorial_schedule \<Rightarrow> bool" where
  "request_accepted r s = ((case weight_lb r of Some (Whole w) \<Rightarrow> w \<le> MAX_WEIGHT_LB | _ \<Rightarrow> True) \<and>
     length (requested r) \<le> MAX_REQUEST_ACCESSORIALS \<and> unknownAccessorials (requested r) s = [])"

lemma break_charge_answers:
  assumes "schema_break b" "min_lb b \<le> MAX_WEIGHT_LB" "0 < w" "w \<le> MAX_WEIGHT_LB"
  shows "\<exists>c. break_charge w b = Inr c \<and> 0 \<le> c \<and> c \<le> 100000000000"
proof -
  let ?m = "max w (min_lb b)"
  have m: "0 \<le> ?m" "?m \<le> 1000000" "0 \<le> cwt_cents b" "cwt_cents b \<le> 10000000"
    using assms by (auto simp: schema_break_def MAX_WEIGHT_LB_def MAX_CWT_CENTS_def)
  then have le: "?m * cwt_cents b \<le> 1000000 * 10000000"
    by (intro mult_mono) auto
  then obtain c where c: "mulDivHalfUp (Whole ?m) (Whole (cwt_cents b)) (Whole CWT) = Inr c"
    using rater_half_up.answers[of ?m "cwt_cents b" CWT] m by (auto simp: CWT_def MAX_SAFE_def mult.commute)
  then have "2 * CWT * c \<le> 2 * (?m * cwt_cents b) + CWT" "0 \<le> c"
    using rater_half_up.nearest rater_half_up.result_nonneg by blast+
  then show ?thesis
    using c le by (simp add: break_charge_def CWT_def)
qed

lemma priceFreight_answers:
  assumes "schema_tariff t" "breaks_ready t"
    and "\<forall>w. weight_lb s = Some (Whole w) \<longrightarrow> w \<le> MAX_WEIGHT_LB"
  shows "\<exists>r. priceFreight s t = Inr r \<and>
    (\<forall>c b. r = FreightPriced c b \<longrightarrow> 0 \<le> c \<and> c \<le> 100000000000)"
proof (cases "measured s")
  case (Some weight)
  then have w: "0 < weight" "weight \<le> MAX_WEIGHT_LB"
    using assms(3) measured_SomeD[OF Some] by auto
  show ?thesis
  proof (cases "matchZone (dest_zip s) (zip_to_zone t)")
    case (Some pz)
    obtain prefix zone where pz: "pz = (prefix, zone)"
      by (cases pz)
    show ?thesis
    proof (cases "find (\<lambda>g. zone \<in> set (zones g)) (rate_groups t)")
      case (Some g)
      then have "g \<in> set (rate_groups t)"
        by (auto dest: find_Some_in)
      then have g: "schema_group g" "checkAscending (rg_id g) (breaks g) = Inr ()"
        "\<forall>b \<in> set (breaks g). min_lb b \<le> MAX_WEIGHT_LB"
        using assms(1,2) by (auto simp: schema_tariff_def breaks_ready_def list_all_iff)
      have ans: "\<forall>b \<in> set (breaks g). \<exists>c. break_charge weight b = Inr c \<and> 0 \<le> c \<and> c \<le> 100000000000"
        using g w by (auto simp: schema_group_def list_all_iff intro!: break_charge_answers)
      moreover have "breaks g \<noteq> []"
        using g(1) by (simp add: schema_group_def)
      ultimately obtain win where win: "cheapestBreak weight (breaks g) None = Inr (Some win)"
        using cheapestBreak_answers[of "breaks g" weight None] by fastforce
      then have "0 \<le> charge win" "charge win \<le> 100000000000"
        using cheapestBreak_spec[OF win] ans by fastforce+
      then show ?thesis
        using \<open>measured s = Some weight\<close> \<open>matchZone _ _ = Some pz\<close> pz Some g(1,2) win
        by (auto simp: priceFreight_def schema_group_def MAX_CONFIG_CENTS_def Let_def)
    qed (use \<open>measured s = Some weight\<close> \<open>matchZone _ _ = Some pz\<close> pz in \<open>simp add: priceFreight_def\<close>)
  qed (use Some in \<open>simp add: priceFreight_def\<close>)
qed (simp add: priceFreight_def)

lemma sum_list_upper:
  fixes f :: "'a \<Rightarrow> int"
  assumes "\<forall>x \<in> set xs. f x \<le> m" "0 \<le> m" "length xs \<le> n"
  shows "sum_list (map f xs) \<le> int n * m"
proof -
  have "sum_list (map f xs) \<le> int (length xs) * m"
    using assms(1) by (induction xs) (auto simp: algebra_simps)
  also have "\<dots> \<le> int n * m"
    using assms(2,3) by (intro mult_right_mono) auto
  finally show ?thesis .
qed

lemma uniq_length: "length (uniq xs) \<le> length xs"
proof -
  have "length (uniq_from seen xs) \<le> length xs" for seen
    by (induction seen xs rule: uniq_from.induct) auto
  then show ?thesis
    by (simp add: uniq_def)
qed

lemma compose_answers:
  assumes "schema_fsc fsc" "schema_accessorials s" "unknownAccessorials rs s = []"
    and "length rs \<le> MAX_REQUEST_ACCESSORIALS" "0 \<le> c" "c \<le> 100000000000"
  shows "\<exists>co. compose (Whole c) rs fsc s = Inr co \<and> 0 \<le> co_sell_cents co \<and>
    co_sell_cents co \<le> 232000000000"
proof -
  have bps: "0 \<le> pct_bps fsc" "pct_bps fsc \<le> BPS_DIVISOR"
    using assms(1) by (auto simp: schema_fsc_def is_bps_def BPS_DIVISOR_def)
  obtain f where f: "mulDivHalfUp (Whole c) (Whole (pct_bps fsc)) (Whole BPS_DIVISOR) = Inr f"
    using rater_half_up.answers_within[of c "pct_bps fsc" BPS_DIVISOR] bps assms(5,6)
    by (auto simp: BPS_DIVISOR_def MAX_SAFE_def)
  obtain acc where "accessorialLines [] (as_items s) rs = Inr acc"
    using accessorialLines_iff assms(3) by blast
  then obtain co where co: "compose (Whole c) rs fsc s = Inr co"
    using f assms(5) by (simp add: compose_def Let_def)
  let ?known = "filter (\<lambda>x. 0 < the (map_of (as_items s) x)) (uniq rs)"
  have "\<forall>x \<in> set ?known. the (map_of (as_items s) x) \<le> 1000000000"
  proof
    fix x
    assume "x \<in> set ?known"
    then obtain a where "map_of (as_items s) x = Some a"
      using assms(3) by (auto simp: unknownAccessorials_eq filter_empty_conv)
    moreover have "(x, a) \<in> set (as_items s)"
      using calculation by (rule map_of_SomeD)
    ultimately show "the (map_of (as_items s) x) \<le> 1000000000"
      using assms(2) by (auto simp: schema_accessorials_def MAX_CONFIG_CENTS_def list_all_iff)
  qed
  moreover have "length ?known \<le> 32"
    using assms(4) uniq_length[of rs] length_filter_le[of _ "uniq rs"]
    by (metis (no_types, lifting) MAX_REQUEST_ACCESSORIALS_def le_trans)
  ultimately have "(\<Sum>x\<leftarrow>?known. the (map_of (as_items s) x)) \<le> int 32 * 1000000000"
    by (intro sum_list_upper) auto
  moreover have "f \<le> c"
    using rater_half_up.at_most[OF f] bps(2) .
  ultimately show ?thesis
    using compose_sell_value[OF co] compose_sell_nonneg[OF co] co f assms(6) by auto
qed

lemma priceShipment_cases:
  assumes "priceShipment r cfg = Inr q"
  obtains (unknown) reason where "q = QuoteUnknown reason"
      "priceFreight (request_physics r) (cfg_zone_tariff cfg) = Inr (FreightUnknown reason)"
  | (priced) p cents fb co fl w flag where "q = Priced p"
      "priceFreight (request_physics r) (cfg_zone_tariff cfg) = Inr (FreightPriced cents fb)"
      "compose (Whole cents) (requested r) (cfg_fsc cfg) (cfg_accessorials cfg) = Inr co"
      "computeFloors (Whole cents) (cfg_floors cfg) = Inr fl" "weight_lb r = Some (Whole w)" "0 < w"
      "detectAnomaly (Whole (co_sell_cents co)) (Whole w) None = Inr flag"
      "sell_cents p = co_sell_cents co" "lines p = co_lines co" "quote_floors p = fl"
      "cost_cents p = cents" "anomaly p = flag"
      "rate_config_ids p = uniq
         [pin (zt_id (cfg_zone_tariff cfg)) (zt_version (cfg_zone_tariff cfg)),
          pin (fl_id (cfg_floors cfg)) (fl_version (cfg_floors cfg)),
          pin (fsc_id (cfg_fsc cfg)) (fsc_version (cfg_fsc cfg)),
          pin (as_id (cfg_accessorials cfg)) (as_version (cfg_accessorials cfg))]"
  using assms
proof (cases "priceFreight (request_physics r) (cfg_zone_tariff cfg)")
  case (Inr fr)
  show ?thesis
  proof (cases fr)
    case (FreightUnknown reason)
    show ?thesis
      by (rule unknown[of reason]) (use assms Inr FreightUnknown in \<open>simp_all add: priceShipment_def\<close>)
  next
    case (FreightPriced cents fb)
    then obtain w where "weight_lb r = Some (Whole w)" "0 < w"
      using Inr priceFreight_PricedD measured_SomeD
      by (metis request_physics_def shipment_physics.select_convs(3))
    then show ?thesis
      using assms Inr FreightPriced
      by (auto simp: priceShipment_def Let_def costBasis_def intro!: priced)
  qed
qed (simp add: priceShipment_def)

end
