(* ===== verification/RaterProps.thy ===== *)
theory RaterProps
  imports RaterLaws
begin

text \<open>
  The properties of the rater, with their witnesses on one small tariff: a national group with two
  weight breaks and two overlapping ZIP prefixes.
\<close>

section \<open>A sample configuration\<close>

definition sample_tariff :: zone_tariff where
  "sample_tariff = \<lparr> zt_id = ''t'', zt_version = ''1'',
     zip_to_zone = [(''801'', ''Z4''), (''80112'', ''Z5'')],
     rate_groups = [\<lparr> rg_id = ''g'', zones = [''Z4'', ''Z5''],
       breaks = [\<lparr> min_lb = 0, cwt_cents = 3000 \<rparr>, \<lparr> min_lb = 1000, cwt_cents = 2000 \<rparr>],
       min_charge_cents = 11500 \<rparr>] \<rparr>"

definition sample_config :: tenant_rating_config where
  "sample_config = \<lparr> cfg_zone_tariff = sample_tariff,
     cfg_floors = \<lparr> fl_id = ''f'', fl_version = ''1'', target_or_bps = 9800, full_cost_bps = 9200,
       contribution_bps = 8500 \<rparr>,
     cfg_fsc = \<lparr> fsc_id = ''s'', fsc_version = ''1'', pct_bps = 1450 \<rparr>,
     cfg_accessorials = \<lparr> as_id = ''a'', as_version = ''1'', as_items = [(''liftgate'', 2500)] \<rparr> \<rparr>"

definition sample_request :: "int \<Rightarrow> rate_request" where
  "sample_request w = \<lparr> origin_zip = ''80001'', dest_zip = ''80112'', weight_lb = Some (Whole w),
     shipment_dims = Some \<lparr> l_in = Whole 48, w_in = Whole 40, h_in = Whole 48, pieces = Whole 1 \<rparr>,
     accessorials = Some [''liftgate'', ''liftgate''] \<rparr>"

lemmas sample_defs = sample_tariff_def sample_config_def sample_request_def

lemmas rater_eval = priceFreight_def measured_def positiveInt_def matchZone_def startsWith_def
  break_charge_def mulDivHalfUp_def roundHalfUp_def halfUpBig_def CWT_def MAX_SAFE_def
  request_physics_def requested_def priceShipment_def compose_def computeFloors_def
  detectAnomaly_def DEFAULT_MAX_CENTS_PER_LB_def BPS_DIVISOR_def costBasis_def Let_def

lemma sample_accepted: "config_accepted sample_config" "breaks_ready sample_tariff"
  "request_accepted (sample_request 850) (cfg_accessorials sample_config)"
  by (simp_all add: config_accepted_def breaks_ready_def request_accepted_def sample_defs
      schema_tariff_def schema_group_def schema_break_def schema_floors_def schema_fsc_def
      schema_accessorials_def zip_key_def is_bps_def is_safe_def MAX_SAFE_def MAX_CWT_CENTS_def
      MAX_CONFIG_CENTS_def MAX_WEIGHT_LB_def MAX_REQUEST_ACCESSORIALS_def requested_def
      unknownAccessorials_def less_eq_char_def)

lemma sample_measured: "measured (request_physics (sample_request w)) = (if 0 < w then Some w else None)"
  by (simp add: measured_def request_physics_def sample_request_def positiveInt_def)

section \<open>Properties\<close>

lemma priceShipment_total:
  assumes "config_accepted cfg" "breaks_ready (cfg_zone_tariff cfg)"
    and "request_accepted r (cfg_accessorials cfg)"
  shows "\<exists>q. priceShipment r cfg = Inr q \<and> (\<forall>p. q = Priced p \<longrightarrow>
    0 \<le> sell_cents p \<and> sell_cents p \<le> 232000000000 \<and>
    contribution (quote_floors p) \<le> full (quote_floors p) \<and>
    full (quote_floors p) \<le> target (quote_floors p) \<and> target (quote_floors p) \<le> cost_cents p \<and>
    rate_config_ids p \<noteq> [])"
proof -
  have w: "\<forall>w. weight_lb (request_physics r) = Some (Whole w) \<longrightarrow> w \<le> MAX_WEIGHT_LB"
    using assms(3) by (auto simp: request_accepted_def request_physics_def split: option.splits)
  obtain fr where fr: "priceFreight (request_physics r) (cfg_zone_tariff cfg) = Inr fr"
    "\<forall>c b. fr = FreightPriced c b \<longrightarrow> 0 \<le> c \<and> c \<le> 100000000000"
    using priceFreight_answers[OF _ assms(2) w] assms(1) by (auto simp: config_accepted_def)
  show ?thesis
  proof (cases fr)
    case (FreightUnknown reason)
    then show ?thesis
      using fr(1) by (simp add: priceShipment_def)
  next
    case (FreightPriced c b)
    then have c: "0 \<le> c" "c \<le> 100000000000"
      using fr(2) by auto
    obtain co where co: "compose (Whole c) (requested r) (cfg_fsc cfg) (cfg_accessorials cfg) = Inr co"
      "0 \<le> co_sell_cents co" "co_sell_cents co \<le> 232000000000"
      using compose_answers[of "cfg_fsc cfg" "cfg_accessorials cfg" "requested r" c] assms(1,3) c
      by (auto simp: config_accepted_def request_accepted_def)
    obtain fl where fl: "computeFloors (Whole c) (cfg_floors cfg) = Inr fl"
      using computeFloors_answers[of "cfg_floors cfg" c] assms(1) c
      by (auto simp: config_accepted_def MAX_SAFE_def)
    have ladder: "contribution fl \<le> full fl" "full fl \<le> target fl" "target fl \<le> c"
      using fl rater_half_up.at_most assms(1)
      by (auto elim!: computeFloors_InrD
          simp: config_accepted_def schema_floors_def is_bps_def BPS_DIVISOR_def)
    obtain wt where wt: "weight_lb r = Some (Whole wt)" "0 < wt"
      using fr(1) FreightPriced priceFreight_PricedD measured_SomeD
      by (metis request_physics_def shipment_physics.select_convs(3))
    obtain flag where "detectAnomaly (Whole (co_sell_cents co)) (Whole wt) None = Inr flag"
      using detectAnomaly_default[OF wt(2)] by blast
    moreover have "uniq (x # xs) \<noteq> []" for x :: string and xs
      by (simp add: uniq_def)
    ultimately show ?thesis
      using fr(1) FreightPriced co fl wt(1) ladder
      by (simp add: priceShipment_def costBasis_def Let_def)
  qed
qed




lemma sample_priced: "\<exists>p. priceShipment (sample_request 850) sample_config = Inr (Priced p)"
  by (simp add: rater_eval sample_defs)


lemma priceFreight_mono:
  assumes "priceFreight s t = Inr (FreightPriced c b)"
    and "priceFreight (s \<lparr> weight_lb := Some (Whole v) \<rparr>) t = Inr (FreightPriced d e)"
    and "weight_lb s = Some (Whole w)" "w \<le> v"
  shows "c \<le> d"
proof -
  obtain zone prefix g win where s: "matchZone (dest_zip s) (zip_to_zone t) = Some (prefix, zone)"
    "find (\<lambda>g. zone \<in> set (zones g)) (rate_groups t) = Some g"
    "cheapestBreak w (breaks g) None = Inr (Some win)" "c = max (charge win) (min_charge_cents g)"
    using assms(1,3) by (elim priceFreight_PricedD) (auto dest: measured_SomeD)
  obtain win' where v: "cheapestBreak v (breaks g) None = Inr (Some win')"
    "d = max (charge win') (min_charge_cents g)"
    using assms(2) s(1,2) by (elim priceFreight_PricedD) (auto dest!: measured_SomeD)
  obtain br where br: "br \<in> set (breaks g)" "break_charge v br = Inr (charge win')"
    using cheapestBreak_spec[OF v(1)] by auto
  then obtain x where "break_charge w br = Inr x" "charge win \<le> x"
    using cheapestBreak_spec[OF s(3)] by blast
  then have "charge win \<le> charge win'"
    using break_charge_mono[OF _ br(2) assms(4)] by force
  then show ?thesis
    using s(4) v(2) by simp
qed

text \<open>Deficit-weight rating is monotone: between two shipments that differ in the weight only, the
  heavier one never has the lower freight charge.\<close>

theorem priceFreight_weight_monotone:
  assumes "priceFreight s t = Inr (FreightPriced c b)"
    and "priceFreight (s \<lparr> weight_lb := Some (Whole v) \<rparr>) t = Inr (FreightPriced d e)"
    and "weight_lb s = Some (Whole w)" "w \<le> v"
  shows "c \<le> d"
  by (rule priceFreight_mono[OF assms])

theorem priceFreight_weight_monotone_witness:
  "\<exists>c b d e. priceFreight (request_physics (sample_request 850)) sample_tariff = Inr (FreightPriced c b) \<and>
     priceFreight (request_physics (sample_request 850) \<lparr> weight_lb := Some (Whole 900) \<rparr>) sample_tariff
       = Inr (FreightPriced d e) \<and> c \<le> d"
proof -
  obtain c b where 1: "priceFreight (request_physics (sample_request 850)) sample_tariff
      = Inr (FreightPriced c b)"
    by (simp add: rater_eval sample_defs)
  obtain d e where 2: "priceFreight (request_physics (sample_request 850) \<lparr> weight_lb := Some (Whole 900) \<rparr>)
      sample_tariff = Inr (FreightPriced d e)"
    by (simp add: rater_eval sample_defs)
  have "weight_lb (request_physics (sample_request 850)) = Some (Whole 850)"
    by (simp add: request_physics_def sample_request_def)
  from priceFreight_weight_monotone[OF 1 2 this] show ?thesis
    using 1 2 by simp
qed

text \<open>The rated charge is the cheapest over all breaks, floored at the group's minimum charge: for
  a priced shipment no break of its group, rated up to that break's minimum, would have been cheaper,
  and some break attains the charge unless the minimum charge does.\<close>

theorem priceFreight_is_cheapest:
  assumes "priceFreight s t = Inr (FreightPriced c b)"
    and "find (\<lambda>g. fb_zone b \<in> set (zones g)) (rate_groups t) = Some g"
    and "weight_lb s = Some (Whole w)"
  shows "(\<forall>br \<in> set (breaks g). \<exists>x. break_charge w br = Inr x \<and> c \<le> max x (min_charge_cents g)) \<and>
    (if min_charge_applied b then c = min_charge_cents g
     else \<exists>br \<in> set (breaks g). break_charge w br = Inr c \<and> as_rated_lb b = max w (min_lb br))"
proof -
  have "if min_charge_applied b then c = min_charge_cents g
     else \<exists>br \<in> set (breaks g). break_charge w br = Inr c \<and> as_rated_lb b = max w (min_lb br)"
    using assms by (elim priceFreight_PricedD)
      (auto dest!: measured_SomeD cheapestBreak_spec simp: max_def)
  then show ?thesis
    using priceFreight_cheapest[OF assms] by blast
qed

theorem priceFreight_is_cheapest_witness:
  "\<exists>c b. priceFreight (request_physics (sample_request 850)) sample_tariff = Inr (FreightPriced c b) \<and>
     c \<le> 20000"
proof -
  obtain c b where 1: "priceFreight (request_physics (sample_request 850)) sample_tariff
      = Inr (FreightPriced c b)" "fb_zone b = ''Z5''"
    by (simp add: rater_eval sample_defs)
  have "break_charge 850 \<lparr> min_lb = 1000, cwt_cents = 2000 \<rparr> = Inr 20000"
    by (simp add: rater_eval)
  then have "c \<le> 20000"
    using priceFreight_is_cheapest[OF 1(1), of "hd (rate_groups sample_tariff)" 850] 1(2)
    by (simp add: sample_defs request_physics_def)
  then show ?thesis
    using 1(1) by blast
qed

text \<open>The zone match is the longest matching prefix and does not depend on the order of the
  dictionary's keys.\<close>

theorem matchZone_longest_prefix:
  assumes "distinct (map fst m)" "set m' = set m" "distinct (map fst m')"
  shows "matchZone z m' = matchZone z m \<and>
    (matchZone z m = Some r \<longleftrightarrow> r \<in> set m \<and> startsWith z (fst r) \<and>
      (\<forall>q \<in> set m. startsWith z (fst q) \<and> q \<noteq> r \<longrightarrow> length (fst q) < length (fst r)))"
proof -
  have "matchZone z m' = Some x \<longleftrightarrow> matchZone z m = Some x" for x
    unfolding matchZone_Some_iff[OF assms(1)] matchZone_Some_iff[OF assms(3)] assms(2) ..
  then have "matchZone z m' = matchZone z m"
    by (cases "matchZone z m"; cases "matchZone z m'") auto
  then show ?thesis
    using matchZone_Some_iff[OF assms(1)] by simp
qed

theorem matchZone_longest_prefix_witness:
  "matchZone ''80112'' [(''80112'', ''Z5''), (''801'', ''Z4'')] =
   matchZone ''80112'' [(''801'', ''Z4''), (''80112'', ''Z5'')]"
  using matchZone_longest_prefix[of "[(''801'', ''Z4''), (''80112'', ''Z5'')]"
      "[(''80112'', ''Z5''), (''801'', ''Z4'')]" "''80112''"] by auto

definition runaway_tariff :: zone_tariff where
  "runaway_tariff = sample_tariff \<lparr> rate_groups := [\<lparr> rg_id = ''g'', zones = [''Z4'', ''Z5''],
     breaks = [\<lparr> min_lb = 900000000000000, cwt_cents = 10000000 \<rparr>], min_charge_cents = 0 \<rparr>] \<rparr>"

text \<open>The contract's own ceilings do not close the chain: a break's \<open>min_lb\<close> is a bare safe
  integer, so a tariff the parsers accept, with a one-pound request, makes the rating throw
  on an unsafe product.\<close>

theorem uncapped_break_minimum_throws:
  "config_accepted (sample_config \<lparr> cfg_zone_tariff := runaway_tariff \<rparr>) \<and>
   request_accepted (sample_request 1) (cfg_accessorials sample_config) \<and>
   priceShipment (sample_request 1) (sample_config \<lparr> cfg_zone_tariff := runaway_tariff \<rparr>) =
     Inl (MoneyError (UnsafeResult 90000000000000000000))"
proof (intro conjI)
  show "priceShipment (sample_request 1) (sample_config \<lparr> cfg_zone_tariff := runaway_tariff \<rparr>) =
     Inl (MoneyError (UnsafeResult 90000000000000000000))"
    by (simp add: rater_eval sample_defs runaway_tariff_def)
  show "config_accepted (sample_config \<lparr> cfg_zone_tariff := runaway_tariff \<rparr>)"
    using sample_accepted(1)
    by (simp add: config_accepted_def runaway_tariff_def sample_defs schema_tariff_def schema_group_def
        schema_break_def is_safe_def MAX_SAFE_def MAX_CWT_CENTS_def MAX_CONFIG_CENTS_def)
  show "request_accepted (sample_request 1) (cfg_accessorials sample_config)"
    using sample_accepted(3) by (simp add: request_accepted_def sample_request_def requested_def
        MAX_WEIGHT_LB_def)
qed

end
