(* ===== verification/Approval.thy ===== *)
theory Approval
  imports RaterProps
begin

text \<open>
  The decisions the rater layers on a priced quote: the approval matrix and the interline
  executing-share rule (\<open>approval.ts\<close>), the price sweep (\<open>sweep.ts\<close>) and the brokerage cold start
  (\<open>tariff-templates.ts\<close>).
\<close>

section \<open>The approval matrix (\<open>approval.ts\<close>)\<close>

datatype role = Admin | Ops | Finance | ReadOnly | DriverRole | Portal

datatype approval_kind = NoApproval | Single | Dual

datatype approval_rule = BelowTargetOr | BelowContributionLoss

record matrix_result =
  approval :: approval_kind
  approvals_required :: nat
  approval_rule :: "approval_rule option"
  required_role :: "role option"

record approval_decision = matrix_result +
  evaluated_sell_cents :: jsnum
  gross_sell_cents :: jsnum
  executing_share_bps :: "int option"

datatype leg_kind = Pickup | Linehaul | Interline | Cartage | Delivery | Dray

record leg =
  leg_kind :: leg_kind
  executor :: string
  split_bps :: jsnum

definition evaluateApproval :: "jsnum \<Rightarrow> floors \<Rightarrow> rater_error + matrix_result" where
  "evaluateApproval evaluatedSellCents fl =
     ebind (asWhole BadEvaluated evaluatedSellCents) (\<lambda>x.
     ebind (require (\<not> x < 0) BadEvaluated) (\<lambda>_.
       if x \<ge> target fl
       then Inr \<lparr> approval = NoApproval, approvals_required = 0, approval_rule = None, required_role = None \<rparr>
       else if x \<ge> contribution fl
       then Inr \<lparr> approval = Single, approvals_required = 1, approval_rule = Some BelowTargetOr,
                  required_role = Some Ops \<rparr>
       else Inr \<lparr> approval = Dual, approvals_required = 2, approval_rule = Some BelowContributionLoss,
                  required_role = Some Finance \<rparr>))"

fun sumSplits :: "string \<Rightarrow> leg list \<Rightarrow> int \<Rightarrow> int \<Rightarrow> rater_error + int \<times> int" where
  "sumSplits tenantParty [] t tenantBps = Inr (t, tenantBps)"
| "sumSplits tenantParty (l # ls) t tenantBps =
     (case split_bps l of
        Whole b \<Rightarrow>
          if b < 0 \<or> b > BPS_DIVISOR then Inl (BadLegSplit (executor l))
          else sumSplits tenantParty ls (t + b)
                 (if executor l = tenantParty then tenantBps + b else tenantBps)
      | Fractional \<Rightarrow> Inl (BadLegSplit (executor l)))"

definition executingShare :: "jsnum \<Rightarrow> leg list \<Rightarrow> string \<Rightarrow> rater_error + int \<times> int" where
  "executingShare grossSellCents legs tenantParty =
     ebind (asWhole BadGross grossSellCents) (\<lambda>gross.
     ebind (require (\<not> gross < 0) BadGross) (\<lambda>_.
     ebind (sumSplits tenantParty legs 0 0) (\<lambda>(t, tenantBps).
       if t \<noteq> BPS_DIVISOR then Inl (SplitNotWhole t)
       else ebind (money (mulDivHalfUp (Whole gross) (Whole tenantBps) (Whole BPS_DIVISOR))) (\<lambda>share.
         Inr (share, tenantBps)))))"

definition executingShareCents :: "jsnum \<Rightarrow> leg list \<Rightarrow> string \<Rightarrow> rater_error + int" where
  "executingShareCents grossSellCents legs tenantParty =
     ebind (executingShare grossSellCents legs tenantParty) (\<lambda>(share, _). Inr share)"

record assess_opts =
  proposedSellCents :: "jsnum option"
  opt_legs :: "leg list option"
  tenantParty :: "string option"

definition assessApproval :: "priced_quote \<Rightarrow> assess_opts \<Rightarrow> rater_error + approval_decision" where
  "assessApproval quote opts =
     (let quotedSell = (case proposedSellCents opts of Some p \<Rightarrow> p | None \<Rightarrow> Whole (sell_cents quote));
          legs = (case opt_legs opts of Some ls \<Rightarrow> ls | None \<Rightarrow> []);
          legsProvided = (legs \<noteq> []);
          tenantProvided = (tenantParty opts \<noteq> None)
      in if legsProvided \<noteq> tenantProvided
         then Inl (if legsProvided then LegsWithoutTenant else TenantWithoutLegs)
         else ebind (case tenantParty opts of
                Some tp \<Rightarrow> ebind (executingShare quotedSell legs tp) (\<lambda>(share, bps).
                    Inr (Whole share, Some bps))
              | None \<Rightarrow> Inr (quotedSell, None)) (\<lambda>(evaluated, share_bps).
           ebind (evaluateApproval evaluated (quote_floors quote)) (\<lambda>d.
             Inr \<lparr> approval = approval d, approvals_required = approvals_required d,
               approval_rule = approval_rule d, required_role = required_role d,
               evaluated_sell_cents = evaluated, gross_sell_cents = quotedSell,
               executing_share_bps = share_bps \<rparr>)))"

definition required_approvals :: "int \<Rightarrow> floors \<Rightarrow> nat" where
  "required_approvals x fl = (if x \<ge> target fl then 0 else if x \<ge> contribution fl then 1 else 2)"

definition leg_split :: "leg \<Rightarrow> int" where
  "leg_split l = (case split_bps l of Whole b \<Rightarrow> b | Fractional \<Rightarrow> 0)"

definition tenant_share :: "string \<Rightarrow> leg list \<Rightarrow> int" where
  "tenant_share p ls = (\<Sum>l\<leftarrow>filter (\<lambda>l. executor l = p) ls. leg_split l)"

lemma tenant_share_simps [simp]:
  "tenant_share p [] = 0"
  "tenant_share p (l # ls) = (if executor l = p then leg_split l else 0) + tenant_share p ls"
  by (simp_all add: tenant_share_def)

lemma sumSplits_value:
  assumes "sumSplits p ls t b = Inr (t', b')"
  shows "t' = t + (\<Sum>l\<leftarrow>ls. leg_split l) \<and> b' = b + tenant_share p ls \<and>
    (\<forall>l \<in> set ls. isInteger (split_bps l) \<and> 0 \<le> leg_split l)"
  using assms
proof (induction ls arbitrary: t b)
  case (Cons l ls)
  obtain n where n: "split_bps l = Whole n" "0 \<le> n"
    "sumSplits p ls (t + n) (if executor l = p then b + n else b) = Inr (t', b')"
    using Cons.prems by (cases "split_bps l") (simp_all split: if_splits)
  then have "leg_split l = n"
    by (simp add: leg_split_def)
  then show ?case
    using Cons.IH[OF n(3)] n(1,2) by simp
qed simp

lemma tenant_share_le:
  assumes "\<forall>l \<in> set ls. 0 \<le> leg_split l"
  shows "0 \<le> tenant_share p ls \<and> tenant_share p ls \<le> (\<Sum>l\<leftarrow>ls. leg_split l)"
  using assms by (induction ls) auto

lemma evaluateApproval_value:
  assumes "evaluateApproval x fl = Inr d"
  shows "\<exists>e. x = Whole e \<and> 0 \<le> e \<and> approvals_required d = required_approvals e fl \<and>
    (approval_rule d = None \<longleftrightarrow> approvals_required d = 0) \<and>
    (required_role d = Some Finance \<longleftrightarrow> approvals_required d = 2)"
proof -
  obtain e where e: "x = Whole e" "0 \<le> e"
    using assms by (cases x) (auto simp: evaluateApproval_def)
  show ?thesis
  proof (intro exI[of _ e] conjI)
    show "approvals_required d = required_approvals e fl"
      "approval_rule d = None \<longleftrightarrow> approvals_required d = 0"
      "required_role d = Some Finance \<longleftrightarrow> approvals_required d = 2"
      using assms e unfolding evaluateApproval_def required_approvals_def
      by (cases "target fl \<le> e"; cases "contribution fl \<le> e"; auto)+
  qed (use e in simp_all)
qed

lemma executingShare_value:
  assumes "executingShare g ls p = Inr (share, bps)"
  shows "\<exists>gross. g = Whole gross \<and> 0 \<le> gross \<and> (\<Sum>l\<leftarrow>ls. leg_split l) = 10000 \<and>
    bps = tenant_share p ls \<and> 0 \<le> share \<and> share \<le> gross \<and>
    20000 * share \<le> 2 * (gross * bps) + 10000 \<and> 2 * (gross * bps) + 10000 < 20000 * (share + 1)"
proof -
  obtain gross t b where *: "g = Whole gross" "0 \<le> gross" "sumSplits p ls 0 0 = Inr (t, b)" "t = 10000"
    "mulDivHalfUp (Whole gross) (Whole b) (Whole BPS_DIVISOR) = Inr share" "bps = b"
    using assms by (auto simp: executingShare_def BPS_DIVISOR_def split: if_splits)
  have b: "b = tenant_share p ls" "(\<Sum>l\<leftarrow>ls. leg_split l) = 10000" "b \<le> BPS_DIVISOR"
    using sumSplits_value[OF *(3)] *(4) tenant_share_le[of ls p] by (auto simp: BPS_DIVISOR_def)
  show ?thesis
    using rater_half_up.result_nonneg[OF *(5)] rater_half_up.at_most[OF *(5) b(3)]
      rater_half_up.nearest[OF *(5)] * b by (auto simp: BPS_DIVISOR_def)
qed

section \<open>The sweep (\<open>sweep.ts\<close>)\<close>

record sweep_cell =
  cell_dest_zip :: string
  cell_weight_lb :: jsnum
  cell_quote :: priced_quote

record sweep_opts =
  sw_origin_zip :: string
  sw_dest_zips :: "string list"
  sw_weights_lb :: "jsnum list"
  sw_dims :: dims
  sw_accessorials :: "string list option"

definition sweep_request :: "sweep_opts \<Rightarrow> string \<Rightarrow> jsnum \<Rightarrow> rate_request" where
  "sweep_request opts z w = \<lparr> origin_zip = sw_origin_zip opts, dest_zip = z, weight_lb = Some w,
     shipment_dims = Some (sw_dims opts),
     accessorials = Some (case sw_accessorials opts of Some a \<Rightarrow> a | None \<Rightarrow> []) \<rparr>"

definition sweepCell :: "tenant_rating_config \<Rightarrow> sweep_opts \<Rightarrow> string \<Rightarrow> jsnum \<Rightarrow> rater_error + sweep_cell" where
  "sweepCell config opts z w =
     ebind (priceShipment (sweep_request opts z w) config) (\<lambda>q.
       case q of
         QuoteUnknown reason \<Rightarrow> Inl (UnknownCell z reason)
       | Priced p \<Rightarrow> Inr \<lparr> cell_dest_zip = z, cell_weight_lb = w, cell_quote = p \<rparr>)"

definition sweepGrid :: "tenant_rating_config \<Rightarrow> sweep_opts \<Rightarrow> rater_error + sweep_cell list" where
  "sweepGrid config opts =
     ebind (traverse (\<lambda>z. traverse (sweepCell config opts z) (sw_weights_lb opts)) (sw_dest_zips opts))
       (\<lambda>rows. Inr (concat rows))"

section \<open>The brokerage cold start (\<open>tariff-templates.ts\<close>)\<close>

record brokerage_params =
  marketRateCentsPerCwt :: jsnum
  marginBps :: jsnum
  minChargeCents :: jsnum
  fscPctBps :: jsnum
  bp_accessorials :: "(string \<times> int) list option"
  idPrefix :: string
  bp_version :: "string option"

definition assertNonNegInt :: "string \<Rightarrow> jsnum \<Rightarrow> rater_error + int" where
  "assertNonNegInt name v =
     (case v of Whole n \<Rightarrow> if n < 0 then Inl (BadTemplateParam name) else Inr n
      | Fractional \<Rightarrow> Inl (BadTemplateParam name))"

definition assertPosInt :: "string \<Rightarrow> jsnum \<Rightarrow> rater_error + int" where
  "assertPosInt name v =
     (case v of Whole n \<Rightarrow> if n \<le> 0 then Inl (BadTemplateParam name) else Inr n
      | Fractional \<Rightarrow> Inl (BadTemplateParam name))"

definition assertBps :: "string \<Rightarrow> jsnum \<Rightarrow> rater_error + int" where
  "assertBps name v =
     (case v of Whole n \<Rightarrow> if n < 0 \<or> n > BPS_DIVISOR then Inl (BadTemplateParam name) else Inr n
      | Fractional \<Rightarrow> Inl (BadTemplateParam name))"

definition digit :: "nat \<Rightarrow> char" where
  "digit n = char_of (48 + n)"

definition pad3 :: "nat \<Rightarrow> string" where
  "pad3 p = [digit (p div 100), digit (p div 10 mod 10), digit (p mod 10)]"

definition nationalZipToZone :: "string \<Rightarrow> (string \<times> string) list" where
  "nationalZipToZone zone = map (\<lambda>p. (pad3 p, zone)) [0..<1000]"

definition NATIONAL_ZONE :: string where "NATIONAL_ZONE = ''NAT''"

definition brokerageTemplate :: "brokerage_params \<Rightarrow> rater_error + tenant_rating_config" where
  "brokerageTemplate params =
     ebind (assertPosInt ''marketRateCentsPerCwt'' (marketRateCentsPerCwt params)) (\<lambda>market.
     ebind (assertBps ''marginBps'' (marginBps params)) (\<lambda>margin.
     ebind (assertNonNegInt ''minChargeCents'' (minChargeCents params)) (\<lambda>minCharge.
     ebind (assertBps ''fscPctBps'' (fscPctBps params)) (\<lambda>fscPct.
     ebind (require (length (idPrefix params) \<noteq> 0) (BadTemplateParam ''idPrefix'')) (\<lambda>_.
     let pre = idPrefix params;
         version = (case bp_version params of Some v \<Rightarrow> v | None \<Rightarrow> ''v1'')
     in ebind (money (mulDivHalfUp (Whole market) (Whole (BPS_DIVISOR + margin)) (Whole BPS_DIVISOR))) (\<lambda>sellCwtCents.
        ebind (money (mulDivHalfUp (Whole BPS_DIVISOR) (Whole BPS_DIVISOR) (Whole (BPS_DIVISOR + margin)))) (\<lambda>contributionBps.
        ebind (money (roundHalfUp (Whole (contributionBps + BPS_DIVISOR)) (Whole 2))) (\<lambda>fullCostBps.
          Inr \<lparr> cfg_zone_tariff = \<lparr> zt_id = pre @ ''-zone_tariff'', zt_version = version,
                  zip_to_zone = nationalZipToZone NATIONAL_ZONE,
                  rate_groups = [\<lparr> rg_id = pre @ ''-nat'', zones = [NATIONAL_ZONE],
                    breaks = [\<lparr> min_lb = 0, cwt_cents = sellCwtCents \<rparr>],
                    min_charge_cents = minCharge \<rparr>] \<rparr>,
                cfg_floors = \<lparr> fl_id = pre @ ''-floors'', fl_version = version,
                  target_or_bps = BPS_DIVISOR, full_cost_bps = fullCostBps,
                  contribution_bps = contributionBps \<rparr>,
                cfg_fsc = \<lparr> fsc_id = pre @ ''-fsc'', fsc_version = version, pct_bps = fscPct \<rparr>,
                cfg_accessorials = \<lparr> as_id = pre @ ''-accessorials'', as_version = version,
                  as_items = (case bp_accessorials params of Some a \<Rightarrow> a | None \<Rightarrow> []) \<rparr> \<rparr>))))))))"

lemma digit_inj: "i < 10 \<Longrightarrow> j < 10 \<Longrightarrow> digit i = digit j \<longleftrightarrow> i = j"
  unfolding digit_def by (simp add: char_of_eq_iff take_bit_eq_mod)


lemma three_digits: "(n :: nat) = 100 * (n div 100) + 10 * (n div 10 mod 10) + n mod 10"
proof -
  have "n div 10 div 10 = n div 100"
    by (simp flip: div_mult2_eq)
  then show ?thesis
    using div_mult_mod_eq[of n 10] div_mult_mod_eq[of "n div 10" 10] by linarith
qed

lemma three_digits_split:
  fixes i j k :: nat
  assumes "j < 10" "k < 10"
  shows "(100 * i + 10 * j + k) div 100 = i" "(100 * i + 10 * j + k) div 10 mod 10 = j"
    "(100 * i + 10 * j + k) mod 10 = k"
proof -
  have "(100 * i + 10 * j + k) div 10 = 10 * i + j"
    using assms by (intro div_nat_eqI) auto
  then show "(100 * i + 10 * j + k) div 10 mod 10 = j"
    using assms by simp
  show "(100 * i + 10 * j + k) div 100 = i"
    using assms by (intro div_nat_eqI) auto
  have "100 * i + 10 * j + k = k + 10 * (10 * i + j)"
    by simp
  then show "(100 * i + 10 * j + k) mod 10 = k"
    using assms(2) by (simp only: mod_mult_self2 mod_less)
qed

lemma pad3_inj: "inj_on pad3 {..<1000}"
proof (rule inj_onI)
  fix i j :: nat
  assume *: "i \<in> {..<1000}" "j \<in> {..<1000}" "pad3 i = pad3 j"
  have "i div 100 = j div 100" "i div 10 mod 10 = j div 10 mod 10" "i mod 10 = j mod 10"
    using * by (auto simp: pad3_def digit_inj)
  then show "i = j"
    using three_digits[of i] three_digits[of j] by linarith
qed

lemma zip_key_pad3: "p < 1000 \<Longrightarrow> zip_key (pad3 p)"
proof -
  have "CHR ''0'' \<le> digit d \<and> digit d \<le> CHR ''9''" if "d < 10" for d
    using that by (auto simp: digit_def less_eq_char_def take_bit_eq_mod)
  then show "p < 1000 \<Longrightarrow> zip_key (pad3 p)"
    by (simp add: zip_key_def pad3_def)
qed

lemma digit_surj:
  assumes "CHR ''0'' \<le> c" "c \<le> CHR ''9''"
  shows "\<exists>d < 10. c = digit d"
proof -
  have "48 \<le> (of_char c :: nat)" "(of_char c :: nat) \<le> 57"
    using assms by (auto simp: less_eq_char_def)
  then have "of_char c - 48 < (10 :: nat)" "c = digit (of_char c - 48)"
    by (simp_all add: digit_def)
  then show ?thesis
    by blast
qed

lemma pad3_surj:
  assumes "list_all (\<lambda>c. CHR ''0'' \<le> c \<and> c \<le> CHR ''9'') cs" "length cs = 3"
  shows "\<exists>p < 1000. cs = pad3 p"
proof -
  obtain a b c where cs: "cs = [a, b, c]"
    using assms(2) by (auto simp: length_Suc_conv numeral_3_eq_3)
  then obtain i j k where "i < 10" "j < 10" "k < 10" "a = digit i" "b = digit j" "c = digit k"
    using assms(1) digit_surj[of a] digit_surj[of b] digit_surj[of c] by auto
  then have "cs = pad3 (100 * i + 10 * j + k)" "100 * i + 10 * j + k < 1000"
    using cs by (simp_all add: pad3_def three_digits_split)
  then show ?thesis
    by blast
qed

lemma national_distinct: "distinct (map fst (nationalZipToZone z))"
  using pad3_inj by (simp add: nationalZipToZone_def comp_def distinct_map atLeast_upt lessThan_atLeast0)

text \<open>Every ZIP that begins with three digits is served by the national zone.\<close>

lemma national_covers:
  assumes "list_all (\<lambda>c. CHR ''0'' \<le> c \<and> c \<le> CHR ''9'') (take 3 s)" "3 \<le> length s"
  shows "\<exists>k. matchZone s (nationalZipToZone z) = Some (k, z)"
proof -
  obtain p where "p < 1000" "take 3 s = pad3 p"
    using pad3_surj[OF assms(1)] assms(2) by auto
  then have p: "(pad3 p, z) \<in> set (nationalZipToZone z)" "startsWith s (pad3 p)"
    by (auto simp: nationalZipToZone_def startsWith_def pad3_def simp flip: numeral_3_eq_3)
  then have "matchZone s (nationalZipToZone z) \<noteq> None"
    by (simp add: matchZone_def matchZoneFrom_None) (metis fst_conv)
  then obtain k y where "matchZone s (nationalZipToZone z) = Some (k, y)"
    by auto
  moreover have "y = z"
    using matchZoneFrom_sound[of s "nationalZipToZone z" None "(k, y)"] calculation
    by (auto simp: matchZone_def nationalZipToZone_def)
  ultimately show ?thesis
    by blast
qed

lemma sell_rate:
  assumes "0 < market" "market \<le> 5000000" "0 \<le> margin" "margin \<le> 10000"
  shows "\<exists>sell. mulDivHalfUp (Whole market) (Whole (BPS_DIVISOR + margin)) (Whole BPS_DIVISOR) = Inr sell \<and>
    0 \<le> sell \<and> sell \<le> MAX_CWT_CENTS"
proof -
  have le: "market * (10000 + margin) \<le> 5000000 * 20000"
    using assms by (intro mult_mono) auto
  then obtain sell where sell:
    "mulDivHalfUp (Whole market) (Whole (BPS_DIVISOR + margin)) (Whole BPS_DIVISOR) = Inr sell"
    using rater_half_up.answers[of market "BPS_DIVISOR + margin" BPS_DIVISOR] assms
    by (auto simp: BPS_DIVISOR_def MAX_SAFE_def mult.commute)
  then show ?thesis
    using rater_half_up.nearest[OF sell] rater_half_up.result_nonneg[OF sell] le
    by (simp add: BPS_DIVISOR_def MAX_CWT_CENTS_def)
qed

lemma cold_floors:
  assumes "0 \<le> margin" "margin \<le> 10000"
  shows "\<exists>con fl. mulDivHalfUp (Whole BPS_DIVISOR) (Whole BPS_DIVISOR) (Whole (BPS_DIVISOR + margin)) = Inr con \<and>
    0 \<le> con \<and> roundHalfUp (Whole (con + BPS_DIVISOR)) (Whole 2) = Inr fl \<and> con \<le> fl \<and> fl \<le> 10000"
proof -
  obtain con where con:
    "mulDivHalfUp (Whole BPS_DIVISOR) (Whole BPS_DIVISOR) (Whole (BPS_DIVISOR + margin)) = Inr con"
    using rater_half_up.answers_within[of BPS_DIVISOR BPS_DIVISOR "BPS_DIVISOR + margin"] assms
    by (auto simp: BPS_DIVISOR_def MAX_SAFE_def)
  then have "0 \<le> con" "con \<le> 10000"
    using rater_half_up.result_nonneg[OF con] rater_half_up.at_most[OF con] assms
    by (auto simp: BPS_DIVISOR_def)
  moreover have "roundHalfUp (Whole (con + BPS_DIVISOR)) (Whole 2) = Inr (halfUpBig (con + BPS_DIVISOR) 2)"
    using calculation by (simp add: roundHalfUp_def BPS_DIVISOR_def)
  ultimately show ?thesis
    using con halfUpBig_spec[of 2 "con + BPS_DIVISOR"] by (auto simp: BPS_DIVISOR_def)
qed

section \<open>Properties\<close>

text \<open>The approval decision. The number of named approvals is that of the matrix (none at or above
  the target floor, one at or above contribution, two below it) on the figure actually compared:
  the quoted or proposed sell on a direct move, and on an interline move the tenant's executing
  share, which is the half-up product of the gross with the tenant's basis points over a split
  that totals the whole, and is never more than the gross. A partial interline signal never
  yields a decision.\<close>

theorem assessApproval_compares_the_share:
  assumes "assessApproval quote opts = Inr d"
  shows "\<exists>gross e. gross_sell_cents d = Whole gross \<and> evaluated_sell_cents d = Whole e \<and>
    Whole gross = (case proposedSellCents opts of Some p \<Rightarrow> p | None \<Rightarrow> Whole (sell_cents quote)) \<and>
    0 \<le> e \<and> e \<le> gross \<and> approvals_required d = required_approvals e (quote_floors quote) \<and>
    (case (opt_legs opts, tenantParty opts) of
       (Some (l # ls), Some tp) \<Rightarrow>
         (\<Sum>l\<leftarrow>l # ls. leg_split l) = 10000 \<and> executing_share_bps d = Some (tenant_share tp (l # ls)) \<and>
         20000 * e \<le> 2 * (gross * tenant_share tp (l # ls)) + 10000 \<and>
         2 * (gross * tenant_share tp (l # ls)) + 10000 < 20000 * (e + 1)
     | (legs, None) \<Rightarrow> (legs = None \<or> legs = Some []) \<and> e = gross \<and> executing_share_bps d = None
     | _ \<Rightarrow> False)"
proof -
  define quoted where
    "quoted = (case proposedSellCents opts of Some p \<Rightarrow> p | None \<Rightarrow> Whole (sell_cents quote))"
  define legs where "legs = (case opt_legs opts of Some ls \<Rightarrow> ls | None \<Rightarrow> [])"
  show ?thesis
  proof (cases "tenantParty opts")
    case None
    then have "legs = []"
      using assms by (auto simp: assessApproval_def legs_def[symmetric] Let_def split: if_splits)
    obtain m where m: "evaluateApproval quoted (quote_floors quote) = Inr m"
      "approvals_required d = approvals_required m" "evaluated_sell_cents d = quoted"
      "gross_sell_cents d = quoted" "executing_share_bps d = None"
      using assms None \<open>legs = []\<close>
      by (auto simp: assessApproval_def legs_def[symmetric] quoted_def[symmetric] Let_def)
    show ?thesis
      using evaluateApproval_value[OF m(1)] m(2-) None \<open>legs = []\<close>
      by (auto simp: quoted_def[symmetric] legs_def split: option.splits list.splits)
  next
    case (Some tp)
    then have "legs \<noteq> []"
      using assms by (auto simp: assessApproval_def legs_def[symmetric] Let_def split: if_splits)
    then obtain l ls where ls: "opt_legs opts = Some (l # ls)" "legs = l # ls"
      by (auto simp: legs_def neq_Nil_conv split: option.splits)
    obtain m share bps where m: "executingShare quoted legs tp = Inr (share, bps)"
      "evaluateApproval (Whole share) (quote_floors quote) = Inr m"
      "approvals_required d = approvals_required m" "evaluated_sell_cents d = Whole share"
      "gross_sell_cents d = quoted" "executing_share_bps d = Some bps"
      using assms Some \<open>legs \<noteq> []\<close>
      by (auto simp: assessApproval_def legs_def[symmetric] quoted_def[symmetric] Let_def)
    obtain e where e: "Whole share = Whole e"
      "approvals_required m = required_approvals e (quote_floors quote)"
      using evaluateApproval_value[OF m(2)] by blast
    obtain gross where "quoted = Whole gross"
      "(\<Sum>l\<leftarrow>legs. leg_split l) = 10000" "bps = tenant_share tp legs" "0 \<le> share" "share \<le> gross"
      "20000 * share \<le> 2 * (gross * bps) + 10000" "2 * (gross * bps) + 10000 < 20000 * (share + 1)"
      using executingShare_value[OF m(1)] by auto
    then show ?thesis
      using m(3-) e ls Some unfolding quoted_def[symmetric]
      by (intro exI[of _ gross] exI[of _ share]) simp
  qed
qed

definition sample_quote :: priced_quote where
  "sample_quote = \<lparr> sell_cents = 100000, lines = [],
     quote_floors = \<lparr> contribution = 60000, full = 70000, target = 80000 \<rparr>, cost_cents = 90000,
     rate_config_ids = [''t@1''],
     basis = \<lparr> qb_freight = \<lparr> fb_zone = [], rate_group_id = [], matched_zip_prefix = [],
         as_rated_lb = 1, applied_cwt_cents = 1, min_charge_applied = False \<rparr>,
       qb_cost_cents = 90000, qb_contribution_bps = 0, qb_full_cost_bps = 0, qb_target_or_bps = 0,
       requested_accessorials = [] \<rparr>, anomaly = None \<rparr>"

definition sample_interline :: assess_opts where
  "sample_interline = \<lparr> proposedSellCents = None,
     opt_legs = Some [\<lparr> leg_kind = Linehaul, executor = ''us'', split_bps = Whole 5000 \<rparr>,
                      \<lparr> leg_kind = Interline, executor = ''them'', split_bps = Whole 5000 \<rparr>],
     tenantParty = Some ''us'' \<rparr>"

lemma sample_assessed: "\<exists>d. assessApproval sample_quote sample_interline = Inr d"
  by (simp add: assessApproval_def sample_quote_def sample_interline_def executingShare_def Let_def
      mulDivHalfUp_def halfUpBig_def evaluateApproval_def BPS_DIVISOR_def MAX_SAFE_def)

theorem assessApproval_compares_the_share_witness:
  "\<exists>d. assessApproval sample_quote sample_interline = Inr d \<and> executing_share_bps d = Some 5000 \<and>
     approvals_required d = 2"
proof -
  obtain d where d: "assessApproval sample_quote sample_interline = Inr d"
    using sample_assessed by blast
  show ?thesis
    using assessApproval_compares_the_share[OF d] d
    by (auto simp: sample_quote_def sample_interline_def leg_split_def required_approvals_def)
qed

lemma sweep_request_physics:
  "request_physics (sweep_request opts z v) = (request_physics (sweep_request opts z w)) \<lparr> weight_lb := Some v \<rparr>"
  by (simp add: request_physics_def sweep_request_def)

lemma sweepCell_InrD:
  assumes "sweepCell config opts z w = Inr c"
  shows "cell_dest_zip c = z \<and> cell_weight_lb c = w \<and>
    (\<exists>n fb. w = Whole n \<and> priceFreight (request_physics (sweep_request opts z w)) (cfg_zone_tariff config)
       = Inr (FreightPriced (cost_cents (cell_quote c)) fb))"
proof -
  obtain q where q: "priceShipment (sweep_request opts z w) config = Inr q"
    using assms by (auto simp: sweepCell_def)
  obtain p where p: "priceShipment (sweep_request opts z w) config = Inr (Priced p)"
    "c = \<lparr> cell_dest_zip = z, cell_weight_lb = w, cell_quote = p \<rparr>"
    using assms q by (cases q) (auto simp: sweepCell_def)
  from p(1) show ?thesis
    by (cases rule: priceShipment_cases) (use p(2) in \<open>auto simp: sweep_request_def\<close>)
qed

text \<open>A sweep that returns has priced every cell of the grid, destination by destination and in the
  order of the weights, and within one destination a heavier cell never has a lower freight cost.\<close>

theorem sweepGrid_complete_and_monotone:
  assumes "sweepGrid config opts = Inr cells"
  shows "map (\<lambda>c. (cell_dest_zip c, cell_weight_lb c)) cells =
      List.product (sw_dest_zips opts) (sw_weights_lb opts) \<and>
    (\<forall>c \<in> set cells. \<forall>d \<in> set cells. \<forall>v w. cell_dest_zip c = cell_dest_zip d \<and>
       cell_weight_lb c = Whole v \<and> cell_weight_lb d = Whole w \<and> v \<le> w \<longrightarrow>
       cost_cents (cell_quote c) \<le> cost_cents (cell_quote d))"
proof -
  obtain rows where rows: "traverse (\<lambda>z. traverse (sweepCell config opts z) (sw_weights_lb opts))
      (sw_dest_zips opts) = Inr rows" "cells = concat rows"
    using assms by (auto simp: sweepGrid_def)
  have row: "map (\<lambda>c. (cell_dest_zip c, cell_weight_lb c)) r = map (Pair z) ws"
    if "list_all2 (\<lambda>w c. sweepCell config opts z w = Inr c) ws r" for z ws r
    using that by induction (auto dest: sweepCell_InrD)
  have all: "list_all2 (\<lambda>z r. list_all2 (\<lambda>w c. sweepCell config opts z w = Inr c) (sw_weights_lb opts) r)
      (sw_dest_zips opts) rows"
    using rows(1) by (simp add: traverse_eq_Inr)
  then have grid: "map (\<lambda>c. (cell_dest_zip c, cell_weight_lb c)) cells =
      List.product (sw_dest_zips opts) (sw_weights_lb opts)"
    unfolding rows(2) by induction (auto dest: row)
  have cellD: "\<exists>z w. sweepCell config opts z w = Inr c" if mem: "c \<in> set cells" for c
  proof -
    obtain r where "r \<in> set rows" "c \<in> set r"
      using mem rows(2) by auto
    then show ?thesis
      using list_all2_right[OF all] list_all2_right by fast
  qed
  have "cost_cents (cell_quote c) \<le> cost_cents (cell_quote d)"
    if cd: "c \<in> set cells" "d \<in> set cells" "cell_dest_zip c = cell_dest_zip d"
      "cell_weight_lb c = Whole v" "cell_weight_lb d = Whole w" "v \<le> w" for c d v w
  proof -
    obtain z fb where c: "z = cell_dest_zip c" "priceFreight (request_physics (sweep_request opts z (Whole v)))
        (cfg_zone_tariff config) = Inr (FreightPriced (cost_cents (cell_quote c)) fb)"
      using cellD[OF cd(1)] cd(4) sweepCell_InrD by metis
    obtain fb' where d: "priceFreight (request_physics (sweep_request opts z (Whole w)))
        (cfg_zone_tariff config) = Inr (FreightPriced (cost_cents (cell_quote d)) fb')"
      using cellD[OF cd(2)] cd(3,5) sweepCell_InrD c(1) by metis
    show ?thesis
      using priceFreight_mono[OF c(2), of w "cost_cents (cell_quote d)" fb' v] d cd(6)
        sweep_request_physics[of opts z "Whole w" "Whole v"]
      by (simp add: request_physics_def sweep_request_def)
  qed
  then show ?thesis
    using grid by blast
qed

definition sample_sweep :: sweep_opts where
  "sample_sweep = \<lparr> sw_origin_zip = ''80001'', sw_dest_zips = [''80112''],
     sw_weights_lb = [Whole 100, Whole 900],
     sw_dims = \<lparr> l_in = Whole 1, w_in = Whole 1, h_in = Whole 1, pieces = Whole 1 \<rparr>,
     sw_accessorials = None \<rparr>"

lemma sample_sweep_request:
  "sweep_request sample_sweep z w = \<lparr> origin_zip = ''80001'', dest_zip = z, weight_lb = Some w,
     shipment_dims = Some \<lparr> l_in = Whole 1, w_in = Whole 1, h_in = Whole 1, pieces = Whole 1 \<rparr>,
     accessorials = Some [] \<rparr>"
  by (simp add: sweep_request_def sample_sweep_def)

lemma sample_sweep_priced_light:
  "\<exists>p. priceShipment (sweep_request sample_sweep ''80112'' (Whole 100)) sample_config = Inr (Priced p)"
  unfolding sample_sweep_request by (simp add: rater_eval sample_defs)

lemma sample_sweep_priced_heavy:
  "\<exists>p. priceShipment (sweep_request sample_sweep ''80112'' (Whole 900)) sample_config = Inr (Priced p)"
  unfolding sample_sweep_request by (simp add: rater_eval sample_defs)

lemma sample_cells:
  "\<exists>c. sweepCell sample_config sample_sweep ''80112'' (Whole 100) = Inr c"
  "\<exists>c. sweepCell sample_config sample_sweep ''80112'' (Whole 900) = Inr c"
  using sample_sweep_priced_light sample_sweep_priced_heavy by (auto simp: sweepCell_def)

theorem sweepGrid_complete_and_monotone_witness:
  "\<exists>cells. sweepGrid sample_config sample_sweep = Inr cells \<and> length cells = 2"
proof -
  obtain cells where c: "sweepGrid sample_config sample_sweep = Inr cells"
    using sample_cells by (auto simp: sweepGrid_def sample_sweep_def)
  have "length cells = 2"
    using arg_cong[OF sweepGrid_complete_and_monotone[OF c, THEN conjunct1], of length]
    by (simp add: sample_sweep_def)
  then show ?thesis
    using c by blast
qed

text \<open>The brokerage cold start holds what it promises. Inside the contract's ceilings the template
  is accepted by every parser, its floors are ordered, and a measured shipment to any ZIP that
  starts with three digits is priced at once.\<close>

theorem brokerageTemplate_prices_immediately:
  assumes "marketRateCentsPerCwt params = Whole market" "0 < market" "market \<le> 5000000"
    and "marginBps params = Whole margin" "is_bps margin"
    and "minChargeCents params = Whole m" "0 \<le> m" "m \<le> MAX_CONFIG_CENTS"
    and "fscPctBps params = Whole f" "is_bps f" "idPrefix params \<noteq> []" "bp_version params \<noteq> Some []"
    and "bp_accessorials params = None"
  shows "\<exists>cfg. brokerageTemplate params = Inr cfg \<and> config_accepted cfg \<and>
    (\<forall>r w. measured (request_physics r) = Some w \<and> w \<le> MAX_WEIGHT_LB \<and> requested r = [] \<and>
       3 \<le> length (dest_zip r) \<and> list_all (\<lambda>c. CHR ''0'' \<le> c \<and> c \<le> CHR ''9'') (take 3 (dest_zip r)) \<longrightarrow>
       (\<exists>p. priceShipment r cfg = Inr (Priced p)))"
proof -
  have margin: "0 \<le> margin" "margin \<le> 10000"
    using assms(5) by (auto simp: is_bps_def)
  obtain sell where sell: "mulDivHalfUp (Whole market) (Whole (BPS_DIVISOR + margin)) (Whole BPS_DIVISOR) = Inr sell"
    "0 \<le> sell" "sell \<le> MAX_CWT_CENTS"
    using sell_rate[OF assms(2,3) margin] by blast
  obtain con fl where con: "mulDivHalfUp (Whole BPS_DIVISOR) (Whole BPS_DIVISOR) (Whole (BPS_DIVISOR + margin)) = Inr con"
    "0 \<le> con" and full: "roundHalfUp (Whole (con + BPS_DIVISOR)) (Whole 2) = Inr fl" "con \<le> fl" "fl \<le> 10000"
    using cold_floors[OF margin] by blast
  obtain version where version: "version = (case bp_version params of Some v \<Rightarrow> v | None \<Rightarrow> ''v1'')"
    "version \<noteq> []"
    using assms(12) by (cases "bp_version params") auto
  define cfg where "cfg = \<lparr> cfg_zone_tariff = \<lparr> zt_id = idPrefix params @ ''-zone_tariff'',
        zt_version = version, zip_to_zone = nationalZipToZone NATIONAL_ZONE,
        rate_groups = [\<lparr> rg_id = idPrefix params @ ''-nat'', zones = [NATIONAL_ZONE],
          breaks = [\<lparr> min_lb = 0, cwt_cents = sell \<rparr>], min_charge_cents = m \<rparr>] \<rparr>,
      cfg_floors = \<lparr> fl_id = idPrefix params @ ''-floors'', fl_version = version,
        target_or_bps = BPS_DIVISOR, full_cost_bps = fl, contribution_bps = con \<rparr>,
      cfg_fsc = \<lparr> fsc_id = idPrefix params @ ''-fsc'', fsc_version = version, pct_bps = f \<rparr>,
      cfg_accessorials = \<lparr> as_id = idPrefix params @ ''-accessorials'', as_version = version,
        as_items = [] \<rparr> \<rparr>"
  have "\<not> margin > BPS_DIVISOR" "\<not> f > BPS_DIVISOR" "\<not> f < 0"
    using margin assms(10) by (auto simp: is_bps_def BPS_DIVISOR_def)
  then have cfg: "brokerageTemplate params = Inr cfg"
    using assms margin sell(1) con(1) full(1)
    by (simp add: brokerageTemplate_def assertPosInt_def assertBps_def assertNonNegInt_def Let_def
        cfg_def version(1))
  have keys: "list_all (\<lambda>(k, _). zip_key k) (nationalZipToZone NATIONAL_ZONE)"
    using zip_key_pad3 by (auto simp: nationalZipToZone_def list_all_iff)
  have accepted: "config_accepted cfg"
    using keys national_distinct sell(2,3) con full assms version(2) margin
    by (simp add: cfg_def config_accepted_def schema_tariff_def schema_group_def schema_break_def
        schema_floors_def schema_fsc_def schema_accessorials_def is_safe_def is_bps_def
        MAX_SAFE_def BPS_DIVISOR_def)
  have ready: "breaks_ready (cfg_zone_tariff cfg)"
    by (simp add: cfg_def breaks_ready_def MAX_WEIGHT_LB_def)
  have "\<exists>p. priceShipment r cfg = Inr (Priced p)"
    if r: "measured (request_physics r) = Some w" "w \<le> MAX_WEIGHT_LB" "requested r = []"
      "3 \<le> length (dest_zip r)" "list_all (\<lambda>c. CHR ''0'' \<le> c \<and> c \<le> CHR ''9'') (take 3 (dest_zip r))" for r w
  proof -
    have "request_accepted r (cfg_accessorials cfg)"
      using r(2,3) measured_SomeD[OF r(1)]
      by (simp add: request_accepted_def request_physics_def unknownAccessorials_def)
    then obtain q where q: "priceShipment r cfg = Inr q"
      using priceShipment_total[OF accepted ready] by blast
    obtain k where "matchZone (dest_zip (request_physics r)) (zip_to_zone (cfg_zone_tariff cfg))
        = Some (k, NATIONAL_ZONE)"
      using national_covers[OF r(5,4)] by (auto simp: request_physics_def cfg_def)
    then have "priceFreight (request_physics r) (cfg_zone_tariff cfg) \<noteq> Inr (FreightUnknown reason)" for reason
      using r(1) by (auto simp: priceFreight_def cfg_def Let_def split: option.splits)
    from q show ?thesis
    proof (cases rule: priceShipment_cases)
      case (unknown reason)
      then show ?thesis
        using \<open>\<And>reason. _ \<noteq> Inr (FreightUnknown reason)\<close> by blast
    qed (use q in blast)
  qed
  then show ?thesis
    using cfg accepted by blast
qed

definition sample_params :: brokerage_params where
  "sample_params = \<lparr> marketRateCentsPerCwt = Whole 2500, marginBps = Whole 1500,
     minChargeCents = Whole 9000, fscPctBps = Whole 1450, bp_accessorials = None,
     idPrefix = ''cold'', bp_version = None \<rparr>"

theorem brokerageTemplate_prices_immediately_witness:
  "\<exists>cfg. brokerageTemplate sample_params = Inr cfg \<and> config_accepted cfg"
  using brokerageTemplate_prices_immediately[of sample_params 2500 1500 9000 1450]
  by (auto simp: sample_params_def is_bps_def MAX_CONFIG_CENTS_def)

end
