(* ===== verification/Lens.thy ===== *)
theory Lens
  imports Store Visibility Approval "HOL-Library.Product_Lexorder"
begin

text \<open>
  The read side of the ledger (\<open>packages/ledger/src/lens.ts\<close>, \<open>redact.ts\<close>): the lens of a session, the
  rows a lens sees, the page of a query, the row format of the events table and the redaction of what
  leaves for a counterparty or a driver.

  A column of JSON text is its value. \<open>rowToEvent\<close> ends with the schema's parse; what the sequencer stored
  passed the same schema, so here the step only decodes the columns.
\<close>

section \<open>Lenses (\<open>lens.ts\<close>)\<close>

record session =
  ss_sub :: string
  ss_tenant :: string
  ss_role :: role
  ss_party_id :: "string option"

datatype lens = TenantLens | PartyLens string | DriverLens string

datatype read_error = LensUnresolved | InvalidCursor | RowMalformed

definition lensFor :: "session \<Rightarrow> read_error + lens" where
  "lensFor s =
     (if ss_role s = Portal then
        (case ss_party_id s of
           Some p \<Rightarrow> if p = [] then Inl LensUnresolved else Inr (PartyLens p)
         | None \<Rightarrow> Inl LensUnresolved)
      else if ss_role s = DriverRole then Inr (DriverLens (ss_sub s))
      else Inr TenantLens)"

definition DRIVER_KINDS :: "event_kind list" where
  "DRIVER_KINDS = [AppointmentSet, PickupScheduled, DispatchAssigned, StopArrived, FreightCounted,
     FreightPhotographed, DimsCaptured, CustodyTransferred, SealApplied, StopDeparted, ExceptionRaised,
     OsdCaptured, PodSigned, DeliveryEvidenced, DocumentAttached, MessageReceived, MessageSent]"

text \<open>\<open>lensWhere\<close>: the condition the fragment states of a row.\<close>

definition lensWhere :: "tenant_db \<Rightarrow> lens \<Rightarrow> 'p ledger_event \<Rightarrow> bool" where
  "lensWhere db l e =
     (case l of
        TenantLens \<Rightarrow> True
      | PartyLens p \<Rightarrow> visibility e \<noteq> Internal \<and> p \<in> set (party_refs e)
      | DriverLens u \<Rightarrow> visibility e \<noteq> Internal \<and> kind e \<in> set DRIVER_KINDS \<and>
          (case shipment_id e of
             None \<Rightarrow> False
           | Some ship \<Rightarrow> (case t_shipments db ship of None \<Rightarrow> False | Some r \<Rightarrow> sh_assigned_driver r = Some u)))"

record read_query =
  rq_shipment_id :: "string option"
  rq_after_seq :: "int option"
  rq_cursor :: "(string \<times> int) option"
  rq_limit :: "int option"
  rq_kinds :: "event_kind list option"
  rq_ts_desc :: bool
  rq_before_ts :: "int option"
  rq_include_shadow :: bool

definition LIMIT_CAP :: int where "LIMIT_CAP = 1000"
definition DEFAULT_LIMIT :: int where "DEFAULT_LIMIT = 200"

definition effectiveLimit :: "int option \<Rightarrow> int" where
  "effectiveLimit asked = min (case asked of None \<Rightarrow> DEFAULT_LIMIT | Some n \<Rightarrow> n) LIMIT_CAP"

definition NATIVE_VISIBLE_SOURCES :: "source list" where
  "NATIVE_VISIBLE_SOURCES = [Native, Edi, Email]"

definition given :: "('a \<Rightarrow> bool) \<Rightarrow> 'a option \<Rightarrow> bool" where
  "given p x = (case x of None \<Rightarrow> True | Some a \<Rightarrow> p a)"

text \<open>The \<open>WHERE\<close> of a query.\<close>

definition selected :: "tenant_db \<Rightarrow> lens \<Rightarrow> read_query \<Rightarrow> 'p ledger_event \<Rightarrow> bool" where
  "selected db l q e =
     (lensWhere db l e \<and>
      (rq_include_shadow q \<or> source e \<in> set NATIVE_VISIBLE_SOURCES) \<and>
      given (\<lambda>s. shipment_id e = Some s) (rq_shipment_id q) \<and>
      given (\<lambda>(st, n). st < stream_id e \<or> stream_id e = st \<and> n < seq e) (rq_cursor q) \<and>
      given (\<lambda>n. n < seq e) (rq_after_seq q) \<and>
      given (\<lambda>ks. ks = [] \<or> kind e \<in> set ks) (rq_kinds q) \<and>
      given (\<lambda>t. ts e < t) (rq_before_ts q))"

text \<open>\<open>LIMIT n\<close>: a negative limit is none.\<close>

definition sqlLimit :: "int \<Rightarrow> 'a list \<Rightarrow> 'a list" where
  "sqlLimit n xs = (if n < 0 then xs else take (nat n) xs)"

definition keyset :: "'p ledger_event \<Rightarrow> string \<times> int" where
  "keyset e = (stream_id e, seq e)"

definition ordered :: "bool \<Rightarrow> 'p ledger_event list \<Rightarrow> 'p ledger_event list" where
  "ordered tsDesc es = (if tsDesc then rev (sort_key (\<lambda>e. (ts e, stream_id e, seq e)) es) else sort_key keyset es)"

section \<open>Rows\<close>

record event_row =
  r_stream_id :: string
  r_seq :: int
  r_id :: string
  r_shipment_id :: "string option"
  r_ts :: int
  r_recorded_at :: int
  r_kind :: string
  r_actor_party_id :: string
  r_actor_user_id :: "string option"
  r_actor_device_id :: "string option"
  r_party_refs :: "string list"
  r_payload :: jvalue
  r_evidence :: "evidence_ref list"
  r_prev_hash :: string
  r_hash :: "string option"
  r_sig :: "string option"
  r_visibility :: string
  r_source :: string
  r_confidence :: int
  r_device_id :: "string option"
  r_device_seq :: "int option"
  r_captured_ts :: "int option"
  r_override_json :: "gate_override option"

definition eventToRow :: "jvalue ledger_event \<Rightarrow> event_row" where
  "eventToRow e =
     \<lparr> r_stream_id = stream_id e, r_seq = seq e, r_id = ev_id e, r_shipment_id = shipment_id e, r_ts = ts e,
        r_recorded_at = recorded_at e, r_kind = kind_name (kind e), r_actor_party_id = act_party (actor e),
        r_actor_user_id = act_user (actor e), r_actor_device_id = act_device (actor e), r_party_refs = party_refs e,
        r_payload = payload e, r_evidence = evidence e, r_prev_hash = prev_hash e, r_hash = ev_hash e, r_sig = sig e,
        r_visibility = visibility_name (visibility e), r_source = source_name (source e), r_confidence = confidence e,
        r_device_id = device_id e, r_device_seq = device_seq e, r_captured_ts = captured_ts e,
        r_override_json = override e \<rparr>"

definition kindNamed :: "string \<Rightarrow> event_kind option" where
  "kindNamed s = find (\<lambda>k. kind_name k = s) EVENT_KINDS"

definition visibilityNamed :: "string \<Rightarrow> visibility option" where
  "visibilityNamed s = find (\<lambda>v. visibility_name v = s) [Internal, Counterparty, Public]"

definition sourceNamed :: "string \<Rightarrow> source option" where
  "sourceNamed s = find (\<lambda>v. source_name v = s) [Native, Legacy, Edi, Email]"

definition rowToEvent :: "event_row \<Rightarrow> read_error + jvalue ledger_event" where
  "rowToEvent r =
     (case (kindNamed (r_kind r), visibilityNamed (r_visibility r), sourceNamed (r_source r), r_hash r) of
        (Some k, Some v, Some src, Some h) \<Rightarrow>
          Inr \<lparr> ev_id = r_id r, stream_id = r_stream_id r, shipment_id = r_shipment_id r, seq = r_seq r, ts = r_ts r,
            recorded_at = r_recorded_at r,
            actor = \<lparr> act_party = r_actor_party_id r, act_user = r_actor_user_id r, act_device = r_actor_device_id r \<rparr>,
            party_refs = r_party_refs r, evidence = r_evidence r, prev_hash = r_prev_hash r, ev_hash = Some h,
            sig = r_sig r, visibility = v, source = src, confidence = r_confidence r, device_id = r_device_id r,
            device_seq = r_device_seq r, captured_ts = r_captured_ts r, override = r_override_json r,
            kind = k, payload = r_payload r \<rparr>
      | _ \<Rightarrow> Inl RowMalformed)"

section \<open>Redaction (\<open>redact.ts\<close>)\<close>

fun REDACTIONS :: "event_kind \<Rightarrow> string list" where
  "REDACTIONS QuotePriced = [''floors'', ''basis'', ''versions'']"
| "REDACTIONS ExceptionRaised = [''internal_note'']"
| "REDACTIONS _ = []"

fun INTERNAL_NESTED :: "event_kind \<Rightarrow> string list" where
  "INTERNAL_NESTED InvoiceIssued = [''division'', ''gl_map'']"
| "INTERNAL_NESTED InvoiceCorrected = [''division'', ''gl_map'']"
| "INTERNAL_NESTED BookingCreated = [''division'']"
| "INTERNAL_NESTED DispatchAssigned = [''driver_user_id'']"
| "INTERNAL_NESTED PaymentReceived = [''division'']"
| "INTERNAL_NESTED SettlementExecuted = [''division'']"
| "INTERNAL_NESTED _ = []"

definition without :: "jstr \<Rightarrow> (jstr \<times> jvalue) list \<Rightarrow> (jstr \<times> jvalue) list" where
  "without k kvs = filter (\<lambda>kv. fst kv \<noteq> k) kvs"

fun deleteKey :: "string \<Rightarrow> jvalue \<Rightarrow> jvalue" where
  "deleteKey k (JObj kvs) = JObj (without (jlit k) kvs)"
| "deleteKey k v = v"

primrec stripKeyInPlace :: "jvalue \<Rightarrow> jstr \<Rightarrow> jvalue" where
  "stripKeyInPlace (JObj kvs) = (\<lambda>k. JObj (without k (map (\<lambda>(a, f). (a, f k)) (map (map_prod id stripKeyInPlace) kvs))))"
| "stripKeyInPlace (JArr xs) = (\<lambda>k. JArr (map (map_option (\<lambda>f. f k)) (map (map_option stripKeyInPlace) xs)))"
| "stripKeyInPlace JNull = (\<lambda>k. JNull)"
| "stripKeyInPlace (JBool b) = (\<lambda>k. JBool b)"
| "stripKeyInPlace (JNum n) = (\<lambda>k. JNum n)"
| "stripKeyInPlace (JStr s) = (\<lambda>k. JStr s)"
| "stripKeyInPlace JUndefined = (\<lambda>k. JUndefined)"
| "stripKeyInPlace JOther = (\<lambda>k. JOther)"

text \<open>\<open>Math.round(x / 100000) * 100000\<close> on an integer: half rounds up, and a negative that rounds to nothing is
  negative zero. The stored payloads hold no other number.\<close>

definition coarse :: "jnum \<Rightarrow> jnum" where
  "coarse n = (case n of
       JInt i \<Rightarrow> (let r = (i + 50000) div 100000 in if r = 0 \<and> i < 0 then NegZero else JInt (r * 100000))
     | NegZero \<Rightarrow> NegZero
     | NotInteger \<Rightarrow> NotInteger)"

fun coarseValue :: "jvalue \<Rightarrow> jvalue" where
  "coarseValue (JNum n) = JNum (coarse n)"
| "coarseValue v = v"

definition isNumber :: "jvalue \<Rightarrow> bool" where
  "isNumber v = (case v of JNum _ \<Rightarrow> True | _ \<Rightarrow> False)"

definition numericField :: "string \<Rightarrow> (jstr \<times> jvalue) list \<Rightarrow> bool" where
  "numericField k kvs = (case map_of kvs (jlit k) of None \<Rightarrow> False | Some v \<Rightarrow> isNumber v)"

definition coarseFields :: "(jstr \<times> jvalue) list \<Rightarrow> (jstr \<times> jvalue) list" where
  "coarseFields kvs =
     (let out = map (\<lambda>(k, v). (k, if k = jlit ''lat_e6'' \<or> k = jlit ''lon_e6'' then coarseValue v else v)) kvs in
      if numericField ''lat_e6'' kvs \<or> numericField ''lon_e6'' kvs then without (jlit ''accuracy_m'') out else out)"

primrec coarsenGeoInPlace :: "jvalue \<Rightarrow> jvalue" where
  "coarsenGeoInPlace (JObj kvs) = JObj (coarseFields (map (map_prod id coarsenGeoInPlace) kvs))"
| "coarsenGeoInPlace (JArr xs) = JArr (map (map_option coarsenGeoInPlace) xs)"
| "coarsenGeoInPlace JNull = JNull"
| "coarsenGeoInPlace (JBool b) = JBool b"
| "coarsenGeoInPlace (JNum n) = JNum n"
| "coarsenGeoInPlace (JStr s) = JStr s"
| "coarsenGeoInPlace JUndefined = JUndefined"
| "coarsenGeoInPlace JOther = JOther"

definition generalizePosition :: "jvalue \<Rightarrow> bool \<Rightarrow> jvalue" where
  "generalizePosition p outForDelivery = (if outForDelivery then p else coarsenGeoInPlace p)"

definition redactEvent :: "lens \<Rightarrow> jvalue ledger_event \<Rightarrow> bool \<Rightarrow> jvalue ledger_event" where
  "redactEvent l e outForDelivery =
     (case l of
        TenantLens \<Rightarrow> e
      | _ \<Rightarrow>
          let p1 = fold deleteKey (REDACTIONS (kind e)) (payload e);
              p2 = fold (\<lambda>k v. stripKeyInPlace v (jlit k)) (INTERNAL_NESTED (kind e)) p1;
              party = (case l of PartyLens _ \<Rightarrow> True | _ \<Rightarrow> False);
              p3 = (if party then generalizePosition p2 outForDelivery else p2);
              e1 = e \<lparr> payload := p3, override := None \<rparr> in
          if party then e1 \<lparr> actor := (actor e) \<lparr> act_user := None \<rparr> \<rparr> else e1)"

section \<open>A page\<close>

definition outForDelivery :: "tenant_db \<Rightarrow> 'p ledger_event \<Rightarrow> bool" where
  "outForDelivery db e =
     (case shipment_id e of
        None \<Rightarrow> False
      | Some ship \<Rightarrow> (case t_shipments db ship of None \<Rightarrow> False | Some r \<Rightarrow> sh_out_for_delivery r))"

definition page :: "tenant_db \<Rightarrow> lens \<Rightarrow> read_query \<Rightarrow> payload ledger_event list" where
  "page db l q = sqlLimit (effectiveLimit (rq_limit q)) (ordered (rq_ts_desc q) (filter (selected db l q) (t_events db)))"

definition readEvents :: "tenant_db \<Rightarrow> lens \<Rightarrow> read_query \<Rightarrow> read_error + jvalue ledger_event list" where
  "readEvents db l q =
     (if rq_after_seq q \<noteq> None \<and> rq_shipment_id q = None then Inl InvalidCursor
      else if rq_after_seq q \<noteq> None \<and> rq_cursor q \<noteq> None then Inl InvalidCursor
      else
        ebind (traverse (\<lambda>e. rowToEvent (eventToRow (stored e))) (page db l q)) (\<lambda>events.
          Inr (map (\<lambda>e. redactEvent l e (outForDelivery db e)) events)))"

text \<open>\<open>routes/events.ts\<close>: a full page hands back the key of its last row.\<close>

definition nextCursor :: "'p ledger_event list \<Rightarrow> int option \<Rightarrow> (string \<times> int) option" where
  "nextCursor events n0 =
     (if int (length events) < effectiveLimit n0 then None
      else if events = [] then None else Some (keyset (List.last events)))"

end
