(* ===== verification/EventsRoute.thy ===== *)
theory EventsRoute
  imports Lens Acceptance
begin

text \<open>
  The door to the ledger (\<open>workers/api/src\<close>): authentication and roles (\<open>middleware/auth.ts\<close>), the idempotency
  cache (\<open>middleware/idempotency.ts\<close>), the tenant's database (\<open>tenants.ts\<close>), the write route
  \<open>POST /v1/shipments/:id/events\<close> (\<open>routes/events.ts\<close>) with its translation of the sequencer's
  refusals, and the parameters of the two read routes.

  Parameters: the verification of a bearer token (\<open>hono/jwt\<close> and the claims schema) and JavaScript's \<open>Number\<close> on a
  query string. The state of the server is the ledger system and the cache of answers.
\<close>

section \<open>Errors (\<open>middleware/error.ts\<close>)\<close>

datatype api_code =
    GateBlockedCode | ValidationFailedCode | UnauthorizedCode | ForbiddenCode | TenantMismatchCode
  | IdempotencyKeyRequiredCode | NotFoundCode | InternalCode

record api_error =
  ae_code :: api_code
  ae_status :: int
  ae_gate :: "required_evidence list option"

definition apiError :: "api_code \<Rightarrow> int \<Rightarrow> api_error" where
  "apiError c st = \<lparr> ae_code = c, ae_status = st, ae_gate = None \<rparr>"

text \<open>The prefix of the message the durable object throws decides the status; a message without a known prefix is an
  internal error.\<close>

fun translateAppendError :: "seq_error \<Rightarrow> api_error" where
  "translateAppendError (GateRefusal (GateError ev)) =
     \<lparr> ae_code = GateBlockedCode, ae_status = 403, ae_gate = Some ev \<rparr>"
| "translateAppendError (GateRefusal (GateValidationError _)) = apiError ValidationFailedCode 400"
| "translateAppendError (Forbidden _) = apiError ForbiddenCode 403"
| "translateAppendError (ValidationFailed _) = apiError ValidationFailedCode 400"
| "translateAppendError (Unauthorized _) = apiError UnauthorizedCode 401"
| "translateAppendError _ = apiError InternalCode 500"

section \<open>Sessions (\<open>middleware/auth.ts\<close>)\<close>

record credentials =
  cr_names_tenant :: bool
  cr_bearer :: "string option"

definition auth :: "(string \<Rightarrow> session option) \<Rightarrow> credentials \<Rightarrow> api_error + session" where
  "auth verifyJwt c =
     (if cr_names_tenant c then Inl (apiError TenantMismatchCode 403)
      else
        case cr_bearer c of
          None \<Rightarrow> Inl (apiError UnauthorizedCode 401)
        | Some b \<Rightarrow>
            if b = [] then Inl (apiError UnauthorizedCode 401)
            else (case verifyJwt b of None \<Rightarrow> Inl (apiError UnauthorizedCode 401) | Some s \<Rightarrow> Inr s))"

definition requireRole :: "role list \<Rightarrow> session \<Rightarrow> api_error + unit" where
  "requireRole roles s = require (ss_role s \<in> set roles) (apiError ForbiddenCode 403)"

section \<open>Idempotency (\<open>middleware/idempotency.ts\<close>)\<close>

definition NUL :: char where
  "NUL = CHR 0x00"

fun joinNul :: "string list \<Rightarrow> string" where
  "joinNul [] = []"
| "joinNul [x] = x"
| "joinNul (x # xs) = x @ NUL # joinNul xs"

text \<open>The scope of a mutation: the digest of tenant, principal, method, path and the client's key.\<close>

definition idempotencyKey :: "(string \<Rightarrow> string) \<Rightarrow> session \<Rightarrow> string \<Rightarrow> string \<Rightarrow> string \<Rightarrow> string" where
  "idempotencyKey hexDigest s httpMethod path key = ''idem:'' @ hexDigest (joinNul [ss_tenant s, ss_sub s, httpMethod, path, key])"

record 'b response =
  rs_status :: int
  rs_body :: 'b

text \<open>The middleware around a handler: a cached 2xx is replayed, only a 2xx is cached.\<close>

definition idempotency ::
  "(string \<Rightarrow> string) \<Rightarrow> session \<Rightarrow> string \<Rightarrow> string \<Rightarrow> string option \<Rightarrow>
   ('s \<Rightarrow> (api_error + 'b response) \<times> 's) \<Rightarrow> (string \<rightharpoonup> 'b response) \<Rightarrow> 's \<Rightarrow>
   (api_error + 'b response) \<times> (string \<rightharpoonup> 'b response) \<times> 's"
where
  "idempotency hexDigest s httpMethod path key handler cache st =
     (case key of
        None \<Rightarrow> (Inl (apiError IdempotencyKeyRequiredCode 400), cache, st)
      | Some k \<Rightarrow>
          if k = [] then (Inl (apiError IdempotencyKeyRequiredCode 400), cache, st)
          else
            let scope = idempotencyKey hexDigest s httpMethod path k in
            (case cache scope of
               Some r \<Rightarrow> (Inr r, cache, st)
             | None \<Rightarrow>
                 (case handler st of
                    (Inl err, st') \<Rightarrow> (Inl err, cache, st')
                  | (Inr r, st') \<Rightarrow>
                      (Inr r, (if 200 \<le> rs_status r \<and> rs_status r < 300 then cache(scope \<mapsto> r) else cache), st'))))"

section \<open>The tenant's database (\<open>tenants.ts\<close>)\<close>

definition resolveTenantDb :: "'k ledger_system \<Rightarrow> string \<Rightarrow> api_error + tenant_db" where
  "resolveTenantDb S tenant =
     (if isPlatformTenant tenant \<or> \<not> resolvable (sys_world S) tenant then Inl (apiError ForbiddenCode 403)
      else Inr (readDb (sys_world S) (CustomerDb tenant)))"

definition assignmentOf :: "tenant_db \<Rightarrow> string \<Rightarrow> string \<Rightarrow> bool" where
  "assignmentOf db shipmentId driverSub =
     (case t_shipments db shipmentId of None \<Rightarrow> False | Some row \<Rightarrow> sh_assigned_driver row = Some driverSub)"

section \<open>The write route (\<open>routes/events.ts\<close>)\<close>

definition SERVER_EMITTED_KINDS :: "event_kind list" where
  "SERVER_EMITTED_KINDS = [InvoiceIssued, InvoiceCorrected, SplitComputed, PaymentReceived, SettlementExecuted]"

definition PRIVILEGED_DECISION_KINDS :: "event_kind list" where
  "PRIVILEGED_DECISION_KINDS = [CreditChecked]"

definition PRIVILEGED_DECISION_ROLES :: "role list" where
  "PRIVILEGED_DECISION_ROLES = [Finance, Admin]"

definition BLESSED_DECISION_KINDS :: "event_kind list" where
  "BLESSED_DECISION_KINDS = [ApprovalDecided]"

definition CONTROL_PLANE_KINDS :: "event_kind list" where
  "CONTROL_PLANE_KINDS = [AuthorityFlipped]"

definition MAX_SHIPMENT_ID_LEN :: nat where
  "MAX_SHIPMENT_ID_LEN = 200"

text \<open>A request body: one with the shape of an event, its claimed override apart (\<open>Some r\<close>: present, with its \<open>reason\<close>
  when that is a string), or any other, of which the route reads the kind and whether it has an override.\<close>

datatype client_body =
    Shaped "payload event_input" "string option option"
  | Unshaped "string option" bool

definition bodyKind :: "client_body \<Rightarrow> string option" where
  "bodyKind b = (case b of Shaped i _ \<Rightarrow> Some (kind_name (in_kind i)) | Unshaped k _ \<Rightarrow> k)"

definition bodyOverrides :: "client_body \<Rightarrow> bool" where
  "bodyOverrides b = (case b of Shaped _ c \<Rightarrow> c \<noteq> None | Unshaped _ o' \<Rightarrow> o')"

definition kindIn :: "event_kind list \<Rightarrow> client_body \<Rightarrow> bool" where
  "kindIn ks b = (case bodyKind b of None \<Rightarrow> False | Some k \<Rightarrow> k \<in> set (map kind_name ks))"

text \<open>What no schema accepts, for a body without the shape of an event.\<close>

definition malformed_input :: "payload event_input" where
  "malformed_input = \<lparr> in_id = [], in_shipment_id = None, in_ts = - 1, in_actor = \<lparr> act_party = [], act_user = None, act_device = None \<rparr>,
     in_party_refs = [], in_evidence = [], in_sig = None, in_source = Native, in_confidence = 0, in_device_id = None,
     in_device_seq = None, in_captured_ts = None, requested_visibility = None, in_override = None,
     in_kind = AgentActed, in_payload = Loose JNull \<rparr>"

text \<open>The input that goes to the sequencer: the source is forced, the author of an override is the session's
  principal; a missing reason does not pass the schema, like a blank one.\<close>

definition stampInput :: "session \<Rightarrow> client_body \<Rightarrow> payload event_input" where
  "stampInput s b =
     (case b of
        Shaped i claimed \<Rightarrow>
          i \<lparr> in_source := Native,
              in_override := map_option (\<lambda>r. \<lparr> ov_by = ss_sub s, ov_reason = (case r of None \<Rightarrow> [] | Some x \<Rightarrow> x) \<rparr>) claimed \<rparr>
      | Unshaped _ _ \<Rightarrow> malformed_input)"

definition ELEVATED :: "role list" where
  "ELEVATED = [Ops, Admin, Finance]"

definition screenBody :: "session \<Rightarrow> client_body \<Rightarrow> api_error + unit" where
  "screenBody s b =
     ebind (require (\<not> kindIn SERVER_EMITTED_KINDS b) (apiError ForbiddenCode 403)) (\<lambda>_.
     ebind (require (\<not> kindIn BLESSED_DECISION_KINDS b) (apiError ForbiddenCode 403)) (\<lambda>_.
     ebind (require (\<not> kindIn CONTROL_PLANE_KINDS b) (apiError ForbiddenCode 403)) (\<lambda>_.
     ebind (require (\<not> (kindIn PRIVILEGED_DECISION_KINDS b \<and> ss_role s \<notin> set PRIVILEGED_DECISION_ROLES))
       (apiError ForbiddenCode 403)) (\<lambda>_.
     ebind (require (\<not> (ss_role s = Finance \<and> \<not> kindIn PRIVILEGED_DECISION_KINDS b)) (apiError ForbiddenCode 403)) (\<lambda>_.
     require (\<not> (bodyOverrides b \<and> ss_role s \<notin> set ELEVATED)) (apiError ForbiddenCode 403))))))"

definition driverScope :: "'k ledger_system \<Rightarrow> session \<Rightarrow> string \<Rightarrow> api_error + unit" where
  "driverScope S s shipmentId =
     (if ss_role s \<noteq> DriverRole then Inr ()
      else ebind (resolveTenantDb S (ss_tenant s)) (\<lambda>db.
        require (assignmentOf db shipmentId (ss_sub s)) (apiError ForbiddenCode 403)))"

definition admitPost :: "'k ledger_system \<Rightarrow> session \<Rightarrow> string \<Rightarrow> client_body \<Rightarrow> api_error + unit" where
  "admitPost S s shipmentId b =
     ebind (requireRole [Admin, Ops, DriverRole, Finance] s) (\<lambda>_.
     ebind (require (length shipmentId \<le> MAX_SHIPMENT_ID_LEN) (apiError ValidationFailedCode 400)) (\<lambda>_.
     ebind (screenBody s b) (\<lambda>_. driverScope S s shipmentId)))"

definition postEvent ::
  "'k env \<Rightarrow> int \<Rightarrow> session \<Rightarrow> string \<Rightarrow> client_body \<Rightarrow> 'k ledger_system \<Rightarrow>
   (api_error + payload ledger_event response) \<times> 'k ledger_system"
where
  "postEvent env now s shipmentId b S =
     (case admitPost S s shipmentId b of
        Inl err \<Rightarrow> (Inl err, S)
      | Inr _ \<Rightarrow>
          let streamId = ''s:'' @ shipmentId;
              i = stampInput s b;
              me = idFromName env (ss_tenant s @ ''|'' @ streamId) in
          (case fst (append_event env now (ss_tenant s) streamId i False (instance_at me S)) of
             Inl err \<Rightarrow> Inl (translateAppendError err)
           | Inr (e, _) \<Rightarrow> Inr \<lparr> rs_status = 201, rs_body = e \<rparr>,
           served env now (ss_tenant s) streamId i S))"

section \<open>The parameters of a read\<close>

definition parseLimit :: "(string \<Rightarrow> jsnum) \<Rightarrow> string option \<Rightarrow> api_error + int option" where
  "parseLimit number raw =
     (case raw of
        None \<Rightarrow> Inr None
      | Some t \<Rightarrow>
          if t = [] then Inr None
          else (case number t of
                  Whole n \<Rightarrow> if n < 1 then Inl (apiError ValidationFailedCode 400) else Inr (Some n)
                | Fractional \<Rightarrow> Inl (apiError ValidationFailedCode 400)))"

definition parseAfterSeq :: "(string \<Rightarrow> jsnum) \<Rightarrow> string option \<Rightarrow> api_error + int option" where
  "parseAfterSeq number raw =
     (case raw of
        None \<Rightarrow> Inr None
      | Some t \<Rightarrow>
          if t = [] then Inr None
          else (case number t of
                  Whole n \<Rightarrow> if n < 0 then Inl (apiError ValidationFailedCode 400) else Inr (Some n)
                | Fractional \<Rightarrow> Inl (apiError ValidationFailedCode 400)))"

definition trim :: "string \<Rightarrow> string" where
  "trim s = rev (dropWhile isWhitespace (rev (dropWhile isWhitespace s)))"

fun splitOn :: "char \<Rightarrow> string \<Rightarrow> string list" where
  "splitOn c [] = [[]]"
| "splitOn c (x # xs) =
     (if x = c then [] # splitOn c xs
      else (case splitOn c xs of [] \<Rightarrow> [[x]] | p # ps \<Rightarrow> (x # p) # ps))"

definition parseKinds :: "string option \<Rightarrow> api_error + event_kind list option" where
  "parseKinds raw =
     (case raw of
        None \<Rightarrow> Inr None
      | Some t \<Rightarrow>
          (let parts = filter (\<lambda>p. p \<noteq> []) (map trim (splitOn (CHR '','') t)) in
           if t = [] \<or> parts = [] then Inr None
           else ebind (traverse (\<lambda>p. case kindNamed p of
                    None \<Rightarrow> Inl (apiError ValidationFailedCode 400) | Some k \<Rightarrow> Inr k) parts)
                  (\<lambda>ks. Inr (Some ks))))"

text \<open>\<open><stream_id>:<seq>\<close>, split at the last colon.\<close>

definition parseCursor :: "(string \<Rightarrow> jsnum) \<Rightarrow> string option \<Rightarrow> api_error + (string \<times> int) option" where
  "parseCursor number raw =
     (case raw of
        None \<Rightarrow> Inr None
      | Some t \<Rightarrow>
          (let after = rev (takeWhile (\<lambda>c. c \<noteq> CHR '':'') (rev t));
               before = take (length t - length after - 1) t in
           if t = [] then Inr None
           else if CHR '':'' \<notin> set t \<or> before = [] \<or> after = [] then Inl (apiError ValidationFailedCode 400)
           else (case number after of
                   Whole n \<Rightarrow> if n < 0 then Inl (apiError ValidationFailedCode 400) else Inr (Some (before, n))
                 | Fractional \<Rightarrow> Inl (apiError ValidationFailedCode 400))))"

fun toReadError :: "read_error \<Rightarrow> api_error" where
  "toReadError InvalidCursor = apiError ValidationFailedCode 400"
| "toReadError LensUnresolved = apiError ForbiddenCode 403"
| "toReadError RowMalformed = apiError InternalCode 500"

definition readError :: "read_error + 'a \<Rightarrow> api_error + 'a" where
  "readError r = (case r of Inl err \<Rightarrow> Inl (toReadError err) | Inr x \<Rightarrow> Inr x)"

record feed_params =
  fp_limit :: "string option"
  fp_after_seq :: "string option"
  fp_cursor :: "string option"
  fp_kind :: "string option"
  fp_includeShadow :: bool

text \<open>The text of a cursor; a sequence number is not negative.\<close>

definition seqText :: "int \<Rightarrow> string" where
  "seqText n = map char_of (decimal (nat n))"

definition cursorText :: "string \<times> int \<Rightarrow> string" where
  "cursorText c = (case c of (st, n) \<Rightarrow> st @ '':'' @ seqText n)"

definition serveFeed ::
  "tenant_db \<Rightarrow> lens \<Rightarrow> read_query \<Rightarrow> api_error + jvalue ledger_event list \<times> string option" where
  "serveFeed db l q =
     ebind (readError (readEvents db l q)) (\<lambda>events. Inr (events, map_option cursorText (nextCursor events (rq_limit q))))"

text \<open>\<open>GET /v1/shipments/:id/events\<close>.\<close>

definition getShipmentEvents ::
  "(string \<Rightarrow> jsnum) \<Rightarrow> 'k ledger_system \<Rightarrow> session \<Rightarrow> string \<Rightarrow> feed_params \<Rightarrow>
   api_error + jvalue ledger_event list \<times> string option"
where
  "getShipmentEvents number S s shipmentId p =
     ebind (resolveTenantDb S (ss_tenant s)) (\<lambda>db.
     ebind (readError (lensFor s)) (\<lambda>l.
     ebind (parseLimit number (fp_limit p)) (\<lambda>limit.
     ebind (parseAfterSeq number (fp_after_seq p)) (\<lambda>afterSeq.
     ebind (parseKinds (fp_kind p)) (\<lambda>kinds.
       serveFeed db l \<lparr> rq_shipment_id = Some shipmentId, rq_after_seq = afterSeq, rq_cursor = None, rq_limit = limit,
         rq_kinds = kinds, rq_ts_desc = False, rq_before_ts = None, rq_include_shadow = False \<rparr>)))))"

text \<open>\<open>GET /v1/events\<close>.\<close>

definition getEvents ::
  "(string \<Rightarrow> jsnum) \<Rightarrow> 'k ledger_system \<Rightarrow> session \<Rightarrow> feed_params \<Rightarrow>
   api_error + jvalue ledger_event list \<times> string option"
where
  "getEvents number S s p =
     ebind (requireRole [Admin, Ops, Finance, ReadOnly] s) (\<lambda>_.
     ebind (resolveTenantDb S (ss_tenant s)) (\<lambda>db.
     ebind (readError (lensFor s)) (\<lambda>l.
     ebind (parseLimit number (fp_limit p)) (\<lambda>limit.
     ebind (parseCursor number (fp_cursor p)) (\<lambda>cursor.
     ebind (parseAfterSeq number (fp_after_seq p)) (\<lambda>afterSeq.
     ebind (parseKinds (fp_kind p)) (\<lambda>kinds.
       serveFeed db l \<lparr> rq_shipment_id = None, rq_after_seq = afterSeq, rq_cursor = cursor, rq_limit = limit,
         rq_kinds = kinds, rq_ts_desc = False, rq_before_ts = None, rq_include_shadow = fp_includeShadow p \<rparr>)))))))"

end
