(* ===== verification/LensLaws.thy ===== *)
theory LensLaws
  imports Lens LedgerSystem
begin

text \<open>
  The laws of the read side: rows reproduce the events they were written from, redaction removes the
  internal fields at every depth and blurs the positions, a lens sees what it may see, a page is bounded
  and the cursor visits every visible event once.
\<close>

section \<open>Rows\<close>

lemma kindNamed_name [simp]: "kindNamed (kind_name k) = Some k"
  by (cases k) (simp_all add: kindNamed_def EVENT_KINDS_def)

lemma visibilityNamed_name [simp]: "visibilityNamed (visibility_name v) = Some v"
  by (cases v) (simp_all add: visibilityNamed_def)

lemma sourceNamed_name [simp]: "sourceNamed (source_name s) = Some s"
  by (cases s) (simp_all add: sourceNamed_def)

lemma rowToEvent_eventToRow: "ev_hash e \<noteq> None \<Longrightarrow> rowToEvent (eventToRow e) = Inr e"
  by (cases e) (auto simp: rowToEvent_def eventToRow_def)

lemma named_inverse:
  "kindNamed x = Some k \<Longrightarrow> kind_name k = x" "visibilityNamed x = Some v \<Longrightarrow> visibility_name v = x"
  "sourceNamed x = Some s \<Longrightarrow> source_name s = x"
  by (auto simp: kindNamed_def visibilityNamed_def sourceNamed_def dest!: find_Some_in split: if_splits)

lemma eventToRow_rowToEvent: "rowToEvent r = Inr e \<Longrightarrow> eventToRow e = r"
  by (cases r) (auto simp: rowToEvent_def eventToRow_def dest: named_inverse split: option.splits)

section \<open>What a payload mentions\<close>

primrec mentions :: "jvalue \<Rightarrow> jstr \<Rightarrow> bool" where
  "mentions (JObj kvs) = (\<lambda>k. list_ex (\<lambda>(a, p). a = k \<or> p k) (map (map_prod id mentions) kvs))"
| "mentions (JArr xs) = (\<lambda>k. list_ex (\<lambda>x. case x of None \<Rightarrow> False | Some p \<Rightarrow> p k) (map (map_option mentions) xs))"
| "mentions JNull = (\<lambda>k. False)"
| "mentions (JBool b) = (\<lambda>k. False)"
| "mentions (JNum n) = (\<lambda>k. False)"
| "mentions (JStr s) = (\<lambda>k. False)"
| "mentions JUndefined = (\<lambda>k. False)"
| "mentions JOther = (\<lambda>k. False)"

lemma mentions_JObj [simp]: "mentions (JObj kvs) k \<longleftrightarrow> (\<exists>kv \<in> set kvs. fst kv = k \<or> mentions (snd kv) k)"
  by (auto simp: list_ex_iff case_prod_beta)

lemma mentions_JArr [simp]: "mentions (JArr xs) k \<longleftrightarrow> (\<exists>x \<in> set xs. \<exists>v. x = Some v \<and> mentions v k)"
  by (auto simp: list_ex_iff split: option.splits)

declare mentions.simps(1,2) [simp del]

lemma set_without [simp]: "set (without k kvs) = {kv \<in> set kvs. fst kv \<noteq> k}"
  by (auto simp: without_def)

lemma strip_JObj [simp]:
  "stripKeyInPlace (JObj kvs) k = JObj (without k (map (\<lambda>kv. (fst kv, stripKeyInPlace (snd kv) k)) kvs))"
  by (simp add: comp_def case_prod_beta)

lemma strip_JArr [simp]: "stripKeyInPlace (JArr xs) k = JArr (map (map_option (\<lambda>v. stripKeyInPlace v k)) xs)"
  by (simp add: comp_def option.map_comp)

declare stripKeyInPlace.simps(1,2) [simp del]

lemma strip_no_longer: "\<not> mentions (stripKeyInPlace v k) k"
  by (induction v) (auto simp: map_option_case split: option.splits)

lemma strip_mentions: "mentions (stripKeyInPlace v k) a \<Longrightarrow> mentions v a"
proof (induction v)
  case (JArr xs)
  then show ?case
    by (auto simp: map_option_case split: option.splits) blast
next
  case (JObj kvs)
  then obtain kv where "kv \<in> set kvs" "fst kv = a \<or> mentions (stripKeyInPlace (snd kv) k) a"
    by auto
  with JObj.IH[of kv "snd kv"] show ?case
    by (cases kv) (auto intro!: bexI[of _ kv])
qed simp_all

lemma coarseFields_in: "(a, v) \<in> set (coarseFields kvs) \<Longrightarrow> \<exists>w. (a, w) \<in> set kvs \<and> (v = w \<or> v = coarseValue w)"
  by (auto simp: coarseFields_def Let_def split: if_splits)

lemma mentions_coarseValue [simp]: "mentions (coarseValue v) = mentions v"
  by (cases v) simp_all

lemma coarsen_mentions: "mentions (coarsenGeoInPlace v) a \<Longrightarrow> mentions v a"
proof (induction v)
  case (JArr xs)
  then show ?case
    by (auto simp: map_option_case split: option.splits) blast
next
  case (JObj kvs)
  then obtain b w where bw: "(b, w) \<in> set (coarseFields (map (map_prod id coarsenGeoInPlace) kvs))" "b = a \<or> mentions w a"
    by auto
  then obtain u where u: "(b, u) \<in> set (map (map_prod id coarsenGeoInPlace) kvs)" "w = u \<or> w = coarseValue u"
    using coarseFields_in by blast
  then obtain x where "(b, x) \<in> set kvs" "u = coarsenGeoInPlace x"
    by auto
  with bw u JObj.IH[of "(b, x)" x] show ?case
    by (auto intro!: bexI[of _ "(b, x)"])
qed simp_all

lemma delete_mentions: "mentions (deleteKey k v) a \<Longrightarrow> mentions v a"
  by (cases v) (auto, (rule bexI, auto)+)

section \<open>Positions\<close>

definition rough :: "jvalue \<Rightarrow> bool" where
  "rough v = (case v of JNum (JInt i) \<Rightarrow> 100000 dvd i | _ \<Rightarrow> True)"

text \<open>No node of the value carries an exact coordinate, or an accuracy beside a numeric coordinate.\<close>

primrec blurred :: "jvalue \<Rightarrow> bool" where
  "blurred (JObj kvs) = (list_all (\<lambda>(k, p). p) (map (map_prod id blurred) kvs) \<and>
     list_all (\<lambda>(k, v). k = jlit ''lat_e6'' \<or> k = jlit ''lon_e6'' \<longrightarrow> rough v) kvs \<and>
     (numericField ''lat_e6'' kvs \<or> numericField ''lon_e6'' kvs \<longrightarrow> jlit ''accuracy_m'' \<notin> fst ` set kvs))"
| "blurred (JArr xs) = list_all (\<lambda>x. case x of None \<Rightarrow> True | Some p \<Rightarrow> p) (map (map_option blurred) xs)"
| "blurred JNull = True"
| "blurred (JBool b) = True"
| "blurred (JNum n) = True"
| "blurred (JStr s) = True"
| "blurred JUndefined = True"
| "blurred JOther = True"

lemma coarse_near: "coarse (JInt i) = JInt j \<Longrightarrow> \<bar>j - i\<bar> \<le> 50000 \<and> 100000 dvd j"
  by (auto simp: coarse_def Let_def split: if_splits)

lemma rough_coarse: "rough (coarseValue v)"
  by (cases v rule: coarseValue.cases) (auto simp: rough_def coarse_def Let_def split: jnum.splits)

lemma isNumber_coarse [simp]: "isNumber (coarseValue v) = isNumber v"
  by (cases v rule: coarseValue.cases) (simp_all add: isNumber_def)

lemma numericField_Cons: "numericField f (kv # kvs) = (if fst kv = jlit f then isNumber (snd kv) else numericField f kvs)"
  by (cases kv) (simp add: numericField_def)

lemma numericField_Nil [simp]: "\<not> numericField f []"
  by (simp add: numericField_def)

lemma numericField_map: "(\<And>k v. isNumber (g k v) = isNumber v) \<Longrightarrow>
  numericField f (map (\<lambda>(k, v). (k, g k v)) kvs) = numericField f kvs"
  by (induction kvs) (simp_all add: numericField_Cons split_beta)

lemma numericField_without: "k \<noteq> jlit f \<Longrightarrow> numericField f (without k kvs) = numericField f kvs"
  by (induction kvs) (auto simp: numericField_Cons without_def split: if_splits)

lemma coarseFields_blurred:
  assumes "\<forall>(k, v) \<in> set kvs. blurred v"
  shows "blurred (JObj (coarseFields kvs))"
proof -
  define out where "out = map (\<lambda>(k, v). (k, if k = jlit ''lat_e6'' \<or> k = jlit ''lon_e6'' then coarseValue v else v)) kvs"
  have same: "numericField f out = numericField f kvs" for f
    unfolding out_def by (rule numericField_map) simp
  have "blurred (coarseValue v) = blurred v" for v
    by (cases v) simp_all
  then have *: "\<forall>kv \<in> set out. blurred (snd kv) \<and> (fst kv = jlit ''lat_e6'' \<or> fst kv = jlit ''lon_e6'' \<longrightarrow> rough (snd kv))"
    using assms rough_coarse by (auto simp: out_def)
  have result: "coarseFields kvs = (if numericField ''lat_e6'' kvs \<or> numericField ''lon_e6'' kvs
      then without (jlit ''accuracy_m'') out else out)"
    by (simp add: coarseFields_def out_def)
  show ?thesis
    using * by (auto simp: result list_all_iff numericField_without same)
qed

lemma coarsen_blurred: "blurred (coarsenGeoInPlace v)"
proof (induction v)
  case (JObj kvs)
  then show ?case
    by (auto intro!: coarseFields_blurred simp del: blurred.simps(1))
qed (auto simp: list_all_iff map_option_case split: option.splits)

section \<open>Redaction\<close>

lemma fold_delete_keys:
  "\<forall>a. mentions (fold deleteKey ks v) a \<longrightarrow> mentions v a"
  by (induction ks arbitrary: v) (auto dest: delete_mentions)

fun topKeys :: "jvalue \<Rightarrow> jstr set" where
  "topKeys (JObj kvs) = fst ` set kvs"
| "topKeys v = {}"

lemma topKeys_delete: "topKeys (deleteKey k v) = topKeys v - {jlit k}"
  by (cases v) auto

lemma topKeys_fold_delete: "topKeys (fold deleteKey ks v) = topKeys v - jlit ` set ks"
  by (induction ks arbitrary: v) (auto simp: topKeys_delete)

lemma topKeys_strip: "topKeys (stripKeyInPlace v k) \<subseteq> topKeys v"
  by (cases v) force+

lemma topKeys_coarsen: "topKeys (coarsenGeoInPlace v) \<subseteq> topKeys v"
  by (cases v) (auto dest!: coarseFields_in, force+)

lemma topKeys_fold_strip: "topKeys (fold (\<lambda>k v. stripKeyInPlace v (jlit k)) ks v) \<subseteq> topKeys v"
  by (induction ks arbitrary: v) (use topKeys_strip in fastforce)+

lemma fold_strip_mentions: "mentions (fold (\<lambda>k v. stripKeyInPlace v (jlit k)) ks v) a \<Longrightarrow> mentions v a"
  by (induction ks arbitrary: v) (auto dest: strip_mentions)

lemma fold_strip_gone: "k \<in> set ks \<Longrightarrow> \<not> mentions (fold (\<lambda>k v. stripKeyInPlace v (jlit k)) ks v) (jlit k)"
  by (induction ks arbitrary: v) (auto simp: strip_no_longer dest: fold_strip_mentions)

lemma generalize_mentions: "mentions (generalizePosition v b) a \<Longrightarrow> mentions v a"
  by (auto simp: generalizePosition_def coarsen_mentions split: if_splits)

lemma generalize_topKeys: "topKeys (generalizePosition v b) \<subseteq> topKeys v"
  by (simp add: generalizePosition_def topKeys_coarsen)

text \<open>C24: What the lenses hide: the fields listed for the kind, at the top of the payload and inside it, the override, the user
  of the actor and, before delivery, the exact position; nothing is added.\<close>

theorem redaction_hides_internal_fields:
  assumes "l \<noteq> TenantLens"
  shows "(\<forall>k \<in> set (INTERNAL_NESTED (kind e)). \<not> mentions (payload (redactEvent l e ofd)) (jlit k)) \<and>
    (\<forall>k \<in> set (REDACTIONS (kind e)). jlit k \<notin> topKeys (payload (redactEvent l e ofd))) \<and>
    override (redactEvent l e ofd) = None \<and>
    (\<forall>p. l = PartyLens p \<longrightarrow> act_user (actor (redactEvent l e ofd)) = None \<and>
       (\<not> ofd \<longrightarrow> blurred (payload (redactEvent l e ofd)))) \<and>
    (\<forall>a. mentions (payload (redactEvent l e ofd)) a \<longrightarrow> mentions (payload e) a)"
proof -
  define p1 where "p1 = fold deleteKey (REDACTIONS (kind e)) (payload e)"
  define p2 where "p2 = fold (\<lambda>k v. stripKeyInPlace v (jlit k)) (INTERNAL_NESTED (kind e)) p1"
  define p3 where "p3 = payload (redactEvent l e ofd)"
  have p3: "p3 = p2 \<or> p3 = generalizePosition p2 ofd"
    using assms by (auto simp: p3_def p2_def p1_def redactEvent_def Let_def split: lens.splits)
  have blur: "blurred p3" if "l = PartyLens p" "\<not> ofd" for p
    using that by (simp add: p3_def p2_def p1_def redactEvent_def Let_def generalizePosition_def coarsen_blurred)
  have "\<not> mentions p3 (jlit k)" if "k \<in> set (INTERNAL_NESTED (kind e))" for k
    using that p3 fold_strip_gone generalize_mentions by (metis p2_def)
  moreover have "topKeys p3 \<subseteq> topKeys p1"
    using p3 generalize_topKeys topKeys_fold_strip by (metis order_trans p2_def)
  then have "jlit k \<notin> topKeys p3" if "k \<in> set (REDACTIONS (kind e))" for k
    using that by (auto simp: p1_def topKeys_fold_delete)
  moreover have "mentions (payload e) a" if "mentions p3 a" for a
    using that p3 generalize_mentions fold_strip_mentions fold_delete_keys by (metis p1_def p2_def)
  moreover have "override (redactEvent l e ofd) = None" "l = PartyLens p \<Longrightarrow> act_user (actor (redactEvent l e ofd)) = None" for p
    using assms by (auto simp: redactEvent_def Let_def split: lens.splits)
  ultimately show ?thesis
    using blur by (auto simp: p3_def)
qed

lemma redaction_keeps_the_envelope:
  "redactEvent l e ofd = e \<lparr> payload := payload (redactEvent l e ofd), override := override (redactEvent l e ofd),
     actor := actor (redactEvent l e ofd) \<rparr>"
  by (cases l; cases e) (simp_all add: redactEvent_def Let_def)

section \<open>What a lens sees\<close>

lemma page_member: "e \<in> set (page db l q) \<Longrightarrow> e \<in> set (t_events db) \<and> selected db l q e"
  by (auto simp: page_def sqlLimit_def ordered_def dest!: in_set_takeD split: if_splits)

lemma stored_more [simp]:
  "shipment_id (stored e) = shipment_id e" "party_refs (stored e) = party_refs e" "actor (stored e) = actor e"
  "override (stored e) = override e" "payload (stored e) = payload_json (payload e)"
  by (simp_all add: stored_def)

lemma outForDelivery_stored [simp]: "outForDelivery db (stored e) = outForDelivery db e"
  by (simp add: outForDelivery_def)

lemma readEvents_page:
  assumes "\<forall>e \<in> set (t_events db). ev_hash e \<noteq> None" "readEvents db l q = Inr rs"
  shows "rs = map (\<lambda>e. redactEvent l (stored e) (outForDelivery db e)) (page db l q)"
proof -
  have "traverse (\<lambda>e. rowToEvent (eventToRow (stored e))) (page db l q) = Inr (map stored (page db l q))"
    using assms(1) by (intro traverse_map rowToEvent_eventToRow) (auto dest: page_member)
  with assms(2) show ?thesis
    by (auto simp: readEvents_def split: if_splits)
qed

lemma reachable_hashed: "reachable env S \<Longrightarrow> e \<in> set (t_events (readDb (sys_world S) r)) \<Longrightarrow> ev_hash e \<noteq> None"
  by (drule reachable_member) (auto simp: linked_def)

lemma page_bound: "0 \<le> effectiveLimit (rq_limit q) \<Longrightarrow> int (length (page db l q)) \<le> effectiveLimit (rq_limit q)"
  by (simp add: page_def sqlLimit_def)

section \<open>Paging\<close>

lemma strictly_sorted_filter:
  fixes f :: "'a \<Rightarrow> 'b::linorder"
  assumes "sorted_wrt (\<lambda>a b. f a < f b) xs" "0 < n" "n \<le> length xs"
  shows "filter (\<lambda>e. f (List.last (take n xs)) < f e) xs = drop n xs"
proof -
  have "take n xs \<noteq> []"
    using assms by auto
  then obtain ys y where take: "take n xs = ys @ [y]"
    by (metis rev_exhaust)
  then have split: "xs = ys @ [y] @ drop n xs"
    by (metis append.assoc append_take_drop_id)
  with assms(1) have "sorted_wrt (\<lambda>a b. f a < f b) (ys @ [y] @ drop n xs)"
    by simp
  then have "filter (\<lambda>e. f y < f e) (ys @ [y] @ drop n xs) = drop n xs"
    by (auto simp: sorted_wrt_append filter_empty_conv not_less less_imp_le)
  with split take show ?thesis
    by simp
qed

lemma sort_key_strict: "distinct (map f xs) \<Longrightarrow> sorted_wrt (\<lambda>a b. f a < f b) (sort_key f xs)"
proof -
  assume "distinct (map f xs)"
  then have "distinct (map f (sort_key f xs))"
    by (simp add: distinct_map)
  then have "sorted_wrt (<) (map f (sort_key f xs))"
    by (simp add: strict_sorted_iff)
  then show ?thesis
    by (simp add: sorted_wrt_map)
qed

definition remaining :: "tenant_db \<Rightarrow> lens \<Rightarrow> read_query \<Rightarrow> payload ledger_event list" where
  "remaining db l q = sort_key keyset (filter (selected db l q) (t_events db))"

lemma page_remaining: "\<not> rq_ts_desc q \<Longrightarrow> page db l q = sqlLimit (effectiveLimit (rq_limit q)) (remaining db l q)"
  by (simp add: page_def remaining_def ordered_def)

lemma after_cursor: "given (\<lambda>(st, n). st < stream_id e \<or> stream_id e = st \<and> n < seq e) (Some c) \<longleftrightarrow> c < keyset e"
  by (cases c) (auto simp: given_def keyset_def)

lemma selected_cursor: "selected db l (q \<lparr> rq_cursor := Some c \<rparr>) e \<longleftrightarrow> selected db l (q \<lparr> rq_cursor := None \<rparr>) e \<and> c < keyset e"
  using after_cursor[of e c] by (auto simp: selected_def given_def[of _ None])

lemma selected_past:
  assumes "selected db l q x" "keyset x < keyset e"
  shows "selected db l (q \<lparr> rq_cursor := None \<rparr>) e \<longleftrightarrow> selected db l q e"
proof (cases "rq_cursor q")
  case None
  then show ?thesis
    by (simp add: selected_def)
next
  case (Some c)
  then have q: "q = q \<lparr> rq_cursor := Some c \<rparr>"
    by simp
  then have "c < keyset x"
    using assms(1) selected_cursor by metis
  then have "c < keyset e"
    using assms(2) by simp
  then show ?thesis
    using q selected_cursor by metis
qed

lemma remaining_next:
  assumes d: "distinct (map keyset (t_events db))" and n: "0 < n" "n \<le> length (remaining db l q)"
  shows "remaining db l (q \<lparr> rq_cursor := Some (keyset (List.last (take n (remaining db l q)))) \<rparr>) = drop n (remaining db l q)"
proof -
  define x where "x = List.last (take n (remaining db l q))"
  have "x \<in> set (remaining db l q)"
    using n by (metis x_def in_set_takeD last_in_set length_greater_0_conv less_le_trans take_eq_Nil not_less0 gr_implies_not0)
  then have x: "selected db l q x"
    by (simp add: remaining_def)
  have "selected db l (q \<lparr> rq_cursor := Some (keyset x) \<rparr>) = (\<lambda>e :: payload ledger_event. selected db l q e \<and> keyset x < keyset e)"
    using selected_past[OF x] selected_cursor by fastforce
  then have "remaining db l (q \<lparr> rq_cursor := Some (keyset x) \<rparr>) =
      sort_key keyset (filter (\<lambda>e. keyset x < keyset e) (filter (selected db l q) (t_events db)))"
    by (simp add: remaining_def)
  also have "\<dots> = filter (\<lambda>e. keyset x < keyset e) (remaining db l q)"
    by (simp add: remaining_def filter_sort)
  also have "\<dots> = drop n (remaining db l q)"
    unfolding x_def
  proof (rule strictly_sorted_filter[OF _ n])
    have "distinct (map keyset (filter (selected db l q) (t_events db)))"
      using d by (simp add: distinct_map inj_on_def)
    then show "sorted_wrt (\<lambda>a b. keyset a < keyset b) (remaining db l q)"
      unfolding remaining_def by (rule sort_key_strict)
  qed
  finally show ?thesis
    by (simp add: x_def)
qed

text \<open>A client that follows the cursor until there is none.\<close>

fun walk :: "nat \<Rightarrow> tenant_db \<Rightarrow> lens \<Rightarrow> read_query \<Rightarrow> payload ledger_event list" where
  "walk 0 db l q = []"
| "walk (Suc n) db l q =
     page db l q @
     (case nextCursor (page db l q) (rq_limit q) of
        None \<Rightarrow> []
      | Some c \<Rightarrow> walk n db l (q \<lparr> rq_cursor := Some c \<rparr>))"

lemma walk_remaining:
  assumes "distinct (map keyset (t_events db))" "\<not> rq_ts_desc q" "0 < effectiveLimit (rq_limit q)"
    "length (remaining db l q) < fuel"
  shows "walk fuel db l q = remaining db l q"
  using assms(2-4)
proof (induction fuel arbitrary: q)
  case (Suc fuel)
  define n where "n = nat (effectiveLimit (rq_limit q))"
  have n: "0 < n" "int n = effectiveLimit (rq_limit q)"
    using Suc.prems(2) by (simp_all add: n_def)
  have page: "page db l q = take n (remaining db l q)"
    using Suc.prems by (simp add: page_remaining sqlLimit_def n_def)
  show ?case
  proof (cases "length (remaining db l q) < n")
    case True
    then show ?thesis
      using n by (simp add: page nextCursor_def)
  next
    case False
    then have full: "n \<le> length (remaining db l q)" "length (page db l q) = n"
      by (simp_all add: page)
    then have "nextCursor (page db l q) (rq_limit q) = Some (keyset (List.last (page db l q)))"
      using n by (auto simp: nextCursor_def)
    moreover have "walk fuel db l (q \<lparr> rq_cursor := Some (keyset (List.last (page db l q))) \<rparr>) = drop n (remaining db l q)"
      using Suc.IH[of "q \<lparr> rq_cursor := Some (keyset (List.last (page db l q))) \<rparr>"] Suc.prems n full
        remaining_next[OF assms(1) n(1) full(1)]
      by (simp add: page)
    ultimately show ?thesis
      by (simp add: page)
  qed
qed simp

lemma linked_keys: "history (linked env) evs \<Longrightarrow> distinct (map keyset evs)"
proof -
  assume "history (linked env) evs"
  then have "distinct (map keyset evs) \<and> (\<forall>x \<in> set evs. seq x < int (length (on_stream (stream_id x) evs)))"
    by (rule history_induct) (fastforce simp: linked_def keyset_def on_stream_def)+
  then show ?thesis
    by blast
qed

end
