(* ===== verification/EventsRouteLaws.thy ===== *)
theory EventsRouteLaws
  imports EventsRoute LensLaws
begin

text \<open>
  The laws of the write route: what a client's post can put into the ledger, what an answer means, and the
  idempotency scope.
\<close>

lemma kindIn_Shaped [simp]: "kindIn ks (Shaped i c) \<longleftrightarrow> in_kind i \<in> set ks"
  by (auto simp: kindIn_def bodyKind_def kind_name_inject)

section \<open>What a served append did\<close>

lemma served_outcome:
  assumes "reachable env S" "me = idFromName env (t @ ''|'' @ st)" "db = readDb (sys_world S) (dbOf t)"
  obtains (refused) err where "fst (append_event env now t st i False (instance_at me S)) = Inl err"
      "\<And>r. t_events (readDb (sys_world (served env now t st i S)) r) = t_events (readDb (sys_world S) r)"
  | (replayed) e where "fst (append_event env now t st i False (instance_at me S)) = Inr (e, [])" "replays db st i e"
      "\<And>r. t_events (readDb (sys_world (served env now t st i S)) r) = t_events (readDb (sys_world S) r)"
  | (committed) e trs where "fst (append_event env now t st i False (instance_at me S)) = Inr (e, trs)"
      "findById db (in_id i) = None" "\<And>r. r \<noteq> dbOf t \<Longrightarrow>
         t_events (readDb (sys_world (served env now t st i S)) r) = t_events (readDb (sys_world S) r)"
      "t_events (readDb (sys_world (served env now t st i S)) (dbOf t)) = t_events db @ [e]"
      "stream_id e = st" "kind e = in_kind i" "source e = in_source i" "ev_id e = in_id i" "override e = in_override i"
      "payload e = in_payload i" "device_id e = in_device_id i" "device_seq e = in_device_seq i"
proof -
  obtain v s' where a: "append_event env now t st i False (instance_at me S) = (v, s')"
    by (cases "append_event env now t st i False (instance_at me S)")
  have w: "sys_world (served env now t st i S) = world s'"
    using a assms(2) by (simp add: served_def settled_def Let_def)
  from assms(1) a show thesis
  proof (cases rule: append_outcome)
    case (refused err)
    then show ?thesis
      using that(1) a w by (auto simp: quiet_def same_books_def)
  next
    case (replayed e s3)
    then show ?thesis
      using that(2) a w assms(3) by (auto simp: quiet_def same_books_def)
  next
    case (committed e trs s0 s1 date)
    have c: "recorded (dbOf t) t e (world s1) (world s')"
      using commit_Inr[OF committed(7)] by simp
    have same: "t_events (readDb (world s1) r) = t_events (readDb (sys_world S) r)" for r
      using committed(5) by (simp add: quiet_def same_books_def)
    obtain vis h where full: "e = stamped env now t st i (readDb (world s0) (dbOf t)) vis \<lparr> ev_hash := Some h \<rparr>"
      using judged_full[OF committed(4)] by metis
    show ?thesis
      using that(3)[of e trs] a w assms(3) committed(1,2) c same judged_stream[OF committed(4)] full
      by (auto simp: recorded_def stamped_def)
  qed
qed

lemma postEvent_admitted:
  assumes "admitPost S s ship b = Inr u"
  shows "postEvent env now s ship b S =
    ((case fst (append_event env now (ss_tenant s) (''s:'' @ ship) (stampInput s b) False
         (instance_at (idFromName env (ss_tenant s @ ''|'' @ ''s:'' @ ship)) S)) of
        Inl err \<Rightarrow> Inl (translateAppendError err) | Inr (e, _) \<Rightarrow> Inr \<lparr> rs_status = 201, rs_body = e \<rparr>),
     served env now (ss_tenant s) (''s:'' @ ship) (stampInput s b) S)"
  using assms by (simp add: postEvent_def Let_def)

lemma postEvent_refused: "admitPost S s ship b = Inl err \<Longrightarrow> postEvent env now s ship b S = (Inl err, S)"
  by (simp add: postEvent_def)

lemma postEvent_reachable: "reachable env S \<Longrightarrow> reachable env (snd (postEvent env now s ship b S))"
  by (cases "admitPost S s ship b") (auto simp: postEvent_admitted postEvent_refused intro: served_reachable)

lemma admitPost_Inr:
  "admitPost S s ship b = Inr u \<Longrightarrow>
     ss_role s \<in> {Admin, Ops, DriverRole, Finance} \<and> length ship \<le> 200 \<and>
     \<not> kindIn SERVER_EMITTED_KINDS b \<and> \<not> kindIn BLESSED_DECISION_KINDS b \<and> \<not> kindIn CONTROL_PLANE_KINDS b \<and>
     (kindIn PRIVILEGED_DECISION_KINDS b \<longrightarrow> ss_role s \<in> {Finance, Admin}) \<and>
     (ss_role s = Finance \<longrightarrow> kindIn PRIVILEGED_DECISION_KINDS b) \<and>
     (bodyOverrides b \<longrightarrow> ss_role s \<in> {Ops, Admin, Finance}) \<and>
     (ss_role s = DriverRole \<longrightarrow> \<not> isPlatformTenant (ss_tenant s) \<and>
        assignmentOf (readDb (sys_world S) (CustomerDb (ss_tenant s))) ship (ss_sub s))"
  by (auto simp: admitPost_def requireRole_def screenBody_def driverScope_def MAX_SHIPMENT_ID_LEN_def ELEVATED_def
      PRIVILEGED_DECISION_ROLES_def resolveTenantDb_def split: if_splits)

lemma malformed_refused: "reachable env S \<Longrightarrow> me = idFromName env (t @ ''|'' @ st) \<Longrightarrow>
  \<exists>err. fst (append_event env now t st malformed_input False (instance_at me S)) = Inl err"
proof -
  assume a: "reachable env S" "me = idFromName env (t @ ''|'' @ st)"
  have bad: "\<not> EventInput_ok (uuid env) malformed_input"
    by (simp add: EventInput_ok_def envelope_ok_def malformed_input_def safe_def)
  obtain v s' where run: "append_event env now t st malformed_input False (instance_at me S) = (v, s')"
    by (cases "append_event env now t st malformed_input False (instance_at me S)")
  have "\<exists>err. v = Inl err"
  proof (cases v)
    case (Inr x)
    then show ?thesis
      using run bad by (auto simp: append_event_def validate_def sbind_Inr demand_def fail_def ret_def split: if_splits)
  qed simp
  then show ?thesis
    using run by simp
qed

section \<open>What a client's post can put into the ledger\<close>

lemma post_appends:
  assumes "reachable env S" "postEvent env now s ship b S = (r, S')"
    "t_events (readDb (sys_world S') q) \<noteq> t_events (readDb (sys_world S) q)"
  shows "\<exists>i claimed e. b = Shaped i claimed \<and> r = Inr \<lparr> rs_status = 201, rs_body = e \<rparr> \<and> q = dbOf (ss_tenant s) \<and>
    t_events (readDb (sys_world S') q) = t_events (readDb (sys_world S) q) @ [e] \<and>
    stream_id e = ''s:'' @ ship \<and> source e = Native \<and> kind e = in_kind i \<and>
    kind e \<notin> set (SERVER_EMITTED_KINDS @ BLESSED_DECISION_KINDS @ CONTROL_PLANE_KINDS) \<and>
    ss_role s \<in> {Admin, Ops, DriverRole, Finance} \<and>
    (kind e = CreditChecked \<longrightarrow> ss_role s \<in> {Finance, Admin}) \<and> (ss_role s = Finance \<longrightarrow> kind e = CreditChecked) \<and>
    (\<forall>x. override e = Some x \<longrightarrow> ov_by x = ss_sub s \<and> ss_role s \<in> {Ops, Admin, Finance}) \<and>
    (ss_role s = DriverRole \<longrightarrow> assignmentOf (readDb (sys_world S) q) ship (ss_sub s))"
proof (cases "admitPost S s ship b")
  case (Inl err)
  then show ?thesis
    using assms by (simp add: postEvent_refused)
next
  case (Inr u)
  note admitted = admitPost_Inr[OF Inr]
  let ?st = "''s:'' @ ship" and ?t = "ss_tenant s"
  have S': "S' = served env now ?t ?st (stampInput s b) S"
    using assms(2) by (simp add: postEvent_admitted[OF Inr])
  show ?thesis
  proof (cases b)
    case (Unshaped k o')
    then obtain err where inl: "fst (append_event env now ?t ?st (stampInput s b) False
        (instance_at (idFromName env (?t @ ''|'' @ ?st)) S)) = Inl err"
      using malformed_refused[OF assms(1) refl, where now=now and t="?t" and st="?st"] by (auto simp: stampInput_def)
    from assms(1) refl refl show ?thesis
      by (cases rule: served_outcome[of env S _ ?t ?st _ now "stampInput s b"])
         (use assms(3) inl in \<open>auto simp: S'\<close>)
  next
    case (Shaped i claimed)
    from assms(1) refl refl show ?thesis
    proof (cases rule: served_outcome[of env S _ ?t ?st _ now "stampInput s b"])
      case (committed e trs)
      then have q: "q = dbOf ?t"
        using assms(3) by (auto simp: S')
      have driver: "ss_role s = DriverRole \<longrightarrow> assignmentOf (readDb (sys_world S) q) ship (ss_sub s)"
        using admitted by (simp add: q dbOf_def)
      have "r = Inr \<lparr> rs_status = 201, rs_body = e \<rparr>"
        using assms(2) committed(1) by (simp add: postEvent_admitted[OF Inr])
      then show ?thesis
        using committed q admitted driver Shaped
        by (auto simp: S' stampInput_def bodyOverrides_def PRIVILEGED_DECISION_KINDS_def)
    qed (use assms(3) in \<open>auto simp: S'\<close>)
  qed
qed

section \<open>What an answer means\<close>

definition answered :: "'k ledger_system \<Rightarrow> string \<Rightarrow> string \<Rightarrow> payload event_input \<Rightarrow> bool" where
  "answered S t st i \<longleftrightarrow> (\<exists>e. replays (readDb (sys_world S) (dbOf t)) st i e)"

lemma find_append_Some: "find P xs = Some x \<Longrightarrow> find P (xs @ ys) = Some x"
  by (induction xs) auto

lemma replays_mono:
  assumes "replays db st i e" "t_events db' = t_events db @ ys"
  shows "\<exists>e'. replays db' st i e'"
proof (cases "findById db' (in_id i)")
  case (Some e')
  then show ?thesis
    by (auto simp: replays_def)
next
  case None
  then have "findById db (in_id i) = None"
    using assms(2) by (auto simp: findById_def find_None_all)
  then show ?thesis
    using assms None by (auto simp: replays_def findByDevice_def dest: find_append_Some)
qed

lemma step_extends: "reachable env S \<Longrightarrow> step env S S' \<Longrightarrow>
  \<exists>ys. t_events (readDb (sys_world S') r) = t_events (readDb (sys_world S) r) @ ys"
  using step_events[of env S S'] by (metis append_Nil2)

lemma answered_step: "reachable env S \<Longrightarrow> step env S S' \<Longrightarrow> answered S t st i \<Longrightarrow> answered S' t st i"
  using step_extends[of env S S' "dbOf t"] replays_mono by (metis answered_def)

lemma post_step:
  assumes "reachable env S"
  shows "snd (postEvent env now s ship b S) = S \<or> step env S (snd (postEvent env now s ship b S))"
  by (cases "admitPost S s ship b") (simp_all add: postEvent_admitted postEvent_refused served_step)

lemma post_answers:
  assumes "reachable env S" "postEvent env now s ship (Shaped i claimed) S = (Inr rsp, S')"
  shows "rs_status rsp = 201 \<and> answered S' (ss_tenant s) (''s:'' @ ship) i \<and>
    rs_body rsp \<in> set (t_events (readDb (sys_world S') (dbOf (ss_tenant s))))"
proof -
  let ?st = "''s:'' @ ship" and ?t = "ss_tenant s" and ?i = "stampInput s (Shaped i claimed)"
  have same: "replays db st ?i e = replays db st i e" for db st e
    by (simp add: replays_def stampInput_def)
  obtain u where "admitPost S s ship (Shaped i claimed) = Inr u"
    using assms(2) by (cases "admitPost S s ship (Shaped i claimed)") (auto simp: postEvent_refused)
  note post = postEvent_admitted[OF this, of env now]
  have S': "S' = served env now ?t ?st ?i S"
    using assms(2) by (simp add: post)
  from assms(1) refl refl show ?thesis
  proof (cases rule: served_outcome[of env S _ ?t ?st _ now ?i])
    case (refused err)
    then show ?thesis
      using assms(2) by (simp add: post)
  next
    case (replayed e)
    have "rsp = \<lparr> rs_status = 201, rs_body = e \<rparr>"
      using assms(2) replayed(1) by (simp add: post)
    moreover have "replays (readDb (sys_world S') (dbOf ?t)) ?st i e"
      using replayed(2,3) same by (simp add: S' replays_def findById_def findByDevice_def)
    moreover have "e \<in> set (t_events (readDb (sys_world S') (dbOf ?t)))"
      using calculation(2) by (auto simp: replays_def findById_def findByDevice_def dest: find_Some_in)
    ultimately show ?thesis
      by (auto simp: answered_def)
  next
    case (committed e trs)
    have "rsp = \<lparr> rs_status = 201, rs_body = e \<rparr>"
      using assms(2) committed(1) by (simp add: post)
    moreover have "findById (readDb (sys_world S') (dbOf ?t)) (in_id i) = Some e"
    proof -
      have "find (\<lambda>x. ev_id x = in_id i) (t_events (readDb (sys_world S) (dbOf ?t))) = None" "ev_id e = in_id i"
        using committed(2,8) by (simp_all add: findById_def stampInput_def)
      then show ?thesis
        using committed(4) by (simp add: S' findById_def find_None_all find_Some_iff_split) blast
    qed
    ultimately show ?thesis
      using committed(4) by (auto simp: answered_def replays_def S')
  qed
qed

lemma post_refusals:
  assumes "reachable env S" "postEvent env now s ship b S = (Inl err, S')"
  shows "ae_status err \<in> {400, 401, 403, 500} \<and>
    (\<forall>r. t_events (readDb (sys_world S') r) = t_events (readDb (sys_world S) r))"
proof -
  have "ae_status (translateAppendError x) \<in> {400, 401, 403, 500}" for x
    by (cases x rule: translateAppendError.cases) (auto simp: apiError_def)
  moreover have "ae_status x \<in> {400, 403}" if "admitPost S s ship b = Inl x" for x
    using that
    by (auto simp: admitPost_def requireRole_def screenBody_def driverScope_def resolveTenantDb_def ebind_eq_Inl apiError_def
        split: if_splits)
  ultimately have "ae_status err \<in> {400, 401, 403, 500}"
    using assms(2) by (cases "admitPost S s ship b") (auto simp: postEvent_def Let_def split: sum.splits prod.splits)
  moreover have "t_events (readDb (sys_world S') r) = t_events (readDb (sys_world S) r)" for r
    using post_appends[OF assms, of r] by auto
  ultimately show ?thesis
    by blast
qed

end
