(* ===== verification/Evidence.thy ===== *)
theory Evidence
  imports EventsRoute
begin

text \<open>
  Evidence bytes: the upload that accepts only bytes an event has recorded
  (\<open>workers/api/src/routes/evidence.ts\<close>), and the retention sweep that deletes them
  (\<open>packages/ledger/src/documents/retention.ts\<close>).

  The state is the ledger, the \<open>documents\<close> rows the upload writes (one list per tenant), the R2 bucket as a map
  from keys to bytes, and the agent queue. Both operations are cut into the parts between two awaits
  (\<open>uploadCheck\<close>, \<open>uploadPut\<close>, \<open>uploadRow\<close>; \<open>sweepSelect\<close>, \<open>sweepDelete\<close>, \<open>sweepTombstone\<close>), and composed of them
  without interruption in \<open>postEvidence\<close> and \<open>sweepTenantExpiredDocuments\<close>.
\<close>

section \<open>Retention classes (\<open>retention.ts\<close>)\<close>

definition YEAR_MS :: int where "YEAR_MS = 365 * DAY_MS"
definition RETENTION_CLASS_POD_7YR :: string where "RETENTION_CLASS_POD_7YR = ''pod-7yr''"
definition RETENTION_CLASS_DEFAULT :: string where "RETENTION_CLASS_DEFAULT = ''default''"

definition POD_RETAINED_KINDS :: "string list" where
  "POD_RETAINED_KINDS = [''POD'', ''tsa_receipt'']"

definition retentionClassFor :: "string \<Rightarrow> string" where
  "retentionClassFor k = (if k \<in> set POD_RETAINED_KINDS then RETENTION_CLASS_POD_7YR else RETENTION_CLASS_DEFAULT)"

definition retentionMsFor :: "string \<Rightarrow> int" where
  "retentionMsFor c = (if c = RETENTION_CLASS_DEFAULT then 1 * YEAR_MS else 7 * YEAR_MS)"

definition evidenceTenantPrefix :: "string \<Rightarrow> string" where
  "evidenceTenantPrefix t = ''evidence/'' @ t @ ''/''"

definition isTenantEvidenceKey :: "string \<Rightarrow> string \<Rightarrow> bool" where
  "isTenantEvidenceKey k t = (take (length (evidenceTenantPrefix t)) k = evidenceTenantPrefix t)"

section \<open>State\<close>

datatype retention_status = ActiveDoc | ExpiredDoc

record evidence_doc =
  ed_id :: string
  ed_shipment :: string
  ed_kind :: string
  ed_r2_key :: string
  ed_hash :: string
  ed_lifecycle_class :: string
  ed_visibility :: visibility
  ed_created_ts :: int
  ed_status :: retention_status

record 'k server =
  sv_ledger :: "'k ledger_system"
  sv_docs :: "string \<Rightarrow> evidence_doc list"
  sv_bucket :: "string \<rightharpoonup> bytes"
  sv_queue :: "trigger list"

section \<open>The upload (\<open>routes/evidence.ts\<close>)\<close>

definition MAX_EVIDENCE_BYTES :: nat where "MAX_EVIDENCE_BYTES = 10485760"

definition recordsHash :: "string \<Rightarrow> payload ledger_event \<Rightarrow> bool" where
  "recordsHash h e =
     (let at_field = (\<lambda>f. readField (payload e) f = jtext h) in
      kind e \<in> {FreightPhotographed, SealApplied, OsdCaptured} \<and> at_field ''photo_hash'' \<or>
      kind e = DeliveryEvidenced \<and> at_field ''placed_photo_hash'' \<or>
      kind e = PodSigned \<and> at_field ''signature_hash'')"

definition recordingEvent :: "tenant_db \<Rightarrow> string \<Rightarrow> string \<Rightarrow> payload ledger_event option" where
  "recordingEvent db shipmentId h = find (recordsHash h) (streamEvents db (''s:'' @ shipmentId))"

definition documentKindFor :: "event_kind \<Rightarrow> string" where
  "documentKindFor k = (if k = PodSigned then ''POD'' else ''photo'')"

text \<open>The stored column is one of the three names, so the fail-closed default is reached by none.\<close>

definition documentVisibilityFor :: "visibility \<Rightarrow> visibility" where
  "documentVisibilityFor v = (if v = Counterparty \<or> v = Public then v else Internal)"

definition evidenceDocId :: "string \<Rightarrow> string \<Rightarrow> string" where
  "evidenceDocId shipmentId h = ''evidence:'' @ shipmentId @ '':'' @ h"

definition evidenceKey :: "string \<Rightarrow> string \<Rightarrow> string \<Rightarrow> string" where
  "evidenceKey tenant shipmentId h = ''evidence/'' @ tenant @ ''/'' @ shipmentId @ ''/'' @ h"

record upload_request =
  ur_shipment_id :: "string option"
  ur_photo_hash :: "string option"
  ur_declared :: "int option"
  ur_body :: bytes

datatype upload_error = UploadError api_error | HashNotRecorded | HashMismatch

definition statusOf :: "upload_error \<Rightarrow> int" where
  "statusOf err = (case err of UploadError a \<Rightarrow> ae_status a | HashNotRecorded \<Rightarrow> 422 | HashMismatch \<Rightarrow> 422)"

definition uploadFault :: "api_code \<Rightarrow> int \<Rightarrow> upload_error" where
  "uploadFault c st = UploadError (apiError c st)"

text \<open>Everything before the row is looked up: the parameters, the sizes, the shipment, the recording event, the hash.\<close>

definition verifyUpload ::
  "(bytes \<Rightarrow> bytes) \<Rightarrow> 'k server \<Rightarrow> session \<Rightarrow> upload_request \<Rightarrow> upload_error + string \<times> string \<times> payload ledger_event"
where
  "verifyUpload sha sv s r =
     ebind (require (ss_role s \<in> {Admin, Ops, DriverRole}) (uploadFault ForbiddenCode 403)) (\<lambda>_.
     case (ur_shipment_id r, ur_photo_hash r) of
       (Some ship, Some h) \<Rightarrow>
         ebind (require (ship \<noteq> [] \<and> length ship \<le> 200 \<and> Hash64 h) (uploadFault ValidationFailedCode 400)) (\<lambda>_.
         ebind (require (case ur_declared r of None \<Rightarrow> True | Some n \<Rightarrow> n \<le> int MAX_EVIDENCE_BYTES)
           (uploadFault ValidationFailedCode 413)) (\<lambda>_.
         ebind (case resolveTenantDb (sv_ledger sv) (ss_tenant s) of Inl err \<Rightarrow> Inl (UploadError err) | Inr db \<Rightarrow> Inr db) (\<lambda>db.
         ebind (require (t_shipments db ship \<noteq> None) (uploadFault NotFoundCode 404)) (\<lambda>_.
           case recordingEvent db ship h of
             None \<Rightarrow> Inl HashNotRecorded
           | Some e \<Rightarrow>
               ebind (require (length (ur_body r) \<le> MAX_EVIDENCE_BYTES) (uploadFault ValidationFailedCode 413)) (\<lambda>_.
               ebind (require (ur_body r \<noteq> []) (uploadFault ValidationFailedCode 400)) (\<lambda>_.
               ebind (require (sha256Hex sha (ur_body r) = h) HashMismatch) (\<lambda>_. Inr (ship, h, e))))))))
     | _ \<Rightarrow> Inl (uploadFault ValidationFailedCode 400))"

definition findDoc :: "string \<Rightarrow> evidence_doc list \<Rightarrow> evidence_doc option" where
  "findDoc i ds = find (\<lambda>d. ed_id d = i) ds"

definition redrive :: "string \<Rightarrow> string \<Rightarrow> payload ledger_event \<Rightarrow> 'k server \<Rightarrow> 'k server" where
  "redrive tenant shipmentId e sv =
     (if kind e = PodSigned then sv \<lparr> sv_queue := sv_queue sv @ [BillerTrigger tenant shipmentId (ev_id e)] \<rparr> else sv)"

text \<open>An upload in flight: the verified request and the row as it was found.\<close>

record upload =
  up_tenant :: string
  up_shipment :: string
  up_hash :: string
  up_event :: "payload ledger_event"
  up_bytes :: bytes
  up_existing :: "evidence_doc option"

definition uploadKey :: "upload \<Rightarrow> string" where
  "uploadKey u = evidenceKey (up_tenant u) (up_shipment u) (up_hash u)"

text \<open>\<open>Inl\<close> is the answer of the duplicate path: an active row whose bytes the bucket still has.\<close>

definition uploadCheck ::
  "string \<Rightarrow> bytes \<Rightarrow> string \<times> string \<times> payload ledger_event \<Rightarrow> 'k server \<Rightarrow> (int + upload) \<times> 'k server"
where
  "uploadCheck tenant bs v sv =
     (case v of (ship, h, e) \<Rightarrow>
        let existing = findDoc (evidenceDocId ship h) (sv_docs sv tenant);
            u = \<lparr> up_tenant = tenant, up_shipment = ship, up_hash = h, up_event = e, up_bytes = bs, up_existing = existing \<rparr> in
        if existing \<noteq> None \<and> ed_status (the existing) = ActiveDoc \<and> sv_bucket sv (uploadKey u) \<noteq> None
        then (Inl 200, redrive tenant ship e sv)
        else (Inr u, sv))"

definition uploadPut :: "upload \<Rightarrow> 'k server \<Rightarrow> 'k server" where
  "uploadPut u sv = sv \<lparr> sv_bucket := (sv_bucket sv)(uploadKey u \<mapsto> up_bytes u) \<rparr>"

definition firstRow :: "upload \<Rightarrow> evidence_doc" where
  "firstRow u =
     (let k = documentKindFor (kind (up_event u)) in
      \<lparr> ed_id = evidenceDocId (up_shipment u) (up_hash u), ed_shipment = up_shipment u, ed_kind = k,
         ed_r2_key = uploadKey u, ed_hash = up_hash u, ed_lifecycle_class = retentionClassFor k,
         ed_visibility = documentVisibilityFor (visibility (up_event u)), ed_created_ts = recorded_at (up_event u),
         ed_status = ActiveDoc \<rparr>)"

definition setDocs :: "string \<Rightarrow> evidence_doc list \<Rightarrow> 'k server \<Rightarrow> 'k server" where
  "setDocs t ds sv = sv \<lparr> sv_docs := (sv_docs sv)(t := ds) \<rparr>"

definition uploadRow :: "int \<Rightarrow> upload \<Rightarrow> 'k server \<Rightarrow> int \<times> 'k server" where
  "uploadRow now u sv =
     (let t = up_tenant u; ds = sv_docs sv t; i = evidenceDocId (up_shipment u) (up_hash u);
          tell = redrive t (up_shipment u) (up_event u) in
      if up_existing u = None then
        (if findDoc i ds = None then (201, tell (setDocs t (ds @ [firstRow u]) sv)) else (200, tell sv))
      else (200, tell (setDocs t (map (\<lambda>d. if ed_id d = i then d \<lparr> ed_status := ActiveDoc, ed_created_ts := now \<rparr> else d) ds) sv)))"

definition postEvidence ::
  "(bytes \<Rightarrow> bytes) \<Rightarrow> int \<Rightarrow> session \<Rightarrow> upload_request \<Rightarrow> 'k server \<Rightarrow> (upload_error + int) \<times> 'k server"
where
  "postEvidence sha now s r sv =
     (case verifyUpload sha sv s r of
        Inl err \<Rightarrow> (Inl err, sv)
      | Inr v \<Rightarrow>
          (case uploadCheck (ss_tenant s) (ur_body r) v sv of
             (Inl st, sv1) \<Rightarrow> (Inr st, sv1)
           | (Inr u, sv1) \<Rightarrow> (case uploadRow now u (uploadPut u sv1) of (st, sv2) \<Rightarrow> (Inr st, sv2))))"

section \<open>The sweep (\<open>retention.ts\<close>)\<close>

record sweep_result =
  sw_scanned :: nat
  sw_deleted :: nat
  sw_retained :: nat
  sw_foreign :: nat
  sw_unknown :: nat

definition sweepSelect :: "string \<Rightarrow> 'k server \<Rightarrow> evidence_doc list" where
  "sweepSelect t sv = filter (\<lambda>d. ed_status d = ActiveDoc \<and> ed_kind d \<notin> set POD_RETAINED_KINDS) (sv_docs sv t)"

datatype sweep_verdict = UnknownClock | Retained | ForeignKey | Expire

definition sweepVerdict :: "string \<Rightarrow> int \<Rightarrow> evidence_doc \<Rightarrow> sweep_verdict" where
  "sweepVerdict t now d =
     (if ed_created_ts d \<le> 0 then UnknownClock
      else if now \<le> ed_created_ts d + retentionMsFor (ed_lifecycle_class d) then Retained
      else if \<not> isTenantEvidenceKey (ed_r2_key d) t then ForeignKey
      else Expire)"

definition sweepDelete :: "evidence_doc \<Rightarrow> 'k server \<Rightarrow> 'k server" where
  "sweepDelete d sv = sv \<lparr> sv_bucket := (sv_bucket sv)(ed_r2_key d := None) \<rparr>"

definition sweepTombstone :: "string \<Rightarrow> evidence_doc \<Rightarrow> 'k server \<Rightarrow> 'k server" where
  "sweepTombstone t d sv =
     setDocs t (map (\<lambda>x. if ed_id x = ed_id d \<and> ed_status x = ActiveDoc then x \<lparr> ed_status := ExpiredDoc \<rparr> else x) (sv_docs sv t)) sv"

fun sweepRows :: "string \<Rightarrow> int \<Rightarrow> evidence_doc list \<Rightarrow> sweep_result \<Rightarrow> 'k server \<Rightarrow> sweep_result \<times> 'k server" where
  "sweepRows t now [] n sv = (n, sv)"
| "sweepRows t now (d # ds) n sv =
     (case sweepVerdict t now d of
        UnknownClock \<Rightarrow> sweepRows t now ds (n \<lparr> sw_unknown := sw_unknown n + 1 \<rparr>) sv
      | Retained \<Rightarrow> sweepRows t now ds (n \<lparr> sw_retained := sw_retained n + 1 \<rparr>) sv
      | ForeignKey \<Rightarrow> sweepRows t now ds (n \<lparr> sw_foreign := sw_foreign n + 1 \<rparr>) sv
      | Expire \<Rightarrow> sweepRows t now ds (n \<lparr> sw_deleted := sw_deleted n + 1 \<rparr>) (sweepTombstone t d (sweepDelete d sv)))"

definition sweepTenantExpiredDocuments :: "string \<Rightarrow> int \<Rightarrow> 'k server \<Rightarrow> sweep_result \<times> 'k server" where
  "sweepTenantExpiredDocuments t now sv =
     (let rows = sweepSelect t sv in
      sweepRows t now rows
        \<lparr> sw_scanned = length rows, sw_deleted = 0, sw_retained = 0, sw_foreign = 0, sw_unknown = 0 \<rparr> sv)"

section \<open>The storage metric\<close>

definition BYTES_PER_GB :: int where "BYTES_PER_GB = 1000000000"
definition STORAGE_COST_TENTHS_CENT_PER_GB :: int where "STORAGE_COST_TENTHS_CENT_PER_GB = 15"
definition TENTHS_PER_CENT :: int where "TENTHS_PER_CENT = 10"

text \<open>\<open>bytes\<close> is a sum of object sizes, hence an integer.\<close>

definition estimateStorageCostCents :: "int \<Rightarrow> money_error + int" where
  "estimateStorageCostCents n =
     (if n \<le> 0 then Inr 0
      else ledgerMulDivHalfUp (Whole n) (Whole STORAGE_COST_TENTHS_CENT_PER_GB) (Whole (BYTES_PER_GB * TENTHS_PER_CENT)))"

end
