(* ===== verification/EvidenceLaws.thy ===== *)
theory EvidenceLaws
  imports Evidence
begin

text \<open>
  The laws of the evidence store: a row is active exactly when the bucket holds bytes that hash to it, kept
  by an upload and by a sweep that run to their end; a refused upload writes nothing; a sweep deletes
  only what it may; and the one interleaving that loses restored bytes.
\<close>

section \<open>Keys\<close>

definition slug :: "string \<Rightarrow> bool" where
  "slug t \<longleftrightarrow> CHR ''/'' \<notin> set t"

lemma split_first: "c \<notin> set a \<Longrightarrow> c \<notin> set b \<Longrightarrow> a @ c # x = b @ c # y \<Longrightarrow> a = b \<and> x = y"
  by (induction a arbitrary: b) (auto simp: Cons_eq_append_conv append_eq_Cons_conv)

lemma evidenceKey_inject:
  assumes "slug t" "slug t'" "length h = length h'"
  shows "evidenceKey t s h = evidenceKey t' s' h' \<longleftrightarrow> t = t' \<and> s = s' \<and> h = h'"
proof
  assume "evidenceKey t s h = evidenceKey t' s' h'"
  then have "t @ CHR ''/'' # (s @ CHR ''/'' # h) = t' @ CHR ''/'' # (s' @ CHR ''/'' # h')"
    by (simp add: evidenceKey_def)
  then have "t = t'" "s @ CHR ''/'' # h = s' @ CHR ''/'' # h'"
    using split_first[of "CHR ''/''" t t'] assms(1,2) by (auto simp: slug_def)
  then show "t = t' \<and> s = s' \<and> h = h'"
    using assms(3) append_eq_append_conv[of "CHR ''/'' # h" "CHR ''/'' # h'" s s'] by simp
qed simp

lemma evidenceDocId_inject: "length h = length h' \<Longrightarrow> evidenceDocId s h = evidenceDocId s' h' \<longleftrightarrow> s = s' \<and> h = h'"
  using append_eq_append_conv[of "CHR '':'' # h" "CHR '':'' # h'" s s'] by (auto simp: evidenceDocId_def)

lemma isTenantEvidenceKey_own [simp]: "isTenantEvidenceKey (evidenceKey t s h) t"
  by (simp add: isTenantEvidenceKey_def evidenceTenantPrefix_def evidenceKey_def)

lemma isTenantEvidenceKey_other:
  assumes "slug t" "slug t'" "isTenantEvidenceKey (evidenceKey t' s h) t"
  shows "t' = t"
proof -
  obtain rest where "evidenceKey t' s h = evidenceTenantPrefix t @ rest"
    using assms(3) by (metis append_take_drop_id isTenantEvidenceKey_def)
  then have "t' @ CHR ''/'' # (s @ CHR ''/'' # h) = t @ CHR ''/'' # rest"
    by (simp add: evidenceKey_def evidenceTenantPrefix_def)
  then show ?thesis
    using split_first[of "CHR ''/''" t' t] assms(1,2) by (auto simp: slug_def)
qed

section \<open>Active rows and stored bytes\<close>

definition row_ok :: "(bytes \<Rightarrow> bytes) \<Rightarrow> string \<Rightarrow> (string \<rightharpoonup> bytes) \<Rightarrow> evidence_doc \<Rightarrow> bool" where
  "row_ok sha t bucket d \<longleftrightarrow>
     slug t \<and> length (ed_hash d) = 64 \<and> ed_id d = evidenceDocId (ed_shipment d) (ed_hash d) \<and>
     ed_r2_key d = evidenceKey t (ed_shipment d) (ed_hash d) \<and>
     (ed_status d = ActiveDoc \<longleftrightarrow> bucket (ed_r2_key d) \<noteq> None) \<and>
     (\<forall>bs. bucket (ed_r2_key d) = Some bs \<longrightarrow> sha256Hex sha bs = ed_hash d)"

definition docs_ok :: "(bytes \<Rightarrow> bytes) \<Rightarrow> 'k server \<Rightarrow> bool" where
  "docs_ok sha sv \<longleftrightarrow> (\<forall>t. distinct (map ed_id (sv_docs sv t)) \<and> (\<forall>d \<in> set (sv_docs sv t). row_ok sha t (sv_bucket sv) d))"

lemma row_ok_other:
  assumes "row_ok sha t bucket d" "k \<noteq> ed_r2_key d"
  shows "row_ok sha t (bucket(k := v)) d"
  using assms by (simp add: row_ok_def)

lemma findDoc_Some: "findDoc i ds = Some d \<Longrightarrow> d \<in> set ds \<and> ed_id d = i"
  by (auto simp: findDoc_def dest: find_Some_in)

lemma findDoc_None: "findDoc i ds = None \<longleftrightarrow> i \<notin> ed_id ` set ds"
  by (auto simp: findDoc_def find_None_all)

lemma redrive_simps [simp]: "sv_docs (redrive t s e sv) = sv_docs sv" "sv_bucket (redrive t s e sv) = sv_bucket sv"
  "sv_ledger (redrive t s e sv) = sv_ledger sv"
  by (simp_all add: redrive_def)

lemma setDocs_simps [simp]: "sv_docs (setDocs t ds sv) = (sv_docs sv)(t := ds)" "sv_bucket (setDocs t ds sv) = sv_bucket sv"
  "sv_ledger (setDocs t ds sv) = sv_ledger sv"
  by (simp_all add: setDocs_def)

lemma docs_ok_redrive [simp]: "docs_ok sha (redrive t s e sv) = docs_ok sha sv"
  by (simp add: docs_ok_def)

lemma Hash64_length: "Hash64 h \<Longrightarrow> length h = 64"
  by (simp add: Hash64_def)

lemma verifyUpload_Inr:
  assumes "verifyUpload sha sv s r = Inr (ship, h, e)"
  shows "ss_role s \<in> {Admin, Ops, DriverRole} \<and> ur_shipment_id r = Some ship \<and> ur_photo_hash r = Some h \<and> Hash64 h \<and>
    \<not> isPlatformTenant (ss_tenant s) \<and> resolvable (sys_world (sv_ledger sv)) (ss_tenant s) \<and>
    t_shipments (readDb (sys_world (sv_ledger sv)) (CustomerDb (ss_tenant s))) ship \<noteq> None \<and>
    recordingEvent (readDb (sys_world (sv_ledger sv)) (CustomerDb (ss_tenant s))) ship h = Some e \<and>
    ur_body r \<noteq> [] \<and> length (ur_body r) \<le> MAX_EVIDENCE_BYTES \<and> sha256Hex sha (ur_body r) = h"
  using assms by (auto simp: verifyUpload_def resolveTenantDb_def split: option.splits if_splits sum.splits)

lemma upload_keeps:
  assumes ok: "docs_ok sha sv" and t: "slug t" and h: "length h = 64" "sha256Hex sha bs = h"
    and check: "uploadCheck t bs (ship, h, e) sv = (Inr u, sv1)"
  shows "docs_ok sha (snd (uploadRow now u (uploadPut u sv1))) \<and>
    (\<exists>d \<in> set (sv_docs (snd (uploadRow now u (uploadPut u sv1))) t).
       ed_id d = evidenceDocId ship h \<and> ed_status d = ActiveDoc \<and> ed_hash d = h) \<and>
    sv_bucket (snd (uploadRow now u (uploadPut u sv1))) (evidenceKey t ship h) = Some bs"
proof -
  let ?i = "evidenceDocId ship h" and ?k = "evidenceKey t ship h" and ?ds = "sv_docs sv t"
  have u: "u = \<lparr> up_tenant = t, up_shipment = ship, up_hash = h, up_event = e, up_bytes = bs, up_existing = findDoc ?i ?ds \<rparr>"
    and sv1: "sv1 = sv"
    using check by (auto simp: uploadCheck_def Let_def split: if_splits)
  define b where "b = (sv_bucket sv)(?k \<mapsto> bs)"
  have own: "ed_r2_key d = ?k \<longleftrightarrow> t' = t \<and> ed_id d = ?i" if "d \<in> set (sv_docs sv t')" for t' d
    using ok that t h(1) by (auto simp: docs_ok_def row_ok_def evidenceKey_inject evidenceDocId_inject)
  have others: "row_ok sha t' b d" if "d \<in> set (sv_docs sv t')" "t' \<noteq> t \<or> ed_id d \<noteq> ?i" for t' d
    using ok that own[OF that(1)] row_ok_other[of sha t' "sv_bucket sv" d ?k "Some bs"] by (auto simp: docs_ok_def b_def)
  have put: "uploadPut u sv = sv \<lparr> sv_bucket := b \<rparr>"
    by (simp add: uploadPut_def u uploadKey_def b_def)
  show ?thesis
  proof (cases "findDoc ?i ?ds")
    case None
    define d0 where "d0 = firstRow u"
    have d0: "ed_id d0 = ?i" "ed_status d0 = ActiveDoc" "ed_hash d0 = h" "row_ok sha t b d0"
      using t h by (simp_all add: d0_def firstRow_def Let_def u row_ok_def uploadKey_def b_def)
    have res: "snd (uploadRow now u (uploadPut u sv1)) = redrive t ship e (setDocs t (?ds @ [d0]) (sv \<lparr> sv_bucket := b \<rparr>))"
      using None by (simp add: uploadRow_def put sv1 d0_def Let_def) (simp add: u None)
    have "?i \<notin> ed_id ` set ?ds"
      using None by (simp add: findDoc_None)
    then have "docs_ok sha (setDocs t (?ds @ [d0]) (sv \<lparr> sv_bucket := b \<rparr>))"
      using ok others d0 by (auto simp: docs_ok_def) (metis imageI others)+
    then show ?thesis
      using d0 by (simp add: res b_def)
  next
    case (Some d)
    have d: "d \<in> set ?ds" "ed_id d = ?i"
      using findDoc_Some[OF Some] by auto
    define upd where "upd = (\<lambda>x :: evidence_doc. if ed_id x = ?i then x \<lparr> ed_status := ActiveDoc, ed_created_ts := now \<rparr> else x)"
    have res: "snd (uploadRow now u (uploadPut u sv1)) = redrive t ship e (setDocs t (map upd ?ds) (sv \<lparr> sv_bucket := b \<rparr>))"
      using Some by (simp add: uploadRow_def put sv1 upd_def Let_def) (simp add: u Some)
    have hash: "ed_hash x = h \<and> ed_shipment x = ship" if "x \<in> set ?ds" "ed_id x = ?i" for x
      using ok that h(1) by (auto simp: docs_ok_def row_ok_def evidenceDocId_inject)
    have "row_ok sha t b (upd x)" if "x \<in> set ?ds" for x
    proof (cases "ed_id x = ?i")
      case True
      then show ?thesis
        using ok that hash[OF that] t h by (auto simp: upd_def row_ok_def b_def docs_ok_def)
    next
      case False
      then show ?thesis
        using others that by (simp add: upd_def)
    qed
    moreover have "map ed_id (map upd ?ds) = map ed_id ?ds"
      by (simp add: upd_def)
    ultimately have "docs_ok sha (setDocs t (map upd ?ds) (sv \<lparr> sv_bucket := b \<rparr>))"
      using ok others by (auto simp: docs_ok_def simp del: map_map)
    moreover have "upd d \<in> set (map upd ?ds)" "ed_id (upd d) = ?i" "ed_status (upd d) = ActiveDoc" "ed_hash (upd d) = h"
      using d hash[OF d] by (auto simp: upd_def)
    ultimately show ?thesis
      by (auto simp: res b_def)
  qed
qed

lemma postEvidence_stored:
  assumes "docs_ok sha sv" "slug (ss_tenant s)" "postEvidence sha now s r sv = (Inr st, sv')"
  shows "docs_ok sha sv' \<and> sv_ledger sv' = sv_ledger sv \<and>
    (\<exists>ship h e d bs. ur_shipment_id r = Some ship \<and> ur_photo_hash r = Some h \<and> sha256Hex sha (ur_body r) = h \<and>
       recordingEvent (readDb (sys_world (sv_ledger sv)) (CustomerDb (ss_tenant s))) ship h = Some e \<and>
       d \<in> set (sv_docs sv' (ss_tenant s)) \<and> ed_id d = evidenceDocId ship h \<and> ed_status d = ActiveDoc \<and>
       sv_bucket sv' (evidenceKey (ss_tenant s) ship h) = Some bs \<and> sha256Hex sha bs = h)"
proof -
  let ?t = "ss_tenant s"
  obtain ship h e where v: "verifyUpload sha sv s r = Inr (ship, h, e)"
    using assms(3) by (auto simp: postEvidence_def split: sum.splits)
  note facts = verifyUpload_Inr[OF v]
  have h: "length h = 64"
    using facts Hash64_length by blast
  show ?thesis
  proof (cases "uploadCheck ?t (ur_body r) (ship, h, e) sv")
    case (Pair c sv1)
    show ?thesis
    proof (cases c)
      case (Inl k)
      define d where "d = the (findDoc (evidenceDocId ship h) (sv_docs sv ?t))"
      have dup: "findDoc (evidenceDocId ship h) (sv_docs sv ?t) = Some d" "ed_status d = ActiveDoc"
        "sv_bucket sv (evidenceKey ?t ship h) \<noteq> None" "sv1 = redrive ?t ship e sv"
        using Pair Inl by (auto simp: uploadCheck_def Let_def uploadKey_def d_def split: if_splits)
      have d: "d \<in> set (sv_docs sv ?t)" "ed_id d = evidenceDocId ship h"
        using findDoc_Some[OF dup(1)] by auto
      then have row: "row_ok sha ?t (sv_bucket sv) d"
        using assms(1) by (simp add: docs_ok_def)
      then have "ed_hash d = h \<and> ed_shipment d = ship"
        using d(2) h evidenceDocId_inject[of h "ed_hash d" ship "ed_shipment d"] by (auto simp: row_ok_def)
      then have "\<exists>bs. sv_bucket sv (evidenceKey ?t ship h) = Some bs \<and> sha256Hex sha bs = h"
        using row dup(3) by (auto simp: row_ok_def)
      moreover have "sv' = sv1"
        using assms(3) v Pair Inl by (simp add: postEvidence_def)
      ultimately show ?thesis
        using facts d dup assms(1) by auto
    next
      case (Inr u)
      have sv': "sv' = snd (uploadRow now u (uploadPut u sv1))"
        using assms(3) v Pair Inr by (auto simp: postEvidence_def split: prod.splits)
      have "sv1 = sv"
        using Pair Inr by (auto simp: uploadCheck_def Let_def split: if_splits)
      then have "sv_ledger sv' = sv_ledger sv"
        by (simp add: sv' uploadRow_def uploadPut_def Let_def)
      then show ?thesis
        using upload_keeps[OF assms(1,2) h _ Pair[unfolded Inr], of now] facts sv' by auto
    qed
  qed
qed

lemma refused_upload:
  assumes "postEvidence sha now s r sv = (Inl err, sv')"
  shows "sv' = sv \<and> statusOf err \<in> {400, 403, 404, 413, 422}"
proof -
  have v: "verifyUpload sha sv s r = Inl err" "sv' = sv"
    using assms by (auto simp: postEvidence_def split: sum.splits prod.splits)
  then have "statusOf err \<in> {400, 403, 404, 413, 422}"
    by (auto simp: verifyUpload_def resolveTenantDb_def statusOf_def uploadFault_def apiError_def ebind_eq_Inl
        split: option.splits if_splits sum.splits)
  then show ?thesis
    using v by simp
qed

section \<open>The sweep\<close>

lemma sweep_one:
  assumes ok: "docs_ok sha sv" and d: "d \<in> set (sv_docs sv t)"
  shows "docs_ok sha (sweepTombstone t d (sweepDelete d sv)) \<and>
    (\<forall>x \<in> set (sv_docs sv t). ed_id x \<noteq> ed_id d \<longrightarrow> x \<in> set (sv_docs (sweepTombstone t d (sweepDelete d sv)) t))"
proof -
  define b where "b = (sv_bucket sv)(ed_r2_key d := None)"
  define dead where "dead = (\<lambda>x :: evidence_doc. if ed_id x = ed_id d \<and> ed_status x = ActiveDoc then x \<lparr> ed_status := ExpiredDoc \<rparr> else x)"
  have res: "sweepTombstone t d (sweepDelete d sv) = setDocs t (map dead (sv_docs sv t)) (sv \<lparr> sv_bucket := b \<rparr>)"
    by (simp add: sweepTombstone_def sweepDelete_def b_def dead_def setDocs_def)
  have row: "row_ok sha t (sv_bucket sv) d"
    using ok d by (simp add: docs_ok_def)
  have key: "ed_r2_key x = ed_r2_key d \<longleftrightarrow> t' = t \<and> ed_id x = ed_id d" if "x \<in> set (sv_docs sv t')" for t' x
  proof -
    have "row_ok sha t' (sv_bucket sv) x"
      using ok that by (simp add: docs_ok_def)
    then show ?thesis
      using row evidenceKey_inject[of t' t "ed_hash x" "ed_hash d"] evidenceDocId_inject[of "ed_hash x" "ed_hash d"]
      by (simp add: row_ok_def)
  qed
  have others: "row_ok sha t' b x" if "x \<in> set (sv_docs sv t')" "t' \<noteq> t \<or> ed_id x \<noteq> ed_id d" for t' x
    using ok that key[OF that(1)] row_ok_other[of sha t' "sv_bucket sv" x "ed_r2_key d" None] by (auto simp: docs_ok_def b_def)
  have "row_ok sha t b (dead x)" if x: "x \<in> set (sv_docs sv t)" for x
  proof (cases "ed_id x = ed_id d")
    case True
    then have "b (ed_r2_key x) = None"
      using key[OF x] by (simp add: b_def)
    moreover have "row_ok sha t (sv_bucket sv) x"
      using ok x by (simp add: docs_ok_def)
    ultimately show ?thesis
      using True by (cases "ed_status x") (auto simp: dead_def row_ok_def)
  next
    case False
    then show ?thesis
      using others[OF x] by (simp add: dead_def)
  qed
  moreover have "map ed_id (map dead (sv_docs sv t)) = map ed_id (sv_docs sv t)"
    by (simp add: dead_def)
  ultimately have "docs_ok sha (setDocs t (map dead (sv_docs sv t)) (sv \<lparr> sv_bucket := b \<rparr>))"
    using ok others by (auto simp: docs_ok_def simp del: map_map)
  moreover have "x \<in> dead ` set (sv_docs sv t)" if "x \<in> set (sv_docs sv t)" "ed_id x \<noteq> ed_id d" for x
    using that by (intro image_eqI[of _ _ x]) (simp_all add: dead_def)
  ultimately show ?thesis
    by (simp add: res)
qed

lemma sweepRows_keeps:
  "sweepRows t now ds n sv = (n', sv') \<Longrightarrow> docs_ok sha sv \<Longrightarrow> set ds \<subseteq> set (sv_docs sv t) \<Longrightarrow> distinct (map ed_id ds) \<Longrightarrow> docs_ok sha sv'"
proof (induction ds arbitrary: n sv)
  case (Cons d ds)
  have sub: "set ds \<subseteq> set (sv_docs (sweepTombstone t d (sweepDelete d sv)) t)"
  proof
    fix x
    assume x: "x \<in> set ds"
    then have "ed_id x \<noteq> ed_id d"
      using Cons.prems(4) by (auto simp: image_iff)
    with x Cons.prems(3) sweep_one[OF Cons.prems(2), of d t] show "x \<in> set (sv_docs (sweepTombstone t d (sweepDelete d sv)) t)"
      by auto
  qed
  show ?case
    using Cons.IH[OF _ Cons.prems(2)] Cons.IH[OF _ _ sub] Cons.prems sweep_one[OF Cons.prems(2), of d t]
    by (cases "sweepVerdict t now d") (auto simp: Let_def)
qed simp

lemma sweepRows_bucket:
  "sweepRows t now ds n sv = (n', sv') \<Longrightarrow> sv_bucket sv' k \<noteq> sv_bucket sv k \<Longrightarrow>
     sv_bucket sv' k = None \<and> (\<exists>d \<in> set ds. sweepVerdict t now d = Expire \<and> ed_r2_key d = k)"
proof (induction ds arbitrary: n sv)
  case (Cons d ds)
  show ?case
  proof (cases "sweepVerdict t now d = Expire")
    case True
    then have run: "sweepRows t now ds (n \<lparr> sw_deleted := sw_deleted n + 1 \<rparr>) (sweepTombstone t d (sweepDelete d sv)) = (n', sv')"
      using Cons.prems(1) by simp
    have b: "sv_bucket (sweepTombstone t d (sweepDelete d sv)) = (sv_bucket sv)(ed_r2_key d := None)"
      by (simp add: sweepTombstone_def sweepDelete_def)
    show ?thesis
    proof (cases "sv_bucket sv' k = sv_bucket (sweepTombstone t d (sweepDelete d sv)) k")
      case True
      then show ?thesis
        using Cons.prems(2) \<open>sweepVerdict t now d = Expire\<close> by (auto simp: b split: if_splits)
    next
      case False
      then show ?thesis
        using Cons.IH[OF run] by auto
    qed
  next
    case False
    then show ?thesis
      using Cons by (cases "sweepVerdict t now d") fastforce+
  qed
qed simp

lemma sweepRows_frame:
  "sweepRows t now ds n sv = (n', sv') \<Longrightarrow> (\<forall>t'. t' \<noteq> t \<longrightarrow> sv_docs sv' t' = sv_docs sv t') \<and> sv_ledger sv' = sv_ledger sv \<and>
     sv_queue sv' = sv_queue sv \<and> sw_scanned n' = sw_scanned n \<and>
     sw_deleted n' + sw_retained n' + sw_foreign n' + sw_unknown n' =
       sw_deleted n + sw_retained n + sw_foreign n + sw_unknown n + length ds"
proof (induction ds arbitrary: n sv)
  case (Cons d ds)
  then show ?case
    by (cases "sweepVerdict t now d") (fastforce simp: sweepTombstone_def sweepDelete_def setDocs_def)+
qed simp

lemma sweepVerdict_Expire:
  "sweepVerdict t now d = Expire \<longleftrightarrow> 0 < ed_created_ts d \<and> ed_created_ts d + retentionMsFor (ed_lifecycle_class d) < now \<and>
     isTenantEvidenceKey (ed_r2_key d) t"
  by (auto simp: sweepVerdict_def)

lemma retention_floor: "YEAR_MS \<le> retentionMsFor c \<and> (c \<noteq> RETENTION_CLASS_DEFAULT \<longrightarrow> retentionMsFor c = 7 * YEAR_MS)"
  by (simp add: retentionMsFor_def YEAR_MS_def DAY_MS_def)

lemma sweep_law:
  assumes "docs_ok sha sv" "sweepTenantExpiredDocuments t now sv = (n, sv')"
  shows "docs_ok sha sv' \<and> sw_scanned n = sw_deleted n + sw_retained n + sw_foreign n + sw_unknown n \<and>
    sv_ledger sv' = sv_ledger sv \<and> (\<forall>t'. t' \<noteq> t \<longrightarrow> sv_docs sv' t' = sv_docs sv t') \<and>
    (\<forall>k. sv_bucket sv' k \<noteq> sv_bucket sv k \<longrightarrow> sv_bucket sv' k = None \<and> isTenantEvidenceKey k t \<and>
       (\<exists>d \<in> set (sv_docs sv t). ed_r2_key d = k \<and> ed_status d = ActiveDoc \<and> ed_kind d \<notin> set POD_RETAINED_KINDS \<and>
          0 < ed_created_ts d \<and> ed_created_ts d + YEAR_MS < now))"
proof -
  define n0 where "n0 = \<lparr> sw_scanned = length (sweepSelect t sv), sw_deleted = 0, sw_retained = 0, sw_foreign = 0, sw_unknown = 0 \<rparr>"
  have run: "sweepRows t now (sweepSelect t sv) n0 sv = (n, sv')"
    using assms(2) by (simp add: sweepTenantExpiredDocuments_def n0_def Let_def)
  have "docs_ok sha sv'"
  proof (rule sweepRows_keeps[OF run assms(1)])
    show "distinct (map ed_id (sweepSelect t sv))"
      using assms(1) by (auto simp: sweepSelect_def docs_ok_def distinct_map inj_on_def)
  qed (auto simp: sweepSelect_def)
  moreover have "sv_bucket sv' k = None \<and> isTenantEvidenceKey k t \<and>
       (\<exists>d \<in> set (sv_docs sv t). ed_r2_key d = k \<and> ed_status d = ActiveDoc \<and> ed_kind d \<notin> set POD_RETAINED_KINDS \<and>
          0 < ed_created_ts d \<and> ed_created_ts d + YEAR_MS < now)" if changed: "sv_bucket sv' k \<noteq> sv_bucket sv k" for k
  proof -
    obtain d where d: "d \<in> set (sweepSelect t sv)" "sweepVerdict t now d = Expire" "ed_r2_key d = k" "sv_bucket sv' k = None"
      using sweepRows_bucket[OF run changed] by auto
    then have "ed_created_ts d + YEAR_MS < now"
      using retention_floor[of "ed_lifecycle_class d"] by (auto simp: sweepVerdict_Expire)
    then show ?thesis
      using d by (auto simp: sweepSelect_def sweepVerdict_Expire)
  qed
  ultimately show ?thesis
    using sweepRows_frame[OF run] by (auto simp: n0_def)
qed

section \<open>An upload inside a sweep\<close>

text \<open>A row that an earlier sweep left active without its bytes (a crash between the two writes) is selected; before the
  sweep reaches it, an upload restores the bytes, restarts the clock and answers 200; the sweep then deletes the
  restored bytes and tombstones the row, on the age it read before.\<close>

theorem a_sweep_can_delete_restored_bytes:
  assumes "sv_docs sv t = [d]" "d \<in> set (sweepSelect t sv)" "sweepVerdict t now d = Expire"
    "ed_id d = evidenceDocId ship h" "ed_r2_key d = evidenceKey t ship h" "sv_bucket sv (ed_r2_key d) = None"
  shows "\<exists>u. uploadCheck t bs (ship, h, e) sv = (Inr u, sv) \<and>
    (let (st, sv1) = uploadRow now u (uploadPut u sv); sv2 = sweepTombstone t d (sweepDelete d sv1) in
       st = 200 \<and> sv_bucket sv1 (ed_r2_key d) = Some bs \<and>
       sv_docs sv1 t = [d \<lparr> ed_status := ActiveDoc, ed_created_ts := now \<rparr>] \<and>
       sv_bucket sv2 (ed_r2_key d) = None \<and>
       sv_docs sv2 t = [d \<lparr> ed_status := ExpiredDoc, ed_created_ts := now \<rparr>])"
  using assms
  by (simp add: uploadCheck_def uploadKey_def findDoc_def uploadRow_def uploadPut_def sweepTombstone_def sweepDelete_def Let_def)

end
