(* ===== verification/DeviceWorld.thy ===== *)
theory DeviceWorld
  imports SyncLaws EventsRouteLaws EvidenceLaws
begin

text \<open>
  The device in front of the real server: the HTTP transports of the driver's app
  (\<open>apps/driver/src/sync/transport.ts\<close>) over a network that may lose a request or its answer, while other
  clients and the retention sweep act in between. The synchronization engine's contract
  (\<open>device_server\<close>) is interpreted here.

  The world holds the server, the driver's session, and one entry per tick of everything the engine does not
  control: the token in storage, the network, the two clocks, the random draws, the other activity. An
  \<open>Idempotency-Key\<close> is fresh per attempt, so the cache of answers is never hit and is left out.
\<close>

section \<open>Other activity\<close>

datatype activity =
    AnyAppend int string string "payload event_input" bool
  | AnyPost int session string client_body
  | AnyUpload int session upload_request
  | AnySweep string int
  | AnyEviction string

definition onLedger :: "('k ledger_system \<Rightarrow> 'k ledger_system) \<Rightarrow> 'k server \<Rightarrow> 'k server" where
  "onLedger f sv = sv \<lparr> sv_ledger := f (sv_ledger sv) \<rparr>"

definition appended ::
  "'k env \<Rightarrow> int \<Rightarrow> string \<Rightarrow> string \<Rightarrow> payload event_input \<Rightarrow> bool \<Rightarrow> 'k ledger_system \<Rightarrow> 'k ledger_system" where
  "appended env now t st i platform S =
     (let me = idFromName env (t @ ''|'' @ st) in
      settled me (snd (append_event env now t st i platform (instance_at me S))) S)"

fun perform :: "'k env \<Rightarrow> activity \<Rightarrow> 'k server \<Rightarrow> 'k server" where
  "perform env (AnyAppend now t st i platform) sv = onLedger (appended env now t st i platform) sv"
| "perform env (AnyPost now s ship b) sv = onLedger (\<lambda>S. snd (postEvent env now s ship b S)) sv"
| "perform env (AnyUpload now s r) sv = snd (postEvidence (sha256 env) now s r sv)"
| "perform env (AnySweep t now) sv = snd (sweepTenantExpiredDocuments t now sv)"
| "perform env (AnyEviction i) sv = onLedger (\<lambda>S. S \<lparr> objects := (objects S)(i := evicted (objects S i)) \<rparr>) sv"

section \<open>The world of a device\<close>

datatype token = NoToken | BadToken | GoodToken

datatype network = Delivered | RequestLost | AnswerLost

record 'k device_world =
  dw_server :: "'k server"
  dw_session :: session
  dw_tick :: nat
  dw_tokens :: "nat \<Rightarrow> token"
  dw_network :: "nat \<Rightarrow> network"
  dw_clock :: "nat \<Rightarrow> int"
  dw_serverClock :: "nat \<Rightarrow> int"
  dw_draws :: "nat \<Rightarrow> rat"
  dw_meanwhile :: "nat \<Rightarrow> activity list"

text \<open>A tick passes: whatever the others do happens.\<close>

definition tick :: "'k env \<Rightarrow> 'k device_world \<Rightarrow> 'k device_world" where
  "tick env w = w \<lparr> dw_tick := dw_tick w + 1, dw_server := fold (perform env) (dw_meanwhile w (dw_tick w)) (dw_server w) \<rparr>"

section \<open>The transports (\<open>transport.ts\<close>)\<close>

text \<open>A request through the network: status 0 is \<open>fetch\<close> throwing; a bad token is refused at the door.\<close>

definition exchange ::
  "'k env \<Rightarrow> ('k device_world \<Rightarrow> int \<times> 'k server) \<Rightarrow> 'k device_world \<Rightarrow> int \<times> 'k device_world" where
  "exchange env handler w =
     (let n = dw_tick w; w1 = tick env w in
      case dw_network w n of
        RequestLost \<Rightarrow> (0, w1)
      | net \<Rightarrow>
          (let (status, sv) = (if dw_tokens w n = BadToken then (401, dw_server w1) else handler w1) in
           (if net = AnswerLost then 0 else status, w1 \<lparr> dw_server := sv \<rparr>)))"

definition transport ::
  "'k env \<Rightarrow> string option \<Rightarrow> (string \<Rightarrow> 'k device_world \<Rightarrow> int \<times> 'k server) \<Rightarrow> 'k device_world \<Rightarrow> int \<times> 'k device_world" where
  "transport env shipmentId handler w =
     (if dw_tokens w (dw_tick w) = NoToken then (401, tick env w)
      else
        case shipmentId of
          None \<Rightarrow> (422, tick env w)
        | Some ship \<Rightarrow> if ship = [] then (422, tick env w) else exchange env (handler ship) w)"

text \<open>The event as the request body: the override, if it has one, is a claim.\<close>

definition asBody :: "payload event_input \<Rightarrow> client_body" where
  "asBody e = Shaped e (map_option (\<lambda>x. Some (ov_reason x)) (in_override e))"

definition serveEvent :: "'k env \<Rightarrow> payload event_input \<Rightarrow> string \<Rightarrow> 'k device_world \<Rightarrow> int \<times> 'k server" where
  "serveEvent env e ship w =
     (let sv = dw_server w in
      case postEvent env (dw_serverClock w (dw_tick w)) (dw_session w) ship (asBody e) (sv_ledger sv) of
        (Inl err, S) \<Rightarrow> (ae_status err, sv \<lparr> sv_ledger := S \<rparr>)
      | (Inr rsp, S) \<Rightarrow> (rs_status rsp, sv \<lparr> sv_ledger := S \<rparr>))"

definition transportEvent :: "'k env \<Rightarrow> payload event_input \<Rightarrow> 'k device_world \<Rightarrow> int \<times> 'k device_world" where
  "transportEvent env e w = transport env (in_shipment_id e) (serveEvent env e) w"

definition uploadRequest :: "deferred_upload \<Rightarrow> string \<Rightarrow> upload_request" where
  "uploadRequest d ship = \<lparr> ur_shipment_id = Some ship, ur_photo_hash = Some (du_hash d),
     ur_declared = Some (int (length (du_bytes d))), ur_body = du_bytes d \<rparr>"

definition serveEvidence :: "'k env \<Rightarrow> deferred_upload \<Rightarrow> string \<Rightarrow> 'k device_world \<Rightarrow> int \<times> 'k server" where
  "serveEvidence env d ship w =
     (case postEvidence (sha256 env) (dw_serverClock w (dw_tick w)) (dw_session w) (uploadRequest d ship) (dw_server w) of
        (Inl err, sv) \<Rightarrow> (statusOf err, sv)
      | (Inr status, sv) \<Rightarrow> (status, sv))"

definition transportEvidence ::
  "'k env \<Rightarrow> deferred_upload \<Rightarrow> payload event_input \<Rightarrow> 'k device_world \<Rightarrow> int \<times> 'k device_world" where
  "transportEvidence env d e w = transport env (in_shipment_id e) (serveEvidence env d) w"

definition devicePorts :: "'k env \<Rightarrow> 'k device_world sync_ports" where
  "devicePorts env =
     \<lparr> clock = (\<lambda>w. (dw_clock w (dw_tick w), tick env w)), draw = (\<lambda>w. (dw_draws w (dw_tick w), tick env w)),
        sendEvent = transportEvent env, sendEvidence = transportEvidence env, backoff = DEFAULT_BACKOFF \<rparr>"

section \<open>What the server keeps\<close>

definition serverFits :: "'k env \<Rightarrow> 'k server \<Rightarrow> bool" where
  "serverFits env sv \<longleftrightarrow> reachable env (sv_ledger sv) \<and> docs_ok (sha256 env) sv \<and>
     (\<forall>t. resolvable (sys_world (sv_ledger sv)) t \<longrightarrow> slug t)"

text \<open>The ledger answers to a captured event: it holds an event with its id, or, on its stream, one with its device and
  number. A row answers to an upload: it is there, and while it is active the bucket has bytes with its hash.\<close>

definition inLedger :: "'k server \<Rightarrow> session \<Rightarrow> payload event_input \<Rightarrow> bool" where
  "inLedger sv s e \<longleftrightarrow> (\<exists>ship. in_shipment_id e = Some ship \<and> answered (sv_ledger sv) (ss_tenant s) (''s:'' @ ship) e)"

definition rowIds :: "'k server \<Rightarrow> string \<Rightarrow> string set" where
  "rowIds sv t = ed_id ` set (sv_docs sv t)"

definition inStore :: "'k server \<Rightarrow> session \<Rightarrow> deferred_upload \<Rightarrow> payload event_input \<Rightarrow> bool" where
  "inStore sv s d e \<longleftrightarrow>
     (\<exists>ship. in_shipment_id e = Some ship \<and> evidenceDocId ship (du_hash d) \<in> rowIds sv (ss_tenant s))"

definition serverMoves :: "'k env \<Rightarrow> session \<Rightarrow> 'k server \<Rightarrow> 'k server \<Rightarrow> bool" where
  "serverMoves env s sv sv' \<longleftrightarrow> (serverFits env sv \<longrightarrow> serverFits env sv' \<and>
     (\<forall>e. inLedger sv s e \<longrightarrow> inLedger sv' s e) \<and> (\<forall>d e. inStore sv s d e \<longrightarrow> inStore sv' s d e))"

lemma serverMoves_refl [simp]: "serverMoves env s sv sv"
  by (simp add: serverMoves_def)

lemma serverMoves_trans: "serverMoves env s a b \<Longrightarrow> serverMoves env s b c \<Longrightarrow> serverMoves env s a c"
  by (auto simp: serverMoves_def)

lemma step_resolvable:
  assumes "reachable env S"
  shows "resolvable (sys_world (settled j (snd (append_event env now t st i platform (instance_at j S))) S)) = resolvable (sys_world S)"
proof -
  obtain v s' where a: "append_event env now t st i platform (instance_at j S) = (v, s')"
    by (cases "append_event env now t st i platform (instance_at j S)")
  from assms a have "resolvable (world s') = resolvable (sys_world S)"
  proof (cases rule: append_outcome)
    case (committed e trs s0 s1 date)
    then show ?thesis
      using commit_Inr[OF committed(7)] by (simp add: recorded_def quiet_def)
  qed (auto simp: quiet_def)
  then show ?thesis
    by (simp add: a settled_def)
qed

lemma docs_ok_ledger [simp]: "docs_ok sha (onLedger f sv) = docs_ok sha sv"
  by (simp add: docs_ok_def onLedger_def)

lemma ledger_moves:
  assumes "reachable env (sv_ledger sv) \<Longrightarrow>
    (f (sv_ledger sv) = sv_ledger sv \<or> step env (sv_ledger sv) (f (sv_ledger sv))) \<and>
    resolvable (sys_world (f (sv_ledger sv))) = resolvable (sys_world (sv_ledger sv))"
  shows "serverMoves env s sv (onLedger f sv)"
proof -
  have "serverFits env (onLedger f sv) \<and> (\<forall>e. inLedger sv s e \<longrightarrow> inLedger (onLedger f sv) s e) \<and>
      (\<forall>d e. inStore sv s d e \<longrightarrow> inStore (onLedger f sv) s d e)" if fits: "serverFits env sv"
  proof -
    have reach: "reachable env (sv_ledger sv)"
      using fits by (simp add: serverFits_def)
    note now = assms[OF reach]
    have "reachable env (f (sv_ledger sv))"
      using now reach reachable.Step by metis
    moreover have "answered (f (sv_ledger sv)) t st i" if "answered (sv_ledger sv) t st i" for t st i
      using now that answered_step[OF reach] by metis
    ultimately show ?thesis
      using fits now by (auto simp: serverFits_def inLedger_def inStore_def rowIds_def onLedger_def docs_ok_def)
  qed
  then show ?thesis
    by (simp add: serverMoves_def)
qed

lemma rowIds_setDocs [simp]: "rowIds (setDocs u ds sv) t = (if t = u then ed_id ` set ds else rowIds sv t)"
  by (simp add: rowIds_def)

lemma rowIds_other [simp]: "rowIds (redrive u ship e sv) t = rowIds sv t" "rowIds (uploadPut v sv) t = rowIds sv t"
  "rowIds (sweepDelete d sv) t = rowIds sv t"
  by (simp_all add: rowIds_def uploadPut_def sweepDelete_def)

lemma ids_map: "(\<And>d. ed_id (f d) = ed_id d) \<Longrightarrow> ed_id ` set (map f ds) = ed_id ` set ds"
  by (simp add: image_image)

lemma uploadRow_ids: "rowIds sv t \<subseteq> rowIds (snd (uploadRow now u sv)) t"
proof (cases "up_existing u")
  case None
  then show ?thesis
    by (auto simp: uploadRow_def rowIds_def Let_def)
next
  case (Some x)
  then show ?thesis
    by (simp add: uploadRow_def Let_def ids_map del: set_map) (simp add: rowIds_def)
qed

lemma upload_ids: "postEvidence sha now s r sv = (res, sv') \<Longrightarrow> rowIds sv t \<subseteq> rowIds sv' t"
proof -
  assume run: "postEvidence sha now s r sv = (res, sv')"
  show ?thesis
  proof (cases "verifyUpload sha sv s r")
    case (Inr v)
    obtain c sv1 where check: "uploadCheck (ss_tenant s) (ur_body r) v sv = (c, sv1)"
      by (cases "uploadCheck (ss_tenant s) (ur_body r) v sv") auto
    then have same: "rowIds sv1 t = rowIds sv t"
      by (auto simp: uploadCheck_def Let_def split: prod.splits if_splits)
    show ?thesis
    proof (cases c)
      case (Inl st)
      then show ?thesis
        using run Inr check same by (simp add: postEvidence_def)
    next
      case next': (Inr u)
      then have "sv' = snd (uploadRow now u (uploadPut u sv1))"
        using run Inr check by (auto simp: postEvidence_def split: prod.splits)
      then show ?thesis
        using uploadRow_ids[of "uploadPut u sv1" t now u] same by simp
    qed
  qed (use run in \<open>simp add: postEvidence_def\<close>)
qed

lemma sweep_ids: "sweepRows t now ds n sv = (n', sv') \<Longrightarrow> rowIds sv' t' = rowIds sv t'"
proof (induction ds arbitrary: n sv)
  case (Cons d ds)
  have "rowIds (sweepTombstone t d (sweepDelete d sv)) t' = rowIds sv t'"
    by (simp add: sweepTombstone_def ids_map del: set_map) (simp add: rowIds_def sweepDelete_def)
  then show ?case
    using Cons by (cases "sweepVerdict t now d") auto
qed simp

lemma perform_moves: "serverMoves env s sv (perform env a sv)"
proof (cases a)
  case (AnyAppend now t st i platform)
  show ?thesis
    unfolding AnyAppend perform.simps
    by (rule ledger_moves) (simp add: appended_def Let_def step.Request step_resolvable)
next
  case (AnyPost now s' ship b)
  show ?thesis
    unfolding AnyPost perform.simps
  proof (rule ledger_moves)
    assume "reachable env (sv_ledger sv)"
    then show "(snd (postEvent env now s' ship b (sv_ledger sv)) = sv_ledger sv
        \<or> step env (sv_ledger sv) (snd (postEvent env now s' ship b (sv_ledger sv))))
      \<and> resolvable (sys_world (snd (postEvent env now s' ship b (sv_ledger sv)))) = resolvable (sys_world (sv_ledger sv))"
      using post_step[of env "sv_ledger sv" now s' ship b]
      by (cases "admitPost (sv_ledger sv) s' ship b")
         (simp_all add: postEvent_admitted postEvent_refused served_def Let_def step_resolvable)
  qed
next
  case (AnyUpload now s' r)
  obtain res sv' where run: "postEvidence (sha256 env) now s' r sv = (res, sv')"
    by (cases "postEvidence (sha256 env) now s' r sv") auto
  have "serverFits env sv'" if fits: "serverFits env sv"
  proof (cases res)
    case (Inl err)
    then show ?thesis
      using refused_upload[of "sha256 env" now s' r sv err sv'] run fits by simp
  next
    case (Inr status)
    obtain v where "verifyUpload (sha256 env) sv s' r = Inr v"
      using run Inr by (auto simp: postEvidence_def split: sum.splits)
    then have "slug (ss_tenant s')"
      using fits verifyUpload_Inr by (metis prod_cases3 serverFits_def)
    then show ?thesis
      using postEvidence_stored[of "sha256 env" sv s' now r status sv'] run Inr fits by (simp add: serverFits_def)
  qed
  moreover have "sv_ledger sv' = sv_ledger sv"
    using run by (auto simp: postEvidence_def uploadCheck_def uploadRow_def uploadPut_def Let_def
        split: sum.splits prod.splits if_splits)
  moreover have "inStore sv s d e \<Longrightarrow> inStore sv' s d e" for d e
    using upload_ids[OF run, of "ss_tenant s"] by (auto simp: inStore_def)
  ultimately show ?thesis
    using run by (simp add: AnyUpload serverMoves_def inLedger_def)
next
  case (AnySweep t now)
  obtain n sv' where run: "sweepTenantExpiredDocuments t now sv = (n, sv')"
    by (cases "sweepTenantExpiredDocuments t now sv") auto
  have "rowIds sv' t' = rowIds sv t'" for t'
    using run sweep_ids by (simp add: sweepTenantExpiredDocuments_def Let_def)
  then have "inStore sv s d e \<Longrightarrow> inStore sv' s d e" for d e
    by (simp add: inStore_def)
  moreover have "serverFits env sv \<Longrightarrow> serverFits env sv' \<and> sv_ledger sv' = sv_ledger sv"
    using sweep_law[OF _ run, of "sha256 env"] by (simp add: serverFits_def)
  ultimately show ?thesis
    using run by (auto simp: AnySweep serverMoves_def inLedger_def)
next
  case (AnyEviction i)
  show ?thesis
    unfolding AnyEviction perform.simps
    by (rule ledger_moves) (simp add: step.Evict)
qed

lemma meanwhile_moves: "serverMoves env s sv (fold (perform env) as sv)"
proof (induction as arbitrary: sv)
  case (Cons a as)
  show ?case
    using serverMoves_trans[OF perform_moves Cons.IH] by simp
qed simp

section \<open>A request and its answer\<close>

definition worldFits :: "'k env \<Rightarrow> 'k device_world \<Rightarrow> bool" where
  "worldFits env w \<longleftrightarrow> serverFits env (dw_server w)"

definition worldHas :: "'k device_world \<Rightarrow> payload event_input \<Rightarrow> bool" where
  "worldHas w e \<longleftrightarrow> inLedger (dw_server w) (dw_session w) e"

definition worldHolds :: "'k device_world \<Rightarrow> deferred_upload \<Rightarrow> payload event_input \<Rightarrow> bool" where
  "worldHolds w d e \<longleftrightarrow> inStore (dw_server w) (dw_session w) d e"

abbreviation worldKeeps :: "'k env \<Rightarrow> 'k device_world \<Rightarrow> 'k device_world \<Rightarrow> bool" where
  "worldKeeps env \<equiv> serverKeeps (worldFits env) worldHas worldHolds"

lemma worldKeeps_moves:
  "dw_session w' = dw_session w \<Longrightarrow> serverMoves env (dw_session w) (dw_server w) (dw_server w') \<Longrightarrow> worldKeeps env w w'"
  by (simp add: serverKeeps_def worldFits_def worldHas_def worldHolds_def serverMoves_def)

lemma tick_simps [simp]: "dw_session (tick env w) = dw_session w" "dw_serverClock (tick env w) = dw_serverClock w"
  "dw_server (tick env w) = fold (perform env) (dw_meanwhile w (dw_tick w)) (dw_server w)"
  by (simp_all add: tick_def)

lemma tick_keeps: "worldKeeps env w (tick env w)"
  by (rule worldKeeps_moves) (simp_all add: meanwhile_moves)

text \<open>The handler of a request as one more activity at the server.\<close>

lemma serveEvent_perform:
  "snd (serveEvent env e ship w) = perform env (AnyPost (dw_serverClock w (dw_tick w)) (dw_session w) ship (asBody e)) (dw_server w)"
  by (simp add: serveEvent_def onLedger_def Let_def split: sum.split prod.split)

lemma serveEvidence_perform:
  "snd (serveEvidence env d ship w) =
     perform env (AnyUpload (dw_serverClock w (dw_tick w)) (dw_session w) (uploadRequest d ship)) (dw_server w)"
  by (simp add: serveEvidence_def split: sum.split prod.split)

lemma exchange_moves:
  assumes "\<And>v. serverMoves env (dw_session v) (dw_server v) (snd (handler v))"
  shows "worldKeeps env w (snd (exchange env handler w))"
proof -
  have "worldKeeps env (tick env w) (tick env w \<lparr> dw_server := snd (handler (tick env w)) \<rparr>)"
    using assms[of "tick env w"] by (intro worldKeeps_moves) simp_all
  moreover have "worldKeeps env (tick env w) (tick env w \<lparr> dw_server := dw_server (tick env w) \<rparr>)"
    by (intro worldKeeps_moves) simp_all
  ultimately show ?thesis
    using serverKeeps_trans[OF tick_keeps] tick_keeps[of env w]
    by (auto simp: exchange_def Let_def split: network.split prod.split)
qed

lemma transport_moves:
  assumes "\<And>ship v. serverMoves env (dw_session v) (dw_server v) (snd (handler ship v))"
  shows "worldKeeps env w (snd (transport env sid handler w))"
  using exchange_moves[of env "handler ship" w for ship] assms tick_keeps[of env w]
  by (auto simp: transport_def split: option.split)

text \<open>A 2xx answer that arrived was given by the handler.\<close>

lemma ack_range: "classifyStatus status = Ack \<longleftrightarrow> 200 \<le> status \<and> status < 300"
  by (simp add: classifyStatus_def)

lemma exchange_lost: "dw_network w (dw_tick w) \<noteq> Delivered \<Longrightarrow> fst (exchange env handler w) = 0"
  by (cases "dw_network w (dw_tick w)") (simp_all add: exchange_def Let_def split: prod.split)

lemma exchange_delivered:
  "dw_network w (dw_tick w) = Delivered \<Longrightarrow> exchange env handler w =
     (let (status, sv) = (if dw_tokens w (dw_tick w) = BadToken then (401, dw_server (tick env w)) else handler (tick env w)) in
      (status, tick env w \<lparr> dw_server := sv \<rparr>))"
  by (simp add: exchange_def Let_def)

lemma exchange_acked:
  assumes "exchange env handler w = (status, w')" "classifyStatus status = Ack"
  obtains sv where "handler (tick env w) = (status, sv)" "w' = tick env w \<lparr> dw_server := sv \<rparr>"
proof -
  have "dw_network w (dw_tick w) = Delivered"
    using exchange_lost[of w env handler] assms by (force simp: ack_range)
  then show ?thesis
    using assms that by (auto simp: exchange_delivered ack_range split: if_splits prod.splits)
qed

lemma transport_acked:
  assumes "transport env sid handler w = (status, w')" "classifyStatus status = Ack"
  obtains ship sv where "sid = Some ship" "handler ship (tick env w) = (status, sv)" "w' = tick env w \<lparr> dw_server := sv \<rparr>"
proof (cases sid)
  case None
  then show ?thesis
    using assms by (auto simp: transport_def ack_range split: if_splits)
next
  case (Some ship)
  then have "exchange env (handler ship) w = (status, w')"
    using assms by (auto simp: transport_def ack_range split: if_splits)
  then show ?thesis
    using exchange_acked[OF _ assms(2)] Some that by metis
qed

lemma serverFits_tick: "worldFits env w \<Longrightarrow> serverFits env (dw_server (tick env w))"
  using meanwhile_moves[of env "dw_session w" "dw_server w"] by (simp add: worldFits_def serverMoves_def)

lemma event_acknowledged:
  assumes "worldFits env w" "sendEvent (devicePorts env) e w = (status, w')" "classifyStatus status = Ack"
  shows "worldHas w' e"
proof -
  have "transport env (in_shipment_id e) (serveEvent env e) w = (status, w')"
    using assms(2) by (simp add: devicePorts_def transportEvent_def)
  then obtain ship sv where run: "in_shipment_id e = Some ship" "serveEvent env e ship (tick env w) = (status, sv)"
    "w' = tick env w \<lparr> dw_server := sv \<rparr>"
    using assms(3) by (rule transport_acked)
  define v where "v = tick env w"
  have reach: "reachable env (sv_ledger (dw_server v))"
    using serverFits_tick[OF assms(1)] by (simp add: serverFits_def v_def)
  obtain r S' where post: "postEvent env (dw_serverClock v (dw_tick v)) (dw_session v) ship (asBody e) (sv_ledger (dw_server v)) = (r, S')"
    by (cases "postEvent env (dw_serverClock v (dw_tick v)) (dw_session v) ship (asBody e) (sv_ledger (dw_server v))")
  show ?thesis
  proof (cases r)
    case (Inl err)
    then have "ae_status err \<in> {400, 401, 403, 500}" "status = ae_status err"
      using post_refusals[OF reach, of _ _ ship "asBody e"] post run(2) by (auto simp: serveEvent_def v_def[symmetric] Let_def)
    then show ?thesis
      using assms(3) by (auto simp: classifyStatus_def)
  next
    case (Inr rsp)
    then have "answered S' (ss_tenant (dw_session v)) (''s:'' @ ship) e" "sv_ledger sv = S'"
      using post_answers[OF reach post[unfolded Inr asBody_def]] post run(2)
      by (auto simp: serveEvent_def v_def[symmetric] Let_def)
    then show ?thesis
      using run by (auto simp: worldHas_def inLedger_def v_def)
  qed
qed

lemma evidence_acknowledged:
  assumes "worldFits env w" "sendEvidence (devicePorts env) d e w = (status, w')" "classifyStatus status = Ack"
  shows "worldHolds w' d e"
proof -
  have "transport env (in_shipment_id e) (serveEvidence env d) w = (status, w')"
    using assms(2) by (simp add: devicePorts_def transportEvidence_def)
  then obtain ship sv where run: "in_shipment_id e = Some ship" "serveEvidence env d ship (tick env w) = (status, sv)"
    "w' = tick env w \<lparr> dw_server := sv \<rparr>"
    using assms(3) by (rule transport_acked)
  define v where "v = tick env w"
  have fits: "serverFits env (dw_server v)"
    using serverFits_tick[OF assms(1)] by (simp add: v_def)
  define r where "r = uploadRequest d ship"
  have fields: "ur_shipment_id r = Some ship" "ur_photo_hash r = Some (du_hash d)"
    by (simp_all add: r_def uploadRequest_def)
  obtain res sv' where post: "postEvidence (sha256 env) (dw_serverClock v (dw_tick v)) (dw_session v) r (dw_server v) = (res, sv')"
    by (cases "postEvidence (sha256 env) (dw_serverClock v (dw_tick v)) (dw_session v) r (dw_server v)")
  show ?thesis
  proof (cases res)
    case (Inl err)
    then have "statusOf err \<in> {400, 403, 404, 413, 422}" "status = statusOf err"
      using refused_upload[of "sha256 env" _ _ r "dw_server v" err sv'] post run(2)
      by (auto simp: serveEvidence_def v_def[symmetric] r_def[symmetric] Let_def)
    then show ?thesis
      using assms(3) by (auto simp: classifyStatus_def)
  next
    case (Inr st)
    obtain x where "verifyUpload (sha256 env) (dw_server v) (dw_session v) r = Inr x"
      using post Inr by (auto simp: postEvidence_def split: sum.splits)
    then have "slug (ss_tenant (dw_session v))"
      using fits verifyUpload_Inr by (metis prod_cases3 serverFits_def)
    with postEvidence_stored[of "sha256 env" "dw_server v" "dw_session v" _ r st sv'] post Inr fits
    obtain x where "x \<in> set (sv_docs sv' (ss_tenant (dw_session v)))" "ed_id x = evidenceDocId ship (du_hash d)"
      by (auto simp: serverFits_def fields)
    then have "evidenceDocId ship (du_hash d) \<in> rowIds sv' (ss_tenant (dw_session v))"
      by (metis imageI rowIds_def)
    moreover have "sv = sv'"
      using run(2) post Inr by (auto simp: serveEvidence_def v_def[symmetric] r_def[symmetric] Let_def)
    ultimately show ?thesis
      using run by (auto simp: worldHolds_def inStore_def v_def)
  qed
qed

interpretation driver_server: device_server "devicePorts env" "worldFits env" worldHas worldHolds for env
proof unfold_locales
  show "worldKeeps env w (snd (sendEvent (devicePorts env) e w))" for w e
    unfolding devicePorts_def transportEvent_def
    by simp (rule transport_moves, simp only: serveEvent_perform perform_moves)
  show "worldKeeps env w (snd (sendEvidence (devicePorts env) d e w))" for w d e
    unfolding devicePorts_def transportEvidence_def
    by simp (rule transport_moves, simp only: serveEvidence_perform perform_moves)
  show "worldKeeps env w (snd (clock (devicePorts env) w))" "worldKeeps env w (snd (draw (devicePorts env) w))" for w
    by (simp_all add: devicePorts_def tick_keeps)
qed (fact event_acknowledged evidence_acknowledged)+

end
