(* ===== verification/CaptureLaws.thy ===== *)
theory CaptureLaws
  imports Driver
begin

text \<open>
  The laws of signed capture (a captured event is a valid input whose signature the sequencer's check
  accepts, a refused capture leaves the counter alone) and of the client-side merge.
\<close>

section \<open>Capture\<close>

lemma clientView_ignores_sig:
  "clientView (stored (assemble (i \<lparr> in_sig := x \<rparr>) [] None 0 [] 0 Internal)) =
   clientView (stored (assemble i [] None 0 [] 0 Internal))"
  by (simp add: clientView_def stored_def assemble_def)

lemma signInput_Inr:
  "signInput sign i = Inr e \<longleftrightarrow> (\<exists>bs. canonicalBytes (clientView (stored (assemble i [] None 0 [] 0 Internal))) = Inr bs \<and>
     e = i \<lparr> in_sig := Some (sign bs) \<rparr>)"
  by (auto simp: signInput_def)

lemma signed_verifies:
  assumes "signInput sign i = Inr e" "\<And>bs. verify k (sign bs) bs = Some True"
    "\<And>bs. sign bs \<noteq> [] \<and> list_all b64url (sign bs)"
  shows "inputSigOk verify (Some k) e"
proof -
  obtain bs where bs: "canonicalBytes (clientView (stored (assemble i [] None 0 [] 0 Internal))) = Inr bs"
    "e = i \<lparr> in_sig := Some (sign bs) \<rparr>"
    using assms(1) by (auto simp: signInput_Inr)
  have "sig (stored (assemble e [] None 0 [] 0 Internal)) = Some (sign bs)"
    by (simp add: bs(2) stored_def assemble_def)
  moreover have "canonicalBytes (clientView (stored (assemble e [] None 0 [] 0 Internal))) = Inr bs"
    using bs by (simp only: clientView_ignores_sig)
  ultimately have "verifyEventSig (verify k) (stored (assemble e [] None 0 [] 0 Internal))"
    using assms(2)[of bs] assms(3)[of bs] by (simp add: verifyEventSig_def)
  then show ?thesis
    by (simp add: inputSigOk_def)
qed

text \<open>What \<open>capture\<close> signs: the parsed candidate with the device fields.\<close>

definition hashedPayload :: "(bytes \<Rightarrow> bytes) \<Rightarrow> capture_params \<Rightarrow> (payload \<times> deferred_upload option) option" where
  "hashedPayload sha p =
     (case cp_evidence p of
        None \<Rightarrow> Some (cp_payload p, None)
      | Some (bs, f) \<Rightarrow>
          map_option (\<lambda>pl. (pl, Some \<lparr> du_hash = sha256Hex sha bs, du_bytes = bs, du_field = f \<rparr>))
            (withHash f (sha256Hex sha bs) (cp_payload p)))"

lemma capture_Inr:
  assumes "capture isUuid sha newId p dx c = (Inr (e, d), c1)"
  obtains pl n where "hashedPayload sha p = Some (pl, d)" "EventInput_ok isUuid (candidateOf p dx newId pl)"
    "nextSeq c = Inr (n, c1)"
    "signInput (dx_sign dx) (candidateOf p dx newId pl \<lparr> in_device_id := Some (dx_device_id dx), in_device_seq := Some n \<rparr>) = Inr e"
  using assms that
  by (auto simp: capture_def hashedPayload_def Let_def split: option.splits sum.splits if_splits prod.splits)

lemma capture_Inl:
  "capture isUuid sha newId p dx c = (Inl err, c1) \<Longrightarrow> c1 = c \<or> (\<exists>x. err = CaptureUnsignable x)"
  by (auto simp: capture_def Let_def split: option.splits sum.splits if_splits prod.splits)

lemma nextSeq_value: "nextSeq c = Inr (n, c1) \<Longrightarrow> n = sc_next c \<and> sc_next c1 = n + 1 \<and> n < sc_ceiling c"
  by (auto simp: nextSeq_def Let_def split: if_splits)

lemma candidate_signed_ok:
  assumes "EventInput_ok isUuid (candidateOf p dx newId pl)" "safe n"
  shows "EventInput_ok isUuid (candidateOf p dx newId pl
    \<lparr> in_device_id := Some (dx_device_id dx), in_device_seq := Some n, in_sig := Some s \<rparr>)"
  using assms by (auto simp: EventInput_ok_def envelope_ok_def candidateOf_def superRefine_def optional_def split: if_splits)

theorem captured_event_is_accepted_by_the_signature_check:
  assumes "capture isUuid sha newId p dx c = (Inr (e, d), c1)" "0 \<le> sc_next c" "sc_ceiling c \<le> MAX_SAFE"
    and "\<And>bs. verify k (dx_sign dx bs) bs = Some True" "\<And>bs. dx_sign dx bs \<noteq> [] \<and> list_all b64url (dx_sign dx bs)"
  shows "EventInput_ok isUuid e \<and> inputSigOk verify (Some k) e \<and>
    in_device_id e = Some (dx_device_id dx) \<and> act_device (in_actor e) = Some (dx_device_id dx) \<and>
    in_device_seq e = Some (sc_next c) \<and> sc_next c1 = sc_next c + 1 \<and>
    (case d of None \<Rightarrow> cp_evidence p = None
     | Some u \<Rightarrow> cp_evidence p = Some (du_bytes u, du_field u) \<and> du_hash u = sha256Hex sha (du_bytes u) \<and>
         withHash (du_field u) (du_hash u) (cp_payload p) = Some (in_payload e))"
proof -
  obtain pl n where run: "hashedPayload sha p = Some (pl, d)" "EventInput_ok isUuid (candidateOf p dx newId pl)"
    "nextSeq c = Inr (n, c1)"
    "signInput (dx_sign dx) (candidateOf p dx newId pl \<lparr> in_device_id := Some (dx_device_id dx), in_device_seq := Some n \<rparr>) = Inr e"
    by (rule capture_Inr[OF assms(1)])
  note seq_n = nextSeq_value[OF run(3)]
  obtain bs where e: "e = candidateOf p dx newId pl
      \<lparr> in_device_id := Some (dx_device_id dx), in_device_seq := Some n, in_sig := Some (dx_sign dx bs) \<rparr>"
    using run(4) by (auto simp: signInput_Inr)
  have "safe n"
    using seq_n assms(2,3) by (auto simp: safe_def)
  then have "EventInput_ok isUuid e"
    unfolding e by (rule candidate_signed_ok[OF run(2)])
  moreover have "inputSigOk verify (Some k) e"
    by (rule signed_verifies[OF run(4)]) (use assms(4,5) in auto)
  moreover have "in_device_id e = Some (dx_device_id dx)" "act_device (in_actor e) = Some (dx_device_id dx)"
    "in_device_seq e = Some n" "in_payload e = pl"
    by (simp_all add: e candidateOf_def)
  moreover have "case d of None \<Rightarrow> cp_evidence p = None
     | Some u \<Rightarrow> cp_evidence p = Some (du_bytes u, du_field u) \<and> du_hash u = sha256Hex sha (du_bytes u) \<and>
         withHash (du_field u) (du_hash u) (cp_payload p) = Some pl"
    using run(1) by (auto simp: hashedPayload_def split: option.splits)
  ultimately show ?thesis
    using seq_n by auto
qed

text \<open>A capture refused by the schema or by the counter burns no number and leaves the queue alone.\<close>

theorem refused_capture_leaves_no_trace:
  "captureAndEnqueue isUuid sha newId p dx c s = (Inl err, c1, s1) \<Longrightarrow>
     s1 = s \<and> (err \<in> {CaptureInvalid, CaptureExhausted} \<longrightarrow> c1 = c)"
  by (auto simp: captureAndEnqueue_def dest!: capture_Inl split: prod.splits sum.splits)

section \<open>The merge\<close>

fun claims :: "payload event_input list \<Rightarrow> (string option \<times> string \<times> int) list" where
  "claims [] = []"
| "claims (e # es) = (case seqKey e of None \<Rightarrow> claims es | Some k \<Rightarrow> k # claims es)"

lemma set_claims: "set (claims es) = {k. \<exists>e \<in> set es. seqKey e = Some k}"
  by (induction es) (auto split: option.splits)

lemma mset_claims: "mset (claims es) = image_mset (\<lambda>e. the (seqKey e)) (filter_mset (\<lambda>e. seqKey e \<noteq> None) (mset es))"
  by (induction es) (auto split: option.splits)

lemma keepFirst_keys: "distinct (claims (keepFirst seen es)) \<and> set (claims (keepFirst seen es)) \<inter> set seen = {}"
proof (induction es arbitrary: seen)
  case (Cons e es)
  show ?case
  proof (cases "seqKey e")
    case None
    then show ?thesis
      using Cons[of seen] by simp
  next
    case (Some k)
    then show ?thesis
      using Cons[of seen] Cons[of "k # seen"] by simp
  qed
qed simp

lemma keepFirst_sub: "x \<in> set (keepFirst seen es) \<Longrightarrow> x \<in> set es"
  by (induction seen es rule: keepFirst.induct) (auto split: option.splits if_splits)

text \<open>First wins: what survives under a key is the first event that claims it.\<close>

lemma keepFirst_first:
  "k \<notin> set seen \<Longrightarrow> find (\<lambda>e. seqKey e = Some k) (keepFirst seen es) = find (\<lambda>e. seqKey e = Some k) es"
  by (induction es arbitrary: seen) (auto split: option.splits)

lemma keepFirst_None: "filter (\<lambda>e. seqKey e = None) (keepFirst seen es) = filter (\<lambda>e. seqKey e = None) es"
  by (induction es arbitrary: seen) (auto split: option.splits)

definition agreeing :: "payload event_input list \<Rightarrow> bool" where
  "agreeing es \<longleftrightarrow> inj_on seqKey {e \<in> set es. seqKey e \<noteq> None}"

lemma keepFirst_set:
  assumes "agreeing es"
  shows "set (keepFirst [] es) = set es"
proof -
  have "e \<in> set (keepFirst seen es)" if "agreeing es" "e \<in> set es" "\<forall>k. seqKey e = Some k \<longrightarrow> k \<notin> set seen" for seen e and es
    using that
  proof (induction es arbitrary: seen)
    case (Cons a es)
    have "agreeing es"
      using Cons.prems(1) unfolding agreeing_def by (rule inj_on_subset) auto
    show ?case
    proof (cases "e = a")
      case True
      then show ?thesis
        using Cons.prems(3) by (auto split: option.splits)
    next
      case False
      have "seqKey e = None \<or> seqKey e \<noteq> seqKey a"
      proof (rule disjCI)
        assume "\<not> seqKey e \<noteq> seqKey a"
        then have some: "seqKey e = seqKey a"
          by simp
        show "seqKey e = None"
        proof (rule ccontr)
          assume "seqKey e \<noteq> None"
          with some have "e = a"
            by (intro inj_onD[OF Cons.prems(1)[unfolded agreeing_def]]) (use Cons.prems(2) in simp_all)
          with False show False
            by simp
        qed
      qed
      then show ?thesis
        using Cons.IH[OF \<open>agreeing es\<close>, of seen] Cons.IH[OF \<open>agreeing es\<close>, of "the (seqKey a) # seen"]
          Cons.prems(2,3) False
        by (cases "seqKey a") auto
    qed
  qed simp
  then show ?thesis
    using keepFirst_sub assms by force
qed

lemma keepFirst_count:
  "count (mset (keepFirst [] es)) e =
     (case seqKey e of None \<Rightarrow> count (mset es) e | Some _ \<Rightarrow> if e \<in> set (keepFirst [] es) then 1 else 0)"
proof (cases "seqKey e")
  case None
  have *: "count (mset xs) e = count (mset (filter (\<lambda>e. seqKey e = None) xs)) e" for xs
    using None by (induction xs) auto
  show ?thesis
    using None *[of es] *[of "keepFirst [] es"] by (simp add: keepFirst_None)
next
  case (Some k)
  have "distinct (claims xs) \<Longrightarrow> e \<in> set xs \<Longrightarrow> count (mset xs) e = 1" for xs
  proof (induction xs)
    case (Cons x xs)
    have "e \<notin> set xs" if "x = e"
      using Cons.prems(1) Some that by (auto simp: set_claims)
    then show ?case
      using Cons by (auto split: option.splits)
  qed simp
  then show ?thesis
    using Some keepFirst_keys[of "[]" es] by (auto simp: count_eq_zero_iff)
qed

lemma keepFirst_mset:
  assumes "mset es = mset es'" "agreeing es"
  shows "mset (keepFirst [] es) = mset (keepFirst [] es')"
proof -
  have "set es = set es'"
    using assms(1) by (rule mset_eq_setD)
  moreover have "agreeing es'"
    using assms(2) calculation by (simp add: agreeing_def)
  ultimately show ?thesis
    using assms keepFirst_set[of es] keepFirst_set[of es']
    by (intro multiset_eqI) (simp add: keepFirst_count split: option.splits)
qed

text \<open>C38: The merge is one sequence for every interleaving of the same captures: each surviving event once per key, in the
  total order.\<close>

theorem merge_ignores_the_interleaving:
  assumes "mset es = mset es'" "agreeing es" "inj_on in_id (set es)"
  shows "mergeByDeviceSeq es = mergeByDeviceSeq es' \<and> sorted (map mergeOrder (mergeByDeviceSeq es)) \<and>
    set (mergeByDeviceSeq es) = set es \<and> distinct (claims (mergeByDeviceSeq es))"
proof -
  have "inj_on mergeOrder (set es)"
    using assms(3) by (auto simp: inj_on_def mergeOrder_def)
  then have "inj_on mergeOrder (set (keepFirst [] es))"
    using keepFirst_sub by (meson inj_on_subset subsetI)
  then have "mergeByDeviceSeq es = mergeByDeviceSeq es'"
    unfolding mergeByDeviceSeq_def
    by (intro sort_key_inj_key_eq) (use keepFirst_mset[OF assms(1,2)] in auto)
  moreover have "distinct (claims (mergeByDeviceSeq es))"
  proof -
    have "mset (claims (mergeByDeviceSeq es)) = mset (claims (keepFirst [] es))"
      by (simp add: mset_claims mergeByDeviceSeq_def)
    then show ?thesis
      using keepFirst_keys[of "[]" es] mset_eq_imp_distinct_iff by blast
  qed
  moreover have "set (mergeByDeviceSeq es) = set es" "sorted (map mergeOrder (mergeByDeviceSeq es))"
    using keepFirst_set[OF assms(2)] by (simp_all add: mergeByDeviceSeq_def)
  ultimately show ?thesis
    by blast
qed

text \<open>First wins whatever the order of the rest, so two different events under one key make the result depend on the
  interleaving.\<close>

definition conflictA :: "payload event_input" where
  "conflictA = \<lparr> in_id = ''a'', in_shipment_id = Some ''S'', in_ts = 1, in_actor = \<lparr> act_party = ''p'', act_user = None, act_device = Some ''d'' \<rparr>,
     in_party_refs = [], in_evidence = [], in_sig = Some ''x'', in_source = Native, in_confidence = 10000,
     in_device_id = Some ''d'', in_device_seq = Some 0, in_captured_ts = Some 1, requested_visibility = None,
     in_override = None, in_kind = FreightCounted, in_payload = FreightCountedP 3 None \<rparr>"

definition conflictB :: "payload event_input" where
  "conflictB = conflictA \<lparr> in_id := ''b'', in_payload := FreightCountedP 4 None \<rparr>"

theorem merge_ignores_the_interleaving_witness:
  "mergeByDeviceSeq [conflictB \<lparr> in_device_seq := Some 1 \<rparr>, conflictA, conflictA] =
   mergeByDeviceSeq [conflictA, conflictB \<lparr> in_device_seq := Some 1 \<rparr>, conflictA]"
proof -
  let ?late = "conflictB \<lparr> in_device_seq := Some 1 \<rparr>"
  have "agreeing [?late, conflictA, conflictA]"
    by (auto simp: agreeing_def inj_on_def seqKey_def conflictA_def conflictB_def)
  moreover have "inj_on in_id (set [?late, conflictA, conflictA])"
    by (simp add: conflictA_def conflictB_def)
  ultimately show ?thesis
    using merge_ignores_the_interleaving[of "[?late, conflictA, conflictA]" "[conflictA, ?late, conflictA]"] by simp
qed

theorem merge_depends_on_the_order_of_conflicting_claims:
  "mset [conflictA, conflictB] = mset [conflictB, conflictA] \<and>
   mergeByDeviceSeq [conflictA, conflictB] = [conflictA] \<and> mergeByDeviceSeq [conflictB, conflictA] = [conflictB] \<and>
   conflictA \<noteq> conflictB"
  by (simp add: mergeByDeviceSeq_def seqKey_def conflictA_def conflictB_def)

end
