(* ===== verification/DriverLaws.thy ===== *)
theory DriverLaws
  imports Driver
begin

text \<open>
  The laws of the driver's device: the counter of device sequence numbers as a state machine over
  tabs, crashes and failing writes; the offline queue; the synchronization engine against the contract
  of a server (the locale \<open>device_server\<close>); the client-side merge.
\<close>

section \<open>The counter as a state machine\<close>

text \<open>
  \<open>sq_persisted\<close> is the ceiling in the IndexedDB store, \<open>sq_minted\<close> the numbers handed out so far,
  oldest first. A tab is a live \<open>DurableSeq\<close>; its flag says that the write of its refill has
  committed and the promise has not been settled yet, which is when a crash can separate the two.
\<close>

record seq_system =
  sq_persisted :: int
  sq_tabs :: "(seq_counter \<times> bool) list"
  sq_minted :: "int list"

definition freshInstall :: seq_system where
  "freshInstall = \<lparr> sq_persisted = 0, sq_tabs = [], sq_minted = [] \<rparr>"

text \<open>\<open>multi\<close>: whether a tab may open while another one is live.\<close>

inductive seq_step :: "bool \<Rightarrow> seq_system \<Rightarrow> seq_system \<Rightarrow> bool" for multi where
  Open: "multi \<or> sq_tabs s = [] \<Longrightarrow> openCounter (sq_persisted s) = (c, p) \<Longrightarrow>
    seq_step multi s (s \<lparr> sq_persisted := p, sq_tabs := sq_tabs s @ [(c, False)] \<rparr>)"
| Mint: "i < length (sq_tabs s) \<Longrightarrow> sq_tabs s ! i = (c, b) \<Longrightarrow> nextSeq c = Inr (n, c1) \<Longrightarrow>
    seq_step multi s (s \<lparr> sq_tabs := (sq_tabs s)[i := (c1, b)], sq_minted := sq_minted s @ [n] \<rparr>)"
| Commit: "i < length (sq_tabs s) \<Longrightarrow> sq_tabs s ! i = (c, False) \<Longrightarrow> sc_refilling c \<Longrightarrow>
    seq_step multi s (s \<lparr> sq_persisted := reserveCeiling c, sq_tabs := (sq_tabs s)[i := (c, True)] \<rparr>)"
| Resolve: "i < length (sq_tabs s) \<Longrightarrow> sq_tabs s ! i = (c, True) \<Longrightarrow>
    seq_step multi s (s \<lparr> sq_tabs := (sq_tabs s)[i := (reserved c, False)] \<rparr>)"
| Fail: "i < length (sq_tabs s) \<Longrightarrow> sq_tabs s ! i = (c, False) \<Longrightarrow> sc_refilling c \<Longrightarrow>
    seq_step multi s (s \<lparr> sq_tabs := (sq_tabs s)[i := (reserveFailed c, False)] \<rparr>)"
| Crash: "i < length (sq_tabs s) \<Longrightarrow>
    seq_step multi s (s \<lparr> sq_tabs := take i (sq_tabs s) @ drop (Suc i) (sq_tabs s) \<rparr>)"

inductive seq_reachable :: "bool \<Rightarrow> seq_system \<Rightarrow> bool" for multi where
  Start: "seq_reachable multi freshInstall"
| Step: "seq_reachable multi s \<Longrightarrow> seq_step multi s s' \<Longrightarrow> seq_reachable multi s'"

inductive_cases seq_stepE: "seq_step multi s s'"

lemma nextSeq_Inr:
  "nextSeq c = Inr (n, c1) \<longleftrightarrow> n = sc_next c \<and> sc_next c < sc_ceiling c \<and>
     c1 = c \<lparr> sc_next := n + 1, sc_refilling := sc_refilling c \<or> sc_ceiling c - (n + 1) \<le> REFILL_AT \<rparr>"
  by (auto simp: nextSeq_def Let_def)

definition tab_ok :: "int \<Rightarrow> int list \<Rightarrow> seq_counter \<times> bool \<Rightarrow> bool" where
  "tab_ok persisted minted t \<longleftrightarrow>
     (\<forall>n \<in> set minted. n < sc_next (fst t)) \<and> sc_next (fst t) \<le> sc_ceiling (fst t) \<and>
     sc_ceiling (fst t) \<le> persisted \<and> (snd t \<longrightarrow> persisted = reserveCeiling (fst t))"

definition seq_inv :: "seq_system \<Rightarrow> bool" where
  "seq_inv s \<longleftrightarrow> sorted_wrt (<) (sq_minted s) \<and> (\<forall>n \<in> set (sq_minted s). n < sq_persisted s) \<and>
     length (sq_tabs s) \<le> 1 \<and> (\<forall>t \<in> set (sq_tabs s). tab_ok (sq_persisted s) (sq_minted s) t)"

lemma one_tab: "length xs \<le> 1 \<Longrightarrow> i < length xs \<Longrightarrow> xs = [xs ! i] \<and> i = 0"
  by (cases xs) auto

lemma seq_inv_step: "seq_step False s s' \<Longrightarrow> seq_inv s \<Longrightarrow> seq_inv s'"
proof (induction rule: seq_step.induct)
  case (Open s c p)
  then show ?case
    by (auto simp: seq_inv_def openCounter_def tab_ok_def BLOCK_def intro: less_le_trans)
next
  case (Mint i s c b n c1)
  then have "sq_tabs s = [(c, b)]" "i = 0"
    using one_tab[of "sq_tabs s" i] by (auto simp: seq_inv_def)
  with Mint show ?case
    by (auto simp: seq_inv_def tab_ok_def nextSeq_Inr sorted_wrt_append reserveCeiling_def)
next
  case (Commit i s c)
  then have "sq_tabs s = [(c, False)]" "i = 0"
    using one_tab[of "sq_tabs s" i] by (auto simp: seq_inv_def)
  with Commit show ?case
    by (auto simp: seq_inv_def tab_ok_def reserveCeiling_def BLOCK_def)
next
  case (Resolve i s c)
  then have "sq_tabs s = [(c, True)]" "i = 0"
    using one_tab[of "sq_tabs s" i] by (auto simp: seq_inv_def)
  with Resolve show ?case
    by (auto simp: seq_inv_def tab_ok_def reserved_def reserveCeiling_def BLOCK_def)
next
  case (Fail i s c)
  then have "sq_tabs s = [(c, False)]" "i = 0"
    using one_tab[of "sq_tabs s" i] by (auto simp: seq_inv_def)
  with Fail show ?case
    by (auto simp: seq_inv_def tab_ok_def reserveFailed_def)
next
  case (Crash i s)
  then have "i = 0" "length (sq_tabs s) = 1"
    using one_tab[of "sq_tabs s" i] by (auto simp: seq_inv_def)
  with Crash show ?case
    by (auto simp: seq_inv_def)
qed

lemma seq_inv_reachable: "seq_reachable False s \<Longrightarrow> seq_inv s"
proof (induction rule: seq_reachable.induct)
  case Start
  then show ?case
    by (simp add: seq_inv_def freshInstall_def)
qed (rule seq_inv_step)

text \<open>C26: With one live tab at a time the numbers handed out increase strictly, across every interleaving of refills,
  failed writes, crashes and restarts, and each was covered by a ceiling already on the disk.\<close>

theorem device_numbers_never_reused:
  assumes "seq_reachable False s"
  shows "sorted_wrt (<) (sq_minted s) \<and> (\<forall>n \<in> set (sq_minted s). n < sq_persisted s)"
  using seq_inv_reachable[OF assms] by (auto simp: seq_inv_def)

text \<open>A run: a first tab mints 0, is killed, and its successor mints 1024.\<close>

definition oneTabRun :: seq_system where
  "oneTabRun = \<lparr> sq_persisted = 2048, sq_tabs = [(\<lparr> sc_next = 1025, sc_ceiling = 2048, sc_refilling = False \<rparr>, False)],
     sq_minted = [0, 1024] \<rparr>"

lemma openTab: "seq_reachable multi s \<Longrightarrow> multi \<or> sq_tabs s = [] \<Longrightarrow>
  seq_reachable multi (s \<lparr> sq_persisted := sq_persisted s + BLOCK,
    sq_tabs := sq_tabs s @ [(\<lparr> sc_next = sq_persisted s, sc_ceiling = sq_persisted s + BLOCK, sc_refilling = False \<rparr>, False)] \<rparr>)"
  by (erule seq_reachable.Step, rule seq_step.Open) (auto simp: openCounter_def)

lemma mintTab: "seq_reachable multi s \<Longrightarrow> i < length (sq_tabs s) \<Longrightarrow> sq_tabs s ! i = (c, b) \<Longrightarrow> sc_next c < sc_ceiling c \<Longrightarrow>
  seq_reachable multi (s \<lparr>
    sq_tabs := (sq_tabs s)[i := (c \<lparr> sc_next := sc_next c + 1,
      sc_refilling := sc_refilling c \<or> sc_ceiling c - (sc_next c + 1) \<le> REFILL_AT \<rparr>, b)],
    sq_minted := sq_minted s @ [sc_next c] \<rparr>)"
  by (erule seq_reachable.Step, rule seq_step.Mint) (auto simp: nextSeq_Inr)

lemma crashTab: "seq_reachable multi s \<Longrightarrow> i < length (sq_tabs s) \<Longrightarrow>
  seq_reachable multi (s \<lparr> sq_tabs := take i (sq_tabs s) @ drop (Suc i) (sq_tabs s) \<rparr>)"
  by (erule seq_reachable.Step, rule seq_step.Crash)

lemmas counter_run = freshInstall_def BLOCK_def REFILL_AT_def

abbreviation counter_at :: "int \<Rightarrow> int \<Rightarrow> bool \<Rightarrow> seq_counter" where
  "counter_at n upto_n r \<equiv> \<lparr> sc_next = n, sc_ceiling = upto_n, sc_refilling = r \<rparr>"

abbreviation system_at :: "int \<Rightarrow> (seq_counter \<times> bool) list \<Rightarrow> int list \<Rightarrow> seq_system" where
  "system_at p tabs minted \<equiv> \<lparr> sq_persisted = p, sq_tabs = tabs, sq_minted = minted \<rparr>"

lemma oneTabRun_reachable: "seq_reachable False oneTabRun"
proof -
  have opened: "seq_reachable False (system_at 1024 [(counter_at 0 1024 False, False)] [])"
    using openTab[OF seq_reachable.Start, of False] by (simp add: counter_run)
  have minted: "seq_reachable False (system_at 1024 [(counter_at 1 1024 False, False)] [0])"
    using mintTab[OF opened, where i=0 and b=False and c="counter_at 0 1024 False"] by (simp add: counter_run)
  have crashed: "seq_reachable False (system_at 1024 [] [0])"
    using crashTab[OF minted, of 0] by simp
  have reopened: "seq_reachable False (system_at 2048 [(counter_at 1024 2048 False, False)] [0])"
    using openTab[OF crashed] by (simp add: counter_run)
  show ?thesis
    using mintTab[OF reopened, where i=0 and b=False and c="counter_at 1024 2048 False"]
    by (simp add: counter_run oneTabRun_def)
qed

theorem device_numbers_never_reused_witness:
  "sorted_wrt (<) (sq_minted oneTabRun) \<and> sq_minted oneTabRun = [0, 1024] \<and> 1024 < sq_persisted oneTabRun"
  using device_numbers_never_reused[OF oneTabRun_reachable] by (simp add: oneTabRun_def)

section \<open>Two tabs\<close>

text \<open>With a second tab the refill of the first one reserves the block the second one already holds: \<open>reserve\<close> adds to
  the ceiling it remembers, not to the one on the disk.\<close>

definition counted :: "int \<Rightarrow> nat \<Rightarrow> int list" where
  "counted a n = map (\<lambda>k. a + int k) [0..<n]"

lemma length_counted [simp]: "length (counted a n) = n"
  by (simp add: counted_def)

lemma counted_Suc [simp]: "counted a (Suc n) = counted a n @ [a + int n]"
  by (simp add: counted_def)

lemma counted_0 [simp]: "counted a 0 = []"
  by (simp add: counted_def)

lemma mintMany:
  assumes "seq_reachable multi s" "sq_tabs s = (c, b) # others" "sc_next c + int n \<le> sc_ceiling c"
  shows "\<exists>r. seq_reachable multi (s \<lparr>
    sq_tabs := (c \<lparr> sc_next := sc_next c + int n, sc_refilling := r \<rparr>, b) # others,
    sq_minted := sq_minted s @ counted (sc_next c) n \<rparr>) \<and>
    (r \<longleftrightarrow> sc_refilling c \<or> 0 < n \<and> sc_ceiling c - (sc_next c + int n) \<le> REFILL_AT)"
  using assms(3)
proof (induction n)
  case 0
  then show ?case
    using assms(1,2) by (intro exI[of _ "sc_refilling c"]) (cases s, simp)
next
  case (Suc n)
  then obtain r where r: "seq_reachable multi (s \<lparr>
      sq_tabs := (c \<lparr> sc_next := sc_next c + int n, sc_refilling := r \<rparr>, b) # others,
      sq_minted := sq_minted s @ counted (sc_next c) n \<rparr>)"
    "r \<longleftrightarrow> sc_refilling c \<or> 0 < n \<and> sc_ceiling c - (sc_next c + int n) \<le> REFILL_AT"
    by auto
  show ?case
    using mintTab[OF r(1), where i=0] r(2) Suc.prems
    by (intro exI[of _ "r \<or> sc_ceiling c - (sc_next c + int n + 1) \<le> REFILL_AT"])
       (auto simp: algebra_simps)
qed

lemma commitTab: "seq_reachable multi s \<Longrightarrow> i < length (sq_tabs s) \<Longrightarrow> sq_tabs s ! i = (c, False) \<Longrightarrow> sc_refilling c \<Longrightarrow>
  seq_reachable multi (s \<lparr> sq_persisted := sc_ceiling c + BLOCK, sq_tabs := (sq_tabs s)[i := (c, True)] \<rparr>)"
  by (erule seq_reachable.Step) (auto dest: seq_step.Commit simp: reserveCeiling_def)

lemma resolveTab: "seq_reachable multi s \<Longrightarrow> i < length (sq_tabs s) \<Longrightarrow> sq_tabs s ! i = (c, True) \<Longrightarrow>
  seq_reachable multi (s \<lparr> sq_tabs := (sq_tabs s)[i := (reserved c, False)] \<rparr>)"
  by (erule seq_reachable.Step, rule seq_step.Resolve)

theorem two_tabs_mint_a_number_twice:
  "\<exists>s. seq_reachable True s \<and> \<not> distinct (sq_minted s) \<and> sq_persisted s < 3072 \<and>
     (\<exists>s0. seq_reachable True s0 \<and> sq_minted s0 = take 1024 (sq_minted s) \<and> sq_persisted s0 = 3072)"
proof -
  define second third where "second = (counter_at 1024 2048 False, False)" and "third = (counter_at 2048 3072 False, False)"
  have one: "seq_reachable True (system_at 1024 [(counter_at 0 1024 False, False)] [])"
    using openTab[OF seq_reachable.Start, of True] by (simp add: counter_run)
  have two: "seq_reachable True (system_at 2048 [(counter_at 0 1024 False, False), second] [])"
    using openTab[OF one] by (simp add: counter_run second_def)
  have three: "seq_reachable True (system_at 3072 [(counter_at 0 1024 False, False), second, third] [])"
    using openTab[OF two] by (simp add: counter_run third_def)
  have full: "seq_reachable True (system_at 3072 [(counter_at 1024 1024 True, False), second, third] (counted 0 1024))"
    using mintMany[OF three, where n=1024 and c="counter_at 0 1024 False" and b=False and others="[second, third]"]
    by (auto simp: counter_run)
  have "seq_reachable True (system_at 2048 [(counter_at 1024 1024 True, True), second, third] (counted 0 1024))"
    using commitTab[OF full, where i=0 and c="counter_at 1024 1024 True"] by (simp add: counter_run)
  from resolveTab[OF this, where i=0 and c="counter_at 1024 1024 True"]
  have "seq_reachable True (system_at 2048 [(counter_at 1024 2048 False, False), second, third] (counted 0 1024))"
    by (simp add: counter_run reserved_def reserveCeiling_def)
  from mintTab[OF this, where i=0 and b=False and c="counter_at 1024 2048 False"]
  have "seq_reachable True (system_at 2048 [(counter_at 1025 2048 False, False), second, third] (counted 0 1024 @ [1024]))"
    by (simp add: counter_run)
  from mintTab[OF this, where i=1 and b=False and c="counter_at 1024 2048 False"]
  have "seq_reachable True (system_at 2048 [(counter_at 1025 2048 False, False), (counter_at 1025 2048 False, False), third]
      (counted 0 1024 @ [1024, 1024]))"
    by (simp add: counter_run second_def)
  then show ?thesis
    by (rule_tac exI, intro conjI, assumption) (use full in auto)
qed

end
