(* ===== verification/DriverProps.thy ===== *)
theory DriverProps
  imports DeviceWorld CaptureLaws DriverLaws LedgerSamples
begin

text \<open>
  The properties of the driver's device, up to the ledger behind it: what a pass of the synchronization engine
  promises over a lossy network, the whole way of one capture, and the refusal that stops the queue.
\<close>

section \<open>One exchange\<close>

definition lineUp :: "'k device_world \<Rightarrow> bool" where
  "lineUp w \<longleftrightarrow> dw_tokens w (dw_tick w) = GoodToken \<and> dw_network w (dw_tick w) = Delivered"

lemma lineUp_send:
  assumes "lineUp w" "in_shipment_id e = Some ship" "ship \<noteq> []"
  shows "sendEvent (devicePorts env) e w =
    (let (status, sv) = serveEvent env e ship (tick env w) in (status, tick env w \<lparr> dw_server := sv \<rparr>))"
  using assms by (simp add: lineUp_def devicePorts_def transportEvent_def transport_def exchange_delivered)

lemma serveEvent_stored:
  assumes "admitPost (sv_ledger (dw_server v)) (dw_session v) ship (asBody e) = Inr ()" "stampInput (dw_session v) (asBody e) = e"
    "fst (append_event env (dw_serverClock v (dw_tick v)) (ss_tenant (dw_session v)) (''s:'' @ ship) e False
       (instance_at (idFromName env (ss_tenant (dw_session v) @ ''|'' @ ''s:'' @ ship)) (sv_ledger (dw_server v)))) = Inr (rec, trs)"
  shows "serveEvent env e ship v = (201, dw_server v
    \<lparr> sv_ledger := served env (dw_serverClock v (dw_tick v)) (ss_tenant (dw_session v)) (''s:'' @ ship) e (sv_ledger (dw_server v)) \<rparr>)"
  using assms postEvent_admitted[OF assms(1), of env "dw_serverClock v (dw_tick v)"] by (simp add: serveEvent_def Let_def)

lemma serveEvent_unauthorized:
  assumes "admitPost (sv_ledger (dw_server v)) (dw_session v) ship (asBody e) = Inr ()" "stampInput (dw_session v) (asBody e) = e"
    "fst (append_event env (dw_serverClock v (dw_tick v)) (ss_tenant (dw_session v)) (''s:'' @ ship) e False
       (instance_at (idFromName env (ss_tenant (dw_session v) @ ''|'' @ ''s:'' @ ship)) (sv_ledger (dw_server v)))) = Inl (Unauthorized m)"
  shows "fst (serveEvent env e ship v) = 401"
  using assms postEvent_admitted[OF assms(1), of env "dw_serverClock v (dw_tick v)"]
  by (simp add: serveEvent_def Let_def apiError_def)

section \<open>A device key the control plane does not know\<close>

lemma unknown_key_refused:
  assumes reach: "reachable env S" and inj: "inj (idFromName env)" and me: "me = idFromName env (t @ ''|'' @ st)"
    and t: "\<not> isPlatformTenant t" "STREAM_ID_RE st" "resolvable (sys_world S) t"
    and i: "EventInput_ok (uuid env) i" "in_kind i \<noteq> PositionUpdated" "in_kind i = AuthorityFlipped \<longrightarrow> st = ''t:root''"
      "in_device_id i = Some d" "act_device (in_actor i) = Some d" "findById (readDb (sys_world S) (dbOf t)) (in_id i) = None"
    and key: "registered (sys_world S) t d = None" "deviceKeys (instance_at me S) d \<in> {None, Some None}"
  shows "fst (append_event env now t st i False (instance_at me S)) = Inl (Unauthorized ''device signature'')"
proof -
  let ?now = "instance_at me S"
  let ?pinned = "?now \<lparr> pin := Some (t, st) \<rparr>"
  let ?bound = "?pinned \<lparr> dbHandle := Some (dbOf t) \<rparr>"
  have pinned: "sequencer.pin ?now \<in> {None, Some (t, st)}" "dbHandle ?now \<in> {None, Some (dbOf t)}"
    using instance_pinned[OF reachable_instance[OF reach, of me] inj, of t st] t me by simp_all
  have "fst (verifyDevice env t d i ?bound) = Inl (Unauthorized ''device signature'')"
    using key by (auto simp: verifyDevice_def deviceKey_def sbind_step inputSigOk_def)
  then have "fst (findReplay env (dbOf t) t st i ?bound) = Inl (Unauthorized ''device signature'')"
    using i by (cases "verifyDevice env t d i ?bound") (auto simp: findReplay_def sbind_step sbind_def)
  moreover have "validate env st i ?bound = (Inr (), ?bound)"
    using i by (simp add: validate_def sbind_step)
  moreover have "admit env t st ?now = (Inr (), ?pinned)"
    by (rule admit_run) (use pinned t me in simp_all)
  moreover have "resolveDb t False ?pinned = (Inr (dbOf t), ?bound)"
    by (rule resolveDb_run) (use pinned t in simp_all)
  ultimately show ?thesis
    unfolding append_event_def
    by (cases "findReplay env (dbOf t) t st i ?bound") (simp add: sbind_run, simp add: sbind_def)
qed

lemma refused_first:
  assumes "sendEvent ports (qi_event item) w = (401, w1)" "qi_sync item = None" "pending s = item # rest"
  shows "\<exists>now w2. syncOnce ports s w =
    (\<lparr> sp_synced = [], sp_authBlocked = True, sp_nextWake = None, sp_parked = 0 \<rparr>,
     storePut (atPhase EventPending 0 now (Some (AuthBlock, 401)) item) s, w2)"
proof -
  obtain now w2 where clock: "clock ports w1 = (now, w2)"
    by (cases "clock ports w1")
  have "advanceItem ports item s w = (AuthStop, atPhase EventPending 0 now (Some (AuthBlock, 401)) item,
      storePut (atPhase EventPending 0 now (Some (AuthBlock, 401)) item) s, w2)"
    using assms clock
    by (simp add: advanceItem_def phaseOf_def attemptsOf_def sendEventLeg_def applyResult_def classifyStatus_def persist_def Let_def)
  moreover have guard: "SYNC_GUARD = Suc 7"
    by (simp add: SYNC_GUARD_def)
  ultimately have "advanceLoop SYNC_GUARD ports item s w = (Some AuthStop, atPhase EventPending 0 now (Some (AuthBlock, 401)) item,
      storePut (atPhase EventPending 0 now (Some (AuthBlock, 401)) item) s, w2)"
    by (simp only: guard advanceLoop.simps) simp
  then show ?thesis
    using assms by (auto simp: syncOnce_def backingOff_def noteStep_def notePark_def parkedNow_def atPhase_def Let_def)
qed

section \<open>A device in the yard\<close>

text \<open>For the witnesses: the sample tenant with one shipment assigned to the driver, her device and its first capture.\<close>

definition yard_db :: tenant_db where
  "yard_db = sample_db \<lparr> t_shipments := [''1'' \<mapsto> \<lparr> sh_division = ''d'', sh_shipper = ''p'', sh_consignee = ''p'', sh_bill_to = ''p'',
     sh_state = None, sh_assigned_driver = Some ''u'', sh_out_for_delivery = False, sh_created_ts = 1 \<rparr>] \<rparr>"

definition yard_world :: "string set \<Rightarrow> unit world" where
  "yard_world devices = \<lparr> control = [''a'' \<mapsto> \<lparr> ct_policy = Some no_policy, ct_hazmat_enabled = False \<rparr>],
     registered = (\<lambda>_ dv. if dv \<in> devices then Some () else None), resolvable = (\<lambda>t. t = ''a''),
     customer_dbs = (\<lambda>_. yard_db), platform_db = yard_db \<rparr>"

definition yard :: "string set \<Rightarrow> unit ledger_system" where
  "yard devices = \<lparr> sys_world = yard_world devices, objects = (\<lambda>_. cold (yard_world devices)) \<rparr>"

definition yard_device :: "string set \<Rightarrow> unit device_world" where
  "yard_device devices = \<lparr> dw_server = \<lparr> sv_ledger = yard devices, sv_docs = (\<lambda>_. []), sv_bucket = Map.empty, sv_queue = [] \<rparr>,
     dw_session = \<lparr> ss_sub = ''u'', ss_tenant = ''a'', ss_role = DriverRole, ss_party_id = None \<rparr>, dw_tick = 0,
     dw_tokens = (\<lambda>_. GoodToken), dw_network = (\<lambda>_. Delivered), dw_clock = int, dw_serverClock = (\<lambda>_. 5), dw_draws = (\<lambda>_. 0),
     dw_meanwhile = (\<lambda>_. []) \<rparr>"

definition yard_params :: capture_params where
  "yard_params = \<lparr> cp_shipment_id = Some ''1'', cp_kind = FreightCounted, cp_payload = FreightCountedP 4 None,
     cp_actor_party = None, cp_actor_user = None, cp_ts = 1, cp_captured_ts = None, cp_confidence = None, cp_evidence = None \<rparr>"

definition yard_context :: device_context where
  "yard_context = \<lparr> dx_device_id = ''d'', dx_party = ''p'', dx_sign = (\<lambda>_. ''x'') \<rparr>"

definition yard_counter :: seq_counter where
  "yard_counter = \<lparr> sc_next = 0, sc_ceiling = 1024, sc_refilling = False \<rparr>"

definition yard_capture :: "payload event_input" where
  "yard_capture = candidateOf yard_params yard_context ''e9'' (FreightCountedP 4 None)
     \<lparr> in_device_id := Some ''d'', in_device_seq := Some 0, in_sig := Some ''x'' \<rparr>"

lemma yard_captured:
  "capture (uuid sample_env) toy_digest ''e9'' yard_params yard_context yard_counter =
     (Inr (yard_capture, None), yard_counter \<lparr> sc_next := 1 \<rparr>)"
  by code_simp

lemma yard_capture_ok: "EventInput_ok (uuid sample_env) yard_capture"
  by code_simp

lemma yard_hashes:
  "\<exists>h. hashEvent toy_digest (stored (event_of yard_capture ''s:1'' 0 GENESIS_HASH v)) = Inr h"
proof -
  have "\<not> isl (hashEvent toy_digest (stored (event_of yard_capture ''s:1'' 0 GENESIS_HASH Internal)))"
    "\<not> isl (hashEvent toy_digest (stored (event_of yard_capture ''s:1'' 0 GENESIS_HASH Counterparty)))"
    "\<not> isl (hashEvent toy_digest (stored (event_of yard_capture ''s:1'' 0 GENESIS_HASH Public)))"
    by code_simp+
  then have "\<not> isl (hashEvent toy_digest (stored (event_of yard_capture ''s:1'' 0 GENESIS_HASH v)))"
    by (cases v) simp_all
  then show ?thesis
    by (cases "hashEvent toy_digest (stored (event_of yard_capture ''s:1'' 0 GENESIS_HASH v))") simp_all
qed

lemma yard_db_read: "readDb (sys_world (yard devices)) r = yard_db"
  by (cases r) (simp_all add: yard_def yard_world_def readDb_def)

lemma yard_reachable: "reachable env (yard devices)"
  by (rule reachable.Start)
     (simp only: initial_def yard_db_read, simp add: yard_db_def sample_db_def yard_def cold_def slotsUnique_def)

lemma yard_fits: "worldFits env (yard_device devices)"
  by (simp add: worldFits_def serverFits_def yard_device_def yard_reachable docs_ok_def)
     (simp add: yard_def yard_world_def slug_def)

lemma yard_tick: "dw_server (tick env (yard_device devices)) = dw_server (yard_device devices)"
  "sv_ledger (dw_server (yard_device devices)) = yard devices" "dw_session (yard_device devices) = \<lparr> ss_sub = ''u'', ss_tenant = ''a'', ss_role = DriverRole, ss_party_id = None \<rparr>"
  by (simp_all add: tick_def yard_device_def)

lemma yard_admits: "admitPost (yard devices) (dw_session (yard_device devices)) ''1'' (asBody yard_capture) = Inr ()"
proof -
  have "resolveTenantDb (yard devices) ''a'' = Inr yard_db"
    using sample_customer yard_db_read[of devices "CustomerDb ''a''"]
    by (simp add: resolveTenantDb_def) (simp add: yard_def yard_world_def)
  moreover have "assignmentOf yard_db ''1'' ''u''"
    by (simp add: assignmentOf_def yard_db_def)
  moreover have "in_kind yard_capture = FreightCounted" "in_override yard_capture = None"
    by (simp_all add: yard_capture_def candidateOf_def yard_params_def)
  ultimately show ?thesis
    by (simp add: admitPost_def requireRole_def screenBody_def driverScope_def asBody_def bodyOverrides_def yard_tick
        MAX_SHIPMENT_ID_LEN_def SERVER_EMITTED_KINDS_def BLESSED_DECISION_KINDS_def CONTROL_PLANE_KINDS_def PRIVILEGED_DECISION_KINDS_def)
qed

section \<open>The properties\<close>

text \<open>C5: Whatever the network loses and whatever the other clients, the sweep and the evictions do in between, after a
  pass every capture is either still in the queue with the same event and bytes, or the ledger answers to
  its event and its document row exists; and the pass leaves the same invariant for the next one.\<close>

theorem driver_captures_reach_the_ledger:
  assumes "worldFits env w" "store_ok s" "\<forall>x \<in> set s. phaseHolds worldHas worldHolds w x"
    "syncOnce (devicePorts env) s w = (p, s', w')"
  shows "worldFits env w' \<and> store_ok s' \<and> (\<forall>y \<in> set s'. phaseHolds worldHas worldHolds w' y) \<and>
    (\<forall>x \<in> set s. (\<exists>y \<in> set s'. sameItem x y) \<or> delivered worldHas worldHolds w' x)"
  using driver_server.syncOnce_settles[OF assms(4,2,3,1)] by blast

theorem driver_captures_reach_the_ledger_witness:
  "\<exists>p s' w'. syncOnce (devicePorts sample_env) (enqueue yard_capture None []) (yard_device {''d''}) = (p, s', w') \<and>
     ((\<exists>y \<in> set s'. yard_capture = qi_event y) \<or> worldHas w' yard_capture)"
proof -
  let ?s = "enqueue yard_capture None []"
  obtain p s' w' where run: "syncOnce (devicePorts sample_env) ?s (yard_device {''d''}) = (p, s', w')"
    by (cases "syncOnce (devicePorts sample_env) ?s (yard_device {''d''})")
  have "store_ok ?s" "\<forall>x \<in> set ?s. phaseHolds worldHas worldHolds (yard_device {''d''}) x"
    by (simp_all add: enqueue_def phaseHolds_def phaseOf_def)
  from driver_captures_reach_the_ledger[OF yard_fits this run] run show ?thesis
    by (auto simp: enqueue_def sameItem_def delivered_def)
qed

text \<open>C37: A refused device key: the sequencer answers \<open>UNAUTHORIZED\<close>, the route turns it into 401, the engine takes
  it for a dead session. The pass ends at the first item, nothing else is sent, and the item is due again at once.\<close>

theorem an_unknown_device_key_blocks_the_queue:
  assumes "worldFits env w" "inj (idFromName env)" "v = tick env w" "S = sv_ledger (dw_server v)" "t = ss_tenant (dw_session w)"
    and queue: "store_ok s" "pending s = item # rest" "qi_sync item = None" "qi_event item = e"
    and line: "lineUp w" "in_shipment_id e = Some ship" "ship \<noteq> []"
    and door: "admitPost S (dw_session w) ship (asBody e) = Inr ()" "stampInput (dw_session w) (asBody e) = e"
    and t: "\<not> isPlatformTenant t" "STREAM_ID_RE (''s:'' @ ship)" "resolvable (sys_world S) t"
    and e: "EventInput_ok (uuid env) e" "in_kind e \<noteq> PositionUpdated" "in_kind e \<noteq> AuthorityFlipped"
      "in_device_id e = Some d" "act_device (in_actor e) = Some d" "findById (readDb (sys_world S) (dbOf t)) (in_id e) = None"
    and key: "registered (sys_world S) t d = None"
      "deviceKeys (instance_at (idFromName env (t @ ''|'' @ ''s:'' @ ship)) S) d \<in> {None, Some None}"
  shows "\<exists>due w2 s2. syncOnce (devicePorts env) s w =
      (\<lparr> sp_synced = [], sp_authBlocked = True, sp_nextWake = None, sp_parked = 0 \<rparr>, s2, w2) \<and>
    set s2 = insert (atPhase EventPending 0 due (Some (AuthBlock, 401)) item) (others (qi_id item) s)"
proof -
  have fits: "serverFits env (dw_server v)"
    using serverFits_tick[OF assms(1)] assms(3) by simp
  have ses: "dw_session v = dw_session w"
    by (simp add: assms(3))
  have "fst (append_event env (dw_serverClock v (dw_tick v)) t (''s:'' @ ship) e False
      (instance_at (idFromName env (t @ ''|'' @ ''s:'' @ ship)) S)) = Inl (Unauthorized ''device signature'')"
    by (rule unknown_key_refused[OF _ assms(2) refl t e(1,2) _ e(4-6) key])
       (use fits e in \<open>simp_all add: serverFits_def assms(4)\<close>)
  then have "fst (serveEvent env e ship v) = 401"
    by (intro serveEvent_unauthorized) (use door ses in \<open>simp_all add: assms(4,5)\<close>)
  then obtain sv where "serveEvent env e ship v = (401, sv)"
    by (cases "serveEvent env e ship v") simp
  then have "sendEvent (devicePorts env) (qi_event item) w = (401, v \<lparr> dw_server := sv \<rparr>)"
    by (simp add: queue lineUp_send[OF line] flip: assms(3))
  from refused_first[OF this queue(3,2)] obtain due w2 where
    "syncOnce (devicePorts env) s w = (\<lparr> sp_synced = [], sp_authBlocked = True, sp_nextWake = None, sp_parked = 0 \<rparr>,
       storePut (atPhase EventPending 0 due (Some (AuthBlock, 401)) item) s, w2)"
    by blast
  then show ?thesis
    using set_storePut[OF queue(1)] by auto
qed

theorem an_unknown_device_key_blocks_the_queue_witness:
  "\<exists>due w2 s2. syncOnce (devicePorts sample_env) (enqueue yard_capture None []) (yard_device {}) =
      (\<lparr> sp_synced = [], sp_authBlocked = True, sp_nextWake = None, sp_parked = 0 \<rparr>, s2, w2) \<and>
    set s2 = {atPhase EventPending 0 due (Some (AuthBlock, 401))
      \<lparr> qi_id = ''e9'', qi_event = yard_capture, qi_deferred = None, qi_sync = None \<rparr>}"
proof -
  define item where "item = \<lparr> qi_id = ''e9'', qi_event = yard_capture, qi_deferred = None, qi_sync = None \<rparr>"
  have e: "in_id yard_capture = ''e9''" "in_kind yard_capture = FreightCounted" "in_device_id yard_capture = Some ''d''"
    "act_device (in_actor yard_capture) = Some ''d''" "in_shipment_id yard_capture = Some ''1''"
    "stampInput x (asBody yard_capture) = yard_capture" for x
    by (simp_all add: yard_capture_def candidateOf_def yard_params_def yard_context_def stampInput_def asBody_def)
  then have s: "enqueue yard_capture None [] = [item]"
    by (simp add: enqueue_def item_def)
  have "\<exists>due w2 s2. syncOnce (devicePorts sample_env) [item] (yard_device {}) =
      (\<lparr> sp_synced = [], sp_authBlocked = True, sp_nextWake = None, sp_parked = 0 \<rparr>, s2, w2) \<and>
    set s2 = insert (atPhase EventPending 0 due (Some (AuthBlock, 401)) item) (others (qi_id item) [item])"
  proof (rule an_unknown_device_key_blocks_the_queue[where env=sample_env and e=yard_capture and ship="''1''" and rest="[]" and d="''d''",
        OF yard_fits sample_env_inj refl refl refl])
    show "admitPost (sv_ledger (dw_server (tick sample_env (yard_device {})))) (dw_session (yard_device {})) ''1'' (asBody yard_capture) = Inr ()"
      using yard_admits by (simp only: yard_tick)
    show "findById (readDb (sys_world (sv_ledger (dw_server (tick sample_env (yard_device {}))))) (dbOf (ss_tenant (dw_session (yard_device {})))))
        (in_id yard_capture) = None"
      by (simp only: yard_tick yard_db_read) (simp add: findById_def yard_db_def sample_db_def)
  qed (use e sample_customer sample_streams yard_capture_ok in
      \<open>simp_all add: yard_tick lineUp_def, simp_all add: item_def pending_def yard_device_def yard_def yard_world_def instance_at_def cold_def\<close>)
  moreover have "others (qi_id item) [item] = {}"
    by (simp add: others_def)
  ultimately show ?thesis
    by (simp only: s item_def[symmetric])
qed

text \<open>A captured event as the route stamps it: its source is native and it overrides nothing.\<close>

lemma captured_as_stamped:
  assumes "capture isUuid sha newId p dx c = (Inr (e, d), c1)"
  shows "stampInput ses (asBody e) = e" "in_id e = newId" "in_source e = Native" "in_kind e = cp_kind p"
    "in_shipment_id e = cp_shipment_id p"
  using assms by (auto elim!: capture_Inr simp: signInput_Inr candidateOf_def stampInput_def asBody_def)

lemma first_pass:
  assumes "sendEvent ports e w = (201, w1)"
  shows "syncOnce ports (enqueue e None []) w =
    (\<lparr> sp_synced = [in_id e], sp_authBlocked = False, sp_nextWake = None, sp_parked = 0 \<rparr>, [], w1)"
proof -
  define item where "item = \<lparr> qi_id = in_id e, qi_event = e, qi_deferred = None, qi_sync = None \<rparr>"
  define acked where "acked = atPhase EventAcked 0 0 None item"
  have "advanceItem ports item [item] w = (Moved, acked, [acked], w1)"
    using assms
    by (simp add: item_def acked_def advanceItem_def phaseOf_def sendEventLeg_def applyResult_def classifyStatus_def
        persist_def atPhase_def Let_def)
  moreover have "advanceItem ports acked [acked] w1 = (ItemDrained (in_id e), atPhase Drained 0 0 None acked, [], w1)"
    by (simp add: item_def acked_def advanceItem_def phaseOf_def drain_def markSynced_def storeRemove_def atPhase_def)
  moreover have guard: "SYNC_GUARD = Suc (Suc 6)"
    by (simp add: SYNC_GUARD_def)
  ultimately have "advanceLoop SYNC_GUARD ports item [item] w =
      (Some (ItemDrained (in_id e)), atPhase Drained 0 0 None acked, [], w1)"
    by (simp only: guard advanceLoop.simps prod.case sync_step.case)
  moreover have "enqueue e None [] = [item]" "backingOff ports item w = (None, w)"
    by (simp_all add: enqueue_def item_def backingOff_def)
  ultimately show ?thesis
    by (simp add: syncOnce_def pending_def noteStep_def notePark_def parkedNow_def atPhase_def Let_def)
qed



end
