(* ===== verification/LensProps.thy ===== *)
theory LensProps
  imports LensLaws LedgerSamples
begin

text \<open>The properties of the read side, over the databases of reachable systems.\<close>



text \<open>The rows of the table and the events are in one-to-one correspondence.\<close>

theorem event_rows_roundtrip:
  "(ev_hash e \<noteq> None \<longrightarrow> rowToEvent (eventToRow e) = Inr e) \<and> (rowToEvent r = Inr e \<longrightarrow> eventToRow e = r)"
  by (simp add: rowToEvent_eventToRow eventToRow_rowToEvent)

theorem redaction_hides_internal_fields_witness:
  "override (redactEvent (PartyLens ''p'') (stored e1) False) = None \<and>
   act_user (actor (redactEvent (PartyLens ''p'') (stored e1) False)) = None \<and>
   blurred (payload (redactEvent (PartyLens ''p'') (stored e1) False))"
  using redaction_hides_internal_fields[of "PartyLens ''p''" "stored e1" False] by simp

definition party_query :: read_query where
  "party_query = \<lparr> rq_shipment_id = None, rq_after_seq = None, rq_cursor = None, rq_limit = None, rq_kinds = None,
     rq_ts_desc = False, rq_before_ts = None, rq_include_shadow = False \<rparr>"

text \<open>C10: A counterparty or a driver reads only what its lens allows, never an event of an internal kind.\<close>

theorem lenses_never_widen:
  assumes "reachable env S" "db = readDb (sys_world S) (dbOf t)" "l \<noteq> TenantLens" "readEvents db l q = Inr rs" "x \<in> set rs"
  shows "\<exists>e \<in> set (t_events db). x = redactEvent l (stored e) (outForDelivery db e) \<and>
    visibility e \<noteq> Internal \<and> KIND_VISIBILITY_DEFAULTS (kind e) \<noteq> Internal \<and>
    (rq_include_shadow q \<or> source e \<noteq> Legacy) \<and>
    (\<forall>p. l = PartyLens p \<longrightarrow> p \<in> set (party_refs e)) \<and>
    (\<forall>u. l = DriverLens u \<longrightarrow> kind e \<in> set DRIVER_KINDS \<and>
       (\<exists>ship row. shipment_id e = Some ship \<and> t_shipments db ship = Some row \<and> sh_assigned_driver row = Some u))"
proof -
  have "\<forall>e \<in> set (t_events db). ev_hash e \<noteq> None"
    using assms(1,2) reachable_hashed by blast
  then obtain e where e: "e \<in> set (page db l q)" "x = redactEvent l (stored e) (outForDelivery db e)"
    using readEvents_page[OF _ assms(4)] assms(5) by auto
  have sel: "e \<in> set (t_events db)" "selected db l q e"
    using page_member[OF e(1)] by auto
  have "KIND_VISIBILITY_DEFAULTS (kind e) = Internal \<longrightarrow> visibility e = Internal"
    using reachable_member[OF assms(1), of e "dbOf t"] sel(1) assms(2) by (metis permitted_def)
  moreover have "visibility e \<noteq> Internal"
    using sel(2) assms(3) by (cases l) (auto simp: selected_def lensWhere_def)
  moreover have "kind e \<in> set DRIVER_KINDS \<and>
      (\<exists>ship row. shipment_id e = Some ship \<and> t_shipments db ship = Some row \<and> sh_assigned_driver row = Some u)"
    if "l = DriverLens u" for u
    using sel(2) that by (auto simp: selected_def lensWhere_def split: option.split_asm)
  ultimately show ?thesis
    using sel e(2)
    by (intro bexI[of _ e]) (auto simp: selected_def lensWhere_def NATIVE_VISIBLE_SOURCES_def)
qed

theorem lenses_never_widen_witness:
  "\<exists>rs x. readEvents (readDb (sys_world sample_run) (dbOf ''a'')) (PartyLens ''p'') party_query = Inr rs \<and> x \<in> set rs \<and>
     (\<exists>e \<in> {e1, e2, e3, e5}. x = redactEvent (PartyLens ''p'') (stored e)
        (outForDelivery (readDb (sys_world sample_run) (dbOf ''a'')) e) \<and> ''p'' \<in> set (party_refs e))"
proof -
  define db where "db = readDb (sys_world sample_run) (dbOf ''a'')"
  have events: "t_events db = [e1, e2, e3, e5]"
    by (simp add: db_def sample_run_events)
  have hashed: "\<forall>e \<in> set (t_events db). ev_hash e \<noteq> None"
    using reachable_hashed[OF sample_run_reachable] by (auto simp: db_def)
  have "selected db (PartyLens ''p'') party_query e1"
    by (simp add: selected_def lensWhere_def party_query_def given_def NATIVE_VISIBLE_SOURCES_def)
      (simp add: sample_inputs sample_events event_of_def assemble_def sample_input_def)
  then have "e1 \<in> set (ordered False (filter (selected db (PartyLens ''p'') party_query) (t_events db)))"
    by (simp add: ordered_def events)
  moreover have "length (ordered False (filter (selected db (PartyLens ''p'') party_query) (t_events db))) \<le> 4"
    by (simp add: ordered_def events)
  ultimately have "e1 \<in> set (page db (PartyLens ''p'') party_query)"
    by (simp add: page_def party_query_def sqlLimit_def effectiveLimit_def LIMIT_CAP_def DEFAULT_LIMIT_def)
  moreover obtain rs where rs: "readEvents db (PartyLens ''p'') party_query = Inr rs"
    using hashed traverse_map[of "page db (PartyLens ''p'') party_query" "\<lambda>e. rowToEvent (eventToRow (stored e))" stored]
      page_member rowToEvent_eventToRow
    by (force simp: readEvents_def party_query_def)
  ultimately have x: "redactEvent (PartyLens ''p'') (stored e1) (outForDelivery db e1) \<in> set rs"
    using readEvents_page[OF hashed rs] by simp
  show ?thesis
    using lenses_never_widen[OF sample_run_reachable refl _ rs[unfolded db_def] x] rs x events
    by (auto simp: db_def)
qed

text \<open>A page is never longer than the limit in force, and never longer than the cap of a thousand.\<close>

theorem pages_are_bounded:
  assumes "readEvents db l q = Inr rs" "given (\<lambda>n. 1 \<le> n) (rq_limit q)"
  shows "length rs \<le> 1000 \<and> int (length rs) \<le> effectiveLimit (rq_limit q)"
proof -
  have "length rs = length (page db l q)"
    using assms(1) by (auto simp: readEvents_def dest!: traverse_length split: if_splits)
  moreover have "0 \<le> effectiveLimit (rq_limit q)" "effectiveLimit (rq_limit q) \<le> 1000"
    using assms(2) by (auto simp: effectiveLimit_def LIMIT_CAP_def DEFAULT_LIMIT_def given_def split: option.splits)
  ultimately show ?thesis
    using page_bound[of q db l] by simp
qed

theorem pages_are_bounded_witness:
  "\<exists>rs. readEvents sample_db TenantLens party_query = Inr rs \<and> length rs \<le> 1000"
proof -
  have "readEvents sample_db TenantLens party_query = Inr []"
    by (simp add: readEvents_def party_query_def page_def ordered_def sqlLimit_def sample_db_def)
  then show ?thesis
    using pages_are_bounded[of sample_db TenantLens party_query "[]"] by (simp add: party_query_def given_def)
qed

text \<open>Paging: a client that follows \<open>next_cursor\<close> from the first page reads every visible event exactly once, in the order
  of stream and sequence number, and stops.\<close>

lemma the_cursor_visits_every_visible_event:
  assumes "reachable env S" "db = readDb (sys_world S) r" "\<not> rq_ts_desc q" "given (\<lambda>n. 1 \<le> n) (rq_limit q)"
    "length (t_events db) < fuel"
  shows "walk fuel db l q = sort_key keyset (filter (selected db l q) (t_events db)) \<and>
    distinct (map keyset (walk fuel db l q)) \<and> set (walk fuel db l q) = {e \<in> set (t_events db). selected db l q e}"
proof -
  have d: "distinct (map keyset (t_events db))"
    using linked_keys[OF reachable_linked[OF assms(1)]] assms(2) by simp
  have "0 < effectiveLimit (rq_limit q)"
    using assms(4) by (auto simp: effectiveLimit_def LIMIT_CAP_def DEFAULT_LIMIT_def given_def split: option.splits)
  moreover have "length (remaining db l q) < fuel"
    using le_less_trans[OF length_filter_le assms(5)] by (simp add: remaining_def)
  ultimately have "walk fuel db l q = remaining db l q"
    using walk_remaining[OF d assms(3)] by blast
  then show ?thesis
    using d by (auto simp: remaining_def distinct_map inj_on_def)
qed

end
