(* ===== verification/ServerProps.thy ===== *)
theory ServerProps
  imports DriverProps LensProps
begin

text \<open>
  The properties of the API worker in front of the ledger: what clients can put into it, what its answers mean,
  the idempotency scope, the paged feed, and the evidence store under any sequence of uploads, sweeps and
  other activity.
\<close>

section \<open>The write route\<close>

definition postAll :: "'k env \<Rightarrow> (int \<times> session \<times> string \<times> client_body) list \<Rightarrow> 'k ledger_system \<Rightarrow> 'k ledger_system" where
  "postAll env posts S = fold (\<lambda>(now, s, ship, b) S. snd (postEvent env now s ship b S)) posts S"

lemma postAll_Cons: "postAll env ((now, s, ship, b) # posts) S = postAll env posts (snd (postEvent env now s ship b S))"
  by (simp add: postAll_def)

text \<open>What the door guarantees of an event of the stream of a shipment, whoever sent it.\<close>

definition screened :: "session \<Rightarrow> string \<Rightarrow> payload ledger_event \<Rightarrow> bool" where
  "screened s ship e \<longleftrightarrow> stream_id e = ''s:'' @ ship \<and> source e = Native \<and>
     kind e \<notin> {InvoiceIssued, InvoiceCorrected, SplitComputed, PaymentReceived, SettlementExecuted, ApprovalDecided, AuthorityFlipped} \<and>
     ss_role s \<in> {Admin, Ops, DriverRole, Finance} \<and>
     (kind e = CreditChecked \<longrightarrow> ss_role s \<in> {Finance, Admin}) \<and> (ss_role s = Finance \<longrightarrow> kind e = CreditChecked) \<and>
     (\<forall>x. override e = Some x \<longrightarrow> ov_by x = ss_sub s \<and> ss_role s \<in> {Ops, Admin, Finance})"

lemma post_screened:
  assumes "reachable env S" "e \<in> set (t_events (readDb (sys_world (snd (postEvent env now s ship b S))) q))"
    "e \<notin> set (t_events (readDb (sys_world S) q))"
  shows "q = dbOf (ss_tenant s) \<and> screened s ship e"
proof -
  obtain r S' where run: "postEvent env now s ship b S = (r, S')"
    by (cases "postEvent env now s ship b S")
  then have "t_events (readDb (sys_world S') q) \<noteq> t_events (readDb (sys_world S) q)"
    using assms(2,3) by auto
  then obtain i x where x: "q = dbOf (ss_tenant s)"
    "t_events (readDb (sys_world S') q) = t_events (readDb (sys_world S) q) @ [x]" "stream_id x = ''s:'' @ ship" "source x = Native"
    "kind x \<notin> set (SERVER_EMITTED_KINDS @ BLESSED_DECISION_KINDS @ CONTROL_PLANE_KINDS)"
    "ss_role s \<in> {Admin, Ops, DriverRole, Finance}" "kind x = CreditChecked \<longrightarrow> ss_role s \<in> {Finance, Admin}"
    "ss_role s = Finance \<longrightarrow> kind x = CreditChecked"
    "\<forall>y. override x = Some y \<longrightarrow> ov_by y = ss_sub s \<and> ss_role s \<in> {Ops, Admin, Finance}"
    using post_appends[OF assms(1) run] by blast
  then have "e = x"
    using assms(2,3) run by auto
  with x show ?thesis
    by (auto simp: screened_def SERVER_EMITTED_KINDS_def BLESSED_DECISION_KINDS_def CONTROL_PLANE_KINDS_def)
qed

text \<open>C7: Every event that a run of client posts added came through one of them and is screened: no client invoices, corrects,
  splits, settles, records a payment, decides an approval or flips an authority, only finance and admins check credit,
  and an override carries the name of the session that posted it.\<close>

theorem clients_cannot_forge_server_events:
  assumes "reachable env S" "e \<in> set (t_events (readDb (sys_world (postAll env posts S)) q))"
  shows "e \<in> set (t_events (readDb (sys_world S) q)) \<or>
    (\<exists>(now, s, ship, b) \<in> set posts. q = dbOf (ss_tenant s) \<and> screened s ship e)"
  using assms
proof (induction posts arbitrary: S)
  case (Cons p posts)
  obtain now s ship b where p: "p = (now, s, ship, b)"
    by (cases p)
  define S1 where "S1 = snd (postEvent env now s ship b S)"
  have "e \<in> set (t_events (readDb (sys_world S1) q)) \<or> (\<exists>(now, s, ship, b) \<in> set posts. q = dbOf (ss_tenant s) \<and> screened s ship e)"
    using Cons.IH[of S1] Cons.prems by (simp add: p postAll_Cons S1_def postEvent_reachable)
  then show ?case
    using post_screened[OF Cons.prems(1), of e now s ship b q] by (auto simp: p S1_def)
qed (simp add: postAll_def)

text \<open>For the witnesses: the driver of the yard posts her capture.\<close>

abbreviation "yard_driver \<equiv> \<lparr> ss_sub = ''u'', ss_tenant = ''a'', ss_role = DriverRole, ss_party_id = None \<rparr>"

lemma sample_sha: "sha256 sample_env = toy_digest"
  by (simp add: sample_env_def)

lemma yard_posted:
  "\<exists>e S'. postEvent sample_env 5 yard_driver ''1'' (asBody yard_capture) (yard {''d''}) = (Inr \<lparr> rs_status = 201, rs_body = e \<rparr>, S') \<and>
     t_events (readDb (sys_world S') (dbOf ''a'')) = [e] \<and> ev_id e = ''e9''"
proof -
  let ?S = "yard {''d''}"
  have sha: "length (sha256 sample_env bs) = 32" for bs
    by (simp add: sample_env_def toy_digest_def)
  have cap: "in_id yard_capture = ''e9''" "in_kind yard_capture = FreightCounted" "in_source yard_capture = Native"
    "in_device_id yard_capture = Some ''d''" "act_device (in_actor yard_capture) = Some ''d''" "in_device_seq yard_capture = Some 0"
    "stampInput yard_driver (asBody yard_capture) = yard_capture"
    by (simp_all add: yard_capture_def candidateOf_def yard_params_def yard_context_def stampInput_def asBody_def)
  have db: "t_events yard_db = []" "readDb (sys_world ?S) (dbOf ''a'') = yard_db"
    by (simp_all add: yard_db_read) (simp add: yard_db_def sample_db_def)
  have "inputSigOk (verifyKey sample_env) (Some ()) yard_capture"
    by code_simp
  then have signer: "signer_ok sample_env ''a'' ''s:1'' yard_capture (instance_at (idFromName sample_env (''a'' @ ''|'' @ ''s:1'')) ?S) yard_db"
    by (simp add: signer_ok_def cap findByDevice_def db) (simp add: instance_at_def yard_def cold_def yard_world_def)
  have stamp: "stamped sample_env 5 ''a'' ''s:1'' yard_capture yard_db x = event_of yard_capture ''s:1'' 0 GENESIS_HASH x" for x
    by (rule stamped_event_of) (simp add: storedTail_def streamEvents_def db GENESIS_TAIL_def)
  have policy: "policy_served ''a'' no_policy ?S"
    by (simp add: policy_served_def yard_def yard_world_def cold_def)
  have "\<exists>v h. let rec = stamped sample_env 5 ''a'' ''s:1'' yard_capture yard_db v \<lparr> ev_hash := Some h \<rparr> in
      fst (append_event sample_env 5 ''a'' ''s:1'' yard_capture False (instance_at (idFromName sample_env (''a'' @ ''|'' @ ''s:1'')) ?S)) =
        Inr (rec, triggersFor rec ''a'')
      \<and> t_events (readDb (sys_world (served sample_env 5 ''a'' ''s:1'' yard_capture ?S)) (dbOf ''a'')) = t_events yard_db @ [rec]
      \<and> policy_served ''a'' no_policy (served sample_env 5 ''a'' ''s:1'' yard_capture ?S)"
    by (rule plain_served[OF yard_reachable sample_env_inj sha sample_customer sample_streams(1) policy _ _ yard_capture_ok _ _ signer])
       (use yard_hashes in \<open>simp_all add: cap db stamp safe_def MAX_SAFE_def PLAIN_KINDS_def findById_def sample_sha\<close>)
  then show ?thesis
    using postEvent_admitted[OF yard_admits[of "{''d''}", unfolded yard_tick], of sample_env 5]
    by (auto simp: Let_def cap db stamp)
qed

theorem clients_cannot_forge_server_events_witness:
  "\<exists>e \<in> set (t_events (readDb (sys_world (postAll sample_env [(5, yard_driver, ''1'', asBody yard_capture)] (yard {''d''}))) (dbOf ''a''))).
     ev_id e = ''e9'' \<and> screened yard_driver ''1'' e"
proof -
  obtain e where e: "e \<in> set (t_events (readDb (sys_world (postAll sample_env [(5, yard_driver, ''1'', asBody yard_capture)] (yard {''d''}))) (dbOf ''a'')))"
    "ev_id e = ''e9''"
    using yard_posted by (auto simp: postAll_def)
  moreover have "t_events (readDb (sys_world (yard {''d''})) (dbOf ''a'')) = []"
    by (simp add: yard_db_read) (simp add: yard_db_def sample_db_def)
  ultimately show ?thesis
    using clients_cannot_forge_server_events[OF yard_reachable e(1)] by auto
qed

text \<open>C13: The answer: a 201 names an event the ledger holds and answers to the posted id or device number; a body
  without the shape of an event never gets one; a refusal is 400, 401, 403 or 500 and leaves every database's events alone.\<close>

theorem a_post_answers_for_the_ledger:
  assumes "reachable env S" "postEvent env now s ship b S = (r, S')"
  shows "case r of
      Inl err \<Rightarrow> ae_status err \<in> {400, 401, 403, 500} \<and>
        (\<forall>q. t_events (readDb (sys_world S') q) = t_events (readDb (sys_world S) q))
    | Inr rsp \<Rightarrow> rs_status rsp = 201 \<and> rs_body rsp \<in> set (t_events (readDb (sys_world S') (dbOf (ss_tenant s)))) \<and>
        (\<exists>i claimed. b = Shaped i claimed \<and> answered S' (ss_tenant s) (''s:'' @ ship) i)"
proof (cases r)
  case (Inl err)
  then show ?thesis
    using post_refusals[OF assms(1)] assms(2) by simp
next
  case (Inr rsp)
  show ?thesis
  proof (cases b)
    case (Shaped i claimed)
    then show ?thesis
      using post_answers[OF assms(1), of now s ship i claimed rsp S'] assms(2) Inr by simp
  next
    case (Unshaped k o')
    obtain u where "admitPost S s ship b = Inr u"
      using assms(2) Inr by (cases "admitPost S s ship b") (auto simp: postEvent_refused)
    then show ?thesis
      using assms(2) Inr malformed_refused[OF assms(1) refl, of now "ss_tenant s" "''s:'' @ ship"]
      by (auto simp: postEvent_admitted Unshaped stampInput_def)
  qed
qed

theorem a_post_answers_for_the_ledger_witness:
  "\<exists>e S'. postEvent sample_env 5 yard_driver ''1'' (asBody yard_capture) (yard {''d''}) = (Inr \<lparr> rs_status = 201, rs_body = e \<rparr>, S') \<and>
     answered S' ''a'' ''s:1'' yard_capture"
proof -
  obtain e S' where post: "postEvent sample_env 5 yard_driver ''1'' (asBody yard_capture) (yard {''d''}) =
      (Inr \<lparr> rs_status = 201, rs_body = e \<rparr>, S')"
    using yard_posted by blast
  from a_post_answers_for_the_ledger[OF yard_reachable this] post show ?thesis
    by (auto simp: asBody_def)
qed

section \<open>The idempotency scope\<close>

lemma NUL_separates: "NUL \<notin> set a \<Longrightarrow> NUL \<notin> set b \<Longrightarrow> a @ NUL # x = b @ NUL # y \<longleftrightarrow> a = b \<and> x = y"
  using split_first[of NUL a b x y] by auto

text \<open>Two mutations share a scope only when tenant, principal, method, path and key agree, as long as none of them holds
  a NUL and the digest does not collide.\<close>

theorem idempotency_scopes_are_separate:
  assumes "inj hexDigest" "list_all (\<lambda>x. NUL \<notin> set x) [ss_tenant s, ss_sub s, m, path, key, ss_tenant s', ss_sub s', m', path', key']"
  shows "idempotencyKey hexDigest s m path key = idempotencyKey hexDigest s' m' path' key' \<longleftrightarrow>
    ss_tenant s = ss_tenant s' \<and> ss_sub s = ss_sub s' \<and> m = m' \<and> path = path' \<and> key = key'"
  using assms by (auto simp: idempotencyKey_def inj_eq NUL_separates)

theorem idempotency_scopes_are_separate_witness:
  "idempotencyKey id \<lparr> ss_sub = ''b'', ss_tenant = ''a'', ss_role = Ops, ss_party_id = None \<rparr> ''POST'' ''/x'' ''k'' \<noteq>
   idempotencyKey id \<lparr> ss_sub = '''', ss_tenant = ''ab'', ss_role = Ops, ss_party_id = None \<rparr> ''POST'' ''/x'' ''k''"
  using idempotency_scopes_are_separate[of id "\<lparr> ss_sub = ''b'', ss_tenant = ''a'', ss_role = Ops, ss_party_id = None \<rparr>"
      "''POST''" "''/x''" "''k''" "\<lparr> ss_sub = '''', ss_tenant = ''ab'', ss_role = Ops, ss_party_id = None \<rparr>" "''POST''" "''/x''" "''k''"]
  by (simp add: NUL_def)

text \<open>A retry with the key of a mutation that succeeded replays its answer without running the handler; a mutation that
  failed is run again.\<close>

theorem a_retry_replays_only_successes:
  assumes "key \<noteq> []" "cache (idempotencyKey hexDigest s m path key) = None"
    "idempotency hexDigest s m path (Some key) handler cache st = (r, cache', st')"
  shows "(case r of
      Inr rsp \<Rightarrow> if 200 \<le> rs_status rsp \<and> rs_status rsp < 300
        then idempotency hexDigest s m path (Some key) handler' cache' st'' = (Inr rsp, cache', st'')
        else cache' = cache
    | Inl err \<Rightarrow> cache' = cache) \<and> (r, st') = handler st"
  using assms by (auto simp: idempotency_def Let_def split: sum.splits prod.splits if_splits)

theorem a_retry_replays_only_successes_witness:
  "idempotency id yard_driver ''POST'' ''/x'' (Some ''k'') (\<lambda>st :: nat. (Inr \<lparr> rs_status = 201, rs_body = ''no'' \<rparr>, st + 1))
     [idempotencyKey id yard_driver ''POST'' ''/x'' ''k'' \<mapsto> \<lparr> rs_status = 201, rs_body = ''yes'' \<rparr>] 7 =
   (Inr \<lparr> rs_status = 201, rs_body = ''yes'' \<rparr>, [idempotencyKey id yard_driver ''POST'' ''/x'' ''k'' \<mapsto> \<lparr> rs_status = 201, rs_body = ''yes'' \<rparr>], 7)"
proof -
  have "idempotency id yard_driver ''POST'' ''/x'' (Some ''k'') (\<lambda>st :: nat. (Inr \<lparr> rs_status = 201, rs_body = ''yes'' \<rparr>, st + 1)) Map.empty 0 =
      (Inr \<lparr> rs_status = 201, rs_body = ''yes'' \<rparr>, [idempotencyKey id yard_driver ''POST'' ''/x'' ''k'' \<mapsto> \<lparr> rs_status = 201, rs_body = ''yes'' \<rparr>], 1)"
    by (simp add: idempotency_def Let_def)
  from a_retry_replays_only_successes[OF _ _ this, of "\<lambda>st. (Inr \<lparr> rs_status = 201, rs_body = ''no'' \<rparr>, st + 1)" "7 :: nat"] show ?thesis
    by simp
qed

section \<open>The evidence store\<close>

text \<open>Each row's id is a shipment and a hash that an event on that shipment's stream recorded.\<close>

definition recordedId :: "'k server \<Rightarrow> string \<Rightarrow> string \<Rightarrow> bool" where
  "recordedId sv t i \<longleftrightarrow> (\<exists>ship h. i = evidenceDocId ship h \<and> length h = 64 \<and>
     (\<exists>e \<in> set (t_events (readDb (sys_world (sv_ledger sv)) (dbOf t))). stream_id e = ''s:'' @ ship \<and> recordsHash h e))"

definition recordedRows :: "'k server \<Rightarrow> bool" where
  "recordedRows sv \<longleftrightarrow> (\<forall>t. \<forall>i \<in> rowIds sv t. recordedId sv t i)"

lemma recordingEvent_in:
  "recordingEvent db ship h = Some e \<Longrightarrow> e \<in> set (t_events db) \<and> stream_id e = ''s:'' @ ship \<and> recordsHash h e"
  by (auto simp: recordingEvent_def streamEvents_def dest!: find_Some_in)

lemma upload_new_ids:
  assumes "postEvidence sha now s r sv = (res, sv')" "i \<in> rowIds sv' t" "i \<notin> rowIds sv t"
  obtains ship h e where "verifyUpload sha sv s r = Inr (ship, h, e)" "t = ss_tenant s" "i = evidenceDocId ship h"
proof (cases "verifyUpload sha sv s r")
  case (Inl err)
  then show ?thesis
    using assms by (simp add: postEvidence_def)
next
  case (Inr v)
  obtain ship h e where v: "v = (ship, h, e)"
    by (cases v)
  obtain c sv1 where check: "uploadCheck (ss_tenant s) (ur_body r) v sv = (c, sv1)"
    by (cases "uploadCheck (ss_tenant s) (ur_body r) v sv") auto
  then have same: "rowIds sv1 t = rowIds sv t"
    by (auto simp: uploadCheck_def Let_def split: prod.splits if_splits)
  show ?thesis
  proof (cases c)
    case (Inl st)
    then show ?thesis
      using assms Inr check same by (simp add: postEvidence_def)
  next
    case next': (Inr u)
    then have u: "up_tenant u = ss_tenant s" "up_shipment u = ship" "up_hash u = h"
      using check by (auto simp: v uploadCheck_def Let_def split: if_splits)
    have "sv' = snd (uploadRow now u (uploadPut u sv1))"
      using assms(1) Inr check next' by (auto simp: postEvidence_def split: prod.splits)
    moreover have "rowIds (snd (uploadRow now u sv2)) t \<subseteq> rowIds sv2 t \<union> (if t = ss_tenant s then {evidenceDocId ship h} else {})" for sv2 :: "'a server"
    proof (cases "up_existing u")
      case None
      then show ?thesis
        by (auto simp: uploadRow_def rowIds_def Let_def firstRow_def u)
    next
      case (Some x)
      then show ?thesis
        by (simp add: uploadRow_def Let_def ids_map u del: set_map) (auto simp: rowIds_def)
    qed
    ultimately have "t = ss_tenant s \<and> i = evidenceDocId ship h"
      using assms(2,3) same by (fastforce split: if_splits)
    then show ?thesis
      using that Inr v by blast
  qed
qed

lemma perform_ledger: "serverFits env sv \<Longrightarrow>
  \<exists>ys. t_events (readDb (sys_world (sv_ledger (perform env a sv))) q) = t_events (readDb (sys_world (sv_ledger sv)) q) @ ys"
proof -
  assume fits: "serverFits env sv"
  then have reach: "reachable env (sv_ledger sv)"
    by (simp add: serverFits_def)
  have "sv_ledger (perform env a sv) = sv_ledger sv \<or> step env (sv_ledger sv) (sv_ledger (perform env a sv))"
  proof (cases a)
    case (AnyAppend now t st i platform)
    then show ?thesis
      by (simp add: onLedger_def appended_def Let_def step.Request)
  next
    case (AnyPost now s ship b)
    then show ?thesis
      using post_step[OF reach] by (simp add: onLedger_def)
  next
    case (AnyUpload now s r)
    then show ?thesis
      by (auto simp: postEvidence_def uploadCheck_def uploadRow_def uploadPut_def Let_def split: sum.split prod.split)
  next
    case (AnySweep t now)
    obtain n sv' where run: "sweepTenantExpiredDocuments t now sv = (n, sv')"
      by (cases "sweepTenantExpiredDocuments t now sv")
    then show ?thesis
      using sweep_law[OF _ run, of "sha256 env"] fits AnySweep by (simp add: serverFits_def)
  next
    case (AnyEviction i)
    then show ?thesis
      by (simp add: onLedger_def step.Evict)
  qed
  then show ?thesis
    using step_extends[OF reach] by (metis append_Nil2)
qed

lemma perform_rows:
  assumes "serverFits env sv" "i \<in> rowIds (perform env a sv) t" "i \<notin> rowIds sv t"
  obtains now s r ship h e where "a = AnyUpload now s r" "verifyUpload (sha256 env) sv s r = Inr (ship, h, e)" "t = ss_tenant s"
    "i = evidenceDocId ship h"
proof (cases a)
  case (AnyUpload now s r)
  obtain res sv' where run: "postEvidence (sha256 env) now s r sv = (res, sv')"
    by (cases "postEvidence (sha256 env) now s r sv")
  with assms(2) AnyUpload have "i \<in> rowIds sv' t"
    by simp
  then show ?thesis
    by (rule upload_new_ids[OF run _ assms(3)]) (rule that[OF AnyUpload])
next
  case (AnySweep u now)
  obtain n sv' where run: "sweepTenantExpiredDocuments u now sv = (n, sv')"
    by (cases "sweepTenantExpiredDocuments u now sv")
  then have "rowIds sv' t = rowIds sv t"
    using sweep_ids by (simp add: sweepTenantExpiredDocuments_def Let_def)
  then show ?thesis
    using assms(2,3) AnySweep run by simp
qed (use assms(2,3) in \<open>simp_all add: rowIds_def onLedger_def\<close>)

lemma recordedId_perform: "serverFits env sv \<Longrightarrow> recordedId sv t i \<Longrightarrow> recordedId (perform env a sv) t i"
  using perform_ledger[of env sv a "dbOf t"] unfolding recordedId_def by fastforce

lemma verified_recorded:
  assumes "verifyUpload sha sv s r = Inr (ship, h, e)"
  shows "recordedId sv (ss_tenant s) (evidenceDocId ship h)"
proof -
  note facts = verifyUpload_Inr[OF assms]
  then have "dbOf (ss_tenant s) = CustomerDb (ss_tenant s)"
    by (simp add: dbOf_def)
  moreover have "recordingEvent (readDb (sys_world (sv_ledger sv)) (CustomerDb (ss_tenant s))) ship h = Some e" "length h = 64"
    using facts Hash64_length by blast+
  ultimately show ?thesis
    using recordingEvent_in unfolding recordedId_def by metis
qed

lemma perform_recorded:
  assumes "serverFits env sv" "recordedRows sv"
  shows "recordedRows (perform env a sv)"
proof -
  have "recordedId sv t i" if i: "i \<in> rowIds (perform env a sv) t" for i t
  proof (cases "i \<in> rowIds sv t")
    case True
    then show ?thesis
      using assms(2) by (simp add: recordedRows_def)
  next
    case False
    show ?thesis
      by (rule perform_rows[OF assms(1) i False]) (simp add: verified_recorded)
  qed
  then show ?thesis
    using recordedId_perform[OF assms(1)] by (simp add: recordedRows_def)
qed



lemma sweepTombstone_expired:
  "x \<in> set (sv_docs (sweepTombstone t d sv) t) \<Longrightarrow> ed_status x = ActiveDoc \<Longrightarrow> x \<in> set (sv_docs sv t) \<and> ed_id x \<noteq> ed_id d"
  by (auto simp: sweepTombstone_def split: if_splits)

lemma sweepRows_complete:
  "sweepRows t now ds n sv = (n', sv') \<Longrightarrow> x \<in> set (sv_docs sv' t) \<Longrightarrow> ed_status x = ActiveDoc \<Longrightarrow>
     x \<in> set (sv_docs sv t) \<and> (\<forall>d \<in> set ds. sweepVerdict t now d = Expire \<longrightarrow> ed_id x \<noteq> ed_id d)"
proof (induction ds arbitrary: n sv)
  case (Cons d ds)
  have gone: "x \<in> set (sv_docs sv t) \<and> ed_id x \<noteq> ed_id d" if "x \<in> set (sv_docs (sweepTombstone t d (sweepDelete d sv)) t)"
    using sweepTombstone_expired[OF that Cons.prems(3)] by (simp add: sweepDelete_def)
  show ?case
    using Cons.IH[OF _ Cons.prems(2,3)] Cons.prems(1) gone by (cases "sweepVerdict t now d") fastforce+
qed simp

text \<open>C23: The sweep: it deletes only the objects of its own tenant, only for active rows outside the retained kinds whose clock
  is known and a year or more old; it touches no ledger, no other tenant and no row count, and it leaves nothing it
  could still expire.\<close>

theorem the_sweep_expires_exactly_the_old:
  assumes "serverFits env sv" "sweepTenantExpiredDocuments t now sv = (n, sv')"
  shows "sv_ledger sv' = sv_ledger sv \<and> (\<forall>t'. t' \<noteq> t \<longrightarrow> sv_docs sv' t' = sv_docs sv t') \<and>
    sw_scanned n = sw_deleted n + sw_retained n + sw_foreign n + sw_unknown n \<and>
    (\<forall>k. sv_bucket sv' k \<noteq> sv_bucket sv k \<longrightarrow> sv_bucket sv' k = None \<and> isTenantEvidenceKey k t \<and>
       (\<exists>d \<in> set (sv_docs sv t). ed_r2_key d = k \<and> ed_status d = ActiveDoc \<and> ed_kind d \<notin> set POD_RETAINED_KINDS \<and>
          0 < ed_created_ts d \<and> ed_created_ts d + YEAR_MS < now)) \<and>
    (\<forall>d \<in> set (sweepSelect t sv'). sweepVerdict t now d \<noteq> Expire)"
proof -
  have docs: "docs_ok (sha256 env) sv"
    using assms(1) by (simp add: serverFits_def)
  have "sweepVerdict t now x \<noteq> Expire" if x: "x \<in> set (sweepSelect t sv')" for x
  proof
    assume expire: "sweepVerdict t now x = Expire"
    obtain n0 where run: "sweepRows t now (sweepSelect t sv) n0 sv = (n, sv')"
      using assms(2) by (auto simp: sweepTenantExpiredDocuments_def Let_def)
    have "x \<in> set (sv_docs sv t)" "\<forall>d \<in> set (sweepSelect t sv). sweepVerdict t now d = Expire \<longrightarrow> ed_id x \<noteq> ed_id d"
      using sweepRows_complete[OF run, of x] x by (simp_all add: sweepSelect_def)
    then show False
      using x expire by (auto simp: sweepSelect_def)
  qed
  then show ?thesis
    using sweep_law[OF docs assms(2)] by blast
qed

text \<open>One old photo, active, with its object.\<close>

definition old_hash :: string where
  "old_hash = sha256Hex toy_digest [1]"

definition old_photo :: evidence_doc where
  "old_photo = \<lparr> ed_id = evidenceDocId ''1'' old_hash, ed_shipment = ''1'', ed_kind = ''photo'', ed_r2_key = evidenceKey ''a'' ''1'' old_hash,
     ed_hash = old_hash, ed_lifecycle_class = ''default'', ed_visibility = Internal, ed_created_ts = 1, ed_status = ActiveDoc \<rparr>"

definition old_server :: "unit server" where
  "old_server = \<lparr> sv_ledger = yard {}, sv_docs = (\<lambda>t. if t = ''a'' then [old_photo] else []),
     sv_bucket = [ed_r2_key old_photo \<mapsto> [1]], sv_queue = [] \<rparr>"

lemma old_server_fits: "serverFits sample_env old_server"
proof -
  have "length old_hash = 64"
    by (simp add: old_hash_def sha256Hex_def bytesToHex_length toy_digest_def)
  then have "docs_ok (sha256 sample_env) old_server"
    by (simp add: docs_ok_def old_server_def row_ok_def old_photo_def slug_def sample_sha old_hash_def)
  then show ?thesis
    using yard_reachable by (simp add: serverFits_def old_server_def) (simp add: yard_def yard_world_def slug_def)
qed

theorem the_sweep_expires_exactly_the_old_witness:
  "sv_bucket (snd (sweepTenantExpiredDocuments ''a'' (YEAR_MS + 2) old_server)) = Map.empty \<and>
   sw_scanned (fst (sweepTenantExpiredDocuments ''a'' (YEAR_MS + 2) old_server)) = 1 \<and>
   old_photo \<notin> set (sweepSelect ''a'' (snd (sweepTenantExpiredDocuments ''a'' (YEAR_MS + 2) old_server)))"
proof -
  have docs: "sv_docs old_server ''a'' = [old_photo]" "ed_status old_photo = ActiveDoc" "ed_kind old_photo = ''photo''"
    by (simp_all add: old_server_def old_photo_def)
  then have select: "sweepSelect ''a'' old_server = [old_photo]"
    by (simp add: sweepSelect_def POD_RETAINED_KINDS_def)
  have expire: "sweepVerdict ''a'' (YEAR_MS + 2) old_photo = Expire"
    by (simp add: sweepVerdict_def old_photo_def retentionMsFor_def RETENTION_CLASS_DEFAULT_def)
  from this have "sv_bucket (snd (sweepTenantExpiredDocuments ''a'' (YEAR_MS + 2) old_server)) = Map.empty \<and>
      sw_scanned (fst (sweepTenantExpiredDocuments ''a'' (YEAR_MS + 2) old_server)) = 1"
    by (simp add: sweepTenantExpiredDocuments_def select sweepTombstone_def sweepDelete_def Let_def) (simp add: old_server_def)
  moreover obtain n sv' where run: "sweepTenantExpiredDocuments ''a'' (YEAR_MS + 2) old_server = (n, sv')"
    by (cases "sweepTenantExpiredDocuments ''a'' (YEAR_MS + 2) old_server")
  ultimately show ?thesis
    using the_sweep_expires_exactly_the_old[OF old_server_fits run] expire by (auto simp: run)
qed

section \<open>The feed\<close>

lemma cursor_roundtrip:
  assumes "number (seqText n) = Whole n" "0 \<le> n" "st \<noteq> []"
  shows "parseCursor number (Some (cursorText (st, n))) = Inr (Some (st, n))"
proof -
  define ds where "ds = seqText n"
  have "char_of c \<noteq> CHR '':''" if "c \<in> set (decimal (nat n))" for c
  proof -
    have "c \<le> 57"
      using decimal_digits[of "nat n"] that by (auto simp: isDigit_def)
    moreover from this have "(of_char (char_of c :: char) :: nat) = c"
      by simp
    moreover have "(of_char (CHR '':'') :: nat) = 58"
      by simp
    ultimately have "char_of c = CHR '':'' \<Longrightarrow> c = 58"
      by metis
    then show ?thesis
      using \<open>c \<le> 57\<close> by auto
  qed
  then have "CHR '':'' \<notin> set ds"
    by (force simp: ds_def seqText_def)
  moreover have "ds \<noteq> []"
    by (simp add: ds_def seqText_def decimal_nonempty)
  ultimately have "rev (takeWhile (\<lambda>c. c \<noteq> CHR '':'') (rev (st @ CHR '':'' # ds))) = ds"
    by (simp add: takeWhile_append)
  then show ?thesis
    using assms \<open>ds \<noteq> []\<close> unfolding ds_def by (simp add: parseCursor_def cursorText_def Let_def)
qed

lemma serveFeed_page:
  assumes "\<forall>e \<in> set (t_events db). ev_hash e \<noteq> None" "rq_after_seq q = None"
  shows "serveFeed db l q = Inr (map (\<lambda>e. redactEvent l (stored e) (outForDelivery db e)) (page db l q),
    map_option cursorText (nextCursor (page db l q) (rq_limit q)))"
proof -
  have keys: "keyset (redactEvent l (stored e) o') = keyset e" for e o'
    by (subst redaction_keeps_the_envelope) (simp add: keyset_def)
  have "traverse (\<lambda>e. rowToEvent (eventToRow (stored e))) (page db l q) = Inr (map stored (page db l q))"
    using assms(1) by (intro traverse_map rowToEvent_eventToRow) (auto dest: page_member)
  then have "readEvents db l q = Inr (map (\<lambda>e. redactEvent l (stored e) (outForDelivery db e)) (page db l q))"
    using assms(2) by (simp add: readEvents_def)
  then show ?thesis
    by (auto simp: serveFeed_def readError_def nextCursor_def last_map keys)
qed

text \<open>A client that follows \<open>next_cursor\<close> on \<open>GET /v1/events\<close>.\<close>

fun followFeed ::
  "nat \<Rightarrow> (string \<Rightarrow> jsnum) \<Rightarrow> 'k ledger_system \<Rightarrow> session \<Rightarrow> feed_params \<Rightarrow> api_error + jvalue ledger_event list" where
  "followFeed 0 number S s p = Inr []"
| "followFeed (Suc n) number S s p =
     ebind (getEvents number S s p) (\<lambda>(events, next).
       case next of
         None \<Rightarrow> Inr events
       | Some c \<Rightarrow> ebind (followFeed n number S s (p \<lparr> fp_cursor := Some c \<rparr>)) (\<lambda>rest. Inr (events @ rest)))"

definition feedQuery :: "feed_params \<Rightarrow> int option \<Rightarrow> event_kind list option \<Rightarrow> (string \<times> int) option \<Rightarrow> read_query" where
  "feedQuery p limit kinds cursor = \<lparr> rq_shipment_id = None, rq_after_seq = None, rq_cursor = cursor, rq_limit = limit,
     rq_kinds = kinds, rq_ts_desc = False, rq_before_ts = None, rq_include_shadow = fp_includeShadow p \<rparr>"

lemma getEvents_page:
  assumes "ss_role s \<in> {Admin, Ops, Finance, ReadOnly}" "resolveTenantDb S (ss_tenant s) = Inr db"
    "parseLimit number (fp_limit p) = Inr limit" "parseCursor number (fp_cursor p) = Inr cursor" "fp_after_seq p = None"
    "parseKinds (fp_kind p) = Inr kinds" "\<forall>e \<in> set (t_events db). ev_hash e \<noteq> None"
  shows "getEvents number S s p = Inr (map (\<lambda>e. redactEvent TenantLens (stored e) (outForDelivery db e)) (page db TenantLens (feedQuery p limit kinds cursor)),
    map_option cursorText (nextCursor (page db TenantLens (feedQuery p limit kinds cursor)) limit))"
proof -
  have "lensFor s = Inr TenantLens"
    using assms(1) by (auto simp: lensFor_def)
  then show ?thesis
    using assms serveFeed_page[of db "feedQuery p limit kinds cursor" TenantLens]
    by (simp add: getEvents_def requireRole_def readError_def parseAfterSeq_def feedQuery_def)
qed

lemma followFeed_walk:
  assumes "ss_role s \<in> {Admin, Ops, Finance, ReadOnly}" "resolveTenantDb S (ss_tenant s) = Inr db"
    "\<And>n. 0 \<le> n \<Longrightarrow> number (seqText n) = Whole n" "\<forall>e \<in> set (t_events db). ev_hash e \<noteq> None \<and> stream_id e \<noteq> [] \<and> 0 \<le> seq e"
    "parseLimit number (fp_limit p) = Inr limit" "parseCursor number (fp_cursor p) = Inr cursor" "fp_after_seq p = None"
    "parseKinds (fp_kind p) = Inr kinds"
  shows "followFeed fuel number S s p =
    Inr (map (\<lambda>e. redactEvent TenantLens (stored e) (outForDelivery db e)) (walk fuel db TenantLens (feedQuery p limit kinds cursor)))"
  using assms(5-8)
proof (induction fuel arbitrary: p cursor)
  case (Suc fuel)
  let ?page = "page db TenantLens (feedQuery p limit kinds cursor)"
  note here = getEvents_page[OF assms(1,2) Suc.prems] 
  show ?case
  proof (cases "nextCursor ?page limit")
    case None
    then show ?thesis
      using here assms(4) by (simp add: feedQuery_def)
  next
    case (Some c)
    then have c: "c = keyset (List.last ?page)" "?page \<noteq> []"
      by (auto simp: nextCursor_def split: if_splits)
    then have "List.last ?page \<in> set (t_events db)"
      using page_member last_in_set by blast
    then obtain st n where n: "c = (st, n)" "st \<noteq> []" "0 \<le> n"
      using assms(4) c(1) by (auto simp: keyset_def)
    then have "parseCursor number (Some (cursorText c)) = Inr (Some c)"
      using cursor_roundtrip assms(3) by simp
    then have "followFeed fuel number S s (p \<lparr> fp_cursor := Some (cursorText c) \<rparr>) =
      Inr (map (\<lambda>e. redactEvent TenantLens (stored e) (outForDelivery db e))
        (walk fuel db TenantLens (feedQuery p limit kinds (Some c))))"
      using Suc.IH[of "p \<lparr> fp_cursor := Some (cursorText c) \<rparr>" "Some c"] Suc.prems by (simp add: feedQuery_def)
    then show ?thesis
      using here assms(4) Some by (simp add: feedQuery_def)
  qed
qed simp


text \<open>\<open>Number\<close> on a string of digits.\<close>

definition numberOf :: "string \<Rightarrow> jsnum" where
  "numberOf s = Whole (int (foldl (\<lambda>a c. 10 * a + (of_char c - 48)) 0 s))"

lemma numberOf_seqText: "0 \<le> n \<Longrightarrow> numberOf (seqText n) = Whole n"
proof -
  assume "0 \<le> n"
  have "\<forall>c \<in> set ds. isDigit c \<Longrightarrow> foldl (\<lambda>a c. 10 * a + (of_char c - 48)) k (map char_of ds :: string) = foldl (\<lambda>a d. 10 * a + (d - 48)) k ds" for ds :: "nat list" and k
    by (induction ds arbitrary: k) (auto simp: isDigit_def)
  then show ?thesis
    using decimal_digits decimal_value \<open>0 \<le> n\<close> by (simp add: numberOf_def seqText_def)
qed


end
