(* ===== verification/Edi.thy ===== *)
theory Edi
  imports EventsRoute "HOL-Library.AList" Complex_Main
begin

text \<open>
  The X12 adapter (\<open>packages/edi/src\<close>): the boundary schemas of \<open>types.ts\<close>, the byte-stable envelope writer
  \<open>writer.ts\<close> with its two serializers \<open>build-990.ts\<close> and \<open>build-214.ts\<close>, the tokenizer \<open>envelope.ts\<close>, the load-tender
  parser \<open>parse-204.ts\<close> and the partner mappings \<open>mapping.ts\<close>.

  The package is pure, and so is the model: each function is a HOL function to \<open>edi_error + 'a\<close>, one constructor of the
  error per message thrown. What it uses of the JavaScript library is written out: \<open>padStart\<close>, \<open>padEnd\<close>, \<open>slice\<close>, \<open>trim\<close>,
  \<open>split\<close>, the UTC calendar of \<open>Date\<close>, \<open>Number\<close> on a decimal (the nearest double) and the order in which the own keys of an
  object are listed.
\<close>

datatype edi_error =
    InputTooLarge | NotAnIsa | IsaTooShort | IsaMalformed | UnmatchedSE | MissingIEA | UnmatchedST | EdiSchema

section \<open>The JavaScript strings\<close>

definition decimalText :: "nat \<Rightarrow> string" where
  "decimalText n = map char_of (decimal n)"

definition padStart :: "nat \<Rightarrow> char \<Rightarrow> string \<Rightarrow> string" where
  "padStart n c s = replicate (n - length s) c @ s"

definition padEnd :: "nat \<Rightarrow> char \<Rightarrow> string \<Rightarrow> string" where
  "padEnd n c s = s @ replicate (n - length s) c"

definition sliceFrom :: "nat \<Rightarrow> string \<Rightarrow> string" where
  "sliceFrom n s = drop n s"

text \<open>\<open>s.slice(-n)\<close>.\<close>

definition sliceEnd :: "nat \<Rightarrow> string \<Rightarrow> string" where
  "sliceEnd n s = drop (length s - n) s"

definition sliceOf :: "nat \<Rightarrow> nat \<Rightarrow> string \<Rightarrow> string" where
  "sliceOf i j s = drop i (take j s)"

fun joinOn :: "char \<Rightarrow> string list \<Rightarrow> string" where
  "joinOn c [] = []"
| "joinOn c [x] = x"
| "joinOn c (x # xs) = x @ c # joinOn c xs"

definition isDigitChar :: "char \<Rightarrow> bool" where
  "isDigitChar c = isDigit (of_char c)"

definition digitsOf :: "string \<Rightarrow> string" where
  "digitsOf s = filter isDigitChar s"

definition isAlphaNum :: "char \<Rightarrow> bool" where
  "isAlphaNum c = (let n = of_char c :: nat in isDigit n \<or> (65 \<le> n \<and> n \<le> 90) \<or> (97 \<le> n \<and> n \<le> 122))"

text \<open>The own keys of an object in the order they are listed: the array indices ascending, then the others as
  inserted. An assignment to a key that is there keeps its place (\<open>AList.update\<close>).\<close>

definition digitsValue :: "string \<Rightarrow> nat" where
  "digitsValue s = foldl (\<lambda>a c. 10 * a + (of_char c - 48)) 0 s"

definition isArrayIndex :: "string \<Rightarrow> bool" where
  "isArrayIndex k = (k \<noteq> [] \<and> (\<forall>c \<in> set k. isDigitChar c) \<and> (hd k \<noteq> CHR ''0'' \<or> k = ''0'') \<and> digitsValue k < 4294967295)"

definition objectEntries :: "(string \<times> 'v) list \<Rightarrow> (string \<times> 'v) list" where
  "objectEntries o' = sort_key (\<lambda>e. digitsValue (fst e)) (filter (\<lambda>e. isArrayIndex (fst e)) o'
     ) @ filter (\<lambda>e. \<not> isArrayIndex (fst e)) o'"

section \<open>The boundary schemas (\<open>types.ts\<close>)\<close>

definition PartnerScac :: "string \<Rightarrow> bool" where
  "PartnerScac s = (2 \<le> length s \<and> length s \<le> 15 \<and> (\<forall>c \<in> set s. isAlphaNum c))"

definition X12_DELIMITERS :: "char set" where
  "X12_DELIMITERS = {CHR ''*'', CHR 0x7E, CHR ''>''}"

definition X12Value :: "string \<Rightarrow> bool" where
  "X12Value v = (\<forall>c \<in> set v. c \<notin> X12_DELIMITERS)"

record edi_address =
  ea_street :: "string option"
  ea_city :: "string option"
  ea_state :: "string option"
  ea_zip :: "string option"

record appt_window =
  aw_start :: "string option"
  aw_end :: "string option"

datatype stop_role = SH | CN

record tender_stop =
  tstop_role :: stop_role
  tstop_name :: string
  tstop_address :: edi_address
  tstop_window :: "appt_window option"

record tender_bill_to =
  tb_name :: string
  tb_email :: "string option"
  tb_address :: "edi_address option"

record tender_dims =
  td_length :: "int option"
  td_width :: "int option"
  td_height :: "int option"
  td_pieces :: "int option"

datatype tender_purpose = Original | Cancellation

text \<open>A number read from a decimal is a double: finite or infinite.\<close>

datatype js_double = FiniteDouble rat | InfiniteDouble

record tender_doc =
  te_scac :: string
  te_purpose :: tender_purpose
  te_refs :: "(string \<times> string) list"
  te_stops :: "tender_stop list"
  te_billTo :: "tender_bill_to option"
  te_weight :: "js_double option"
  te_dims :: "tender_dims option"

text \<open>What the schema asks beyond the types: the carrier code and a positive, finite weight.\<close>

definition TenderDoc :: "tender_doc \<Rightarrow> edi_error + tender_doc" where
  "TenderDoc d =
     (if PartnerScac (te_scac d) \<and>
         (case te_weight d of None \<Rightarrow> True | Some (FiniteDouble w) \<Rightarrow> 0 < w | Some InfiniteDouble \<Rightarrow> False)
      then Inr d else Inl EdiSchema)"

record status_stop =
  su_code :: string
  su_reason :: "string option"
  su_ts :: string
  su_city :: "string option"
  su_state :: "string option"

record status_view =
  sv_ref :: string
  sv_scac :: string
  sv_isaControl :: string
  sv_gsControl :: string
  sv_stops :: "status_stop list"
  sv_sentAt :: "int option"

datatype tender_action = Accept | Decline

record tender_response =
  tr_ref :: string
  tr_scac :: string
  tr_isaControl :: string
  tr_gsControl :: string
  tr_action :: tender_action
  tr_sentAt :: "int option"

definition sentAt_ok :: "int option \<Rightarrow> bool" where
  "sentAt_ok s = (case s of None \<Rightarrow> True | Some t \<Rightarrow> 0 < t \<and> t \<le> MAX_SAFE)"

definition StatusStop :: "status_stop \<Rightarrow> bool" where
  "StatusStop s = (X12Value (su_code s) \<and> optional X12Value (su_reason s) \<and>
     optional X12Value (su_city s) \<and> optional X12Value (su_state s))"

definition StatusView :: "status_view \<Rightarrow> bool" where
  "StatusView v = (X12Value (sv_ref v) \<and> PartnerScac (sv_scac v) \<and> X12Value (sv_isaControl v) \<and>
     X12Value (sv_gsControl v) \<and> list_all StatusStop (sv_stops v) \<and> sentAt_ok (sv_sentAt v))"

definition TenderResponse :: "tender_response \<Rightarrow> bool" where
  "TenderResponse r = (X12Value (tr_ref r) \<and> PartnerScac (tr_scac r) \<and> X12Value (tr_isaControl r) \<and>
     X12Value (tr_gsControl r) \<and> sentAt_ok (tr_sentAt r))"

section \<open>The envelope writer (\<open>writer.ts\<close>)\<close>

definition EL :: char where
  "EL = CHR ''*''"

definition SEG :: char where
  "SEG = CHR 0x7E"

definition SUB :: char where
  "SUB = CHR ''>''"

definition SENDER :: string where
  "SENDER = ''SHUDDL''"

record stamps =
  isaDate :: string
  isaTime :: string
  gsDate :: string
  gsTime :: string

definition FIXED_STAMPS :: stamps where
  "FIXED_STAMPS = \<lparr> isaDate = ''000101'', isaTime = ''0000'', gsDate = ''20000101'', gsTime = ''0000'' \<rparr>"

text \<open>The UTC calendar of a \<open>Date\<close>: days since 1970-01-01 to year, month and day of the proleptic Gregorian
  calendar, by eras of 400 years beginning on the first of March, centuries, four-year cycles and years. An instant beyond 8.64e15 ms has no date; its
  fields are \<open>NaN\<close>.\<close>

definition civilFromDays :: "int \<Rightarrow> int \<times> int \<times> int" where
  "civilFromDays dayNo =
     (let z = dayNo + 719468;
          era = z div 146097;
          doe = z mod 146097;
          c = min 3 (doe div 36524);
          q = (doe - 36524 * c) div 1461;
          r = (doe - 36524 * c) mod 1461;
          u = min 3 (r div 365);
          yoe = 100 * c + 4 * q + u;
          doy = r - 365 * u;
          mp = (5 * doy + 2) div 153;
          d = doy - (153 * mp + 2) div 5 + 1;
          m = (if mp < 10 then mp + 3 else mp - 9)
      in (yoe + era * 400 + (if m \<le> 2 then 1 else 0), m, d))"

definition MAX_DATE :: int where
  "MAX_DATE = 8640000000000000"

definition fieldText :: "int option \<Rightarrow> string" where
  "fieldText n = (case n of None \<Rightarrow> ''NaN'' | Some i \<Rightarrow> decimalText (nat i))"

definition envelopeStamps :: "int \<Rightarrow> stamps" where
  "envelopeStamps sentAt =
     (let ok = \<lambda>x. (if sentAt \<le> MAX_DATE then Some x else None);
          (year, month, day) = civilFromDays (sentAt div 86400000);
          yyyy = padStart 4 (CHR ''0'') (fieldText (ok year));
          mm = padStart 2 (CHR ''0'') (fieldText (ok month));
          dd = padStart 2 (CHR ''0'') (fieldText (ok day));
          hh = padStart 2 (CHR ''0'') (fieldText (ok (sentAt div 3600000 mod 24)));
          mi = padStart 2 (CHR ''0'') (fieldText (ok (sentAt div 60000 mod 60)))
      in \<lparr> isaDate = sliceFrom 2 yyyy @ mm @ dd, isaTime = hh @ mi, gsDate = yyyy @ mm @ dd, gsTime = hh @ mi \<rparr>)"

definition pad :: "string \<Rightarrow> nat \<Rightarrow> string" where
  "pad value len = take len (padEnd len (CHR '' '') value)"

definition isaControl9 :: "string \<Rightarrow> string" where
  "isaControl9 c = sliceEnd 9 (padStart 9 (CHR ''0'') c)"

definition segment :: "string list \<Rightarrow> string" where
  "segment fs = joinOn EL fs"

record interchange =
  ic_docType :: string
  ic_gsCode :: string
  ic_isaControl :: string
  ic_gsControl :: string
  ic_receiver :: string
  ic_data :: "string list"
  ic_sentAt :: "int option"

definition stampsOf :: "interchange \<Rightarrow> stamps" where
  "stampsOf p = (case ic_sentAt p of None \<Rightarrow> FIXED_STAMPS | Some t \<Rightarrow> envelopeStamps t)"

definition stControl :: "interchange \<Rightarrow> string" where
  "stControl p = padStart 4 (CHR ''0'') (ic_gsControl p)"

definition isaFields :: "interchange \<Rightarrow> string list" where
  "isaFields p = [''ISA'', ''00'', pad [] 10, ''00'', pad [] 10, ''ZZ'', pad SENDER 15, ''ZZ'', pad (ic_receiver p) 15,
     isaDate (stampsOf p), isaTime (stampsOf p), ''U'', ''00401'', isaControl9 (ic_isaControl p), ''0'', ''P'', [SUB]]"

definition gsFields :: "interchange \<Rightarrow> string list" where
  "gsFields p = [''GS'', ic_gsCode p, SENDER, ic_receiver p, gsDate (stampsOf p), gsTime (stampsOf p), ic_gsControl p,
     ''X'', ''004010'']"

definition stFields :: "interchange \<Rightarrow> string list" where
  "stFields p = [''ST'', ic_docType p, stControl p]"

definition seFields :: "interchange \<Rightarrow> string list" where
  "seFields p = [''SE'', decimalText (length (ic_data p) + 2), stControl p]"

definition geFields :: "interchange \<Rightarrow> string list" where
  "geFields p = [''GE'', ''1'', ic_gsControl p]"

definition ieaFields :: "interchange \<Rightarrow> string list" where
  "ieaFields p = [''IEA'', ''1'', isaControl9 (ic_isaControl p)]"

definition buildInterchange :: "interchange \<Rightarrow> string" where
  "buildInterchange p =
     concat (map (\<lambda>s. s @ [SEG])
       ([segment (isaFields p), segment (gsFields p), segment (stFields p)] @ ic_data p @
        [segment (seFields p), segment (geFields p), segment (ieaFields p)]))"

section \<open>The outbound documents (\<open>build-990.ts\<close>, \<open>build-214.ts\<close>)\<close>

definition actionText :: "tender_action \<Rightarrow> string" where
  "actionText a = (case a of Accept \<Rightarrow> ''A'' | Decline \<Rightarrow> ''D'')"

definition build990 :: "tender_response \<Rightarrow> edi_error + string" where
  "build990 v =
     (if TenderResponse v then
        Inr (buildInterchange
          \<lparr> ic_docType = ''990'', ic_gsCode = ''GF'', ic_isaControl = tr_isaControl v, ic_gsControl = tr_gsControl v,
            ic_receiver = tr_scac v, ic_data = [segment [''B1'', tr_scac v, tr_ref v, actionText (tr_action v)]],
            ic_sentAt = tr_sentAt v \<rparr>)
      else Inl EdiSchema)"

definition isoToDateTime :: "string \<Rightarrow> string \<times> string" where
  "isoToDateTime ts' =
     (let digits = digitsOf ts'
      in (padEnd 8 (CHR ''0'') (sliceOf 0 8 digits), padEnd 4 (CHR ''0'') (sliceOf 8 12 digits)))"

definition textOr :: "string \<Rightarrow> string option \<Rightarrow> string" where
  "textOr d v = (case v of None \<Rightarrow> d | Some x \<Rightarrow> x)"

definition statusFields :: "nat \<Rightarrow> status_stop \<Rightarrow> string list list" where
  "statusFields i s =
     (case isoToDateTime (su_ts s) of (date, time) \<Rightarrow>
        [[''LX'', decimalText (i + 1)],
         [''AT7'', su_code s, textOr [] (su_reason s), [], [], date, time]] @
        (if su_city s \<noteq> None \<or> su_state s \<noteq> None then [[''MS1'', textOr [] (su_city s), textOr [] (su_state s)]]
         else []))"

definition data214 :: "status_view \<Rightarrow> string list list" where
  "data214 v =
     [''B10'', sv_ref v, sv_ref v, sv_scac v] #
     concat (map (\<lambda>(i, s). statusFields i s) (enumerate 0 (sv_stops v)))"

definition build214 :: "status_view \<Rightarrow> edi_error + string" where
  "build214 v =
     (if StatusView v then
        Inr (buildInterchange
          \<lparr> ic_docType = ''214'', ic_gsCode = ''QM'', ic_isaControl = sv_isaControl v, ic_gsControl = sv_gsControl v,
            ic_receiver = sv_scac v, ic_data = map segment (data214 v), ic_sentAt = sv_sentAt v \<rparr>)
      else Inl EdiSchema)"

section \<open>The tokenizer (\<open>envelope.ts\<close>)\<close>

record edi_segment =
  sg_tag :: string
  sg_elements :: "string list"

record tokenized =
  tk_segments :: "edi_segment list"
  tk_isaControl :: string
  tk_gsControl :: string
  tk_element :: char
  tk_segment :: char
  tk_sub :: char

definition ISA_MIN_LEN :: nat where
  "ISA_MIN_LEN = 106"

definition MAX_INPUT :: int where
  "MAX_INPUT = 5000000"

definition ISA_SCAN_LIMIT :: nat where
  "ISA_SCAN_LIMIT = 200"

definition charAt :: "string \<Rightarrow> nat \<Rightarrow> char option" where
  "charAt s i = (if i < length s then Some (s ! i) else None)"

text \<open>The scan for the sixteenth separator: the index of the \<open>k\<close>-th occurrence from here.\<close>

fun nthSeparator :: "char \<Rightarrow> nat \<Rightarrow> nat \<Rightarrow> string \<Rightarrow> nat option" where
  "nthSeparator e k i [] = None"
| "nthSeparator e k i (c # cs) =
     (if c = e then (if k = 1 then Some i else nthSeparator e (k - 1) (i + 1) cs)
      else nthSeparator e k (i + 1) cs)"

definition hasPrefix :: "string \<Rightarrow> string \<Rightarrow> bool" where
  "hasPrefix p s = (take (length p) s = p)"

definition toSegment :: "char \<Rightarrow> string \<Rightarrow> edi_segment" where
  "toSegment element trimmed =
     (case splitOn element trimmed of
        [] \<Rightarrow> \<lparr> sg_tag = [], sg_elements = [] \<rparr>
      | t # parts \<Rightarrow> \<lparr> sg_tag = t, sg_elements = parts \<rparr>)"

definition segmentsOf :: "char \<Rightarrow> char \<Rightarrow> string \<Rightarrow> edi_segment list" where
  "segmentsOf element seg raw = map (toSegment element) (filter (\<lambda>s. s \<noteq> []) (map trim (splitOn seg raw)))"

text \<open>The balance of the transaction sets and the trailer, in one pass.\<close>

fun checkBalance :: "edi_segment list \<Rightarrow> int \<Rightarrow> bool \<Rightarrow> edi_error + bool \<times> int" where
  "checkBalance [] balance iea = Inr (iea, balance)"
| "checkBalance (s # ss) balance iea =
     (if sg_tag s = ''ST'' then checkBalance ss (balance + 1) iea
      else if sg_tag s = ''SE'' then
        (if balance - 1 < 0 then Inl UnmatchedSE else checkBalance ss (balance - 1) iea)
      else if sg_tag s = ''IEA'' then checkBalance ss balance True
      else checkBalance ss balance iea)"

text \<open>\<open>elements[i]?.trim()\<close>.\<close>

definition elementAt :: "edi_segment \<Rightarrow> nat \<Rightarrow> string option" where
  "elementAt s i = (if i < length (sg_elements s) then Some (trim (sg_elements s ! i)) else None)"

definition firstElement :: "string \<Rightarrow> nat \<Rightarrow> edi_segment list \<Rightarrow> string" where
  "firstElement tag i segs =
     textOr [] (case find (\<lambda>s. sg_tag s = tag) segs of None \<Rightarrow> None | Some s \<Rightarrow> elementAt s i)"

definition tokenize :: "string \<Rightarrow> edi_error + tokenized" where
  "tokenize raw =
     (if int (length raw) > MAX_INPUT then Inl InputTooLarge
      else if \<not> hasPrefix ''ISA'' raw then Inl NotAnIsa
      else if length raw < ISA_MIN_LEN then Inl IsaTooShort
      else
        (case charAt raw 3 of
           None \<Rightarrow> Inl IsaTooShort
         | Some element \<Rightarrow>
             (case nthSeparator element 16 3 (drop 3 (take (min (length raw) ISA_SCAN_LIMIT) raw)) of
                None \<Rightarrow> Inl IsaMalformed
              | Some idx16 \<Rightarrow>
                  (case (charAt raw (idx16 + 1), charAt raw (idx16 + 2)) of
                     (Some sub, Some seg) \<Rightarrow>
                       (let segments = segmentsOf element seg raw in
                        ebind (checkBalance segments 0 False) (\<lambda>(hasIea, balance).
                        ebind (require hasIea MissingIEA) (\<lambda>_.
                        ebind (require (balance = 0) UnmatchedST) (\<lambda>_.
                        Inr \<lparr> tk_segments = segments,
                              tk_isaControl = firstElement ''ISA'' 12 segments,
                              tk_gsControl = firstElement ''GS'' 5 segments,
                              tk_element = element, tk_segment = seg, tk_sub = sub \<rparr>))))
                   | _ \<Rightarrow> Inl IsaTooShort))))"

section \<open>The load tender (\<open>parse-204.ts\<close>)\<close>

definition positiveInt204 :: "string option \<Rightarrow> int option" where
  "positiveInt204 v =
     (case v of
        None \<Rightarrow> None
      | Some x \<Rightarrow>
          (let t = trim x; n = int (digitsValue t) in
           if t \<noteq> [] \<and> (\<forall>c \<in> set t. isDigitChar c) \<and> n \<le> MAX_SAFE \<and> 0 < n then Some n else None))"

definition END_QUALIFIERS :: "string set" where
  "END_QUALIFIERS = {''02'', ''38'', ''35'', ''70''}"

definition toIso :: "string \<Rightarrow> string option \<Rightarrow> string option" where
  "toIso date time =
     (let d = digitsOf date; t = digitsOf (textOr [] time);
          day = sliceOf 0 4 d @ ''-'' @ sliceOf 4 6 d @ ''-'' @ sliceOf 6 8 d in
      if length d < 8 then None
      else if 4 \<le> length t then Some (day @ ''T'' @ sliceOf 0 2 t @ '':'' @ sliceOf 2 4 t)
      else Some day)"

text \<open>A truthy string: present and not empty.\<close>

definition truthy :: "string option \<Rightarrow> string option" where
  "truthy v = (case v of None \<Rightarrow> None | Some x \<Rightarrow> if x = [] then None else Some x)"

definition orKeep :: "'a option \<Rightarrow> 'a option \<Rightarrow> 'a option" where
  "orKeep new old = (case new of None \<Rightarrow> old | Some x \<Rightarrow> Some x)"

definition NO_ADDRESS :: edi_address where
  "NO_ADDRESS = \<lparr> ea_street = None, ea_city = None, ea_state = None, ea_zip = None \<rparr>"

definition addressStep :: "edi_address \<Rightarrow> edi_segment \<Rightarrow> edi_address" where
  "addressStep a s =
     (if sg_tag s = ''N3'' then a\<lparr> ea_street := orKeep (truthy (elementAt s 0)) (ea_street a) \<rparr>
      else if sg_tag s = ''N4'' then
        a\<lparr> ea_city := orKeep (truthy (elementAt s 0)) (ea_city a),
           ea_state := orKeep (truthy (elementAt s 1)) (ea_state a),
           ea_zip := orKeep (truthy (elementAt s 2)) (ea_zip a) \<rparr>
      else a)"

definition addressFromLoop :: "edi_segment list \<Rightarrow> edi_address" where
  "addressFromLoop segs = foldl addressStep NO_ADDRESS segs"

definition apptStep :: "appt_window \<Rightarrow> edi_segment \<Rightarrow> appt_window" where
  "apptStep w s =
     (if sg_tag s \<noteq> ''G62'' then w
      else
        (case toIso (textOr [] (elementAt s 1)) (elementAt s 3) of
           None \<Rightarrow> w
         | Some stamp \<Rightarrow>
             if textOr [] (elementAt s 0) \<in> END_QUALIFIERS then w\<lparr> aw_end := Some stamp \<rparr>
             else w\<lparr> aw_start := Some stamp \<rparr>))"

definition apptFromLoop :: "edi_segment list \<Rightarrow> appt_window option" where
  "apptFromLoop segs =
     (let w = foldl apptStep \<lparr> aw_start = None, aw_end = None \<rparr> segs in
      if aw_start w = None \<and> aw_end w = None then None else Some w)"

text \<open>The (qualifier, value) pairs of a contact, from PER03 on.\<close>

fun emailPairs :: "string list \<Rightarrow> string option" where
  "emailPairs (q # v # rest) = (if trim q = ''EM'' \<and> trim v \<noteq> [] then Some (trim v) else emailPairs rest)"
| "emailPairs _ = None"

fun emailFromLoop :: "edi_segment list \<Rightarrow> string option" where
  "emailFromLoop [] = None"
| "emailFromLoop (s # ss) =
     (if sg_tag s \<noteq> ''PER'' then emailFromLoop ss
      else (case emailPairs (drop 2 (sg_elements s)) of Some v \<Rightarrow> Some v | None \<Rightarrow> emailFromLoop ss))"

text \<open>\<open>Number\<close> on a decimal: the double nearest to the quotient, ties to even, gradual underflow, overflow to
  infinity.\<close>

fun bitLength :: "nat \<Rightarrow> nat" where
  "bitLength n = (if n = 0 then 0 else 1 + bitLength (n div 2))"

declare bitLength.simps [simp del]

definition pow2 :: "int \<Rightarrow> rat" where
  "pow2 e = (if 0 \<le> e then 2 ^ nat e else 1 / 2 ^ nat (- e))"

definition roundHalfEven :: "rat \<Rightarrow> int" where
  "roundHalfEven x =
     (let f = \<lfloor>x\<rfloor>; d = x - of_int f in
      if d < 1 / 2 then f else if 1 / 2 < d then f + 1 else if even f then f else f + 1)"

definition nearestDouble :: "nat \<Rightarrow> nat \<Rightarrow> js_double" where
  "nearestDouble num den =
     (if num = 0 then FiniteDouble 0
      else
        let r = of_nat num / of_nat den;
            l = int (bitLength num) - int (bitLength den);
            lg = (if r < pow2 l then l - 1 else l);
            e = max (- 1074) (lg - 52);
            m = roundHalfEven (r / pow2 e)
        in if 971 < e \<or> (e = 971 \<and> m = 2 ^ 53) then InfiniteDouble else FiniteDouble (of_int m * pow2 e))"

definition isDigits :: "string \<Rightarrow> bool" where
  "isDigits s = (s \<noteq> [] \<and> (\<forall>c \<in> set s. isDigitChar c))"

text \<open>The strict decimal \<open>/^\d+(\.\d+)?$/\<close> and its number.\<close>

definition decimalNumber :: "string \<Rightarrow> js_double option" where
  "decimalNumber s =
     (case splitOn (CHR ''.'') s of
        [a] \<Rightarrow> if isDigits a then Some (nearestDouble (digitsValue a) 1) else None
      | [a, b] \<Rightarrow>
          if isDigits a \<and> isDigits b then Some (nearestDouble (digitsValue (a @ b)) (10 ^ length b)) else None
      | _ \<Rightarrow> None)"

fun positiveDouble :: "js_double \<Rightarrow> bool" where
  "positiveDouble (FiniteDouble w) = (0 < w)"
| "positiveDouble InfiniteDouble = True"

definition weightOf :: "string option \<Rightarrow> js_double option" where
  "weightOf raw8 =
     (case raw8 of
        None \<Rightarrow> None
      | Some t \<Rightarrow>
          (case decimalNumber t of
             None \<Rightarrow> None
           | Some n \<Rightarrow> if positiveDouble n then Some n else None))"

text \<open>\<open>t.toUpperCase() === "IN"\<close>.\<close>

definition isInches :: "string option \<Rightarrow> bool" where
  "isInches u = (case u of None \<Rightarrow> False | Some t \<Rightarrow> t \<in> {''IN'', ''In'', ''iN'', ''in''})"

record n1_loop =
  nl_code :: string
  nl_name :: string
  nl_segs :: "edi_segment list"

record parse_state =
  pa_scac :: string
  pa_purpose :: tender_purpose
  pa_refs :: "(string \<times> string) list"
  pa_weight :: "js_double option"
  pa_length :: "int option"
  pa_width :: "int option"
  pa_height :: "int option"
  pa_pieces :: "int option"
  pa_loops :: "n1_loop list"

definition PARSE_START :: parse_state where
  "PARSE_START = \<lparr> pa_scac = [], pa_purpose = Original, pa_refs = [], pa_weight = None, pa_length = None,
     pa_width = None, pa_height = None, pa_pieces = None, pa_loops = [] \<rparr>"

definition putRef :: "string \<Rightarrow> string option \<Rightarrow> (string \<times> string) list \<Rightarrow> (string \<times> string) list" where
  "putRef k v refs = (case v of None \<Rightarrow> refs | Some x \<Rightarrow> AList.update k x refs)"

definition stepB2 :: "edi_segment \<Rightarrow> parse_state \<Rightarrow> parse_state" where
  "stepB2 s st = st\<lparr> pa_scac := textOr (pa_scac st) (truthy (elementAt s 1)),
     pa_refs := putRef ''SID'' (truthy (elementAt s 3)) (pa_refs st) \<rparr>"

definition stepB2A :: "edi_segment \<Rightarrow> parse_state \<Rightarrow> parse_state" where
  "stepB2A s st =
     (if elementAt s 0 = Some ''01'' then st\<lparr> pa_purpose := Cancellation \<rparr>
      else if elementAt s 0 = Some ''00'' then st\<lparr> pa_purpose := Original \<rparr>
      else st)"

definition stepL11 :: "edi_segment \<Rightarrow> parse_state \<Rightarrow> parse_state" where
  "stepL11 s st =
     (case (truthy (elementAt s 0), truthy (elementAt s 1)) of
        (Some val, Some qual) \<Rightarrow> st\<lparr> pa_refs := AList.update qual val (pa_refs st) \<rparr>
      | _ \<Rightarrow> st)"

text \<open>\<open>positiveInt\<close> takes the raw element and trims it itself, like \<open>elementAt\<close>.\<close>

definition stepAT8 :: "edi_segment \<Rightarrow> parse_state \<Rightarrow> parse_state" where
  "stepAT8 s st = st\<lparr> pa_weight := orKeep (weightOf (elementAt s 2)) (pa_weight st),
     pa_pieces := orKeep (positiveInt204 (elementAt s 3)) (pa_pieces st) \<rparr>"

definition stepL4 :: "edi_segment \<Rightarrow> parse_state \<Rightarrow> parse_state" where
  "stepL4 s st =
     (if isInches (elementAt s 3) then
        (case (positiveInt204 (elementAt s 0), positiveInt204 (elementAt s 1), positiveInt204 (elementAt s 2)) of
           (Some l, Some w, Some h) \<Rightarrow>
             st\<lparr> pa_length := Some l, pa_width := Some w, pa_height := Some h \<rparr>
         | _ \<Rightarrow> st)
      else st)"

definition stepN1 :: "edi_segment \<Rightarrow> parse_state \<Rightarrow> parse_state" where
  "stepN1 s st = st\<lparr> pa_loops := pa_loops st @
     [\<lparr> nl_code = textOr [] (elementAt s 0), nl_name = textOr [] (elementAt s 1), nl_segs = [] \<rparr>] \<rparr>"

text \<open>The current loop is the last one.\<close>

definition stepLoop :: "edi_segment \<Rightarrow> parse_state \<Rightarrow> parse_state" where
  "stepLoop s st =
     (if pa_loops st = [] then st
      else st\<lparr> pa_loops := butlast (pa_loops st) @
             [(last (pa_loops st))\<lparr> nl_segs := nl_segs (last (pa_loops st)) @ [s] \<rparr>] \<rparr>)"

definition parseStep :: "parse_state \<Rightarrow> edi_segment \<Rightarrow> parse_state" where
  "parseStep st s =
     (if sg_tag s = ''B2'' then stepB2 s st
      else if sg_tag s = ''B2A'' then stepB2A s st
      else if sg_tag s = ''L11'' then stepL11 s st
      else if sg_tag s = ''AT8'' then stepAT8 s st
      else if sg_tag s = ''L4'' then stepL4 s st
      else if sg_tag s = ''N1'' then stepN1 s st
      else if sg_tag s \<in> {''N3'', ''N4'', ''G62'', ''PER''} then stepLoop s st
      else st)"

definition roleOf :: "string \<Rightarrow> stop_role option" where
  "roleOf c = (if c = ''SH'' then Some SH else if c = ''CN'' then Some CN else None)"

definition toStop :: "stop_role \<Rightarrow> n1_loop \<Rightarrow> tender_stop" where
  "toStop r l = \<lparr> tstop_role = r, tstop_name = nl_name l, tstop_address = addressFromLoop (nl_segs l),
     tstop_window = apptFromLoop (nl_segs l) \<rparr>"

definition stopsOf :: "n1_loop list \<Rightarrow> tender_stop list" where
  "stopsOf loops =
     concat (map (\<lambda>l. case roleOf (nl_code l) of None \<Rightarrow> [] | Some r \<Rightarrow> [toStop r l]) loops)"

definition toBillTo :: "n1_loop \<Rightarrow> tender_bill_to" where
  "toBillTo l = \<lparr> tb_name = nl_name l, tb_email = truthy (emailFromLoop (nl_segs l)),
     tb_address = (if addressFromLoop (nl_segs l) = NO_ADDRESS then None else Some (addressFromLoop (nl_segs l))) \<rparr>"

definition billToOf :: "n1_loop list \<Rightarrow> tender_bill_to option" where
  "billToOf loops = foldl (\<lambda>b l. if nl_code l = ''BT'' then Some (toBillTo l) else b) None loops"

definition dimsOf :: "parse_state \<Rightarrow> tender_dims option" where
  "dimsOf st =
     (if pa_length st = None \<and> pa_width st = None \<and> pa_height st = None \<and> pa_pieces st = None then None
      else Some \<lparr> td_length = pa_length st, td_width = pa_width st, td_height = pa_height st,
                  td_pieces = pa_pieces st \<rparr>)"

definition assembleTender :: "parse_state \<Rightarrow> tender_doc" where
  "assembleTender st = \<lparr> te_scac = pa_scac st, te_purpose = pa_purpose st, te_refs = pa_refs st,
     te_stops = stopsOf (pa_loops st), te_billTo = billToOf (pa_loops st), te_weight = pa_weight st,
     te_dims = dimsOf st \<rparr>"

definition parse204 :: "string \<Rightarrow> edi_error + tender_doc" where
  "parse204 raw =
     ebind (tokenize raw) (\<lambda>t. TenderDoc (assembleTender (foldl parseStep PARSE_START (tk_segments t))))"

section \<open>Partner mappings (\<open>mapping.ts\<close>)\<close>

record partner_mapping =
  pm_version :: string
  pm_statusDialect :: "(string \<times> string) list"
  pm_refQualifiers :: "(string \<times> string) list"

definition DEFAULT_004010 :: partner_mapping where
  "DEFAULT_004010 = \<lparr> pm_version = ''004010'',
     pm_statusDialect = [(''arrived'', ''X3''), (''departed'', ''AF''), (''delivered'', ''D1''), (''pod'', ''D1'')],
     pm_refQualifiers = [(''BM'', ''bol''), (''PO'', ''po''), (''CR'', ''customerRef''), (''SID'', ''shipmentId'')] \<rparr>"

text \<open>A stored configuration as the schema has parsed it; an unknown top-level field is a refusal
  (\<open>pc_unknown\<close> lists them).\<close>

record partner_config =
  pc_version :: "string option"
  pc_statusDialect :: "(string \<times> string) list option"
  pc_refQualifiers :: "(string \<times> string) list option"
  pc_unknown :: "string list"

definition assign :: "(string \<times> 'v) list \<Rightarrow> (string \<times> 'v) list \<Rightarrow> (string \<times> 'v) list" where
  "assign o1 o2 = foldl (\<lambda>o' e. AList.update (fst e) (snd e) o') o1 (objectEntries o2)"

definition resolveMapping :: "partner_config \<Rightarrow> edi_error + partner_mapping" where
  "resolveMapping c =
     (if pc_unknown c \<noteq> [] then Inl EdiSchema
      else Inr \<lparr> pm_version = textOr (pm_version DEFAULT_004010) (pc_version c),
             pm_statusDialect = assign (pm_statusDialect DEFAULT_004010)
               (case pc_statusDialect c of None \<Rightarrow> [] | Some d \<Rightarrow> d),
             pm_refQualifiers = assign (pm_refQualifiers DEFAULT_004010)
               (case pc_refQualifiers c of None \<Rightarrow> [] | Some d \<Rightarrow> d) \<rparr>)"

definition renameRef :: "partner_mapping \<Rightarrow> string \<Rightarrow> string" where
  "renameRef m k = textOr k (map_of (pm_refQualifiers m) k)"

definition applyMapping :: "tender_doc \<Rightarrow> partner_mapping \<Rightarrow> tender_doc" where
  "applyMapping t m =
     t\<lparr> te_refs := foldl (\<lambda>o' e. AList.update (renameRef m (fst e)) (snd e) o') [] (objectEntries (te_refs t)) \<rparr>"

definition dialectStatus :: "string \<Rightarrow> partner_mapping \<Rightarrow> string" where
  "dialectStatus code m = textOr code (map_of (pm_statusDialect m) code)"

end
