(* ===== verification/EdiLaws.thy ===== *)
theory EdiLaws
  imports Edi
begin

text \<open>
  Laws of the X12 adapter: what the receiver's tokenizer reads back from an interchange the writer built, and the
  load-tender parser as a declarative reading of the segment list (the last valid value of every field, the loops
  cut at the N1 segments).
\<close>

section \<open>Splitting and joining\<close>

definition rtrim :: "string \<Rightarrow> string" where
  "rtrim s = rev (dropWhile isWhitespace (rev s))"

lemma trim_rtrim: "s \<noteq> [] \<Longrightarrow> \<not> isWhitespace (hd s) \<Longrightarrow> trim s = rtrim s"
  by (cases s) (simp_all add: trim_def rtrim_def)

lemma rtrim_append: "\<not> isWhitespace c \<Longrightarrow> rtrim (a @ c # l) = a @ c # rtrim l"
proof -
  assume c: "\<not> isWhitespace c"
  have "dropWhile isWhitespace (rev l @ c # rev a) = dropWhile isWhitespace (rev l) @ c # rev a"
    using c by (induction "rev l" arbitrary: l) (simp_all add: dropWhile_append3 dropWhile_append)
  then show ?thesis by (simp add: rtrim_def)
qed

lemma set_rtrim: "set (rtrim s) \<subseteq> set s"
  by (auto simp: rtrim_def dest: set_dropWhileD)

lemma trim_idem: "trim (trim s) = trim s"
proof -
  have *: "dropWhile P (rev (dropWhile P (rev (dropWhile P s)))) = rev (dropWhile P (rev (dropWhile P s)))" for P :: "char \<Rightarrow> bool"
  proof (cases "dropWhile P s")
    case (Cons c cs)
    then have c: "\<not> P c" by (metis hd_dropWhile list.distinct(1) list.sel(1))
    have "dropWhile P (rev cs @ [c]) = dropWhile P (rev cs) @ [c]" using c by (induction "rev cs" arbitrary: cs) (simp_all add: dropWhile_append)
    then show ?thesis using Cons c by simp
  next
    case Nil
    then show ?thesis by (simp only: Nil dropWhile.simps rev.simps)
  qed
  have **: "dropWhile P (dropWhile P s') = dropWhile P s'" for P :: "char \<Rightarrow> bool" and s'
    by (induction s') simp_all
  show ?thesis unfolding trim_def * by (simp add: **)
qed

lemma joinOn_flat: "joinOn c (x # xs) = x @ concat (map (\<lambda>f. c # f) xs)"
  by (induction xs arbitrary: x) simp_all

lemma splitOn_nonempty: "splitOn c s \<noteq> []"
  by (induction s) (simp_all split: list.split)

lemma splitOn_clean: "c \<notin> set x \<Longrightarrow> splitOn c x = [x]"
  by (induction x) auto

lemma splitOn_sep: "c \<notin> set x \<Longrightarrow> splitOn c (x @ c # s) = x # splitOn c s"
  by (induction x) auto

lemma splitOn_flat: "c \<notin> set x \<Longrightarrow> \<forall>f \<in> set xs. c \<notin> set f \<Longrightarrow>
    splitOn c (x @ concat (map (\<lambda>f. c # f) xs)) = x # xs"
  by (induction xs arbitrary: x) (simp_all add: splitOn_clean splitOn_sep)

lemma splitOn_joinOn: "xs \<noteq> [] \<Longrightarrow> \<forall>f \<in> set xs. c \<notin> set f \<Longrightarrow> splitOn c (joinOn c xs) = xs"
  by (cases xs) (simp_all add: joinOn_flat splitOn_flat)

lemma splitOn_terminated: "\<forall>f \<in> set xs. c \<notin> set f \<Longrightarrow> splitOn c (concat (map (\<lambda>s. s @ [c]) xs)) = xs @ [[]]"
  by (induction xs) (simp_all add: splitOn_sep)

lemma set_joinOn: "set (joinOn c xs) \<subseteq> insert c (\<Union>f \<in> set xs. set f)"
  by (cases xs) (auto simp: joinOn_flat)

section \<open>A segment on the wire\<close>

text \<open>The receiver trims a segment, so white space at the end of the last element does not arrive.\<close>

fun wireSegment :: "string list \<Rightarrow> edi_segment" where
  "wireSegment [] = \<lparr> sg_tag = [], sg_elements = [] \<rparr>"
| "wireSegment (t # xs) = \<lparr> sg_tag = t, sg_elements = (if xs = [] then [] else butlast xs @ [rtrim (last xs)]) \<rparr>"

definition cleanText :: "string \<Rightarrow> bool" where
  "cleanText s = (EL \<notin> set s \<and> SEG \<notin> set s)"

definition cleanFields :: "string list \<Rightarrow> bool" where
  "cleanFields fs = (2 \<le> length fs \<and> hd fs \<noteq> [] \<and> \<not> isWhitespace (hd (hd fs)) \<and> list_all cleanText fs)"

lemma EL_facts [simp]: "\<not> isWhitespace EL" "EL \<noteq> SEG" "SEG \<noteq> EL"
  by (simp_all add: EL_def SEG_def isWhitespace_def)

lemma trim_segment:
  assumes "cleanFields (t # xs)"
  shows "trim (segment (t # xs)) = segment (t # butlast xs @ [rtrim (last xs)])"
proof -
  obtain ys l where xs: "xs = ys @ [l]" using assms by (cases xs rule: rev_cases) (auto simp: cleanFields_def)
  have t: "t \<noteq> []" "\<not> isWhitespace (hd t)" using assms by (simp_all add: cleanFields_def)
  have "trim (segment (t # xs)) = rtrim ((t @ concat (map (\<lambda>f. EL # f) ys)) @ EL # l)"
    using t by (simp add: trim_rtrim segment_def joinOn_flat xs)
  then show ?thesis by (simp only: rtrim_append EL_facts simp_thms) (simp add: segment_def joinOn_flat xs)
qed

lemma toSegment_wire:
  assumes "cleanFields fs"
  shows "toSegment EL (trim (segment fs)) = wireSegment fs" and "trim (segment fs) \<noteq> []"
    and "SEG \<notin> set (segment fs)"
proof -
  obtain t xs where fs: "fs = t # xs" "xs \<noteq> []"
    using assms by (cases fs; cases "tl fs") (auto simp: cleanFields_def)
  have c: "\<forall>f \<in> set (t # xs). EL \<notin> set f \<and> SEG \<notin> set f"
    using assms fs(1) by (simp add: cleanFields_def cleanText_def list_all_iff)
  have "\<forall>f \<in> set (t # butlast xs @ [rtrim (last xs)]). EL \<notin> set f"
    using c fs(2) set_rtrim[of "last xs"] last_in_set[OF fs(2)] by (auto dest: in_set_butlastD)
  then show "toSegment EL (trim (segment fs)) = wireSegment fs"
    using trim_segment assms fs by (simp add: toSegment_def segment_def splitOn_joinOn del: joinOn.simps)
  show "trim (segment fs) \<noteq> []"
    using trim_segment assms fs by (simp add: segment_def joinOn_flat cleanFields_def)
  show "SEG \<notin> set (segment fs)"
    using set_joinOn[of EL "t # xs"] c by (auto simp: fs segment_def simp del: joinOn.simps)
qed

lemma segmentsOf_wire:
  assumes "list_all cleanFields fss"
  shows "segmentsOf EL SEG (concat (map (\<lambda>s. s @ [SEG]) (map segment fss))) = map wireSegment fss"
proof -
  have "\<forall>f \<in> set (map segment fss). SEG \<notin> set f" using assms toSegment_wire(3) by (auto simp: list_all_iff)
  then have "splitOn SEG (concat (map (\<lambda>s. s @ [SEG]) (map segment fss))) = map segment fss @ [[]]"
    by (rule splitOn_terminated)
  moreover have "filter (\<lambda>s. s \<noteq> []) (map trim (map segment fss)) = map trim (map segment fss)"
    using assms toSegment_wire(2) by (auto simp: list_all_iff filter_id_conv)
  moreover have "map (toSegment EL) (map trim (map segment fss)) = map wireSegment fss"
    using assms toSegment_wire(1) by (auto simp: list_all_iff)
  ultimately show ?thesis by (simp add: segmentsOf_def trim_def)
qed

section \<open>The header scan\<close>

lemma nthSeparator_skip: "e \<notin> set a \<Longrightarrow> nthSeparator e k i (a @ s) = nthSeparator e k (i + length a) s"
  by (induction a arbitrary: i) auto

lemma nthSeparator_flat:
  assumes "fs \<noteq> []" "\<forall>f \<in> set fs. e \<notin> set f"
  shows "nthSeparator e (length fs) i (concat (map (\<lambda>f. e # f) fs) @ z) =
    Some (i + length (concat (map (\<lambda>f. e # f) (butlast fs))))"
  using assms
proof (induction fs arbitrary: i)
  case (Cons f fs)
  show ?case
  proof (cases fs)
    case Nil
    then show ?thesis by simp
  next
    case (Cons g gs)
    then have "nthSeparator e (length fs) (Suc i + length f) (concat (map (\<lambda>f. e # f) fs) @ z) =
        Some (Suc i + length f + length (concat (map (\<lambda>f. e # f) (butlast fs))))"
      using Cons.IH[of "Suc i + length f"] Cons.prems by simp
    moreover have "e \<notin> set f" using Cons.prems by simp
    ultimately show ?thesis using Cons by (simp add: nthSeparator_skip)
  qed
qed simp

text \<open>On an input that begins with sixteen separated fields of which the last is one character, the scan finds the
  sixteenth separator, the sub-element separator and the terminator.\<close>

lemma header_scan:
  assumes raw: "raw = ''ISA'' @ concat (map (\<lambda>f. e # f) (fs @ [[sub]])) @ seg # rest"
    and n: "length fs = 15" and free: "\<forall>f \<in> set fs. e \<notin> set f" "e \<noteq> sub"
    and len: "length (concat (map (\<lambda>f. e # f) fs)) \<le> 190"
  shows "charAt raw 3 = Some e"
    and "\<exists>i. nthSeparator e 16 3 (drop 3 (take (min (length raw) ISA_SCAN_LIMIT) raw)) = Some i \<and>
           charAt raw (i + 1) = Some sub \<and> charAt raw (i + 2) = Some seg"
proof -
  let ?a = "concat (map (\<lambda>f. e # f) fs)"
  obtain f0 gs where fs: "fs = f0 # gs" using n by (cases fs) auto
  show "charAt raw 3 = Some e" by (simp add: raw charAt_def fs)
  define z where "z = drop 3 (take (min (length raw) ISA_SCAN_LIMIT) raw)"
  have raw': "raw = ''ISA'' @ ?a @ e # sub # seg # rest" by (simp add: raw)
  have m: "min (length raw) ISA_SCAN_LIMIT = 3 + (length ?a + (2 + (min (length raw) ISA_SCAN_LIMIT - (length ?a + 5))))"
    using len by (simp add: raw' ISA_SCAN_LIMIT_def)
  have z: "z = ?a @ e # sub # take (min (length raw) ISA_SCAN_LIMIT - (length ?a + 5)) (seg # rest)"
    unfolding z_def by (subst m, subst (2) raw') (simp add: take_append eval_nat_numeral)
  have "nthSeparator e (length (fs @ [[sub]])) 3 (concat (map (\<lambda>f. e # f) (fs @ [[sub]])) @
      take (min (length raw) ISA_SCAN_LIMIT - (length ?a + 5)) (seg # rest)) =
    Some (3 + length (concat (map (\<lambda>f. e # f) (butlast (fs @ [[sub]])))))"
    by (rule nthSeparator_flat) (use free in auto)
  then have s: "nthSeparator e 16 3 z = Some (3 + length ?a)"
    by (simp add: z n)
  have "charAt raw (3 + length ?a + 1) = Some sub" "charAt raw (3 + length ?a + 2) = Some seg"
    by (simp_all add: raw' charAt_def nth_append)
  with s show "\<exists>i. nthSeparator e 16 3 (drop 3 (take (min (length raw) ISA_SCAN_LIMIT) raw)) = Some i \<and>
           charAt raw (i + 1) = Some sub \<and> charAt raw (i + 2) = Some seg"
    unfolding z_def by blast
qed

section \<open>The balance\<close>

definition dataTag :: "string \<Rightarrow> bool" where
  "dataTag t = (t \<notin> {''ISA'', ''GS'', ''ST'', ''SE'', ''GE'', ''IEA''})"

lemma checkBalance_data:
  "list_all (\<lambda>s. dataTag (sg_tag s)) ds \<Longrightarrow> checkBalance (ds @ ss) b iea = checkBalance ss b iea"
  by (induction ds) (auto simp: dataTag_def)

section \<open>The calendar\<close>

definition daysFromCivil :: "int \<times> int \<times> int \<Rightarrow> int" where
  "daysFromCivil = (\<lambda>(year, m, d).
     let y = (if m \<le> 2 then year - 1 else year);
         era = y div 400;
         yoe = y mod 400;
         mp = (if 2 < m then m - 3 else m + 9);
         doy = (153 * mp + 2) div 5 + d - 1
     in era * 146097 + (365 * yoe + yoe div 4 - yoe div 100 + doy) - 719468)"

lemma civilFromDays_parts:
  obtains era c q u doy mp where
    "civilFromDays n = (100 * c + 4 * q + u + era * 400 + (if (if mp < 10 then mp + 3 else mp - 9) \<le> 2 then 1 else 0),
       if mp < 10 then mp + 3 else mp - 9, doy - (153 * mp + 2) div 5 + 1)"
    "n = era * 146097 + 36524 * c + 1461 * q + 365 * u + doy - 719468"
    "0 \<le> c" "c \<le> 3" "0 \<le> q" "q \<le> 24" "0 \<le> u" "u \<le> 3" "0 \<le> doy" "doy \<le> 365"
    "mp = (5 * doy + 2) div 153" "era = (n + 719468) div 146097"
proof -
  define doe where "doe = (n + 719468) mod 146097"
  define c where "c = min 3 (doe div 36524)"
  define q where "q = (doe - 36524 * c) div 1461"
  define r where "r = (doe - 36524 * c) mod 1461"
  define u where "u = min 3 (r div 365)"
  have doe: "0 \<le> doe" "doe \<le> 146096" by (simp_all add: doe_def)
  have n: "n = (n + 719468) div 146097 * 146097 + doe - 719468" by (simp add: doe_def)
  have c: "0 \<le> c" "c \<le> 3" "0 \<le> doe - 36524 * c" "doe - 36524 * c \<le> 36524"
    using doe unfolding c_def by linarith+
  have q: "0 \<le> q" "q \<le> 24" unfolding q_def using c by linarith+
  have r: "0 \<le> r" "r \<le> 1460" by (simp_all add: r_def)
  have dr: "doe - 36524 * c = 1461 * q + r" by (simp add: q_def r_def)
  have u: "0 \<le> u" "u \<le> 3" "0 \<le> r - 365 * u" "r - 365 * u \<le> 365"
    using r unfolding u_def by linarith+
  define doy where "doy = r - 365 * u"
  define mp where "mp = (5 * doy + 2) div 153"
  have "civilFromDays n = (100 * c + 4 * q + u + (n + 719468) div 146097 * 400 +
      (if (if mp < 10 then mp + 3 else mp - 9) \<le> 2 then 1 else 0),
     if mp < 10 then mp + 3 else mp - 9, doy - (153 * mp + 2) div 5 + 1)"
    by (simp only: civilFromDays_def Let_def doe_def c_def q_def r_def u_def doy_def mp_def)
  moreover have "n = (n + 719468) div 146097 * 146097 + 36524 * c + 1461 * q + 365 * u + doy - 719468"
    using n dr unfolding doy_def by linarith
  ultimately show ?thesis
    by (rule that[OF _ _ c(1,2) q u(1,2) u(3,4)[folded doy_def] mp_def refl])
qed

lemma monthDay_bounds:
  fixes doy :: int
  assumes "0 \<le> doy" "doy \<le> 365" "mp = (5 * doy + 2) div 153"
  shows "0 \<le> mp" "mp \<le> 11" "1 \<le> doy - (153 * mp + 2) div 5 + 1" "doy - (153 * mp + 2) div 5 + 1 \<le> 31"
  using assms by linarith+

text \<open>The stamp is a date of the calendar, and it is the day of the instant.\<close>

lemma civilFromDays_date:
  assumes "civilFromDays n = (y, m, d)"
  shows "1 \<le> m" "m \<le> 12" "1 \<le> d" "d \<le> 31"
    and "0 \<le> n \<Longrightarrow> n \<le> 100000000 \<Longrightarrow> 0 \<le> y \<and> y < 1000000"
proof -
  obtain era c q u doy mp where p:
    "civilFromDays n = (100 * c + 4 * q + u + era * 400 + (if (if mp < 10 then mp + 3 else mp - 9) \<le> 2 then 1 else 0),
       if mp < 10 then mp + 3 else mp - 9, doy - (153 * mp + 2) div 5 + 1)"
    "0 \<le> c" "c \<le> 3" "0 \<le> q" "q \<le> 24" "0 \<le> u" "u \<le> 3" "0 \<le> doy" "doy \<le> 365" "mp = (5 * doy + 2) div 153"
    "era = (n + 719468) div 146097"
    by (rule civilFromDays_parts[of n])
  note b = monthDay_bounds[OF p(8-10)]
  show "1 \<le> m" "m \<le> 12" "1 \<le> d" "d \<le> 31" using p(1) assms b by (auto split: if_splits)
  assume "0 \<le> n" "n \<le> 100000000"
  then have "0 \<le> era" "era \<le> 700" using p(11) by linarith+
  then show "0 \<le> y \<and> y < 1000000" using p(1-7) assms by (auto split: if_splits)
qed

lemma civil_roundtrip: "daysFromCivil (civilFromDays n) = n"
proof -
  obtain era c q u doy mp where p:
    "civilFromDays n = (100 * c + 4 * q + u + era * 400 + (if (if mp < 10 then mp + 3 else mp - 9) \<le> 2 then 1 else 0),
       if mp < 10 then mp + 3 else mp - 9, doy - (153 * mp + 2) div 5 + 1)"
    "n = era * 146097 + 36524 * c + 1461 * q + 365 * u + doy - 719468"
    "0 \<le> c" "c \<le> 3" "0 \<le> q" "q \<le> 24" "0 \<le> u" "u \<le> 3" "0 \<le> doy" "doy \<le> 365" "mp = (5 * doy + 2) div 153"
    by (rule civilFromDays_parts[of n])
  note b = monthDay_bounds[OF p(9-11)]
  let ?y = "100 * c + 4 * q + u"
  have y: "?y div 4 = 25 * c + q" "?y div 100 = c" "(?y + era * 400) div 400 = era"
    using p(3-8) by linarith+
  have y': "?y mod 400 = ?y" by (rule mod_pos_pos_trivial) (use p(3-8) in linarith)+
  have "daysFromCivil (civilFromDays n) = era * 146097 + 36524 * c + 1461 * q + 365 * u + doy - 719468"
    unfolding p(1) using b by (simp add: daysFromCivil_def Let_def y y' add.commute[of 2])
  then show ?thesis using p(2) by simp
qed

section \<open>The texts the writer inserts\<close>

lemma decimalText_digits: "\<forall>c \<in> set (decimalText n). isDigitChar c"
proof -
  have "isDigitChar (char_of c)" if "isDigit c" for c :: nat
    using that by (simp add: isDigitChar_def isDigit_def)
  then show ?thesis using decimal_digits[of n] by (auto simp: decimalText_def)
qed

lemma decimalText_hd: "decimalText n \<noteq> []" "\<not> isWhitespace (hd (decimalText n))"
proof -
  show "decimalText n \<noteq> []" by (simp add: decimalText_def decimal_nonempty)
  then have "isDigitChar (hd (decimalText n))" using decimalText_digits[of n] by (meson hd_in_set)
  then show "\<not> isWhitespace (hd (decimalText n))" by (auto simp: isDigitChar_def isDigit_def isWhitespace_def Let_def)
qed

lemma decimal_length: "0 < k \<Longrightarrow> n < 10 ^ k \<Longrightarrow> length (decimal n) \<le> k"
proof (induction k arbitrary: n)
  case (Suc k)
  show ?case
  proof (cases "n < 10")
    case False
    then have "0 < k" using Suc.prems by (cases k) auto
    moreover have "n div 10 < 10 ^ k" using Suc.prems by (simp add: less_mult_imp_div_less mult.commute)
    ultimately have "length (decimal (n div 10)) \<le> k" by (rule Suc.IH)
    then show ?thesis by (subst decimal.simps) (simp add: False)
  qed (subst decimal.simps, simp)
qed simp

lemma cleanText_simps [simp]:
  "cleanText []"
  "cleanText (c # s) \<longleftrightarrow> c \<noteq> EL \<and> c \<noteq> SEG \<and> cleanText s"
  "cleanText (s @ s') \<longleftrightarrow> cleanText s \<and> cleanText s'"
  by (auto simp: cleanText_def)

lemma cleanText_subset: "set s \<subseteq> set s' \<Longrightarrow> cleanText s' \<Longrightarrow> cleanText s"
  by (auto simp: cleanText_def)

lemma digits_clean: "\<forall>c \<in> set s. isDigitChar c \<Longrightarrow> cleanText s"
  by (auto simp: cleanText_def isDigitChar_def isDigit_def EL_def SEG_def)

lemma char_codes [simp]:
  "CHR ''0'' \<noteq> EL" "CHR ''0'' \<noteq> SEG" "CHR '' '' \<noteq> EL" "CHR '' '' \<noteq> SEG"
  by (simp_all add: EL_def SEG_def)

lemma decimalText_clean [simp]: "cleanText (decimalText n)"
  by (rule digits_clean) (rule decimalText_digits)

lemma fieldText_clean [simp]: "cleanText (fieldText v)"
  by (simp add: fieldText_def EL_def SEG_def split: option.split)

lemma padStart_clean [simp]: "c \<noteq> EL \<Longrightarrow> c \<noteq> SEG \<Longrightarrow> cleanText (padStart n c s) \<longleftrightarrow> cleanText s"
  by (auto simp: padStart_def cleanText_def)

lemma padEnd_clean [simp]: "c \<noteq> EL \<Longrightarrow> c \<noteq> SEG \<Longrightarrow> cleanText (padEnd n c s) \<longleftrightarrow> cleanText s"
  by (auto simp: padEnd_def cleanText_def)

lemma slices_clean:
  "cleanText s \<Longrightarrow> cleanText (sliceFrom n s)" "cleanText s \<Longrightarrow> cleanText (sliceEnd n s)"
  "cleanText s \<Longrightarrow> cleanText (sliceOf i j s)"
  by (auto simp: cleanText_def sliceFrom_def sliceEnd_def sliceOf_def dest: in_set_dropD in_set_takeD)

lemma pad_clean: "cleanText s \<Longrightarrow> cleanText (pad s n)"
  by (auto simp: pad_def cleanText_def padEnd_def EL_def SEG_def dest: in_set_takeD)

lemma pad_length: "length (pad s n) = n"
  by (simp add: pad_def padEnd_def)

lemma isaControl9_clean: "cleanText s \<Longrightarrow> cleanText (isaControl9 s)"
  by (simp add: isaControl9_def slices_clean)

lemma isaControl9_length: "length (isaControl9 s) = 9"
  by (simp add: isaControl9_def sliceEnd_def padStart_def)

lemma X12Value_clean: "X12Value s \<Longrightarrow> cleanText s"
  by (auto simp: X12Value_def cleanText_def X12_DELIMITERS_def EL_def SEG_def)

lemma PartnerScac_clean: "PartnerScac s \<Longrightarrow> cleanText s"
  by (auto simp: PartnerScac_def cleanText_def isAlphaNum_def isDigit_def EL_def SEG_def Let_def)

lemma fieldText_length: "pred_option (\<lambda>i. i < 10 ^ k) v \<Longrightarrow> 3 \<le> k \<Longrightarrow> length (fieldText v) \<le> k"
  using decimal_length[of k "nat (the v)"]
  by (cases v) (auto simp: fieldText_def decimalText_def nat_less_iff)

lemma padStart_length: "length (padStart n c s) = max n (length s)"
  by (simp add: padStart_def)

text \<open>The dates and times of a stamp, from the texts of their five fields.\<close>

definition stampTexts :: "string \<Rightarrow> string \<Rightarrow> string \<Rightarrow> string \<Rightarrow> string \<Rightarrow> stamps" where
  "stampTexts yyyy mm dd hh mi =
     \<lparr> isaDate = sliceFrom 2 yyyy @ mm @ dd, isaTime = hh @ mi, gsDate = yyyy @ mm @ dd, gsTime = hh @ mi \<rparr>"

lemma stampTexts_text:
  assumes "cleanText yyyy" "cleanText mm" "cleanText dd" "cleanText hh" "cleanText mi"
    and "4 \<le> length yyyy" "length yyyy \<le> 6" "2 \<le> length mm" "length mm \<le> 3" "2 \<le> length dd" "length dd \<le> 3"
      "2 \<le> length hh" "length hh \<le> 3" "2 \<le> length mi" "length mi \<le> 3"
    and s: "s = stampTexts yyyy mm dd hh mi"
  shows "list_all cleanText [isaDate s, isaTime s, gsDate s, gsTime s] \<and>
      6 \<le> length (isaDate s) \<and> length (isaDate s) \<le> 20 \<and> 4 \<le> length (isaTime s) \<and> length (isaTime s) \<le> 20"
  using assms(1-15) by (simp add: s stampTexts_def slices_clean) (simp add: sliceFrom_def, linarith)

lemma envelopeStamps_texts:
  "envelopeStamps t =
     (let f = (\<lambda>k x. padStart k (CHR ''0'') (fieldText (if t \<le> MAX_DATE then Some x else None)));
          (year, month, day) = civilFromDays (t div 86400000)
      in stampTexts (f 4 year) (f 2 month) (f 2 day) (f 2 (t div 3600000 mod 24)) (f 2 (t div 60000 mod 60)))"
  by (simp add: envelopeStamps_def stampTexts_def Let_def split: prod.split)

lemma paddedField:
  assumes "t \<le> MAX_DATE \<Longrightarrow> x < 10 ^ k" "3 \<le> k" "n \<le> k"
    and "s = padStart n (CHR ''0'') (fieldText (if t \<le> MAX_DATE then Some x else None))"
  shows "cleanText s" "n \<le> length s" "length s \<le> k"
  using assms fieldText_length[of k "if t \<le> MAX_DATE then Some x else None"] by (simp_all add: padStart_length)

lemma stamps_text:
  assumes "pred_option (\<lambda>t. 0 < t) (ic_sentAt p)"
  shows "list_all cleanText [isaDate (stampsOf p), isaTime (stampsOf p), gsDate (stampsOf p), gsTime (stampsOf p)] \<and>
      6 \<le> length (isaDate (stampsOf p)) \<and> length (isaDate (stampsOf p)) \<le> 20 \<and>
      4 \<le> length (isaTime (stampsOf p)) \<and> length (isaTime (stampsOf p)) \<le> 20"
proof (cases "ic_sentAt p")
  case None
  then show ?thesis by (simp add: stampsOf_def FIXED_STAMPS_def EL_def SEG_def)
next
  case (Some t)
  obtain year month day where c: "civilFromDays (t div 86400000) = (year, month, day)" by (metis prod_cases3)
  define f where "f = (\<lambda>k x. padStart k (CHR ''0'') (fieldText (if t \<le> MAX_DATE then Some x else None)))"
  have b: "t \<le> MAX_DATE \<Longrightarrow> year < 10 ^ 6" "month < 10 ^ 3" "day < 10 ^ 3"
      "t div 3600000 mod 24 < 10 ^ 3" "t div 60000 mod 60 < 10 ^ 3"
    using civilFromDays_date[OF c] assms Some pos_mod_bound[of 24 "t div 3600000"] pos_mod_bound[of 60 "t div 60000"]
    by (simp_all add: MAX_DATE_def)
  have s: "stampsOf p = stampTexts (f 4 year) (f 2 month) (f 2 day) (f 2 (t div 3600000 mod 24)) (f 2 (t div 60000 mod 60))"
    by (simp add: stampsOf_def Some envelopeStamps_texts f_def c)
  have y: "cleanText (f 4 year)" "4 \<le> length (f 4 year)" "length (f 4 year) \<le> 6"
    by (rule paddedField[OF b(1), of _ 4]; simp add: f_def)+
  have o: "cleanText (f 2 x)" "2 \<le> length (f 2 x)" "length (f 2 x) \<le> 3" if "x < 10 ^ 3" for x
    by (rule paddedField[of t x 3 2 "f 2 x"]; use that in \<open>simp add: f_def\<close>)+
  show ?thesis
    by (rule stampTexts_text[OF y(1) o(1)[OF b(2)] o(1)[OF b(3)] o(1)[OF b(4)] o(1)[OF b(5)] y(2,3)
          o(2,3)[OF b(2)] o(2,3)[OF b(3)] o(2,3)[OF b(4)] o(2,3)[OF b(5)] s])
qed

section \<open>The interchange as the receiver reads it\<close>

definition interchangeFields :: "interchange \<Rightarrow> string list list \<Rightarrow> string list list" where
  "interchangeFields p fss = [isaFields p, gsFields p, stFields p] @ fss @ [seFields p, geFields p, ieaFields p]"

definition writable :: "interchange \<Rightarrow> string list list \<Rightarrow> bool" where
  "writable p fss =
     (ic_data p = map segment fss \<and> list_all cleanFields fss \<and> list_all (\<lambda>fs. dataTag (hd fs)) fss \<and>
      pred_option (\<lambda>t. 0 < t) (ic_sentAt p) \<and> length (ic_receiver p) \<le> 15 \<and>
      list_all cleanText [ic_docType p, ic_gsCode p, ic_isaControl p, ic_gsControl p, ic_receiver p])"

lemma wireSegment_tag: "sg_tag (wireSegment fs) = (if fs = [] then [] else hd fs)"
  by (cases fs) simp_all

lemma wireSegment_element:
  "i + 2 < length fs \<Longrightarrow> elementAt (wireSegment fs) i = Some (trim (fs ! (i + 1)))"
  by (cases fs) (auto simp: elementAt_def nth_append nth_butlast)

lemma envelope_tags:
  "sg_tag (wireSegment (isaFields p)) = ''ISA''" "sg_tag (wireSegment (gsFields p)) = ''GS''"
  "sg_tag (wireSegment (stFields p)) = ''ST''" "sg_tag (wireSegment (seFields p)) = ''SE''"
  "sg_tag (wireSegment (geFields p)) = ''GE''" "sg_tag (wireSegment (ieaFields p)) = ''IEA''"
  by (simp_all only: isaFields_def gsFields_def stFields_def seFields_def geFields_def ieaFields_def wireSegment.simps
      edi_segment.simps)

lemma envelope_elements:
  "elementAt (wireSegment (isaFields p)) 12 = Some (trim (isaControl9 (ic_isaControl p)))"
  "elementAt (wireSegment (gsFields p)) 5 = Some (trim (ic_gsControl p))"
  "elementAt (wireSegment (seFields p)) 0 = Some (trim (decimalText (length (ic_data p) + 2)))"
  by (subst wireSegment_element; simp add: isaFields_def gsFields_def seFields_def eval_nat_numeral)+

lemma interchange_bytes:
  assumes "writable p fss"
  shows "buildInterchange p = concat (map (\<lambda>s. s @ [SEG]) (map segment (interchangeFields p fss)))"
  using assms by (simp add: buildInterchange_def interchangeFields_def writable_def)

lemma interchange_clean:
  assumes "writable p fss"
  shows "list_all cleanFields (interchangeFields p fss)"
proof -
  have w: "\<not> isWhitespace (CHR ''I'')" "\<not> isWhitespace (CHR ''G'')" "\<not> isWhitespace (CHR ''S'')"
    by (simp_all add: isWhitespace_def)
  have e: "cleanText SENDER" "SUB \<noteq> EL" "SUB \<noteq> SEG" by (simp_all add: SENDER_def EL_def SEG_def SUB_def)
  have t: "list_all cleanText [isaDate (stampsOf p), isaTime (stampsOf p), gsDate (stampsOf p), gsTime (stampsOf p)]"
    using assms stamps_text by (simp add: writable_def)
  have c: "list_all cleanText (isaFields p)" "list_all cleanText (gsFields p)" "list_all cleanText (stFields p)"
      "list_all cleanText (seFields p)" "list_all cleanText (geFields p)" "list_all cleanText (ieaFields p)"
    using assms t e
    by (simp_all add: writable_def isaFields_def gsFields_def stFields_def seFields_def geFields_def ieaFields_def
        stControl_def pad_clean isaControl9_clean) (simp_all add: EL_def SEG_def)
  show ?thesis
    using c assms w
    by (simp add: interchangeFields_def cleanFields_def writable_def)
      (simp add: isaFields_def gsFields_def stFields_def seFields_def geFields_def ieaFields_def)
qed

text \<open>The header the scan expects: fifteen separated fields, the sub-element separator and the terminator.\<close>

lemma interchange_header:
  assumes "writable p fss"
  obtains fs rest where
    "buildInterchange p = ''ISA'' @ concat (map (\<lambda>f. EL # f) (fs @ [[SUB]])) @ SEG # rest"
    "length fs = 15" "\<forall>f \<in> set fs. EL \<notin> set f" "length (concat (map (\<lambda>f. EL # f) fs)) \<le> 190"
    "106 \<le> length (buildInterchange p)"
proof -
  let ?fs = "butlast (tl (isaFields p))"
  let ?rest = "concat (map (\<lambda>s. s @ [SEG]) (map segment (tl (interchangeFields p fss))))"
  have isa: "isaFields p = ''ISA'' # ?fs @ [[SUB]]" by (simp add: isaFields_def)
  have fields: "interchangeFields p fss = isaFields p # tl (interchangeFields p fss)" by (simp add: interchangeFields_def)
  have raw: "buildInterchange p = ''ISA'' @ concat (map (\<lambda>f. EL # f) (?fs @ [[SUB]])) @ SEG # ?rest"
    unfolding interchange_bytes[OF assms]
    by (subst fields, subst isa) (simp add: segment_def joinOn_flat del: butlast.simps)
  have t: "6 \<le> length (isaDate (stampsOf p))" "length (isaDate (stampsOf p)) \<le> 20"
      "4 \<le> length (isaTime (stampsOf p))" "length (isaTime (stampsOf p)) \<le> 20"
    using assms stamps_text by (simp_all add: writable_def)
  have n: "length (concat (map (\<lambda>f. EL # f) ?fs)) = 90 + length (isaDate (stampsOf p)) + length (isaTime (stampsOf p))"
    by (simp add: isaFields_def pad_length isaControl9_length)
  have "list_all cleanText (isaFields p)"
    using interchange_clean[OF assms] by (simp add: interchangeFields_def cleanFields_def)
  then have free: "\<forall>f \<in> set ?fs. EL \<notin> set f"
    by (subst (asm) isa) (auto simp: list_all_iff cleanText_def)
  have len: "106 \<le> length (buildInterchange p)"
    using arg_cong[OF raw, of length] n t by simp
  show ?thesis
    by (rule that[OF raw _ free _ len]) (use n t in \<open>simp_all add: isaFields_def\<close>)
qed

lemma tokenize_Inr:
  assumes "int (length raw) \<le> MAX_INPUT" "hasPrefix ''ISA'' raw" "ISA_MIN_LEN \<le> length raw" "charAt raw 3 = Some e"
    "nthSeparator e 16 3 (drop 3 (take (min (length raw) ISA_SCAN_LIMIT) raw)) = Some i"
    "charAt raw (i + 1) = Some sub" "charAt raw (i + 2) = Some seg"
    "checkBalance (segmentsOf e seg raw) 0 False = Inr (True, 0)"
  shows "tokenize raw = Inr \<lparr> tk_segments = segmentsOf e seg raw,
      tk_isaControl = firstElement ''ISA'' 12 (segmentsOf e seg raw),
      tk_gsControl = firstElement ''GS'' 5 (segmentsOf e seg raw),
      tk_element = e, tk_segment = seg, tk_sub = sub \<rparr>"
  using assms(1-3)
  by (simp only: tokenize_def assms(4-8) not_less[symmetric] Let_def if_False option.case prod.case ebind_Inr
      require_True simp_thms refl)

theorem tokenize_interchange:
  assumes w: "writable p fss" and len: "int (length (buildInterchange p)) \<le> MAX_INPUT"
  shows "tokenize (buildInterchange p) =
    Inr \<lparr> tk_segments = map wireSegment (interchangeFields p fss),
          tk_isaControl = trim (isaControl9 (ic_isaControl p)), tk_gsControl = trim (ic_gsControl p),
          tk_element = EL, tk_segment = SEG, tk_sub = SUB \<rparr>"
proof -
  obtain fs rest where h:
    "buildInterchange p = ''ISA'' @ concat (map (\<lambda>f. EL # f) (fs @ [[SUB]])) @ SEG # rest"
    "length fs = 15" "\<forall>f \<in> set fs. EL \<notin> set f" "length (concat (map (\<lambda>f. EL # f) fs)) \<le> 190"
    "106 \<le> length (buildInterchange p)"
    by (rule interchange_header[OF w])
  have "EL \<noteq> SUB" by (simp add: EL_def SUB_def)
  note scan = header_scan[OF h(1,2,3) this h(4)]
  obtain i where i: "nthSeparator EL 16 3 (drop 3 (take (min (length (buildInterchange p)) ISA_SCAN_LIMIT)
      (buildInterchange p))) = Some i" "charAt (buildInterchange p) (i + 1) = Some SUB"
      "charAt (buildInterchange p) (i + 2) = Some SEG"
    using scan(2) by blast
  have start: "hasPrefix ''ISA'' (buildInterchange p)" by (simp add: h(1) hasPrefix_def)
  have segs: "segmentsOf EL SEG (buildInterchange p) = map wireSegment (interchangeFields p fss)"
    unfolding interchange_bytes[OF w] by (rule segmentsOf_wire[OF interchange_clean[OF w]])
  have "list_all (\<lambda>s. dataTag (sg_tag s)) (map wireSegment fss)"
    using w by (auto simp: writable_def list_all_iff wireSegment_tag cleanFields_def)
  then have bal: "checkBalance (map wireSegment (interchangeFields p fss)) 0 False = Inr (True, 0)"
    by (simp add: interchangeFields_def checkBalance_data envelope_tags)
  have ctl: "firstElement ''ISA'' 12 (map wireSegment (interchangeFields p fss)) = trim (isaControl9 (ic_isaControl p))"
      "firstElement ''GS'' 5 (map wireSegment (interchangeFields p fss)) = trim (ic_gsControl p)"
    by (simp_all add: interchangeFields_def firstElement_def envelope_tags envelope_elements textOr_def)
  show ?thesis
    using tokenize_Inr[OF len start _ scan(1) i, unfolded segs, OF _ bal] h(5) by (simp only: ctl ISA_MIN_LEN_def)
qed

section \<open>The two serializers write clean fields\<close>

lemma isoToDateTime_clean: "isoToDateTime x = (date, time) \<Longrightarrow> cleanText date \<and> cleanText time"
proof -
  have d: "cleanText (digitsOf x)" by (rule digits_clean) (simp add: digitsOf_def)
  assume "isoToDateTime x = (date, time)"
  then show ?thesis using slices_clean(3)[OF d] by (auto simp: isoToDateTime_def Let_def)
qed

lemma textOr_clean: "optional X12Value v \<Longrightarrow> cleanText (textOr [] v)"
  by (cases v) (simp_all add: optional_def textOr_def X12Value_clean)

lemma statusFields_clean:
  assumes "StatusStop s" "fs \<in> set (statusFields i s)"
  shows "cleanFields fs \<and> dataTag (hd fs)"
proof -
  obtain date time where d: "isoToDateTime (su_ts s) = (date, time)" by fastforce
  have w: "\<not> isWhitespace (CHR ''L'')" "\<not> isWhitespace (CHR ''A'')" "\<not> isWhitespace (CHR ''M'')"
    by (simp_all add: isWhitespace_def)
  have l: "cleanText ''LX''" "cleanText ''AT7''" "cleanText ''MS1''" by (simp_all add: EL_def SEG_def)
  consider "fs = [''LX'', decimalText (i + 1)]"
    | "fs = [''AT7'', su_code s, textOr [] (su_reason s), [], [], date, time]"
    | "fs = [''MS1'', textOr [] (su_city s), textOr [] (su_state s)]"
    using assms(2) by (auto simp: statusFields_def d split: if_splits)
  then show ?thesis
    using assms(1) isoToDateTime_clean[OF d] w l
    by cases (simp_all add: cleanFields_def dataTag_def StatusStop_def textOr_clean X12Value_clean del: cleanText_simps(2))
qed

lemma data214_clean:
  assumes "StatusView v" "fs \<in> set (data214 v)"
  shows "cleanFields fs \<and> dataTag (hd fs)"
proof -
  have w: "\<not> isWhitespace (CHR ''B'')" "cleanText ''B10''" by (simp_all add: isWhitespace_def EL_def SEG_def)
  have "fs = [''B10'', sv_ref v, sv_ref v, sv_scac v] \<or> (\<exists>i s. s \<in> set (sv_stops v) \<and> fs \<in> set (statusFields i s))"
    using assms(2) by (auto simp: data214_def in_set_enumerate_eq)
  then show ?thesis
  proof (elim disjE exE conjE)
    assume "fs = [''B10'', sv_ref v, sv_ref v, sv_scac v]"
    then show ?thesis
      using assms(1) w by (simp add: cleanFields_def dataTag_def StatusView_def X12Value_clean PartnerScac_clean del: cleanText_simps(2))
  next
    fix i s assume "s \<in> set (sv_stops v)" "fs \<in> set (statusFields i s)"
    then show ?thesis using assms(1) statusFields_clean by (auto simp: StatusView_def list_all_iff)
  qed
qed

lemma sentAt_positive: "sentAt_ok x \<Longrightarrow> pred_option (\<lambda>t. 0 < t) x"
  by (cases x) (simp_all add: sentAt_ok_def)

lemma build214_writable:
  assumes "build214 v = Inr raw"
  obtains p where "writable p (data214 v)" "raw = buildInterchange p" "ic_isaControl p = sv_isaControl v"
    "ic_gsControl p = sv_gsControl v" "ic_data p = map segment (data214 v)"
proof -
  let ?p = "\<lparr> ic_docType = ''214'', ic_gsCode = ''QM'', ic_isaControl = sv_isaControl v, ic_gsControl = sv_gsControl v,
            ic_receiver = sv_scac v, ic_data = map segment (data214 v), ic_sentAt = sv_sentAt v \<rparr>"
  have v: "StatusView v" "raw = buildInterchange ?p" using assms by (auto simp: build214_def split: if_splits)
  have t: "cleanText ''214''" "cleanText ''QM''" by (simp_all add: EL_def SEG_def)
  have "writable ?p (data214 v)"
    using v(1) data214_clean t
    by (auto simp: writable_def list_all_iff StatusView_def X12Value_clean PartnerScac_clean sentAt_positive PartnerScac_def
        simp del: cleanText_simps(2))
  then show ?thesis by (rule that) (use v in simp_all)
qed

definition fields990 :: "tender_response \<Rightarrow> string list" where
  "fields990 r = [''B1'', tr_scac r, tr_ref r, actionText (tr_action r)]"

lemma build990_writable:
  assumes "build990 r = Inr raw"
  obtains p where "writable p [fields990 r]" "raw = buildInterchange p" "ic_isaControl p = tr_isaControl r"
    "ic_gsControl p = tr_gsControl r" "ic_data p = [segment (fields990 r)]"
proof -
  let ?p = "\<lparr> ic_docType = ''990'', ic_gsCode = ''GF'', ic_isaControl = tr_isaControl r, ic_gsControl = tr_gsControl r,
            ic_receiver = tr_scac r, ic_data = [segment (fields990 r)], ic_sentAt = tr_sentAt r \<rparr>"
  have v: "TenderResponse r" "raw = buildInterchange ?p"
    using assms by (auto simp: build990_def fields990_def split: if_splits)
  have t: "cleanText ''990''" "cleanText ''GF''" "cleanText ''B1''" "\<not> isWhitespace (CHR ''B'')"
      "cleanText (actionText (tr_action r))"
    by (simp_all add: EL_def SEG_def isWhitespace_def actionText_def split: tender_action.split)
  have "writable ?p [fields990 r]"
    using v(1) t
    by (simp add: writable_def TenderResponse_def X12Value_clean PartnerScac_clean sentAt_positive fields990_def cleanFields_def
        dataTag_def del: cleanText_simps(2)) (simp add: PartnerScac_def)
  then show ?thesis by (rule that) (use v in simp_all)
qed

section \<open>Last valid value wins\<close>

lemma firstSome_snoc: "firstSome (xs @ [x]) = orKeep (firstSome xs) x"
  by (induction xs rule: firstSome.induct) (auto simp: orKeep_def split: option.split)

lemma foldl_keep:
  assumes "\<And>st s. fld (f st s) = orKeep (g s) (fld st)"
  shows "fld (foldl f st ss) = orKeep (firstSome (map g (rev ss))) (fld st)"
proof (induction ss arbitrary: st)
  case (Cons s ss)
  show ?case
    by (simp add: Cons.IH assms firstSome_snoc) (simp add: orKeep_def split: option.split)
qed (simp add: orKeep_def)

lemma foldl_textOr:
  assumes "\<And>st s. fld (f st s) = textOr (fld st) (g s)"
  shows "fld (foldl f st ss) = textOr (fld st) (firstSome (map g (rev ss)))"
proof (induction ss arbitrary: st)
  case (Cons s ss)
  show ?case
    by (simp add: Cons.IH assms firstSome_snoc) (simp add: orKeep_def textOr_def split: option.split)
qed (simp add: textOr_def)

definition scacIn :: "edi_segment \<Rightarrow> string option" where
  "scacIn s = (if sg_tag s = ''B2'' then truthy (elementAt s 1) else None)"

definition cancelIn :: "edi_segment \<Rightarrow> tender_purpose option" where
  "cancelIn s =
     (if sg_tag s = ''B2A'' \<and> elementAt s 0 = Some ''01'' then Some Cancellation
      else if sg_tag s = ''B2A'' \<and> elementAt s 0 = Some ''00'' then Some Original else None)"

definition refIn :: "string \<Rightarrow> edi_segment \<Rightarrow> string option" where
  "refIn q s =
     (if sg_tag s = ''B2'' \<and> q = ''SID'' then truthy (elementAt s 3)
      else if sg_tag s = ''L11'' \<and> truthy (elementAt s 1) = Some q then truthy (elementAt s 0)
      else None)"

definition weightIn :: "edi_segment \<Rightarrow> js_double option" where
  "weightIn s = (if sg_tag s = ''AT8'' then weightOf (elementAt s 2) else None)"

definition piecesIn :: "edi_segment \<Rightarrow> int option" where
  "piecesIn s = (if sg_tag s = ''AT8'' then positiveInt204 (elementAt s 3) else None)"

definition measureL4 :: "edi_segment \<Rightarrow> (int \<times> int \<times> int) option" where
  "measureL4 s =
     (if isInches (elementAt s 3) then
        (case (positiveInt204 (elementAt s 0), positiveInt204 (elementAt s 1), positiveInt204 (elementAt s 2)) of
           (Some l, Some w, Some h) \<Rightarrow> Some (l, w, h)
         | _ \<Rightarrow> None)
      else None)"

definition measureIn :: "edi_segment \<Rightarrow> (int \<times> int \<times> int) option" where
  "measureIn s = (if sg_tag s = ''L4'' then measureL4 s else None)"

definition onWire :: "(edi_segment \<Rightarrow> 'a option) \<Rightarrow> edi_segment list \<Rightarrow> 'a option" where
  "onWire g segs = firstSome (map g (rev segs))"

lemmas parse_steps = parseStep_def stepB2_def stepB2A_def stepL11_def stepAT8_def stepL4_def stepN1_def stepLoop_def

lemma step_projections [simp]:
  "pa_refs (stepB2A s st) = pa_refs st" "pa_refs (stepAT8 s st) = pa_refs st" "pa_refs (stepL4 s st) = pa_refs st"
  "pa_refs (stepN1 s st) = pa_refs st" "pa_refs (stepLoop s st) = pa_refs st"
  "pa_length (stepB2 s st) = pa_length st" "pa_length (stepB2A s st) = pa_length st" "pa_length (stepL11 s st) = pa_length st"
  "pa_length (stepAT8 s st) = pa_length st" "pa_length (stepN1 s st) = pa_length st" "pa_length (stepLoop s st) = pa_length st"
  "pa_width (stepB2 s st) = pa_width st" "pa_width (stepB2A s st) = pa_width st" "pa_width (stepL11 s st) = pa_width st"
  "pa_width (stepAT8 s st) = pa_width st" "pa_width (stepN1 s st) = pa_width st" "pa_width (stepLoop s st) = pa_width st"
  "pa_height (stepB2 s st) = pa_height st" "pa_height (stepB2A s st) = pa_height st" "pa_height (stepL11 s st) = pa_height st"
  "pa_height (stepAT8 s st) = pa_height st" "pa_height (stepN1 s st) = pa_height st" "pa_height (stepLoop s st) = pa_height st"
  by (simp_all add: stepB2_def stepB2A_def stepL11_def stepAT8_def stepL4_def stepN1_def stepLoop_def split: option.split)

lemma refs_B2: "map_of (pa_refs (stepB2 s st)) q =
    orKeep (if q = ''SID'' then truthy (elementAt s 3) else None) (map_of (pa_refs st) q)"
  by (cases "truthy (elementAt s 3)") (simp_all add: stepB2_def putRef_def update_conv orKeep_def)

lemma refs_L11: "map_of (pa_refs (stepL11 s st)) q =
    orKeep (if truthy (elementAt s 1) = Some q then truthy (elementAt s 0) else None) (map_of (pa_refs st) q)"
  by (cases "truthy (elementAt s 0)"; cases "truthy (elementAt s 1)")
    (simp_all add: stepL11_def update_conv orKeep_def)

lemma parseStep_fields:
  "pa_scac (parseStep st s) = textOr (pa_scac st) (scacIn s)"
  "pa_purpose (parseStep st s) = (case cancelIn s of None \<Rightarrow> pa_purpose st | Some p \<Rightarrow> p)"
  "map_of (pa_refs (parseStep st s)) q = orKeep (refIn q s) (map_of (pa_refs st) q)"
  "pa_weight (parseStep st s) = orKeep (weightIn s) (pa_weight st)"
  "pa_pieces (parseStep st s) = orKeep (piecesIn s) (pa_pieces st)"
proof -
  show "pa_scac (parseStep st s) = textOr (pa_scac st) (scacIn s)"
    by (simp add: parse_steps scacIn_def textOr_def split: option.split)
  show "pa_purpose (parseStep st s) = (case cancelIn s of None \<Rightarrow> pa_purpose st | Some p \<Rightarrow> p)"
    by (simp add: parse_steps cancelIn_def split: option.split)
  have "orKeep None (map_of (pa_refs st) q) = map_of (pa_refs st) q" by (simp add: orKeep_def)
  then show "map_of (pa_refs (parseStep st s)) q = orKeep (refIn q s) (map_of (pa_refs st) q)"
    by (simp add: parseStep_def refIn_def refs_B2 refs_L11)
  show "pa_weight (parseStep st s) = orKeep (weightIn s) (pa_weight st)"
    by (simp add: parse_steps weightIn_def orKeep_def split: option.split)
  show "pa_pieces (parseStep st s) = orKeep (piecesIn s) (pa_pieces st)"
    by (simp add: parse_steps piecesIn_def orKeep_def split: option.split)
qed

lemma dims_L4:
  "pa_length (stepL4 s st) = orKeep (map_option fst (measureL4 s)) (pa_length st)"
  "pa_width (stepL4 s st) = orKeep (map_option (\<lambda>m. fst (snd m)) (measureL4 s)) (pa_width st)"
  "pa_height (stepL4 s st) = orKeep (map_option (\<lambda>m. snd (snd m)) (measureL4 s)) (pa_height st)"
  by (cases "positiveInt204 (elementAt s 0)"; cases "positiveInt204 (elementAt s 1)"; cases "positiveInt204 (elementAt s 2)";
      simp add: stepL4_def measureL4_def orKeep_def)+

lemma orKeep_Nothing [simp]: "orKeep None v = v"
  by (simp add: orKeep_def)

lemma parseStep_dims:
  "pa_length (parseStep st s) = orKeep (map_option fst (measureIn s)) (pa_length st)"
  "pa_width (parseStep st s) = orKeep (map_option (\<lambda>m. fst (snd m)) (measureIn s)) (pa_width st)"
  "pa_height (parseStep st s) = orKeep (map_option (\<lambda>m. snd (snd m)) (measureIn s)) (pa_height st)"
  by (simp_all add: parseStep_def dims_L4 measureIn_def)

lemma firstSome_map_option: "firstSome (map (\<lambda>x. map_option f (g x)) xs) = map_option f (firstSome (map g xs))"
  by (induction xs) (auto split: option.split)

abbreviation parsed :: "edi_segment list \<Rightarrow> parse_state" where
  "parsed segs \<equiv> foldl parseStep PARSE_START segs"

lemma orKeep_None [simp]: "orKeep v None = v"
  by (simp add: orKeep_def split: option.split)

lemma parsed_fields:
  "pa_scac (parsed segs) = textOr [] (onWire scacIn segs)"
  "pa_purpose (parsed segs) = (case onWire cancelIn segs of None \<Rightarrow> Original | Some p \<Rightarrow> p)"
  "map_of (pa_refs (parsed segs)) q = onWire (refIn q) segs"
  "pa_weight (parsed segs) = onWire weightIn segs"
  "pa_pieces (parsed segs) = onWire piecesIn segs"
proof -
  show "pa_scac (parsed segs) = textOr [] (onWire scacIn segs)"
    using foldl_textOr[of pa_scac parseStep scacIn, OF parseStep_fields(1)] by (simp add: onWire_def PARSE_START_def)
  have "Some (pa_purpose (parseStep st s)) = orKeep (cancelIn s) (Some (pa_purpose st))" for st s
    by (simp add: parseStep_fields(2) orKeep_def split: option.split)
  then have "Some (pa_purpose (parsed segs)) = orKeep (onWire cancelIn segs) (Some (pa_purpose PARSE_START))"
    unfolding onWire_def by (rule foldl_keep[of "\<lambda>st. Some (pa_purpose st)" parseStep cancelIn])
  then show "pa_purpose (parsed segs) = (case onWire cancelIn segs of None \<Rightarrow> Original | Some p \<Rightarrow> p)"
    by (simp add: orKeep_def PARSE_START_def split: option.splits)
  show "map_of (pa_refs (parsed segs)) q = onWire (refIn q) segs"
    using foldl_keep[of "\<lambda>st. map_of (pa_refs st) q" parseStep "refIn q", OF parseStep_fields(3)]
    by (simp add: onWire_def PARSE_START_def)
  show "pa_weight (parsed segs) = onWire weightIn segs"
    using foldl_keep[of pa_weight parseStep weightIn, OF parseStep_fields(4)] by (simp add: onWire_def PARSE_START_def)
  show "pa_pieces (parsed segs) = onWire piecesIn segs"
    using foldl_keep[of pa_pieces parseStep piecesIn, OF parseStep_fields(5)] by (simp add: onWire_def PARSE_START_def)
qed

lemma parsed_dims:
  "pa_length (parsed segs) = map_option fst (onWire measureIn segs)"
  "pa_width (parsed segs) = map_option (\<lambda>m. fst (snd m)) (onWire measureIn segs)"
  "pa_height (parsed segs) = map_option (\<lambda>m. snd (snd m)) (onWire measureIn segs)"
  using foldl_keep[of pa_length parseStep, OF parseStep_dims(1)] foldl_keep[of pa_width parseStep, OF parseStep_dims(2)]
    foldl_keep[of pa_height parseStep, OF parseStep_dims(3)]
  by (simp_all add: onWire_def PARSE_START_def firstSome_map_option)

lemma parsed_refs_distinct: "distinct (map fst (pa_refs (parsed segs)))"
proof (induction segs rule: rev_induct)
  case (snoc s segs)
  have "distinct (map fst (pa_refs (parseStep st s)))" if "distinct (map fst (pa_refs st))" for st
    using that by (simp add: parseStep_def stepB2_def stepL11_def putRef_def distinct_update split: option.split)
  then show ?case using snoc by simp
qed (simp add: PARSE_START_def)

section \<open>The loops of a tender\<close>

definition inLoop :: "edi_segment \<Rightarrow> bool" where
  "inLoop s = (sg_tag s \<in> {''N3'', ''N4'', ''G62'', ''PER''})"

fun loopsIn :: "edi_segment list \<Rightarrow> n1_loop list" where
  "loopsIn [] = []"
| "loopsIn (s # ss) =
     (if sg_tag s = ''N1'' then
        \<lparr> nl_code = textOr [] (elementAt s 0), nl_name = textOr [] (elementAt s 1),
          nl_segs = filter inLoop (takeWhile (\<lambda>x. sg_tag x \<noteq> ''N1'') ss) \<rparr> # loopsIn ss
      else loopsIn ss)"

lemma loopsIn_empty: "loopsIn ss = [] \<longleftrightarrow> (\<forall>s \<in> set ss. sg_tag s \<noteq> ''N1'')"
  by (induction ss) auto

lemma loopsIn_snoc:
  "loopsIn (ss @ [x]) =
     (if sg_tag x = ''N1'' then
        loopsIn ss @ [\<lparr> nl_code = textOr [] (elementAt x 0), nl_name = textOr [] (elementAt x 1), nl_segs = [] \<rparr>]
      else if loopsIn ss = [] \<or> \<not> inLoop x then loopsIn ss
      else butlast (loopsIn ss) @ [(last (loopsIn ss))\<lparr> nl_segs := nl_segs (last (loopsIn ss)) @ [x] \<rparr>])"
proof (induction ss)
  case (Cons s ss)
  have t: "takeWhile (\<lambda>x. sg_tag x \<noteq> ''N1'') (ss @ [x]) =
      (if loopsIn ss = [] then ss @ takeWhile (\<lambda>x. sg_tag x \<noteq> ''N1'') [x] else takeWhile (\<lambda>x. sg_tag x \<noteq> ''N1'') ss)"
  proof (cases "loopsIn ss = []")
    case True
    then have "\<And>s. s \<in> set ss \<Longrightarrow> sg_tag s \<noteq> ''N1''" by (simp add: loopsIn_empty)
    then show ?thesis unfolding True by (subst takeWhile_append2) simp_all
  next
    case False
    then obtain y where "y \<in> set ss" "\<not> sg_tag y \<noteq> ''N1''" using loopsIn_empty[of ss] by blast
    then have "takeWhile (\<lambda>x. sg_tag x \<noteq> ''N1'') (ss @ [x]) = takeWhile (\<lambda>x. sg_tag x \<noteq> ''N1'') ss"
      by (rule takeWhile_append1)
    then show ?thesis using False by (simp only: if_False)
  qed
  have u: "loopsIn ss = [] \<Longrightarrow> takeWhile (\<lambda>x. sg_tag x \<noteq> ''N1'') ss = ss"
    using loopsIn_empty[of ss] by (simp add: takeWhile_eq_all_conv)
  show ?case
    by (cases "sg_tag s = ''N1''"; cases "loopsIn ss = []"; cases "sg_tag x = ''N1''"; cases "inLoop x";
        simp add: t u Cons.IH)
qed simp

lemma parsed_loops: "pa_loops (parsed segs) = loopsIn segs"
proof (induction segs rule: rev_induct)
  case (snoc s segs)
  then show ?case
    by (auto simp: loopsIn_snoc parse_steps inLoop_def split: option.split)
qed (simp add: PARSE_START_def)

section \<open>Mapped references\<close>

lemma objectEntries_set: "set (objectEntries xs) = set xs"
  by (auto simp: objectEntries_def)

lemma foldl_update_notin:
  "k \<notin> f ` set xs \<Longrightarrow> map_of (foldl (\<lambda>o' e. AList.update (f e) (g e) o') o1 xs) k = map_of o1 k"
  by (induction xs arbitrary: o1) (auto simp: update_conv)

lemma foldl_update_inj:
  assumes "inj_on f (set xs)" "e \<in> set xs"
  shows "map_of (foldl (\<lambda>o' e. AList.update (f e) (g e) o') o1 xs) (f e) = Some (g e)"
  using assms
proof (induction xs arbitrary: o1)
  case (Cons x xs)
  show ?case
  proof (cases "e \<in> set xs")
    case True
    then show ?thesis using Cons by (simp add: inj_on_def)
  next
    case False
    then have "e = x" "f x \<notin> f ` set xs" using Cons.prems by (auto simp: inj_on_def)
    then show ?thesis by (simp add: foldl_update_notin update_conv)
  qed
qed simp

end
