(* ===== verification/EdiProps.thy ===== *)
theory EdiProps
  imports EdiLaws
begin

text \<open>
  What the X12 adapter promises: a schema-valid response or status view arrives at any receiver that tokenizes it as
  exactly the segments that were meant, with the true segment count, and a parsed load tender carries the last valid
  value of each field of the wire and nothing else.
\<close>

section \<open>Outbound\<close>

lemma trim_decimalText: "trim (decimalText n) = decimalText n"
proof -
  have w: "\<not> isWhitespace c" if "isDigitChar c" for c
    using that by (auto simp: isDigitChar_def isDigit_def isWhitespace_def Let_def)
  have d: "dropWhile isWhitespace s = s" if "\<forall>c \<in> set s. isDigitChar c" for s
    using that w by (cases s) auto
  show ?thesis using decimalText_digits[of n] by (simp add: trim_def d)
qed

lemma se_count: "hd (sg_elements (wireSegment (seFields p))) = decimalText (length (ic_data p) + 2)"
  by (simp add: seFields_def)

lemma wire_990: "wireSegment (fields990 r) = \<lparr> sg_tag = ''B1'', sg_elements = [tr_scac r, tr_ref r, actionText (tr_action r)] \<rparr>"
  by (simp add: fields990_def rtrim_def isWhitespace_def actionText_def split: tender_action.split)

text \<open>A 990 the writer emits is read back by the tokenizer as the seven segments ISA, GS, ST, B1, SE, GE, IEA with
  the carrier code, the reference and the action as they were given, the true segment count and the control numbers:
  no value accepted by the schema can restructure the interchange.\<close>

theorem a_990_survives_the_wire:
  assumes "build990 r = Inr raw" "int (length raw) \<le> MAX_INPUT"
  shows "\<exists>t. tokenize raw = Inr t \<and>
    map sg_tag (tk_segments t) = [''ISA'', ''GS'', ''ST'', ''B1'', ''SE'', ''GE'', ''IEA''] \<and>
    sg_elements (tk_segments t ! 3) = [tr_scac r, tr_ref r, actionText (tr_action r)] \<and>
    hd (sg_elements (tk_segments t ! 4)) = ''3'' \<and>
    tk_isaControl t = trim (isaControl9 (tr_isaControl r)) \<and> tk_gsControl t = trim (tr_gsControl r)"
proof -
  obtain p where p: "writable p [fields990 r]" "raw = buildInterchange p" "ic_isaControl p = tr_isaControl r"
      "ic_gsControl p = tr_gsControl r" "ic_data p = [segment (fields990 r)]"
    using build990_writable[OF assms(1)] .
  have three: "decimalText (Suc (Suc (Suc 0))) = ''3''" by code_simp
  show ?thesis
    using tokenize_interchange[OF p(1)] assms(2) p
    by (simp add: interchangeFields_def envelope_tags wire_990 se_count three nth_Cons_numeral)
qed

text \<open>C19: a 214 the writer emits is read back as the envelope around exactly the segments of the view (B10, then LX, AT7
  and MS1 for each stop), each with its elements up to trailing white space, and SE01 states the number of segments
  from ST to SE.\<close>

theorem a_214_survives_the_wire:
  assumes "build214 v = Inr raw" "int (length raw) \<le> MAX_INPUT"
  shows "\<exists>t n. tokenize raw = Inr t \<and> n = length (data214 v) \<and>
    map sg_tag (take 3 (tk_segments t)) = [''ISA'', ''GS'', ''ST''] \<and>
    take n (drop 3 (tk_segments t)) = map wireSegment (data214 v) \<and>
    map sg_tag (drop (3 + n) (tk_segments t)) = [''SE'', ''GE'', ''IEA''] \<and>
    hd (sg_elements (tk_segments t ! (3 + n))) = decimalText (n + 2) \<and>
    tk_isaControl t = trim (isaControl9 (sv_isaControl v)) \<and> tk_gsControl t = trim (sv_gsControl v)"
proof -
  obtain p where p: "writable p (data214 v)" "raw = buildInterchange p" "ic_isaControl p = sv_isaControl v"
      "ic_gsControl p = sv_gsControl v" "ic_data p = map segment (data214 v)"
    using build214_writable[OF assms(1)] .
  show ?thesis
    using tokenize_interchange[OF p(1)] assms(2) p
    by (simp add: interchangeFields_def envelope_tags se_count nth_append numeral_3_eq_3)
qed

section \<open>Inbound\<close>

definition stopOf :: "n1_loop \<Rightarrow> tender_stop list" where
  "stopOf l = (case roleOf (nl_code l) of None \<Rightarrow> [] | Some r \<Rightarrow> [toStop r l])"

text \<open>C20: a load tender that parses carries, field by field, the last valid value on the wire (carrier, purpose, each
  reference, weight, dimensions measured in inches, pieces) and one stop per SH or CN loop in order; the carrier code is
  alphanumeric and a weight is positive and finite. Nothing else is in it.\<close>

theorem a_tender_says_what_the_wire_says:
  assumes "parse204 raw = Inr d"
  shows "\<exists>t. tokenize raw = Inr t \<and> (let segs = tk_segments t in
    onWire scacIn segs = Some (te_scac d) \<and> PartnerScac (te_scac d) \<and>
    te_purpose d = (if onWire cancelIn segs = Some Cancellation then Cancellation else Original) \<and>
    (\<forall>q. map_of (te_refs d) q = onWire (refIn q) segs) \<and>
    te_weight d = onWire weightIn segs \<and> pred_option (\<lambda>w. \<exists>x > 0. w = FiniteDouble x) (te_weight d) \<and>
    te_dims d = (case (onWire measureIn segs, onWire piecesIn segs) of
       (None, None) \<Rightarrow> None
     | (m, n) \<Rightarrow> Some \<lparr> td_length = map_option fst m, td_width = map_option (\<lambda>x. fst (snd x)) m,
                      td_height = map_option (\<lambda>x. snd (snd x)) m, td_pieces = n \<rparr>) \<and>
    te_stops d = concat (map stopOf (loopsIn segs)) \<and> te_billTo d = billToOf (loopsIn segs))"
proof -
  obtain t where t: "tokenize raw = Inr t" "TenderDoc (assembleTender (parsed (tk_segments t))) = Inr d"
    using assms by (auto simp: parse204_def)
  let ?st = "parsed (tk_segments t)"
  have d: "d = assembleTender ?st" "PartnerScac (pa_scac ?st)"
      "pred_option (\<lambda>w. \<exists>x > 0. w = FiniteDouble x) (pa_weight ?st)"
    using t(2) by (auto simp: TenderDoc_def assembleTender_def split: if_splits option.splits js_double.splits)
  have s: "onWire scacIn (tk_segments t) = Some (pa_scac ?st)"
    using d(2) parsed_fields(1)[of "tk_segments t"] by (auto simp: PartnerScac_def textOr_def split: option.splits)
  have p: "pa_purpose ?st = (if onWire cancelIn (tk_segments t) = Some Cancellation then Cancellation else Original)"
    unfolding parsed_fields(2) by (auto split: option.split intro: tender_purpose.exhaust)
  have dims: "dimsOf ?st = (case (onWire measureIn (tk_segments t), onWire piecesIn (tk_segments t)) of
       (None, None) \<Rightarrow> None
     | (m, n) \<Rightarrow> Some \<lparr> td_length = map_option fst m, td_width = map_option (\<lambda>x. fst (snd x)) m,
                      td_height = map_option (\<lambda>x. snd (snd x)) m, td_pieces = n \<rparr>)"
    by (simp add: dimsOf_def parsed_dims parsed_fields(5) split: option.split)
  have "stopsOf (pa_loops ?st) = concat (map stopOf (loopsIn (tk_segments t)))"
    unfolding parsed_loops stopsOf_def stopOf_def ..
  then show ?thesis
    using t(1) d s p dims
    by (auto simp: Let_def assembleTender_def parsed_loops parsed_fields(3,4))
qed

text \<open>A mapping that renames the keys of a tender apart keeps every reference under its new key.\<close>

theorem mapping_keeps_references:
  assumes "distinct (map fst (te_refs t))" "inj_on (renameRef m) (fst ` set (te_refs t))"
    and "map_of (te_refs t) k = Some v"
  shows "map_of (te_refs (applyMapping t m)) (renameRef m k) = Some v"
proof -
  let ?f = "\<lambda>e. renameRef m (fst e)"
  have "(k, v) \<in> set (te_refs t)" using assms(3) by (rule map_of_SomeD)
  moreover have "inj_on ?f (set (te_refs t))"
    using assms(1,2) by (auto simp: inj_on_def distinct_map)
  ultimately show ?thesis
    using foldl_update_inj[of ?f "objectEntries (te_refs t)" "(k, v)" snd "[]"]
    by (simp add: applyMapping_def objectEntries_set)
qed

section \<open>Samples\<close>

definition sample_response :: tender_response where
  "sample_response = \<lparr> tr_ref = ''REF 1'', tr_scac = ''MEGA'', tr_isaControl = ''42'', tr_gsControl = ''7'',
     tr_action = Accept, tr_sentAt = Some 1785542400000 \<rparr>"

definition sample_view :: status_view where
  "sample_view = \<lparr> sv_ref = ''S1'', sv_scac = ''MEGA'', sv_isaControl = ''42'', sv_gsControl = ''7'',
     sv_stops = [\<lparr> su_code = ''X3'', su_reason = None, su_ts = ''2026-08-01T10:30'', su_city = Some ''Ames'',
        su_state = Some ''IA'' \<rparr>], sv_sentAt = None \<rparr>"

text \<open>A tender with two bills of lading and a purpose the parser does not know, in the envelope of the writer.\<close>

definition sample_fields :: "string list list" where
  "sample_fields = [[''B2'', [], ''MEGA'', [], ''S1''], [''B2A'', ''05''], [''L11'', ''BOL1'', ''BM''],
     [''L11'', ''BOL2'', ''BM''], [''AT8'', ''G'', ''L'', ''480'', ''2''], [''L4'', ''48'', ''40'', ''36'', ''IN''],
     [''N1'', ''SH'', ''Acme''], [''N4'', ''Ames'', ''IA'', ''50010''], [''N1'', ''CN'', ''Bolt''],
     [''N4'', ''Cody'', ''WY'', ''82414''], [''G62'', ''38'', ''20260802'', ''I'', ''0930'']]"

definition sample_interchange :: interchange where
  "sample_interchange = \<lparr> ic_docType = ''204'', ic_gsCode = ''SM'', ic_isaControl = ''1'', ic_gsControl = ''1'',
     ic_receiver = ''SHUDDL'', ic_data = map segment sample_fields, ic_sentAt = None \<rparr>"

definition sample_tender :: string where
  "sample_tender = buildInterchange sample_interchange"

theorem a_990_survives_the_wire_witness:
  "\<exists>raw t. build990 sample_response = Inr raw \<and> tokenize raw = Inr t \<and> sg_elements (tk_segments t ! 3) = [''MEGA'', ''REF 1'', ''A'']"
proof -
  obtain raw where raw: "build990 sample_response = Inr raw"
    by (simp add: build990_def sample_response_def TenderResponse_def X12Value_def PartnerScac_def sentAt_ok_def
        X12_DELIMITERS_def isAlphaNum_def isDigit_def MAX_SAFE_def)
  moreover have "case build990 sample_response of Inr x \<Rightarrow> int (length x) \<le> MAX_INPUT | Inl _ \<Rightarrow> False" by code_simp
  ultimately obtain t where "tokenize raw = Inr t" "sg_elements (tk_segments t ! 3) =
      [tr_scac sample_response, tr_ref sample_response, actionText (tr_action sample_response)]"
    using a_990_survives_the_wire[of sample_response raw] by auto
  then show ?thesis using raw by (auto simp: sample_response_def actionText_def)
qed

theorem a_214_survives_the_wire_witness:
  "\<exists>raw t. build214 sample_view = Inr raw \<and> tokenize raw = Inr t \<and> hd (sg_elements (tk_segments t ! 7)) = ''6''"
proof -
  have ok: "case build214 sample_view of Inr x \<Rightarrow> int (length x) \<le> MAX_INPUT | Inl _ \<Rightarrow> False" by code_simp
  then obtain raw where raw: "build214 sample_view = Inr raw" "int (length raw) \<le> MAX_INPUT"
    by (cases "build214 sample_view") auto
  have n: "length (data214 sample_view) = 4" "decimalText 6 = ''6''" by code_simp+
  show ?thesis using a_214_survives_the_wire[OF raw] raw(1) n by auto
qed

definition sample_segments :: "edi_segment list" where
  "sample_segments = map wireSegment (interchangeFields sample_interchange sample_fields)"

definition sample_doc :: tender_doc where
  "sample_doc = assembleTender (parsed sample_segments)"

lemma sample_tokenized:
  obtains t where "tokenize sample_tender = Inr t" "tk_segments t = sample_segments"
proof -
  have "ic_sentAt sample_interchange = None" "ic_data sample_interchange = map segment sample_fields"
    by (simp_all add: sample_interchange_def)
  moreover have "list_all cleanFields sample_fields" "list_all (\<lambda>fs. dataTag (hd fs)) sample_fields"
    "length (ic_receiver sample_interchange) \<le> 15"
    "list_all cleanText [ic_docType sample_interchange, ic_gsCode sample_interchange, ic_isaControl sample_interchange,
       ic_gsControl sample_interchange, ic_receiver sample_interchange]"
    by code_simp+
  ultimately have w: "writable sample_interchange sample_fields" by (simp add: writable_def)
  have "int (length (buildInterchange sample_interchange)) \<le> MAX_INPUT" by code_simp
  from tokenize_interchange[OF w this, folded sample_tender_def] show ?thesis
    by (rule that) (simp add: sample_segments_def)
qed

lemma sample_tender_parses:
  "parse204 sample_tender = Inr sample_doc"
  "te_refs sample_doc = [(''SID'', ''S1''), (''BM'', ''BOL2'')]"
  "te_purpose sample_doc = Original"
  "te_weight sample_doc = Some (FiniteDouble 480)"
proof -
  show w: "te_weight sample_doc = Some (FiniteDouble 480)" by code_simp
  obtain t where "tokenize sample_tender = Inr t" "tk_segments t = sample_segments" by (rule sample_tokenized)
  then have "parse204 sample_tender = TenderDoc sample_doc" by (simp add: parse204_def sample_doc_def)
  moreover have "PartnerScac (te_scac sample_doc)" by code_simp
  ultimately show "parse204 sample_tender = Inr sample_doc" using w by (simp add: TenderDoc_def)
qed code_simp+

theorem a_tender_says_what_the_wire_says_witness:
  "\<exists>d t. parse204 sample_tender = Inr d \<and> tokenize sample_tender = Inr t \<and>
     onWire (refIn ''BM'') (tk_segments t) = Some ''BOL2'' \<and> onWire weightIn (tk_segments t) = Some (FiniteDouble 480)"
proof -
  define d where "d = sample_doc"
  have d: "parse204 sample_tender = Inr d" "te_refs d = [(''SID'', ''S1''), (''BM'', ''BOL2'')]"
      "te_weight d = Some (FiniteDouble 480)"
    using sample_tender_parses by (simp_all add: d_def)
  obtain t where t: "tokenize sample_tender = Inr t" "map_of (te_refs d) ''BM'' = onWire (refIn ''BM'') (tk_segments t)"
      "te_weight d = onWire weightIn (tk_segments t)"
    using a_tender_says_what_the_wire_says[OF d(1)] unfolding Let_def by blast
  then show ?thesis using d by auto
qed

text \<open>Two references under one qualifier: the parser keeps the last only. A purpose it does not know (05, a
  replacement) reads as an original tender. Two qualifiers renamed to one name: the mapping keeps one of them.\<close>

theorem a_repeated_qualifier_loses_a_reference:
  "\<exists>raw d t s. parse204 raw = Inr d \<and> tokenize raw = Inr t \<and> s \<in> set (tk_segments t) \<and> sg_tag s = ''L11'' \<and>
     elementAt s 0 = Some ''BOL1'' \<and> ''BOL1'' \<notin> snd ` set (te_refs d)"
proof -
  define d where "d = sample_doc"
  have d: "parse204 sample_tender = Inr d" "te_refs d = [(''SID'', ''S1''), (''BM'', ''BOL2'')]"
    using sample_tender_parses by (simp_all add: d_def)
  obtain t where t: "tokenize sample_tender = Inr t" "tk_segments t = sample_segments" by (rule sample_tokenized)
  define s where "s = \<lparr> sg_tag = ''L11'', sg_elements = [''BOL1'', ''BM''] \<rparr>"
  have "s \<in> set (tk_segments t)" "sg_tag s = ''L11''" "elementAt s 0 = Some ''BOL1''"
    by (simp_all add: s_def t(2) sample_segments_def interchangeFields_def sample_fields_def rtrim_def isWhitespace_def
        elementAt_def trim_def)
  then show ?thesis using d t by fastforce
qed

theorem a_mapping_can_drop_a_reference:
  "\<exists>m t k v. map_of (te_refs t) k = Some v \<and> v \<notin> snd ` set (te_refs (applyMapping t m)) \<and>
     resolveMapping \<lparr> pc_version = None, pc_statusDialect = None, pc_refQualifiers = Some [(''OW'', ''bol'')], pc_unknown = [] \<rparr> = Inr m"
proof -
  let ?t = "\<lparr> te_scac = ''MEGA'', te_purpose = Original, te_refs = [(''BM'', ''B1''), (''OW'', ''B2'')], te_stops = [],
     te_billTo = None, te_weight = None, te_dims = None \<rparr>"
  let ?c = "\<lparr> pc_version = None, pc_statusDialect = None, pc_refQualifiers = Some [(''OW'', ''bol'')], pc_unknown = [] \<rparr>"
  have "case resolveMapping ?c of Inr m \<Rightarrow> te_refs (applyMapping ?t m) = [(''bol'', ''B2'')] | Inl _ \<Rightarrow> False" by code_simp
  then obtain m where "resolveMapping ?c = Inr m" "te_refs (applyMapping ?t m) = [(''bol'', ''B2'')]"
    by (auto split: sum.splits)
  then show ?thesis by (intro exI[of _ m] exI[of _ ?t] exI[of _ "''BM''"] exI[of _ "''B1''"]) simp
qed

end
