(* ===== verification/Translator.thy ===== *)
theory Translator
  imports Edi EventsRoute RaterLaws "HOL-Library.Word"
begin

unbundle bit_operations_syntax

text \<open>
  The EDI translator worker (\<open>workers/translator/src\<close>): the plan of a booking made from a load tender
  (\<open>core/map-204.ts\<close>), the quarantine descriptor (\<open>core/quarantine.ts\<close>), the status projection (\<open>core/build-214.ts\<close>),
  partner certification and control numbers (\<open>partners.ts\<close>), the rating configuration in effect (\<open>rate-config.ts\<close>),
  the inbound handler (\<open>inbound.ts\<close>) and the outbound sweep (\<open>sweep-214.ts\<close>).

  The state is the ledger system together with the tables and objects the worker reads and writes beside it. Events are
  appended through the sequencer objects of the ledger model, so a run of the worker is a run of the ledger. Parameters
  (\<open>translator_env\<close>): the digests, the decoder of a body, the store of partner secrets, the transport, \<open>Number\<close> on a header
  and the text of an error message. Transient faults of the storage are not modelled; a failing append or transport is.
\<close>

section \<open>Shared identities (\<open>contracts/party.ts\<close>, \<open>deterministic-id.ts\<close>)\<close>

text \<open>\<open>toLowerCase\<close> on the characters of the model.\<close>

definition toLowerChar :: "char \<Rightarrow> char" where
  "toLowerChar c =
     (let n = of_char c :: nat in
      if (65 \<le> n \<and> n \<le> 90) \<or> (192 \<le> n \<and> n \<le> 222 \<and> n \<noteq> 215) then char_of (n + 32) else c)"

definition toLowerCase :: "string \<Rightarrow> string" where
  "toLowerCase s = map toLowerChar s"

definition normalizePartyEmail :: "string \<Rightarrow> string" where
  "normalizePartyEmail email = toLowerCase (trim email)"

definition partyIdForEmail :: "(string \<Rightarrow> string) \<Rightarrow> string \<Rightarrow> string" where
  "partyIdForEmail hex email =
     ''party_'' @ sliceOf 0 16 (hex (''shuddl:party:email:'' @ normalizePartyEmail email))"

definition partyIdForName :: "(string \<Rightarrow> string) \<Rightarrow> string \<Rightarrow> string" where
  "partyIdForName hex name =
     ''party_'' @ sliceOf 0 16 (hex (''intake:party:name:'' @ toLowerCase (trim name)))"

definition deterministicUuid :: "(string \<Rightarrow> string) \<Rightarrow> string \<Rightarrow> string" where
  "deterministicUuid hex seed =
     (let h = sliceOf 0 32 (hex seed);
          nib = (case sliceOf 16 17 h of [] \<Rightarrow> 0 | c # _ \<Rightarrow> (case hexval c of None \<Rightarrow> 0 | Some v \<Rightarrow> v));
          variant = hexdigit (nib mod 4 + 8)
      in sliceOf 0 8 h @ ''-'' @ sliceOf 8 12 h @ ''-4'' @ sliceOf 13 16 h @ ''-'' @ [variant] @ sliceOf 17 20 h @ ''-'' @
         sliceOf 20 32 h)"

section \<open>The plan of a booking (\<open>core/map-204.ts\<close>)\<close>

datatype map_error = NoLane | NoShipmentRef | PlanSchema

record booking_plan =
  bkp_party_id :: string
  bkp_party_kind :: string
  bkp_party_name :: string
  bkp_party_email :: "string option"
  bkp_shipment_id :: string
  bkp_scac :: string
  bkp_refs :: "(string \<times> string) list"
  bkp_shipper :: "(string \<times> edi_address) option"
  bkp_consignee :: "(string \<times> edi_address) option"
  bkp_shipper_address :: "edi_address option"
  bkp_consignee_address :: "edi_address option"
  bkp_bill_to_address :: "edi_address option"
  bkp_request :: rate_request
  bkp_append :: "payload event_input"

record map_ctx =
  mc_partnerId :: string
  mc_receivedTs :: int
  mc_override :: "string option"

definition LOAD_UNIQUE_REF_KEYS :: "string list" where
  "LOAD_UNIQUE_REF_KEYS = [''SID'', ''BM'', ''PRO'']"

definition ORDER_LEVEL_REF_KEYS :: "string list" where
  "ORDER_LEVEL_REF_KEYS = [''PO'']"

definition STABLE_REF_KEYS :: "string list" where
  "STABLE_REF_KEYS = LOAD_UNIQUE_REF_KEYS @ ORDER_LEVEL_REF_KEYS"

text \<open>\<open>tender.refs[key]?.trim()\<close>, when it is not empty.\<close>

definition refValue :: "tender_doc \<Rightarrow> string \<Rightarrow> string option" where
  "refValue t k = truthy (map_option trim (map_of (te_refs t) k))"

definition stableRef :: "tender_doc \<Rightarrow> (string \<times> string) option" where
  "stableRef t = firstSome (map (\<lambda>k. map_option (\<lambda>v. (k, v)) (refValue t k)) STABLE_REF_KEYS)"

definition nonEmptyAddress :: "edi_address option \<Rightarrow> edi_address option" where
  "nonEmptyAddress a = (if a = Some NO_ADDRESS then None else a)"

definition stopWith :: "stop_role \<Rightarrow> tender_doc \<Rightarrow> tender_stop option" where
  "stopWith r t = find (\<lambda>s. tstop_role s = r) (te_stops t)"

definition lane :: "tender_doc \<Rightarrow> (string \<times> string) option" where
  "lane t =
     (case (Option.bind (stopWith SH t) (\<lambda>s. truthy (ea_zip (tstop_address s))),
            Option.bind (stopWith CN t) (\<lambda>s. truthy (ea_zip (tstop_address s)))) of
        (Some z1, Some z2) \<Rightarrow> Some (z1, z2)
      | _ \<Rightarrow> None)"

text \<open>The counterparty: the bill-to by its email or its name, else the shipper. The result is id, kind, name and email.\<close>

definition counterparty :: "(string \<Rightarrow> string) \<Rightarrow> tender_doc \<Rightarrow> string \<times> string \<times> string \<times> string option" where
  "counterparty hex t =
     (case te_billTo t of
        Some b \<Rightarrow>
          (case tb_email b of
             Some e \<Rightarrow>
               if trim e \<noteq> [] then (partyIdForEmail hex e, ''broker'', tb_name b, Some (normalizePartyEmail e))
               else (partyIdForName hex (toLowerCase (trim (tb_name b))), ''broker'', tb_name b, None)
           | None \<Rightarrow> (partyIdForName hex (toLowerCase (trim (tb_name b))), ''broker'', tb_name b, None))
      | None \<Rightarrow>
          (let name = (case stopWith SH t of None \<Rightarrow> [] | Some s \<Rightarrow> tstop_name s)
           in (partyIdForName hex (toLowerCase (trim name)), ''shipper'', name, None)))"

definition shipmentIdFor :: "(string \<Rightarrow> string) \<Rightarrow> string \<Rightarrow> string \<times> string \<Rightarrow> string" where
  "shipmentIdFor hex partner kv =
     (case kv of (k, v) \<Rightarrow>
        ''shp_'' @ sliceOf 0 16 (hex (''edi:shipment:'' @ partner @ '':'' @ k @ '':'' @ v)))"

text \<open>\<open>Number.isSafeInteger\<close>.\<close>

definition safeInteger :: "js_double \<Rightarrow> int option" where
  "safeInteger x =
     (case x of
        InfiniteDouble \<Rightarrow> None
      | FiniteDouble w \<Rightarrow>
          (case quotient_of w of (n, d) \<Rightarrow> if d = 1 \<and> - MAX_SAFE \<le> n \<and> n \<le> MAX_SAFE then Some n else None))"

definition requestWeight :: "tender_doc \<Rightarrow> int option" where
  "requestWeight t =
     (case Option.bind (te_weight t) safeInteger of None \<Rightarrow> None | Some n \<Rightarrow> if 1 \<le> n then Some n else None)"

definition requestDims :: "tender_doc \<Rightarrow> (int \<times> int \<times> int \<times> int) option" where
  "requestDims t =
     (case te_dims t of
        None \<Rightarrow> None
      | Some d \<Rightarrow>
          (case (td_length d, td_width d, td_height d, td_pieces d) of
             (Some l, Some w, Some h, Some n) \<Rightarrow> Some (l, w, h, n)
           | _ \<Rightarrow> None))"

definition rateRequest :: "string \<times> string \<Rightarrow> int option \<Rightarrow> (int \<times> int \<times> int \<times> int) option \<Rightarrow> rate_request" where
  "rateRequest zs w d =
     \<lparr> origin_zip = fst zs, dest_zip = snd zs, weight_lb = map_option Whole w,
       shipment_dims = map_option (\<lambda>(l, w, h, n). \<lparr> l_in = Whole l, w_in = Whole w, h_in = Whole h, pieces = Whole n \<rparr>) d,
       accessorials = None \<rparr>"

definition requestJson :: "string \<times> string \<Rightarrow> int option \<Rightarrow> (int \<times> int \<times> int \<times> int) option \<Rightarrow> jvalue" where
  "requestJson zs w d =
     jobj ([(''origin_zip'', jtext (fst zs)), (''dest_zip'', jtext (snd zs))] @
       (case w of None \<Rightarrow> [] | Some n \<Rightarrow> [(''weight_lb'', jint n)]) @
       (case d of None \<Rightarrow> []
        | Some (l, w, h, n) \<Rightarrow>
            [(''dims'', jobj [(''l_in'', jint l), (''w_in'', jint w), (''h_in'', jint h), (''pieces'', jint n)])]))"

text \<open>\<open>RateRequestPayload\<close> (\<open>contracts/rating.ts\<close>) on what the plan can put into it.\<close>

definition MAX_ZIP_LEN :: nat where
  "MAX_ZIP_LEN = 20"

definition RateRequestPayload :: "string \<times> string \<Rightarrow> int option \<Rightarrow> (int \<times> int \<times> int \<times> int) option \<Rightarrow> bool" where
  "RateRequestPayload zs w d =
     (fst zs \<noteq> [] \<and> length (fst zs) \<le> MAX_ZIP_LEN \<and> snd zs \<noteq> [] \<and> length (snd zs) \<le> MAX_ZIP_LEN \<and>
      (case w of None \<Rightarrow> True | Some n \<Rightarrow> 1 \<le> n \<and> n \<le> MAX_WEIGHT_LB) \<and>
      (case d of None \<Rightarrow> True | Some (l, w, h, n) \<Rightarrow> safe l \<and> safe w \<and> safe h \<and> safe n \<and> 1 \<le> n))"

definition NATIVE_CONFIDENCE_BPS :: int where
  "NATIVE_CONFIDENCE_BPS = 10000"

text \<open>The input of an append as the worker fills it: no device, no signature, no override.\<close>

definition workerInput ::
  "string \<Rightarrow> string \<Rightarrow> int \<Rightarrow> string \<Rightarrow> string list \<Rightarrow> source \<Rightarrow> event_kind \<Rightarrow> payload \<Rightarrow> payload event_input"
where
  "workerInput i shipmentId t party refs src k p =
     \<lparr> in_id = i, in_shipment_id = Some shipmentId, in_ts = t,
       in_actor = \<lparr> act_party = party, act_user = None, act_device = None \<rparr>,
       in_party_refs = refs, in_evidence = [], in_sig = None, in_source = src, in_confidence = NATIVE_CONFIDENCE_BPS,
       in_device_id = None, in_device_seq = None, in_captured_ts = None, requested_visibility = None, in_override = None,
       in_kind = k, in_payload = p \<rparr>"

definition mapTenderToBooking ::
  "(string \<Rightarrow> bool) \<Rightarrow> (string \<Rightarrow> string) \<Rightarrow> tender_doc \<Rightarrow> map_ctx \<Rightarrow> map_error + booking_plan"
where
  "mapTenderToBooking isUuid hex t ctx =
     (case lane t of
        None \<Rightarrow> Inl NoLane
      | Some zs \<Rightarrow>
          (case stableRef t of
             None \<Rightarrow> Inl NoShipmentRef
           | Some kv \<Rightarrow>
               (case counterparty hex t of
                  (pid, pkind, pname, pemail) \<Rightarrow>
                    let sid = textOr (shipmentIdFor hex (mc_partnerId ctx) kv) (mc_override ctx);
                        w = requestWeight t;
                        d = requestDims t;
                        i = workerInput (deterministicUuid hex (''edi:quote-requested:'' @ sid)) sid (mc_receivedTs ctx) pid
                              [pid] Edi QuoteRequested (Loose (jobj [(''request'', requestJson zs w d)]))
                    in if \<not> (EventInput_ok isUuid i \<and> RateRequestPayload zs w d) then Inl PlanSchema
                       else Inr
                         \<lparr> bkp_party_id = pid, bkp_party_kind = pkind, bkp_party_name = pname, bkp_party_email = pemail,
                           bkp_shipment_id = sid, bkp_scac = te_scac t, bkp_refs = te_refs t,
                           bkp_shipper = map_option (\<lambda>s. (tstop_name s, tstop_address s)) (stopWith SH t),
                           bkp_consignee = map_option (\<lambda>s. (tstop_name s, tstop_address s)) (stopWith CN t),
                           bkp_shipper_address = nonEmptyAddress (map_option tstop_address (stopWith SH t)),
                           bkp_consignee_address = nonEmptyAddress (map_option tstop_address (stopWith CN t)),
                           bkp_bill_to_address = nonEmptyAddress (Option.bind (te_billTo t) tb_address),
                           bkp_request = rateRequest zs w d, bkp_append = i \<rparr>)))"

section \<open>Quarantine (\<open>core/quarantine.ts\<close>)\<close>

datatype quarantine_rule = EdiMalformed | EdiNoShipmentRef | EdiUncertifiedPartner | EdiTenantPolicyUnusable

fun rule_text :: "quarantine_rule \<Rightarrow> string" where
  "rule_text EdiMalformed = ''edi_malformed''"
| "rule_text EdiNoShipmentRef = ''edi_no_shipment_ref''"
| "rule_text EdiUncertifiedPartner = ''edi_uncertified_partner''"
| "rule_text EdiTenantPolicyUnusable = ''edi_tenant_policy_unusable''"

definition FNV_OFFSET :: "64 word" where
  "FNV_OFFSET = 0xcbf29ce484222325"

definition FNV_PRIME :: "64 word" where
  "FNV_PRIME = 0x100000001b3"

definition fnv1a :: "string \<Rightarrow> 64 word" where
  "fnv1a s = foldl (\<lambda>h c. (h XOR word_of_nat (of_char c)) * FNV_PRIME) FNV_OFFSET s"

fun hexText :: "nat \<Rightarrow> nat \<Rightarrow> string" where
  "hexText 0 n = []"
| "hexText (Suc k) n = hexText k (n div 16) @ [hexdigit (n mod 16)]"

text \<open>\<open>toString(16).padStart(16, "0")\<close> of a 64-bit value: sixteen digits.\<close>

definition fnv1a64 :: "string \<Rightarrow> string" where
  "fnv1a64 s = hexText 16 (unat (fnv1a s))"

definition anomalyIdFor :: "string \<Rightarrow> string \<Rightarrow> string" where
  "anomalyIdFor partnerId isa = ''edi_quarantine_'' @ fnv1a64 (''edi:quarantine:'' @ partnerId @ NUL # isa)"

definition quarantineDescriptor :: "string \<Rightarrow> string \<Rightarrow> string \<Rightarrow> string \<Rightarrow> string \<Rightarrow> quarantine_rule \<Rightarrow> anomaly_row" where
  "quarantineDescriptor partnerId isa docType parseError r2Key rule =
     \<lparr> an_id = anomalyIdFor partnerId isa, an_rule = rule_text rule, an_object_id = partnerId @ '':'' @ isa,
       an_severity = ''warn'',
       an_detail = jobj [(''parse_error'', jtext parseError), (''r2_key'', jtext r2Key), (''doc_type'', jtext docType),
         (''partner_id'', jtext partnerId)],
       an_status = ''open'' \<rparr>"

section \<open>The status projection (\<open>core/build-214.ts\<close>)\<close>

definition statusToken :: "event_kind \<Rightarrow> string option" where
  "statusToken k =
     (if k = StopArrived then Some ''arrived'' else if k = StopDeparted then Some ''departed''
      else if k = PodSigned then Some ''pod'' else if k = DeliveryEvidenced then Some ''delivered'' else None)"

text \<open>A text field of a payload of unknown shape; a text beyond the characters of the model is not read.\<close>

definition payloadString :: "jvalue \<Rightarrow> string \<Rightarrow> string option" where
  "payloadString p k =
     (case jfield k p of
        JStr s \<Rightarrow> if \<forall>c \<in> set s. c < 256 then Some (map char_of s) else None
      | _ \<Rightarrow> None)"

text \<open>\<open>new Date(ts).toISOString()\<close>; an instant beyond the range of a date throws.\<close>

definition yearText :: "int \<Rightarrow> string" where
  "yearText y = (if y \<le> 9999 then padStart 4 (CHR ''0'') (decimalText (nat y))
     else ''+'' @ padStart 6 (CHR ''0'') (decimalText (nat y)))"

definition twoDigits :: "int \<Rightarrow> string" where
  "twoDigits n = padStart 2 (CHR ''0'') (decimalText (nat n))"

definition toISOString :: "int \<Rightarrow> string option" where
  "toISOString t =
     (if t > MAX_DATE then None
      else
        (case civilFromDays (t div 86400000) of
           (y, m, d) \<Rightarrow>
             Some (yearText y @ ''-'' @ twoDigits m @ ''-'' @ twoDigits d @ ''T'' @ twoDigits (t div 3600000 mod 24) @ '':'' @
               twoDigits (t div 60000 mod 60) @ '':'' @ twoDigits (t div 1000 mod 60) @ ''.'' @
               padStart 3 (CHR ''0'') (decimalText (nat (t mod 1000))) @ ''Z'')))"

record status_event =
  se_id :: string
  se_kind :: event_kind
  se_ts :: int
  se_payload :: jvalue

definition statusStop :: "partner_mapping \<Rightarrow> status_event \<Rightarrow> edi_error + status_stop" where
  "statusStop m e =
     (case toISOString (se_ts e) of
        None \<Rightarrow> Inl EdiSchema
      | Some t \<Rightarrow>
          Inr \<lparr> su_code = dialectStatus (textOr [] (statusToken (se_kind e))) m, su_reason = None, su_ts = t,
                su_city = payloadString (se_payload e) ''city'', su_state = payloadString (se_payload e) ''state'' \<rparr>)"

definition newestStatus :: "status_event list \<Rightarrow> status_event option" where
  "newestStatus es =
     foldl (\<lambda>best e. case best of None \<Rightarrow> Some e | Some b \<Rightarrow> if se_ts b \<le> se_ts e then Some e else Some b) None es"

definition dedupeKeyFor :: "status_event list \<Rightarrow> string" where
  "dedupeKeyFor es = ''edi214/'' @ (case newestStatus es of None \<Rightarrow> ''none'' | Some e \<Rightarrow> se_id e)"

definition buildStatusView ::
  "string \<Rightarrow> string \<Rightarrow> string \<Rightarrow> string \<Rightarrow> partner_mapping \<Rightarrow> status_event list \<Rightarrow> edi_error + status_view \<times> string"
where
  "buildStatusView ref scac isa gs m events =
     (let es = filter (\<lambda>e. statusToken (se_kind e) \<noteq> None) events in
      ebind (traverse (statusStop m) es) (\<lambda>stops.
      let v = \<lparr> sv_ref = ref, sv_scac = scac, sv_isaControl = isa, sv_gsControl = gs, sv_stops = stops, sv_sentAt = None \<rparr>
      in if StatusView v then Inr (v, dedupeKeyFor es) else Inl EdiSchema))"

section \<open>Partners (\<open>partners.ts\<close>)\<close>

text \<open>A stored configuration: text that is not JSON, a JSON value that is not an object, or an object with its mapping
  and the outbound counters.\<close>

datatype stored_config = NotJson | NotObject | ConfigObject partner_config "(int \<times> int) option"

record integration_row =
  it_config :: stored_config
  it_cert_status :: "string option"
  it_fixture_ref :: "string option"

datatype partner_error = UnknownPartner | MalformedConfig | BadMapping | ConfigNotJson

definition EMPTY_CONFIG :: partner_config where
  "EMPTY_CONFIG = \<lparr> pc_version = None, pc_statusDialect = None, pc_refQualifiers = None, pc_unknown = [] \<rparr>"

definition partnerMapping :: "stored_config \<Rightarrow> partner_mapping" where
  "partnerMapping c =
     (case resolveMapping (case c of ConfigObject p _ \<Rightarrow> p | _ \<Rightarrow> EMPTY_CONFIG) of Inl _ \<Rightarrow> DEFAULT_004010 | Inr m \<Rightarrow> m)"

definition certifyPartner ::
  "string \<Rightarrow> string \<Rightarrow> (string \<rightharpoonup> integration_row) \<Rightarrow> partner_error + (string \<rightharpoonup> integration_row)"
where
  "certifyPartner partnerId fixtureRef rows =
     (case rows partnerId of
        None \<Rightarrow> Inl UnknownPartner
      | Some row \<Rightarrow>
          (case it_config row of
             NotJson \<Rightarrow> Inl MalformedConfig
           | NotObject \<Rightarrow> Inl BadMapping
           | ConfigObject p _ \<Rightarrow>
               (case resolveMapping p of
                  Inl _ \<Rightarrow> Inl BadMapping
                | Inr _ \<Rightarrow>
                    Inr (rows(partnerId \<mapsto> row\<lparr> it_cert_status := Some ''certified'', it_fixture_ref := Some fixtureRef \<rparr>)))))"

definition ISA13_WIDTH :: nat where
  "ISA13_WIDTH = 9"

text \<open>One \<open>UPDATE\<close>: both counters are read, incremented and stored. SQLite refuses a column that is not JSON.\<close>

definition allocatePartnerControls ::
  "string \<Rightarrow> (string \<rightharpoonup> integration_row) \<Rightarrow> partner_error + (string \<times> string) \<times> (string \<rightharpoonup> integration_row)"
where
  "allocatePartnerControls partnerId rows =
     (case rows partnerId of
        None \<Rightarrow> Inl UnknownPartner
      | Some row \<Rightarrow>
          (case it_config row of
             NotJson \<Rightarrow> Inl ConfigNotJson
           | c \<Rightarrow>
               (let (p, isa, gs) = (case c of ConfigObject p (Some (i, g)) \<Rightarrow> (p, i, g) | ConfigObject p None \<Rightarrow> (p, 0, 0)
                                    | _ \<Rightarrow> (EMPTY_CONFIG, 0, 0))
                in Inr ((padStart ISA13_WIDTH (CHR ''0'') (decimalText (nat (isa + 1))), decimalText (nat (gs + 1))),
                        rows(partnerId \<mapsto> row\<lparr> it_config := ConfigObject p (Some (isa + 1, gs + 1)) \<rparr>)))))"

section \<open>The rating configuration in effect (\<open>rate-config.ts\<close>)\<close>

text \<open>A stored payload is what its own schema reads; any other text is \<open>UnreadableCfg\<close>.\<close>

datatype config_payload =
    TariffCfg zone_tariff | FloorsCfg floors_config | FscCfg fsc_config | AccessorialCfg accessorial_schedule
  | ClassAdapterCfg | UnreadableCfg

record rate_row =
  rr_kind :: string
  rr_version :: int
  rr_effective_ts :: int
  rr_payload :: config_payload

definition effectivePayload :: "rate_row list \<Rightarrow> string \<Rightarrow> int \<Rightarrow> config_payload option" where
  "effectivePayload rows k now =
     (case rev (sort_key (\<lambda>r. (rr_effective_ts r, rr_version r))
            (filter (\<lambda>r. rr_kind r = k \<and> rr_effective_ts r \<le> now) rows)) of
        [] \<Rightarrow> None
      | r # _ \<Rightarrow> Some (rr_payload r))"

text \<open>The left result is a malformed row, the inner \<open>None\<close> a missing one.\<close>

definition loadTenantRatingConfig :: "rate_row list \<Rightarrow> int \<Rightarrow> unit + tenant_rating_config option" where
  "loadTenantRatingConfig rows now =
     (case (effectivePayload rows ''zone_tariff'' now, effectivePayload rows ''floors'' now,
            effectivePayload rows ''fsc'' now, effectivePayload rows ''accessorials'' now,
            effectivePayload rows ''class_adapter'' now) of
        (Some zt, Some fl, Some fs, Some acc, cls) \<Rightarrow>
          (case (zt, fl, fs, acc) of
             (TariffCfg z, FloorsCfg f, FscCfg s, AccessorialCfg a) \<Rightarrow>
               if schema_tariff z \<and> schema_floors f \<and> schema_fsc s \<and> schema_accessorials a \<and>
                  cls \<in> {None, Some ClassAdapterCfg}
               then Inr (Some \<lparr> cfg_zone_tariff = z, cfg_floors = f, cfg_fsc = s, cfg_accessorials = a \<rparr>)
               else Inl ()
           | _ \<Rightarrow> Inl ())
      | _ \<Rightarrow> Inr None)"

section \<open>The state of the worker\<close>

record pairing_row =
  pr_kind :: string
  pr_status :: string
  pr_secret_ref :: string
  pr_tenant :: "string option"

record edi_party =
  ep_kind :: string
  ep_name :: string
  ep_addresses :: "(string \<times> string \<times> edi_address) list"

datatype edi_object = RawObject bytes | TextObject string | MarkerObject string string string

record 'k translator =
  tw_system :: "'k ledger_system"
  tw_pairings :: "string \<rightharpoonup> pairing_row"
  tw_integrations :: "string \<Rightarrow> (string \<rightharpoonup> integration_row)"
  tw_refs :: "string \<Rightarrow> (string \<times> (string \<times> string) list) list"
  tw_parties :: "string \<Rightarrow> (string \<rightharpoonup> edi_party)"
  tw_rates :: "string \<Rightarrow> rate_row list"
  tw_objects :: "string \<rightharpoonup> edi_object"
  tw_sent :: "(string \<times> string \<times> string) list"

datatype inbound_error = ParseFailed edi_error | MapFailed map_error | NotCertified "string option" | PolicyUnusable

datatype transport_outcome = Sent | TransportRejected | TransportCrashed

record 'k translator_env =
  te_env :: "'k env"
  te_hex :: "string \<Rightarrow> string"
  te_bodyHex :: "bytes \<Rightarrow> string"
  te_hmac :: "string \<Rightarrow> bytes \<Rightarrow> string"
  te_decode :: "bytes \<Rightarrow> string"
  te_secret :: "string \<Rightarrow> string option"
  te_number :: "string \<Rightarrow> rat option"
  te_message :: "inbound_error \<Rightarrow> string"
  te_transport :: "(string \<times> string \<times> string) list \<Rightarrow> string \<Rightarrow> string \<Rightarrow> string \<Rightarrow> transport_outcome"

text \<open>The instants a run reads: on arrival, after pricing, at the send, and the sequencer's own at each append.\<close>

record instants =
  ck_received :: int
  ck_priced :: int
  ck_sent :: int
  ck_append :: "nat \<Rightarrow> int"

definition putObject :: "string \<Rightarrow> edi_object \<Rightarrow> 'k translator \<Rightarrow> 'k translator" where
  "putObject k v st = st\<lparr> tw_objects := (tw_objects st)(k \<mapsto> v) \<rparr>"

definition tenantDbOf :: "'k translator \<Rightarrow> string \<Rightarrow> tenant_db" where
  "tenantDbOf st slug = readDb (sys_world (tw_system st)) (CustomerDb slug)"

definition putTenantDb :: "string \<Rightarrow> tenant_db \<Rightarrow> 'k translator \<Rightarrow> 'k translator" where
  "putTenantDb slug db st =
     st\<lparr> tw_system := (tw_system st)\<lparr> sys_world := writeDb (CustomerDb slug) db (sys_world (tw_system st)) \<rparr> \<rparr>"

text \<open>\<open>seq.append\<close>: the request goes to the sequencer object of (tenant, stream).\<close>

definition seqAppend ::
  "'k translator_env \<Rightarrow> int \<Rightarrow> string \<Rightarrow> string \<Rightarrow> payload event_input \<Rightarrow> 'k translator \<Rightarrow>
   (seq_error + unit) \<times> 'k translator"
where
  "seqAppend E now slug streamId i st =
     (let me = idFromName (te_env E) (slug @ ''|'' @ streamId) in
      case append_event (te_env E) now slug streamId i False (instance_at me (tw_system st)) of
        (r, s) \<Rightarrow> ((case r of Inl err \<Rightarrow> Inl err | Inr _ \<Rightarrow> Inr ()), st\<lparr> tw_system := settled me s (tw_system st) \<rparr>))"

text \<open>The keys of the objects (\<open>sweep-214.ts\<close>).\<close>

definition tenderPrefix :: "string \<Rightarrow> string" where
  "tenderPrefix tenant = ''edi/'' @ tenant @ ''/tender/''"

definition tenderKey :: "string \<Rightarrow> string \<Rightarrow> string" where
  "tenderKey tenant shipmentId = tenderPrefix tenant @ shipmentId"

definition sent214Key :: "string \<Rightarrow> string \<Rightarrow> string" where
  "sent214Key tenant dedupeKey = ''edi/'' @ tenant @ ''/214/'' @ dedupeKey"

definition quarantineKey :: "string \<Rightarrow> string \<Rightarrow> string \<Rightarrow> string" where
  "quarantineKey tenant partnerId d = ''edi/'' @ tenant @ ''/quarantine/'' @ partnerId @ ''/'' @ d"

definition unresolvableKey :: "string \<Rightarrow> string \<Rightarrow> string \<Rightarrow> string" where
  "unresolvableKey tenant partnerId d = ''edi/'' @ tenant @ ''/unresolvable/'' @ partnerId @ ''/'' @ d"

section \<open>The inbound handler (\<open>inbound.ts\<close>)\<close>

record inbound_request =
  rq_post :: bool
  rq_content_length :: "string option"
  rq_partner :: "string option"
  rq_signature :: "string option"
  rq_body :: bytes

datatype inbound_answer =
    MethodNotAllowed | PayloadTooLarge | NotAuthorized | TenantUnresolvable
  | Quarantined string | Recorded string | Accepted string

fun answerStatus :: "inbound_answer \<Rightarrow> int" where
  "answerStatus MethodNotAllowed = 405"
| "answerStatus PayloadTooLarge = 413"
| "answerStatus NotAuthorized = 401"
| "answerStatus TenantUnresolvable = 422"
| "answerStatus _ = 200"

text \<open>What a run throws; the platform answers 500.\<close>

datatype translator_fault =
    AppendRefused seq_error | PricingThrew rater_error | SerializeThrew edi_error | ControlsThrew partner_error
  | TransportThrew

type_synonym ('k, 'a) run = "'k translator \<Rightarrow> (translator_fault + 'a) \<times> 'k translator"

definition andThen :: "('k, 'a) run \<Rightarrow> ('a \<Rightarrow> ('k, 'b) run) \<Rightarrow> ('k, 'b) run" where
  "andThen m f = (\<lambda>st. case m st of (Inl e, st') \<Rightarrow> (Inl e, st') | (Inr x, st') \<Rightarrow> f x st')"

definition finished :: "'a \<Rightarrow> ('k, 'a) run" where
  "finished x = (\<lambda>st. (Inr x, st))"

definition MAX_BODY_BYTES :: int where
  "MAX_BODY_BYTES = 1048576"

fun charDiff :: "string \<Rightarrow> string \<Rightarrow> 32 word \<Rightarrow> 32 word" where
  "charDiff (a # as) (b # bs) d = charDiff as bs (d OR (word_of_nat (of_char a) XOR word_of_nat (of_char b)))"
| "charDiff _ _ d = d"

definition timingSafeEqual :: "string \<Rightarrow> string \<Rightarrow> bool" where
  "timingSafeEqual a b = (length a = length b \<and> charDiff a b 0 = 0)"

definition authenticate :: "'k translator_env \<Rightarrow> 'k translator \<Rightarrow> inbound_request \<Rightarrow> (string \<times> string) option" where
  "authenticate E st rq =
     (case (truthy (rq_partner rq), truthy (rq_signature rq)) of
        (Some partner, Some signature) \<Rightarrow>
          (case tw_pairings st partner of
             None \<Rightarrow> None
           | Some row \<Rightarrow>
               (case pr_tenant row of
                  None \<Rightarrow> None
                | Some slug \<Rightarrow>
                    if pr_kind row \<noteq> ''edi'' \<or> pr_status row \<noteq> ''active'' then None
                    else
                      (case truthy (te_secret E (pr_secret_ref row)) of
                         None \<Rightarrow> None
                       | Some secret \<Rightarrow>
                           if timingSafeEqual (te_hmac E secret (rq_body rq)) (toLowerCase (trim signature))
                           then Some (partner, slug) else None)))
      | _ \<Rightarrow> None)"

definition extractIsaControl :: "'k translator_env \<Rightarrow> string \<Rightarrow> string" where
  "extractIsaControl E raw =
     (case tokenize raw of
        Inr t \<Rightarrow> if tk_isaControl t \<noteq> [] then tk_isaControl t else ''nohdr_'' @ sliceOf 0 40 (te_hex E raw)
      | Inl _ \<Rightarrow> ''nohdr_'' @ sliceOf 0 40 (te_hex E raw))"

definition cappedBody :: "bytes \<Rightarrow> bytes" where
  "cappedBody b = take (nat MAX_BODY_BYTES) b"

text \<open>The row is reopened on conflict; the first detail stays.\<close>

definition reopenAnomaly :: "anomaly_row \<Rightarrow> anomaly_row list \<Rightarrow> anomaly_row list" where
  "reopenAnomaly a rows =
     (if list_ex (\<lambda>x. an_id x = an_id a) rows
      then map (\<lambda>x. if an_id x = an_id a then x\<lparr> an_status := ''open'' \<rparr> else x) rows
      else rows @ [a])"

definition quarantine ::
  "'k translator_env \<Rightarrow> string \<Rightarrow> string \<Rightarrow> string \<Rightarrow> bytes \<Rightarrow> inbound_error \<Rightarrow> quarantine_rule \<Rightarrow> ('k, inbound_answer) run"
where
  "quarantine E slug partnerId isa body err rule = (\<lambda>st.
     let key = quarantineKey slug partnerId isa;
         a = quarantineDescriptor partnerId isa ''204'' (te_message E err) key rule;
         db = tenantDbOf st slug
     in (Inr (Quarantined (an_id a)),
         putObject key (RawObject (cappedBody body))
           (putTenantDb slug (db\<lparr> t_anomalies := reopenAnomaly a (t_anomalies db) \<rparr>) st)))"

definition addressBook :: "booking_plan \<Rightarrow> (string \<times> string \<times> edi_address) list" where
  "addressBook p =
     (case bkp_bill_to_address p of None \<Rightarrow> [] | Some a \<Rightarrow> [(''bill_to'', bkp_party_name p, a)]) @
     (case bkp_shipper p of None \<Rightarrow> [] | Some (n, a) \<Rightarrow> [(''shipper'', n, a)]) @
     (case bkp_consignee p of None \<Rightarrow> [] | Some (n, a) \<Rightarrow> [(''consignee'', n, a)])"

definition contactsJson :: "string option \<Rightarrow> jvalue" where
  "contactsJson email =
     (case email of
        None \<Rightarrow> JArr []
      | Some e \<Rightarrow> JArr [Some (jobj [(''kind'', jtext ''primary''), (''email'', jtext e)])])"

text \<open>\<open>INSERT OR IGNORE\<close>: the ledger reads credit and contacts of the row, the address book is kept beside it.\<close>

definition persistParty :: "string \<Rightarrow> booking_plan \<Rightarrow> 'k translator \<Rightarrow> 'k translator" where
  "persistParty slug p st =
     (let db = tenantDbOf st slug in
      if t_parties db (bkp_party_id p) \<noteq> None then st
      else (putTenantDb slug (db\<lparr> t_parties := (t_parties db)(bkp_party_id p \<mapsto>
               \<lparr> pt_credit_status = None, pt_contacts = Some (contactsJson (bkp_party_email p)) \<rparr>) \<rparr>) st)
           \<lparr> tw_parties := (tw_parties st)(slug := (tw_parties st slug)(bkp_party_id p \<mapsto>
               \<lparr> ep_kind = bkp_party_kind p, ep_name = bkp_party_name p, ep_addresses = addressBook p \<rparr>)) \<rparr>)"

definition matchingShipments :: "string \<Rightarrow> tender_doc \<Rightarrow> (string \<times> (string \<times> string) list) list \<Rightarrow> string \<Rightarrow> string list" where
  "matchingShipments partnerId t rows k =
     (case refValue t k of
        None \<Rightarrow> []
      | Some v \<Rightarrow>
          map fst (filter (\<lambda>r. map_of (snd r) ''partner'' = Some partnerId \<and> map_of (snd r) k = Some v) rows))"

definition resolveCanonicalShipmentId ::
  "string \<Rightarrow> tender_doc \<Rightarrow> (string \<times> (string \<times> string) list) list \<Rightarrow> string option"
where
  "resolveCanonicalShipmentId partnerId t rows =
     (case uniq (concat (map (matchingShipments partnerId t rows) LOAD_UNIQUE_REF_KEYS)) of
        [c] \<Rightarrow> Some c
      | _ \<Rightarrow> None)"

definition orderLevelOnlyShipmentId :: "(string \<Rightarrow> string) \<Rightarrow> string \<Rightarrow> tender_doc \<Rightarrow> string \<Rightarrow> string option" where
  "orderLevelOnlyShipmentId hex partnerId t isa =
     firstSome (map (\<lambda>k. map_option (\<lambda>v. ''shp_'' @ sliceOf 0 16
         (hex (''edi:shipment:'' @ partnerId @ '':'' @ k @ '':'' @ v @ '':'' @ isa))) (refValue t k)) ORDER_LEVEL_REF_KEYS)"

definition shipmentOverride ::
  "(string \<Rightarrow> string) \<Rightarrow> string \<Rightarrow> tender_doc \<Rightarrow> string \<Rightarrow> (string \<times> (string \<times> string) list) list \<Rightarrow> string option"
where
  "shipmentOverride hex partnerId t isa rows =
     (case resolveCanonicalShipmentId partnerId t rows of
        Some c \<Rightarrow> Some c
      | None \<Rightarrow>
          if list_ex (\<lambda>k. refValue t k \<noteq> None) LOAD_UNIQUE_REF_KEYS then None
          else orderLevelOnlyShipmentId hex partnerId t isa)"

definition storedRefs :: "booking_plan \<Rightarrow> string \<Rightarrow> (string \<times> string) list" where
  "storedRefs p partnerId = AList.update ''partner_scac'' (bkp_scac p) (AList.update ''partner'' partnerId (bkp_refs p))"

definition persistShipment :: "string \<Rightarrow> booking_plan \<Rightarrow> string \<Rightarrow> int \<Rightarrow> 'k translator \<Rightarrow> 'k translator" where
  "persistShipment slug p partnerId createdTs st =
     (let db = tenantDbOf st slug in
      if t_shipments db (bkp_shipment_id p) \<noteq> None then st
      else (putTenantDb slug (db\<lparr> t_shipments := (t_shipments db)(bkp_shipment_id p \<mapsto>
               \<lparr> sh_division = ''main'', sh_shipper = bkp_party_id p, sh_consignee = bkp_party_id p,
                 sh_bill_to = bkp_party_id p, sh_state = None, sh_assigned_driver = None, sh_out_for_delivery = False,
                 sh_created_ts = createdTs \<rparr>) \<rparr>) st)
           \<lparr> tw_refs := (tw_refs st)(slug := tw_refs st slug @ [(bkp_shipment_id p, storedRefs p partnerId)]) \<rparr>)"

definition RATER_ACTOR :: string where
  "RATER_ACTOR = ''agent:rater''"

definition RATER_AGENT :: string where
  "RATER_AGENT = ''rater''"

definition streamOf :: "string \<Rightarrow> string" where
  "streamOf shipmentId = ''s:'' @ shipmentId"

definition pricedIdFor :: "(string \<Rightarrow> string) \<Rightarrow> string \<Rightarrow> string" where
  "pricedIdFor hex sid = deterministicUuid hex (''edi:quote-priced:'' @ sid)"

definition acceptedIdFor :: "(string \<Rightarrow> string) \<Rightarrow> string \<Rightarrow> string" where
  "acceptedIdFor hex sid = deterministicUuid hex (''edi:quote-accepted:'' @ pricedIdFor hex sid)"

fun line_text :: "price_line_kind \<Rightarrow> string" where
  "line_text FreightLine = ''freight''"
| "line_text FscLine = ''fsc''"
| "line_text AccessorialLine = ''accessorial''"

definition signedText :: "int \<Rightarrow> string" where
  "signedText i = (if i < 0 then ''-'' @ decimalText (nat (- i)) else decimalText (nat i))"

definition anomalyJson :: "int \<Rightarrow> int \<Rightarrow> anomaly_flag option \<Rightarrow> jvalue" where
  "anomalyJson sell w a =
     (case a of
        None \<Rightarrow> JNull
      | Some (Negative n) \<Rightarrow>
          jobj [(''code'', jtext ''negative''),
            (''detail'', JStr (jlit (''sell_cents '' @ signedText n @ '' is negative '') @ [8212] @
               jlit '' a price cannot be below zero''))]
      | Some (OverPerLb p cap) \<Rightarrow>
          jobj [(''code'', jtext ''over_per_lb''),
            (''detail'', jtext (''sell '' @ signedText sell @ [CHR 0xA2] @ '' on '' @ signedText w @ '' lb = '' @ signedText p @
               [CHR 0xA2] @ ''/lb exceeds the '' @ signedText cap @ [CHR 0xA2] @ ''/lb safety cap'')),
            (''per_lb_cents'', jint p), (''cap_cents_per_lb'', jint cap)])"

definition quotedWeight :: "rate_request \<Rightarrow> int" where
  "quotedWeight r = (case weight_lb r of Some (Whole w) \<Rightarrow> w | _ \<Rightarrow> 0)"

definition basisJson :: "int \<Rightarrow> priced_quote \<Rightarrow> jvalue" where
  "basisJson w q =
     (let b = basis q; f = qb_freight b in
      jobj [(''zone'', jtext (fb_zone f)), (''rate_group_id'', jtext (rate_group_id f)),
        (''matched_zip_prefix'', jtext (matched_zip_prefix f)), (''as_rated_lb'', jint (as_rated_lb f)),
        (''applied_cwt_cents'', jint (applied_cwt_cents f)), (''min_charge_applied'', jbool (min_charge_applied f)),
        (''cost_cents'', jint (qb_cost_cents b)), (''contribution_bps'', jint (qb_contribution_bps b)),
        (''full_cost_bps'', jint (qb_full_cost_bps b)), (''target_or_bps'', jint (qb_target_or_bps b)),
        (''requested_accessorials'', jlist jtext (requested_accessorials b)), (''anomaly'', anomalyJson (sell_cents q) w (anomaly q))])"

definition pricedJson :: "int \<Rightarrow> priced_quote \<Rightarrow> jvalue" where
  "pricedJson w q =
     jobj [(''sell'', jint (sell_cents q)),
       (''lines'', jlist (\<lambda>l. jobj [(''kind'', jtext (line_text (pl_kind l))), (''code'', jtext (pl_code l)),
          (''amount_cents'', jint (amount_cents l))]) (lines q)),
       (''floors'', jobj [(''contribution'', jint (contribution (quote_floors q))), (''full'', jint (full (quote_floors q))),
          (''target'', jint (target (quote_floors q)))]),
       (''versions'', jobj [(''rate_config_ids'', jlist jtext (rate_config_ids q))]),
       (''basis'', basisJson w q)]"

definition actedJson :: "string \<Rightarrow> priced_quote \<Rightarrow> int \<Rightarrow> jvalue" where
  "actedJson pricedId q latency =
     jobj [(''agent'', jtext RATER_AGENT), (''action'', jtext ''priced''),
       (''basis'', jlist (\<lambda>(k, i). jobj [(''kind'', jtext k), (''id'', jtext i)])
          ((''event'', pricedId) # map (Pair ''config'') (rate_config_ids q))),
       (''confidence_bps'', jint NATIVE_CONFIDENCE_BPS), (''cost_cents'', jint 0), (''latency_ms'', jint latency)]"

definition centsJson :: "jsnum \<Rightarrow> jvalue" where
  "centsJson n = (case n of Whole i \<Rightarrow> jint i | Fractional \<Rightarrow> JNum NotInteger)"

fun approval_rule_text :: "approval_rule \<Rightarrow> string" where
  "approval_rule_text BelowTargetOr = ''below_target_or''"
| "approval_rule_text BelowContributionLoss = ''below_contribution_loss''"

fun role_text :: "role \<Rightarrow> string" where
  "role_text Admin = ''admin''"
| "role_text Ops = ''ops''"
| "role_text Finance = ''finance''"
| "role_text ReadOnly = ''read''"
| "role_text DriverRole = ''driver''"
| "role_text Portal = ''portal''"

definition orNull :: "('a \<Rightarrow> jvalue) \<Rightarrow> 'a option \<Rightarrow> jvalue" where
  "orNull f x = (case x of None \<Rightarrow> JNull | Some a \<Rightarrow> f a)"

definition approvalJson :: "approval_decision \<Rightarrow> jvalue" where
  "approvalJson d =
     jobj [(''rule'', orNull (\<lambda>r. jtext (approval_rule_text r)) (approval_rule d)),
       (''required_role'', orNull (\<lambda>r. jtext (role_text r)) (required_role d)),
       (''approvals_required'', jint (int (approvals_required d))),
       (''evaluated_sell_cents'', centsJson (evaluated_sell_cents d)),
       (''gross_sell_cents'', centsJson (gross_sell_cents d)),
       (''executing_share_bps'', orNull jint (executing_share_bps d))]"

section \<open>The chain of a priced tender\<close>

definition raterInput :: "string \<Rightarrow> string \<Rightarrow> int \<Rightarrow> event_kind \<Rightarrow> jvalue \<Rightarrow> payload event_input" where
  "raterInput i sid t k v = workerInput i sid t RATER_ACTOR [] Native k (Loose v)"

definition pricedInput :: "(string \<Rightarrow> string) \<Rightarrow> instants \<Rightarrow> booking_plan \<Rightarrow> priced_quote \<Rightarrow> payload event_input" where
  "pricedInput hex ck p q =
     raterInput (pricedIdFor hex (bkp_shipment_id p)) (bkp_shipment_id p) (ck_received ck) QuotePriced
       (pricedJson (quotedWeight (bkp_request p)) q)"

definition actedInput :: "(string \<Rightarrow> string) \<Rightarrow> instants \<Rightarrow> booking_plan \<Rightarrow> priced_quote \<Rightarrow> payload event_input" where
  "actedInput hex ck p q =
     raterInput (deterministicUuid hex (''edi:agent-acted:'' @ bkp_shipment_id p)) (bkp_shipment_id p) (ck_received ck)
       AgentActed (actedJson (pricedIdFor hex (bkp_shipment_id p)) q (max 0 (ck_priced ck - ck_received ck)))"

definition approvalInput ::
  "(string \<Rightarrow> string) \<Rightarrow> instants \<Rightarrow> booking_plan \<Rightarrow> approval_decision \<Rightarrow> payload event_input"
where
  "approvalInput hex ck p d =
     raterInput (deterministicUuid hex (''edi:approval-requested:'' @ bkp_shipment_id p)) (bkp_shipment_id p)
       (ck_received ck) ApprovalRequested (approvalJson d)"

definition acceptedInput :: "(string \<Rightarrow> string) \<Rightarrow> instants \<Rightarrow> booking_plan \<Rightarrow> payload event_input" where
  "acceptedInput hex ck p =
     workerInput (acceptedIdFor hex (bkp_shipment_id p)) (bkp_shipment_id p) (ck_received ck) (bkp_party_id p)
       [bkp_party_id p] Native QuoteAccepted (QuoteAcceptedP (pricedIdFor hex (bkp_shipment_id p)))"

definition appending ::
  "'k translator_env \<Rightarrow> int \<Rightarrow> string \<Rightarrow> string \<Rightarrow> payload event_input \<Rightarrow> ('k, unit) run"
where
  "appending E now slug streamId i = (\<lambda>st.
     case seqAppend E now slug streamId i st of
       (Inl err, st') \<Rightarrow> (Inl (AppendRefused err), st')
     | (Inr u, st') \<Rightarrow> (Inr u, st'))"

definition NO_OPTS :: assess_opts where
  "NO_OPTS = \<lparr> proposedSellCents = None, opt_legs = None, tenantParty = None \<rparr>"

text \<open>The rating authority is consulted only for a log line here: no legacy price can exist.\<close>

definition priceAndAccept ::
  "'k translator_env \<Rightarrow> instants \<Rightarrow> string \<Rightarrow> booking_plan \<Rightarrow> priced_quote \<Rightarrow> ('k, unit) run"
where
  "priceAndAccept E ck slug p q =
     (let streamId = streamOf (bkp_shipment_id p); hex = te_hex E in
      andThen (appending E (ck_append ck 1) slug streamId (pricedInput hex ck p q)) (\<lambda>_.
      andThen (appending E (ck_append ck 2) slug streamId (actedInput hex ck p q)) (\<lambda>_.
        case assessApproval q NO_OPTS of
          Inl err \<Rightarrow> (\<lambda>st. (Inl (PricingThrew err), st))
        | Inr d \<Rightarrow>
            andThen (if approval d \<noteq> NoApproval
                     then appending E (ck_append ck 3) slug streamId (approvalInput hex ck p d) else finished ()) (\<lambda>_.
            appending E (ck_append ck 4) slug streamId (acceptedInput hex ck p)))))"

definition ack990Key :: "string \<Rightarrow> string \<Rightarrow> string" where
  "ack990Key slug acceptedId = ''edi/'' @ slug @ ''/990/'' @ acceptedId"

text \<open>The acknowledgment: skipped when its marker is there, deferred when the transport rejects or the partner has no
  counters; the marker is written only after a send.\<close>

definition acknowledge990 ::
  "'k translator_env \<Rightarrow> instants \<Rightarrow> string \<Rightarrow> string \<Rightarrow> booking_plan \<Rightarrow> ('k, unit) run"
where
  "acknowledge990 E ck slug partnerId p = (\<lambda>st.
     let acceptedId = acceptedIdFor (te_hex E) (bkp_shipment_id p); key = ack990Key slug acceptedId in
     if tw_objects st key \<noteq> None then (Inr (), st)
     else
       (case allocatePartnerControls partnerId (tw_integrations st slug) of
          Inl ConfigNotJson \<Rightarrow> (Inl (ControlsThrew ConfigNotJson), st)
        | Inl _ \<Rightarrow> (Inr (), st)
        | Inr ((isa, gs), rows) \<Rightarrow>
            (let st1 = st\<lparr> tw_integrations := (tw_integrations st)(slug := rows) \<rparr> in
             case build990 \<lparr> tr_ref = bkp_shipment_id p, tr_scac = bkp_scac p, tr_isaControl = isa, tr_gsControl = gs,
                     tr_action = Accept, tr_sentAt = Some (ck_sent ck) \<rparr> of
               Inl err \<Rightarrow> (Inl (SerializeThrew err), st1)
             | Inr bytes \<Rightarrow>
                 (case te_transport E (tw_sent st1) (bkp_scac p) bytes (''edi990/'' @ acceptedId) of
                    Sent \<Rightarrow>
                      (Inr (), putObject key (TextObject bytes)
                         (st1\<lparr> tw_sent := tw_sent st1 @ [(bkp_scac p, bytes, ''edi990/'' @ acceptedId)] \<rparr>))
                  | TransportRejected \<Rightarrow> (Inr (), st1)
                  | TransportCrashed \<Rightarrow> (Inl TransportThrew, st1)))))"

text \<open>A malformed rating configuration counts as none: the tender rests at \<open>quote.requested\<close>.\<close>

definition priceTender ::
  "'k translator_env \<Rightarrow> instants \<Rightarrow> string \<Rightarrow> string \<Rightarrow> booking_plan \<Rightarrow> ('k, bool) run"
where
  "priceTender E ck slug partnerId p = (\<lambda>st.
     case loadTenantRatingConfig (tw_rates st slug) (ck_received ck) of
       Inr (Some config) \<Rightarrow>
         (case priceShipment (bkp_request p) config of
            Inl err \<Rightarrow> (Inl (PricingThrew err), st)
          | Inr (QuoteUnknown _) \<Rightarrow> (Inr False, st)
          | Inr (Priced q) \<Rightarrow>
              andThen (priceAndAccept E ck slug p q) (\<lambda>_.
              andThen (acknowledge990 E ck slug partnerId p) (\<lambda>_. finished True)) st)
     | _ \<Rightarrow> (Inr False, st))"

text \<open>Persist and append: the party, the quote-stage shipment, the tender marker, then the chain.\<close>

definition runPlan ::
  "'k translator_env \<Rightarrow> instants \<Rightarrow> string \<Rightarrow> string \<Rightarrow> string \<Rightarrow> booking_plan \<Rightarrow> ('k, inbound_answer) run"
where
  "runPlan E ck slug partnerId isa p = (\<lambda>st.
     let sid = bkp_shipment_id p;
         st1 = persistShipment slug p partnerId (ck_received ck) (persistParty slug p st);
         st2 = putObject (tenderKey slug sid) (MarkerObject partnerId (bkp_scac p) isa) st1
     in andThen (appending E (ck_append ck 0) slug (streamOf sid) (bkp_append p)) (\<lambda>_.
        andThen (priceTender E ck slug partnerId p) (\<lambda>accepted.
          finished (if accepted then Accepted sid else Recorded sid))) st2)"

definition planTender ::
  "'k translator_env \<Rightarrow> instants \<Rightarrow> string \<Rightarrow> string \<Rightarrow> string \<Rightarrow> string \<Rightarrow> 'k translator \<Rightarrow> inbound_error + booking_plan"
where
  "planTender E ck slug partnerId isa raw st =
     (case parse204 raw of
        Inl err \<Rightarrow> Inl (ParseFailed err)
      | Inr t \<Rightarrow>
          (case mapTenderToBooking (uuid (te_env E)) (te_hex E) t
                  \<lparr> mc_partnerId = partnerId, mc_receivedTs = ck_received ck,
                    mc_override = shipmentOverride (te_hex E) partnerId t isa (tw_refs st slug) \<rparr> of
             Inl err \<Rightarrow> Inl (MapFailed err)
           | Inr p \<Rightarrow> Inr p))"

definition handleTender ::
  "'k translator_env \<Rightarrow> instants \<Rightarrow> string \<Rightarrow> string \<Rightarrow> string \<Rightarrow> string \<Rightarrow> bytes \<Rightarrow> ('k, inbound_answer) run"
where
  "handleTender E ck slug partnerId isa raw body = (\<lambda>st.
     case planTender E ck slug partnerId isa raw st of
       Inl (MapFailed NoShipmentRef) \<Rightarrow>
         quarantine E slug partnerId isa body (MapFailed NoShipmentRef) EdiNoShipmentRef st
     | Inl err \<Rightarrow> quarantine E slug partnerId isa body err EdiMalformed st
     | Inr p \<Rightarrow> runPlan E ck slug partnerId isa p st)"

definition overCap :: "'k translator_env \<Rightarrow> inbound_request \<Rightarrow> bool" where
  "overCap E rq =
     ((case Option.bind (rq_content_length rq) (te_number E) of None \<Rightarrow> False | Some n \<Rightarrow> of_int MAX_BODY_BYTES < n) \<or>
      MAX_BODY_BYTES < int (length (rq_body rq)))"

definition certStatus :: "'k translator \<Rightarrow> string \<Rightarrow> string \<Rightarrow> string option" where
  "certStatus st slug partnerId = Option.bind (tw_integrations st slug partnerId) it_cert_status"

definition policyUsable :: "'k translator \<Rightarrow> string \<Rightarrow> bool" where
  "policyUsable st slug = (Option.bind (control (sys_world (tw_system st)) slug) ct_policy \<noteq> None)"

definition handleInbound204 :: "'k translator_env \<Rightarrow> instants \<Rightarrow> inbound_request \<Rightarrow> ('k, inbound_answer) run" where
  "handleInbound204 E ck rq = (\<lambda>st.
     if \<not> rq_post rq then (Inr MethodNotAllowed, st)
     else if overCap E rq then (Inr PayloadTooLarge, st)
     else
       (case authenticate E st rq of
          None \<Rightarrow> (Inr NotAuthorized, st)
        | Some (partnerId, slug) \<Rightarrow>
            (let raw = te_decode E (rq_body rq); isa = extractIsaControl E raw in
             if isPlatformTenant slug \<or> \<not> resolvable (sys_world (tw_system st)) slug then
               (Inr TenantUnresolvable,
                putObject (unresolvableKey slug partnerId (sliceOf 0 64 isa @ ''-'' @ sliceOf 0 16 (te_hex E raw)))
                  (RawObject (cappedBody (rq_body rq))) st)
             else if certStatus st slug partnerId \<noteq> Some ''certified'' then
               quarantine E slug partnerId isa (rq_body rq) (NotCertified (certStatus st slug partnerId)) EdiUncertifiedPartner st
             else if \<not> policyUsable st slug then
               quarantine E slug partnerId isa (rq_body rq) PolicyUnusable EdiTenantPolicyUnusable st
             else handleTender E ck slug partnerId isa raw (rq_body rq) st)))"

section \<open>The outbound sweep (\<open>sweep-214.ts\<close>)\<close>

datatype sweep_outcome = Transmitted | AlreadySent | Uncertified | NoPartner | NoStatus | MalformedMarker | SweepFailed

definition STATUS_KINDS :: "event_kind list" where
  "STATUS_KINDS = [StopArrived, StopDeparted, PodSigned, DeliveryEvidenced]"

definition readTenderMarker :: "edi_object option \<Rightarrow> (string \<times> string \<times> string) option" where
  "readTenderMarker obj =
     (case obj of
        Some (MarkerObject pid scac isa) \<Rightarrow> if pid \<noteq> [] \<and> scac \<noteq> [] \<and> isa \<noteq> [] then Some (pid, scac, isa) else None
      | _ \<Rightarrow> None)"

text \<open>The freshest thousand status events, then in order of their time; the sort is stable.\<close>

definition statusRows :: "tenant_db \<Rightarrow> string \<Rightarrow> read_error + status_event list" where
  "statusRows db shipmentId =
     ebind (readEvents db TenantLens
         \<lparr> rq_shipment_id = Some shipmentId, rq_after_seq = None, rq_cursor = None, rq_limit = Some 1000,
           rq_kinds = Some STATUS_KINDS, rq_ts_desc = True, rq_before_ts = None, rq_include_shadow = False \<rparr>) (\<lambda>events.
       Inr (sort_key se_ts (map (\<lambda>e. \<lparr> se_id = ev_id e, se_kind = kind e, se_ts = ts e, se_payload = payload e \<rparr>) events)))"

definition sweepShipment ::
  "'k translator_env \<Rightarrow> int \<Rightarrow> string \<Rightarrow> string set \<Rightarrow> string \<Rightarrow> 'k translator \<Rightarrow> sweep_outcome \<times> 'k translator"
where
  "sweepShipment E now slug sentKeys shipmentId st =
     (case readTenderMarker (tw_objects st (tenderKey slug shipmentId)) of
        None \<Rightarrow> (MalformedMarker, st)
      | Some (partnerId, scac, _) \<Rightarrow>
          (case tw_integrations st slug partnerId of
             None \<Rightarrow> (NoPartner, st)
           | Some partner \<Rightarrow>
               if it_cert_status partner \<noteq> Some ''certified'' then (Uncertified, st)
               else
                 (case statusRows (tenantDbOf st slug) shipmentId of
                    Inl _ \<Rightarrow> (SweepFailed, st)
                  | Inr [] \<Rightarrow> (NoStatus, st)
                  | Inr rows \<Rightarrow>
                      (case buildStatusView shipmentId scac [] [] (partnerMapping (it_config partner)) rows of
                         Inl _ \<Rightarrow> (SweepFailed, st)
                       | Inr (projection, dedupeKey) \<Rightarrow>
                           (let sentKey = sent214Key slug dedupeKey in
                            if sentKey \<in> sentKeys \<or> tw_objects st sentKey \<noteq> None then (AlreadySent, st)
                            else
                              (case allocatePartnerControls partnerId (tw_integrations st slug) of
                                 Inl _ \<Rightarrow> (SweepFailed, st)
                               | Inr ((isa, gs), its) \<Rightarrow>
                                   (let st1 = st\<lparr> tw_integrations := (tw_integrations st)(slug := its) \<rparr> in
                                    case build214 (projection\<lparr> sv_isaControl := isa, sv_gsControl := gs, sv_sentAt := Some now \<rparr>) of
                                      Inl _ \<Rightarrow> (SweepFailed, st1)
                                    | Inr bytes \<Rightarrow>
                                        (case te_transport E (tw_sent st1) scac bytes dedupeKey of
                                           Sent \<Rightarrow>
                                             (Transmitted, putObject sentKey (TextObject bytes)
                                                (st1\<lparr> tw_sent := tw_sent st1 @ [(scac, bytes, dedupeKey)] \<rparr>))
                                         | _ \<Rightarrow> (SweepFailed, st1))))))))) "

text \<open>The tenant's tender markers are listed once, and so are its sent markers; the outcomes are counted in order.\<close>

fun sweepShipments ::
  "'k translator_env \<Rightarrow> (nat \<Rightarrow> int) \<Rightarrow> string \<Rightarrow> string set \<Rightarrow> string list \<Rightarrow> 'k translator \<Rightarrow> sweep_outcome list \<times> 'k translator"
where
  "sweepShipments E clk slug sentKeys [] st = ([], st)"
| "sweepShipments E clk slug sentKeys (s # ss) st =
     (case sweepShipment E (clk (length ss)) slug sentKeys s st of
        (o1, st1) \<Rightarrow> (case sweepShipments E clk slug sentKeys ss st1 of (os, st2) \<Rightarrow> (o1 # os, st2)))"

definition sentMarkers :: "'k translator \<Rightarrow> string \<Rightarrow> string set" where
  "sentMarkers st slug =
     {k. tw_objects st k \<noteq> None \<and> take (length (sent214Key slug [])) k = sent214Key slug []}"

definition sweepTenant214 ::
  "'k translator_env \<Rightarrow> (nat \<Rightarrow> int) \<Rightarrow> string \<Rightarrow> string list \<Rightarrow> 'k translator \<Rightarrow> sweep_outcome list \<times> 'k translator"
where
  "sweepTenant214 E clk slug markers st = sweepShipments E clk slug (sentMarkers st slug) markers st"

end
