(* ===== verification/TranslatorLaws.thy ===== *)
theory TranslatorLaws
  imports Translator EdiLaws EventsRouteLaws
begin

text \<open>
  Laws of the translator worker: a run is a run of the ledger system, what it can add to the logs, what it leaves
  behind when it answers, and why a redelivery resolves to the shipment of the first delivery.
\<close>

section \<open>A run of the worker is a run of the ledger\<close>

definition logOf :: "'k translator \<Rightarrow> db_ref \<Rightarrow> payload ledger_event list" where
  "logOf st r = t_events (readDb (sys_world (tw_system st)) r)"

lemma seqAppend_served:
  "seqAppend E now slug streamId i st =
     ((case fst (append_event (te_env E) now slug streamId i False
          (instance_at (idFromName (te_env E) (slug @ ''|'' @ streamId)) (tw_system st))) of
         Inl err \<Rightarrow> Inl err | Inr _ \<Rightarrow> Inr ()),
      st\<lparr> tw_system := served (te_env E) now slug streamId i (tw_system st) \<rparr>)"
  by (simp add: seqAppend_def served_def Let_def split: prod.split)

text \<open>What a run may do: the system stays reachable, the logs of other databases stay, the log of the tenant grows by
  events that satisfy a predicate.\<close>

definition extends ::
  "'k translator_env \<Rightarrow> string \<Rightarrow> (payload ledger_event \<Rightarrow> bool) \<Rightarrow> 'k translator \<Rightarrow> 'k translator \<Rightarrow> bool"
where
  "extends E slug P st st' \<longleftrightarrow>
     reachable (te_env E) (tw_system st') \<and> (\<forall>r. r \<noteq> dbOf slug \<longrightarrow> logOf st' r = logOf st r) \<and>
     (\<exists>new. logOf st' (dbOf slug) = logOf st (dbOf slug) @ new \<and> (\<forall>e \<in> set new. P e))"

definition upholds ::
  "'k translator_env \<Rightarrow> string \<Rightarrow> (payload ledger_event \<Rightarrow> bool) \<Rightarrow> ('k, 'a) run \<Rightarrow> bool"
where
  "upholds E slug P m \<longleftrightarrow> (\<forall>st. reachable (te_env E) (tw_system st) \<longrightarrow> extends E slug P st (snd (m st)))"

lemma extends_refl: "reachable (te_env E) (tw_system st) \<Longrightarrow> extends E slug P st st"
  by (simp add: extends_def)

lemma extends_trans: "extends E slug P st1 st2 \<Longrightarrow> extends E slug P st2 st3 \<Longrightarrow> extends E slug P st1 st3"
  by (fastforce simp: extends_def)

lemma extends_reachable: "extends E slug P st st' \<Longrightarrow> reachable (te_env E) (tw_system st')"
  by (simp add: extends_def)

lemma extends_mono: "extends E slug P st st' \<Longrightarrow> (\<And>e. P e \<Longrightarrow> Q e) \<Longrightarrow> extends E slug Q st st'"
  unfolding extends_def by blast

lemma upholdsD: "upholds E slug P m \<Longrightarrow> reachable (te_env E) (tw_system st) \<Longrightarrow> m st = (x, st') \<Longrightarrow> extends E slug P st st'"
  unfolding upholds_def by (metis snd_conv)

lemma upholds_andThen:
  fixes m :: "('k, 'a) run" and f :: "'a \<Rightarrow> ('k, 'b) run"
  assumes "upholds E slug P m" "\<And>x. upholds E slug P (f x)"
  shows "upholds E slug P (andThen m f)"
  unfolding upholds_def
proof (intro allI impI)
  fix st :: "'k translator"
  assume r: "reachable (te_env E) (tw_system st)"
  obtain x st1 where m: "m st = (x, st1)" by (cases "m st")
  have e: "extends E slug P st st1" by (rule upholdsD[OF assms(1) r m])
  show "extends E slug P st (snd (andThen m f st))"
  proof (cases x)
    case (Inl a)
    then show ?thesis using e m by (simp add: andThen_def)
  next
    case (Inr b)
    have "extends E slug P st1 (snd (f b st1))"
      using assms(2) extends_reachable[OF e] unfolding upholds_def by blast
    then show ?thesis using extends_trans[OF e] m Inr by (simp add: andThen_def)
  qed
qed

lemma upholds_finished [simp]: "upholds E slug P (finished x)"
  by (simp add: upholds_def finished_def extends_refl)

lemma upholds_constant [simp]: "upholds E slug P (\<lambda>st. (x, st))"
  by (simp add: upholds_def extends_refl)

lemma extends_append:
  assumes r: "reachable (te_env E) (tw_system st)"
    and p: "\<And>e. stream_id e = streamId \<Longrightarrow> kind e = in_kind i \<Longrightarrow> source e = in_source i \<Longrightarrow> ev_id e = in_id i \<Longrightarrow> P e"
  shows "extends E slug P st (st\<lparr> tw_system := served (te_env E) now slug streamId i (tw_system st) \<rparr>)"
proof -
  note reach = served_reachable[OF r, of now slug streamId i]
  from r refl refl show ?thesis
  proof (cases rule: served_outcome[of "te_env E" "tw_system st" _ slug streamId _ now i])
    case (committed e trs)
    then show ?thesis using reach p[of e] by (auto simp: extends_def logOf_def)
  qed (use reach in \<open>auto simp: extends_def logOf_def\<close>)
qed

lemma upholds_appending:
  assumes "\<And>e. stream_id e = streamId \<Longrightarrow> kind e = in_kind i \<Longrightarrow> source e = in_source i \<Longrightarrow> ev_id e = in_id i \<Longrightarrow> P e"
  shows "upholds E slug P (appending E now slug streamId i)"
  using extends_append[OF _ assms]
  by (auto simp: upholds_def appending_def seqAppend_served split: sum.split)

lemma extends_system: "extends E slug P st st1 \<Longrightarrow> tw_system st2 = tw_system st1 \<Longrightarrow> extends E slug P st st2"
  by (simp add: extends_def logOf_def)

lemma putObject_system [simp]: "tw_system (putObject k v st) = tw_system st"
  by (simp add: putObject_def)

lemma extends_putTenantDb:
  assumes r: "reachable (te_env E) (tw_system st)" and slug: "\<not> isPlatformTenant slug"
    and db: "t_events db = t_events (tenantDbOf st slug)" "t_lines db = t_lines (tenantDbOf st slug)"
      "t_legs db = t_legs (tenantDbOf st slug)"
  shows "extends E slug P st (putTenantDb slug db st)"
proof -
  have "slotsUnique (t_legs db)"
    using reachable_db[OF r, of "CustomerDb slug"] db(3) by (simp add: db_ok_def tenantDbOf_def)
  then have "step (te_env E) (tw_system st) (tw_system (putTenantDb slug db st))"
    using step.Elsewhere[of db "tw_system st" "CustomerDb slug" "te_env E"] db by (simp add: putTenantDb_def tenantDbOf_def)
  then have "reachable (te_env E) (tw_system (putTenantDb slug db st))" by (rule reachable.Step[OF r])
  then show ?thesis
    using slug db(1) by (auto simp: extends_def logOf_def putTenantDb_def tenantDbOf_def dbOf_def)
qed

lemma extends_quarantine:
  assumes "reachable (te_env E) (tw_system st)" "\<not> isPlatformTenant slug"
  shows "extends E slug P st (snd (quarantine E slug partnerId isa body err rule st))"
  unfolding quarantine_def Let_def snd_conv
  by (rule extends_system[OF extends_putTenantDb[OF assms]]) simp_all

lemma extends_persistParty:
  assumes "reachable (te_env E) (tw_system st)" "\<not> isPlatformTenant slug"
  shows "extends E slug P st (persistParty slug p st)"
proof (cases "t_parties (tenantDbOf st slug) (bkp_party_id p) = None")
  case True
  show ?thesis
    unfolding persistParty_def Let_def using True
    by (simp del: fun_upd_apply) (rule extends_system[OF extends_putTenantDb[OF assms]], auto)
qed (use assms in \<open>simp add: persistParty_def extends_refl\<close>)

lemma extends_persistShipment:
  assumes "reachable (te_env E) (tw_system st)" "\<not> isPlatformTenant slug"
  shows "extends E slug P st (persistShipment slug p partnerId t st)"
proof (cases "t_shipments (tenantDbOf st slug) (bkp_shipment_id p) = None")
  case True
  show ?thesis
    unfolding persistShipment_def Let_def using True
    by (simp del: fun_upd_apply) (rule extends_system[OF extends_putTenantDb[OF assms]], auto)
qed (use assms in \<open>simp add: persistShipment_def extends_refl\<close>)

section \<open>The events of a tender\<close>

definition TENDER_KINDS :: "event_kind list" where
  "TENDER_KINDS = [QuoteRequested, QuotePriced, AgentActed, ApprovalRequested, QuoteAccepted]"

text \<open>An event the handler may add: one of the five kinds, under one of the ids derived from the shipment.\<close>

definition tenderIds :: "(string \<Rightarrow> string) \<Rightarrow> string \<Rightarrow> (event_kind \<times> string) list" where
  "tenderIds hex sid =
     [(QuoteRequested, deterministicUuid hex (''edi:quote-requested:'' @ sid)), (QuotePriced, pricedIdFor hex sid),
      (AgentActed, deterministicUuid hex (''edi:agent-acted:'' @ sid)),
      (ApprovalRequested, deterministicUuid hex (''edi:approval-requested:'' @ sid)),
      (QuoteAccepted, acceptedIdFor hex sid)]"

definition tenderEvent :: "(string \<Rightarrow> string) \<Rightarrow> string \<Rightarrow> payload ledger_event \<Rightarrow> bool" where
  "tenderEvent hex sid e \<longleftrightarrow> stream_id e = streamOf sid \<and> (kind e, ev_id e) \<in> set (tenderIds hex sid)"

lemma input_simps [simp]:
  "in_kind (workerInput i sid t pa refs src k v) = k" "in_id (workerInput i sid t pa refs src k v) = i"
  "in_source (workerInput i sid t pa refs src k v) = src" "in_device_id (workerInput i sid t pa refs src k v) = None"
  by (simp_all add: workerInput_def)

lemma upholds_tender_append:
  assumes "(in_kind i, in_id i) \<in> set (tenderIds (te_hex E) sid)"
  shows "upholds E slug (tenderEvent (te_hex E) sid) (appending E now slug (streamOf sid) i)"
  by (rule upholds_appending) (use assms in \<open>simp add: tenderEvent_def\<close>)

lemma upholds_priceAndAccept:
  "upholds E slug (tenderEvent (te_hex E) (bkp_shipment_id p)) (priceAndAccept E ck slug p q)"
proof -
  let ?P = "tenderEvent (te_hex E) (bkp_shipment_id p)"
  have a: "upholds E slug ?P (appending E now slug (streamOf (bkp_shipment_id p)) i)"
    if "i \<in> {pricedInput (te_hex E) ck p q, actedInput (te_hex E) ck p q, acceptedInput (te_hex E) ck p} \<or>
        (\<exists>d. i = approvalInput (te_hex E) ck p d)" for i now
    by (rule upholds_tender_append)
      (use that in \<open>auto simp: tenderIds_def pricedInput_def actedInput_def acceptedInput_def approvalInput_def raterInput_def\<close>)
  show ?thesis
    unfolding priceAndAccept_def Let_def
    by (intro upholds_andThen a) (auto split: sum.split intro!: upholds_andThen a)
qed

lemma upholds_acknowledge990: "upholds E slug P (acknowledge990 E ck slug partnerId p)"
proof -
  have "tw_system (snd (acknowledge990 E ck slug partnerId p st)) = tw_system st" for st
    by (auto simp: acknowledge990_def Let_def split: sum.split partner_error.split transport_outcome.split)
  then show ?thesis unfolding upholds_def using extends_refl extends_system by blast
qed

lemma upholds_priceTender:
  "upholds E slug (tenderEvent (te_hex E) (bkp_shipment_id p)) (priceTender E ck slug partnerId p)"
proof -
  have l: "upholds E slug (tenderEvent (te_hex E) (bkp_shipment_id p))
      (andThen (priceAndAccept E ck slug p q) (\<lambda>_. andThen (acknowledge990 E ck slug partnerId p) (\<lambda>_. finished True)))" for q
    by (intro upholds_andThen upholds_priceAndAccept upholds_acknowledge990 upholds_finished)
  show ?thesis
    unfolding upholds_def priceTender_def
    using l unfolding upholds_def
    by (auto simp: extends_refl split: sum.split option.split quote_result.split)
qed

section \<open>The handler\<close>

lemma mapTender_Inr:
  assumes "mapTenderToBooking isUuid hex t ctx = Inr p"
  obtains zs kv where "lane t = Some zs" "stableRef t = Some kv"
    "bkp_shipment_id p = textOr (shipmentIdFor hex (mc_partnerId ctx) kv) (mc_override ctx)"
    "bkp_refs p = te_refs t" "bkp_scac p = te_scac t"
    "bkp_request p = rateRequest zs (requestWeight t) (requestDims t)"
    "bkp_append p = workerInput (deterministicUuid hex (''edi:quote-requested:'' @ bkp_shipment_id p)) (bkp_shipment_id p)
       (mc_receivedTs ctx) (bkp_party_id p) [bkp_party_id p] Edi QuoteRequested
       (Loose (jobj [(''request'', requestJson zs (requestWeight t) (requestDims t))]))"
    "EventInput_ok isUuid (bkp_append p)"
    "bkp_party_id p = fst (counterparty hex t)"
  using assms
  by (auto simp: mapTenderToBooking_def Let_def split: option.splits prod.splits if_splits)

lemma planTender_Inr:
  assumes "planTender E ck slug partnerId isa raw st = Inr p"
  obtains t where "parse204 raw = Inr t" "mapTenderToBooking (uuid (te_env E)) (te_hex E) t
      \<lparr> mc_partnerId = partnerId, mc_receivedTs = ck_received ck,
        mc_override = shipmentOverride (te_hex E) partnerId t isa (tw_refs st slug) \<rparr> = Inr p"
  using assms by (auto simp: planTender_def split: sum.splits)

lemma planTender_append:
  assumes "planTender E ck slug partnerId isa raw st = Inr p"
  shows "(in_kind (bkp_append p), in_id (bkp_append p)) \<in> set (tenderIds (te_hex E) (bkp_shipment_id p))"
  using assms
  by (elim planTender_Inr mapTender_Inr) (simp add: tenderIds_def)

definition persisted :: "'k translator_env \<Rightarrow> instants \<Rightarrow> string \<Rightarrow> string \<Rightarrow> string \<Rightarrow> booking_plan \<Rightarrow> 'k translator \<Rightarrow> 'k translator" where
  "persisted E ck slug partnerId isa p st =
     putObject (tenderKey slug (bkp_shipment_id p)) (MarkerObject partnerId (bkp_scac p) isa)
       (persistShipment slug p partnerId (ck_received ck) (persistParty slug p st))"

lemma runPlan_persisted:
  "runPlan E ck slug partnerId isa p st =
     andThen (appending E (ck_append ck 0) slug (streamOf (bkp_shipment_id p)) (bkp_append p)) (\<lambda>_.
     andThen (priceTender E ck slug partnerId p) (\<lambda>accepted.
       finished (if accepted then Accepted (bkp_shipment_id p) else Recorded (bkp_shipment_id p))))
     (persisted E ck slug partnerId isa p st)"
  by (simp add: runPlan_def persisted_def Let_def)

lemma extends_persisted:
  assumes "reachable (te_env E) (tw_system st)" "\<not> isPlatformTenant slug"
  shows "extends E slug P st (persisted E ck slug partnerId isa p st)"
proof -
  note a = extends_persistParty[OF assms, of P p]
  note b = extends_persistShipment[OF extends_reachable[OF a] assms(2), of P p partnerId "ck_received ck"]
  show ?thesis unfolding persisted_def by (rule extends_system[OF extends_trans[OF a b]]) simp
qed

lemma extends_runPlan:
  assumes "reachable (te_env E) (tw_system st)" "\<not> isPlatformTenant slug"
    and "(in_kind (bkp_append p), in_id (bkp_append p)) \<in> set (tenderIds (te_hex E) (bkp_shipment_id p))"
  shows "extends E slug (tenderEvent (te_hex E) (bkp_shipment_id p)) st (snd (runPlan E ck slug partnerId isa p st))"
proof -
  note a = extends_persisted[OF assms(1,2), of "tenderEvent (te_hex E) (bkp_shipment_id p)" ck partnerId isa p]
  have "upholds E slug (tenderEvent (te_hex E) (bkp_shipment_id p))
     (andThen (appending E (ck_append ck 0) slug (streamOf (bkp_shipment_id p)) (bkp_append p)) (\<lambda>_.
      andThen (priceTender E ck slug partnerId p) (\<lambda>accepted.
        finished (if accepted then Accepted (bkp_shipment_id p) else Recorded (bkp_shipment_id p)))))"
    by (intro upholds_andThen upholds_tender_append upholds_priceTender upholds_finished assms(3))
  then show ?thesis
    unfolding runPlan_persisted upholds_def using extends_trans[OF a] extends_reachable[OF a] by blast
qed

text \<open>The cases of the handler: it answered without reading the tenant, it quarantined, or it ran a plan.\<close>

lemma handler_cases [consumes 1, case_names early unresolvable quarantined planned]:
  assumes "handleInbound204 E ck rq st = (res, st')"
  obtains (early) a where "res = Inr a" "a \<in> {MethodNotAllowed, PayloadTooLarge, NotAuthorized}" "st' = st"
  | (unresolvable) partnerId slug k where "\<not> overCap E rq" "authenticate E st rq = Some (partnerId, slug)"
      "res = Inr TenantUnresolvable"
      "st' = putObject (unresolvableKey slug partnerId k) (RawObject (cappedBody (rq_body rq))) st"
  | (quarantined) partnerId slug isa err rule where "\<not> overCap E rq" "authenticate E st rq = Some (partnerId, slug)"
      "\<not> isPlatformTenant slug" "isa = extractIsaControl E (te_decode E (rq_body rq))"
      "quarantine E slug partnerId isa (rq_body rq) err rule st = (res, st')"
  | (planned) partnerId slug isa p where "authenticate E st rq = Some (partnerId, slug)" "\<not> isPlatformTenant slug"
      "certStatus st slug partnerId = Some ''certified''" "policyUsable st slug"
      "isa = extractIsaControl E (te_decode E (rq_body rq))"
      "planTender E ck slug partnerId isa (te_decode E (rq_body rq)) st = Inr p"
      "runPlan E ck slug partnerId isa p st = (res, st')"
proof (cases "\<not> rq_post rq \<or> overCap E rq \<or> authenticate E st rq = None")
  case True
  then show ?thesis using assms early by (auto simp: handleInbound204_def split: if_splits)
next
  case False
  then obtain partnerId slug where a: "authenticate E st rq = Some (partnerId, slug)" "rq_post rq" "\<not> overCap E rq" by auto
  define isa where "isa = extractIsaControl E (te_decode E (rq_body rq))"
  let ?plan = "planTender E ck slug partnerId isa (te_decode E (rq_body rq)) st"
  consider "isPlatformTenant slug \<or> \<not> resolvable (sys_world (tw_system st)) slug"
    | (q) "\<not> isPlatformTenant slug" "resolvable (sys_world (tw_system st)) slug"
        "certStatus st slug partnerId \<noteq> Some ''certified'' \<or> \<not> policyUsable st slug"
    | (p) "\<not> isPlatformTenant slug" "resolvable (sys_world (tw_system st)) slug"
        "certStatus st slug partnerId = Some ''certified''" "policyUsable st slug" by blast
  then show ?thesis
  proof cases
    case 1
    then show ?thesis using assms a unresolvable[OF a(3,1)] by (auto simp: handleInbound204_def Let_def)
  next
    case q
    then show ?thesis
      using assms a quarantined[OF a(3,1) q(1) isa_def] by (auto simp: handleInbound204_def isa_def Let_def split: if_splits)
  next
    case p
    have h: "handleInbound204 E ck rq st = handleTender E ck slug partnerId isa (te_decode E (rq_body rq)) (rq_body rq) st"
      using a p by (simp add: handleInbound204_def isa_def Let_def)
    show ?thesis
    proof (cases ?plan)
      case (Inl err)
      then show ?thesis
        using assms h quarantined[OF a(3,1) p(1) isa_def]
        by (auto simp: handleTender_def split: inbound_error.splits map_error.splits)
    next
      case (Inr bp)
      then show ?thesis
        using assms h planned[OF a(1) p(1,3,4) isa_def] by (simp add: handleTender_def)
    qed
  qed
qed

lemma handler_extends:
  assumes "reachable (te_env E) (tw_system st)" "handleInbound204 E ck rq st = (res, st')"
  shows "reachable (te_env E) (tw_system st') \<and> (\<forall>r. logOf st' r = logOf st r) \<or>
    (\<exists>partnerId slug sid. authenticate E st rq = Some (partnerId, slug) \<and> certStatus st slug partnerId = Some ''certified'' \<and>
       dbOf slug = CustomerDb slug \<and> extends E slug (tenderEvent (te_hex E) sid) st st')"
  using assms(2)
proof (cases rule: handler_cases)
  case (quarantined partnerId slug isa err rule)
  have "extends E slug (\<lambda>_. False) st st'"
    using extends_quarantine[OF assms(1) quarantined(3), of "\<lambda>_. False" partnerId isa "rq_body rq" err rule] quarantined(5)
    by (metis snd_conv)
  then have "reachable (te_env E) (tw_system st') \<and> (\<forall>r. logOf st' r = logOf st r)"
    unfolding extends_def by (metis append_Nil2 list.set_intros(1) neq_Nil_conv)
  then show ?thesis ..
next
  case (planned partnerId slug isa p)
  have "extends E slug (tenderEvent (te_hex E) (bkp_shipment_id p)) st st'"
    using extends_runPlan[OF assms(1) planned(2) planTender_append[OF planned(6)], of ck partnerId isa] planned(7)
    by (metis snd_conv)
  then show ?thesis using planned(1,2,3) by (auto simp: dbOf_def)
qed (use assms(1) in \<open>auto simp: logOf_def\<close>)

section \<open>What a run leaves behind\<close>

text \<open>A run that leaves a part of the state as it was.\<close>

definition keeps :: "('k translator \<Rightarrow> 'b) \<Rightarrow> ('k, 'a) run \<Rightarrow> bool" where
  "keeps f m \<longleftrightarrow> (\<forall>st. f (snd (m st)) = f st)"

text \<open>The tables that no append and no acknowledgment touches, and what an append leaves besides.\<close>

definition frame :: "'k translator \<Rightarrow> _" where
  "frame st = (tw_pairings st, tw_rates st, tw_refs st)"

definition outbox :: "'k translator \<Rightarrow> _" where
  "outbox st = (tw_objects st, tw_sent st)"

lemma keepsD: "keeps f m \<Longrightarrow> m st = (x, st') \<Longrightarrow> f st' = f st"
  unfolding keeps_def by (metis snd_conv)

lemma andThen_cases:
  obtains (fails) e st1 where "m st = (Inl e, st1)" "andThen m f st = (Inl e, st1)"
  | (goes) x st1 where "m st = (Inr x, st1)" "andThen m f st = f x st1"
  by (cases "m st"; cases "fst (m st)") (auto simp: andThen_def)

lemma keeps_andThen: "keeps g m \<Longrightarrow> (\<And>x. keeps g (f x)) \<Longrightarrow> keeps g (andThen m f)"
  unfolding keeps_def
proof
  fix st :: "'a translator"
  assume "\<forall>st. g (snd (m st)) = g st" "\<And>x. \<forall>st. g (snd (f x st)) = g st"
  then show "g (snd (andThen m f st)) = g st"
    by (cases rule: andThen_cases[of m st f]) (metis snd_conv, metis snd_conv)
qed

lemma keeps_simple [simp]: "keeps g (finished x)" "keeps g (\<lambda>st. (y, st))"
  by (simp_all add: keeps_def finished_def)

lemma keeps_appending [simp]:
  "keeps frame (appending E now slug streamId i)" "keeps outbox (appending E now slug streamId i)"
  by (auto simp: keeps_def frame_def outbox_def appending_def seqAppend_served split: sum.split)

lemma keeps_acknowledge990 [simp]: "keeps frame (acknowledge990 E ck slug partnerId p)"
  by (auto simp: keeps_def frame_def acknowledge990_def putObject_def Let_def
      split: sum.split partner_error.split transport_outcome.split)

lemma keeps_priceAndAccept [simp]:
  "keeps frame (priceAndAccept E ck slug p q)" "keeps outbox (priceAndAccept E ck slug p q)"
  unfolding priceAndAccept_def Let_def by (auto split: sum.split intro!: keeps_andThen)

lemma keeps_priceTender [simp]: "keeps frame (priceTender E ck slug partnerId p)"
proof -
  have "keeps frame (andThen (priceAndAccept E ck slug p q) (\<lambda>_. andThen (acknowledge990 E ck slug partnerId p) (\<lambda>_. finished True)))"
    for q
    by (intro keeps_andThen) simp_all
  then show ?thesis
    unfolding keeps_def priceTender_def by (auto split: sum.split option.split quote_result.split)
qed

definition present :: "'k translator \<Rightarrow> string \<Rightarrow> string \<Rightarrow> bool" where
  "present st slug i \<longleftrightarrow> i \<in> ev_id ` set (logOf st (dbOf slug))"

lemma present_mono: "extends E slug P st st' \<Longrightarrow> present st slug i \<Longrightarrow> present st' slug i"
  by (auto simp: extends_def present_def)

lemma findById_present: "findById (readDb (sys_world (tw_system st)) (dbOf slug)) i \<noteq> None \<longleftrightarrow> present st slug i"
  by (auto simp: findById_def present_def logOf_def find_None_iff)

lemma appending_Inr:
  assumes r: "reachable (te_env E) (tw_system st)" and a: "appending E now slug streamId i st = (Inr u, st')"
    and d: "in_device_id i = None"
  shows "present st' slug (in_id i)"
proof -
  have st': "st' = st\<lparr> tw_system := served (te_env E) now slug streamId i (tw_system st) \<rparr>"
    and ok: "\<exists>x. fst (append_event (te_env E) now slug streamId i False
        (instance_at (idFromName (te_env E) (slug @ ''|'' @ streamId)) (tw_system st))) = Inr x"
    using a by (auto simp: appending_def seqAppend_served split: sum.splits)
  from r refl refl show ?thesis
  proof (cases rule: served_outcome[of "te_env E" "tw_system st" _ slug streamId _ now i])
    case (refused err)
    then show ?thesis using ok by simp
  next
    case (replayed e)
    then have "present st slug (in_id i)" using d findById_present[of st slug "in_id i"] by (auto simp: replays_def)
    then show ?thesis using replayed(3)[of "dbOf slug"] by (simp add: st' present_def logOf_def)
  next
    case (committed e trs)
    then show ?thesis by (simp add: st' present_def logOf_def)
  qed
qed

lemma appending_known:
  assumes r: "reachable (te_env E) (tw_system st)" and k: "present st slug (in_id i)"
  shows "logOf (snd (appending E now slug streamId i st)) x = logOf st x"
proof -
  have st': "snd (appending E now slug streamId i st) =
      st\<lparr> tw_system := served (te_env E) now slug streamId i (tw_system st) \<rparr>"
    by (auto simp: appending_def seqAppend_served split: sum.splits)
  from r refl refl show ?thesis
  proof (cases rule: served_outcome[of "te_env E" "tw_system st" _ slug streamId _ now i])
    case (committed e trs)
    then show ?thesis using k findById_present[of st slug "in_id i"] by simp
  qed (simp_all add: st' logOf_def)
qed

text \<open>A run that adds nothing when the ids \<open>is\<close> are present, and one that leaves them present.\<close>

definition silent :: "'k translator_env \<Rightarrow> string \<Rightarrow> string list \<Rightarrow> ('k, 'a) run \<Rightarrow> bool" where
  "silent E slug is m \<longleftrightarrow> (\<forall>st. reachable (te_env E) (tw_system st) \<and> (\<forall>i \<in> set is. present st slug i) \<longrightarrow>
     reachable (te_env E) (tw_system (snd (m st))) \<and> (\<forall>r. logOf (snd (m st)) r = logOf st r))"

definition leaves :: "'k translator_env \<Rightarrow> string \<Rightarrow> string list \<Rightarrow> ('k, 'a) run \<Rightarrow> bool" where
  "leaves E slug is m \<longleftrightarrow> (\<forall>st x. reachable (te_env E) (tw_system st) \<and> fst (m st) = Inr x \<longrightarrow>
     (\<forall>i \<in> set is. present (snd (m st)) slug i))"

lemma silent_andThen: "silent E slug is m \<Longrightarrow> (\<And>x. silent E slug is (f x)) \<Longrightarrow> silent E slug is (andThen m f)"
  unfolding silent_def
proof (intro allI impI)
  fix st :: "'a translator"
  let ?ok = "\<lambda>st. reachable (te_env E) (tw_system st) \<and> (\<forall>i \<in> set is. present st slug i)"
  let ?same = "\<lambda>st st'. reachable (te_env E) (tw_system st') \<and> (\<forall>r. logOf st' r = logOf st r)"
  assume m: "\<forall>st. ?ok st \<longrightarrow> ?same st (snd (m st))" and f: "\<And>x. \<forall>st. ?ok st \<longrightarrow> ?same st (snd (f x st))" and ok: "?ok st"
  show "?same st (snd (andThen m f st))"
  proof (cases rule: andThen_cases[of m st f])
    case (goes x st1)
    then have s1: "?same st st1" using m ok by (metis snd_conv)
    then have "?ok st1" using ok by (simp add: present_def)
    then show ?thesis using f s1 goes(2) by metis
  qed (use m ok in \<open>metis snd_conv\<close>)
qed

lemma silent_weaken: "silent E slug is m \<Longrightarrow> set is \<subseteq> set js \<Longrightarrow> silent E slug js m"
  unfolding silent_def by blast

lemma silent_simple [simp]: "silent E slug is (finished x)" "silent E slug is (\<lambda>st. (y, st))"
  by (simp_all add: silent_def finished_def)

lemma silent_appending: "in_id i \<in> set is \<Longrightarrow> silent E slug is (appending E now slug streamId i)"
  unfolding silent_def
proof (intro allI impI conjI)
  fix st :: "'a translator" and r
  assume i: "in_id i \<in> set is" and ok: "reachable (te_env E) (tw_system st) \<and> (\<forall>i \<in> set is. present st slug i)"
  show "logOf (snd (appending E now slug streamId i st)) r = logOf st r"
    by (rule appending_known) (use i ok in auto)
  show "reachable (te_env E) (tw_system (snd (appending E now slug streamId i st)))"
    using ok served_reachable by (auto simp: appending_def seqAppend_served split: sum.split)
qed

lemma leaves_andThen:
  assumes "leaves E slug is m" "\<And>x. leaves E slug js (f x)" "\<And>x. upholds E slug P (f x)" "upholds E slug P m"
  shows "leaves E slug (is @ js) (andThen m f)"
  unfolding leaves_def
proof (intro allI impI ballI)
  fix st :: "'a translator" and y i
  assume h: "reachable (te_env E) (tw_system st) \<and> fst (andThen m f st) = Inr y" and i: "i \<in> set (is @ js)"
  obtain x st1 where m: "m st = (Inr x, st1)" using h by (auto simp: andThen_def split: prod.splits sum.splits)
  have e: "extends E slug P st st1" by (rule upholdsD[OF assms(4) _ m]) (use h in simp)
  have f: "fst (f x st1) = Inr y" "snd (andThen m f st) = snd (f x st1)" using h m by (simp_all add: andThen_def)
  have "i \<in> set is \<Longrightarrow> present st1 slug i" using assms(1) h m unfolding leaves_def by (metis fst_conv snd_conv)
  moreover have "extends E slug P st1 (snd (f x st1))"
    using assms(3) extends_reachable[OF e] unfolding upholds_def by blast
  moreover have "i \<in> set js \<Longrightarrow> present (snd (f x st1)) slug i"
    using assms(2) f(1) extends_reachable[OF e] unfolding leaves_def by blast
  ultimately show "present (snd (andThen m f st)) slug i" using i f(2) present_mono by (metis Un_iff set_append)
qed

lemma leaves_appending: "in_device_id i = None \<Longrightarrow> leaves E slug [in_id i] (appending E now slug streamId i)"
  unfolding leaves_def using appending_Inr by (metis empty_iff empty_set prod.collapse set_ConsD)

lemma leaves_nothing [simp]: "leaves E slug [] m"
  by (simp add: leaves_def)

lemma acknowledge990_system: "tw_system (snd (acknowledge990 E ck slug partnerId p st)) = tw_system st"
  by (auto simp: acknowledge990_def Let_def split: sum.split partner_error.split transport_outcome.split)

lemma silent_acknowledge990 [simp]: "silent E slug is (acknowledge990 E ck slug partnerId p)"
  by (simp add: silent_def acknowledge990_system logOf_def)

section \<open>The ids of a chain\<close>

text \<open>The ids a plan appends under, from the shipment, the request and the configuration alone.\<close>

definition decisionIds :: "(string \<Rightarrow> string) \<Rightarrow> string \<Rightarrow> priced_quote \<Rightarrow> string list" where
  "decisionIds hex sid q =
     (case assessApproval q NO_OPTS of
        Inl _ \<Rightarrow> []
      | Inr d \<Rightarrow>
          (if approval d \<noteq> NoApproval then [deterministicUuid hex (''edi:approval-requested:'' @ sid)] else []) @
          [acceptedIdFor hex sid])"

definition quoteIds :: "(string \<Rightarrow> string) \<Rightarrow> string \<Rightarrow> priced_quote \<Rightarrow> string list" where
  "quoteIds hex sid q =
     [pricedIdFor hex sid, deterministicUuid hex (''edi:agent-acted:'' @ sid)] @ decisionIds hex sid q"

definition chainIds ::
  "(string \<Rightarrow> string) \<Rightarrow> string \<Rightarrow> rate_request \<Rightarrow> unit + tenant_rating_config option \<Rightarrow> string list"
where
  "chainIds hex sid request config =
     (case config of
        Inr (Some c) \<Rightarrow> (case priceShipment request c of Inr (Priced q) \<Rightarrow> quoteIds hex sid q | _ \<Rightarrow> [])
      | _ \<Rightarrow> [])"

lemma appended_ids [simp]:
  "in_id (pricedInput hex ck p q) = pricedIdFor hex (bkp_shipment_id p)"
  "in_id (actedInput hex ck p q) = deterministicUuid hex (''edi:agent-acted:'' @ bkp_shipment_id p)"
  "in_id (approvalInput hex ck p d) = deterministicUuid hex (''edi:approval-requested:'' @ bkp_shipment_id p)"
  "in_id (acceptedInput hex ck p) = acceptedIdFor hex (bkp_shipment_id p)"
  "in_device_id (pricedInput hex ck p q) = None" "in_device_id (actedInput hex ck p q) = None"
  "in_device_id (approvalInput hex ck p d) = None" "in_device_id (acceptedInput hex ck p) = None"
  by (simp_all add: pricedInput_def actedInput_def approvalInput_def acceptedInput_def raterInput_def)

lemma silent_priceAndAccept:
  "silent E slug (quoteIds (te_hex E) (bkp_shipment_id p) q) (priceAndAccept E ck slug p q)"
proof (cases "assessApproval q NO_OPTS")
  case (Inl err)
  show ?thesis
    unfolding priceAndAccept_def Let_def Inl sum.case
    by (intro silent_andThen silent_appending silent_simple) (simp_all add: quoteIds_def)
next
  case (Inr d)
  have a: "silent E slug (quoteIds (te_hex E) (bkp_shipment_id p) q)
      (if approval d \<noteq> NoApproval
       then appending E (ck_append ck 3) slug (streamOf (bkp_shipment_id p)) (approvalInput (te_hex E) ck p d) else finished ())"
    by (auto intro!: silent_appending simp: quoteIds_def decisionIds_def Inr)
  show ?thesis
    unfolding priceAndAccept_def Let_def Inr sum.case
    by (intro silent_andThen silent_appending a) (simp_all add: quoteIds_def decisionIds_def Inr)
qed

lemma silent_priceTender:
  "silent E slug (chainIds (te_hex E) (bkp_shipment_id p) (bkp_request p) (loadTenantRatingConfig rates (ck_received ck)))
     (\<lambda>st. if tw_rates st slug = rates then priceTender E ck slug partnerId p st else (y, st))"
proof (cases "loadTenantRatingConfig rates (ck_received ck)")
  case (Inr c)
  show ?thesis
  proof (cases c)
    case (Some config)
    show ?thesis
    proof (cases "priceShipment (bkp_request p) config")
      case ok: (Inr res)
      show ?thesis
      proof (cases res)
        case (Priced q)
        have "silent E slug (quoteIds (te_hex E) (bkp_shipment_id p) q)
            (andThen (priceAndAccept E ck slug p q) (\<lambda>_. andThen (acknowledge990 E ck slug partnerId p) (\<lambda>_. finished True)))"
          by (intro silent_andThen silent_priceAndAccept silent_acknowledge990 silent_simple)
        then show ?thesis
          unfolding silent_def by (auto simp: priceTender_def chainIds_def Inr Some ok Priced)
      qed (auto simp: silent_def priceTender_def Inr Some ok)
    qed (auto simp: silent_def priceTender_def Inr Some)
  qed (auto simp: silent_def priceTender_def Inr)
qed (auto simp: silent_def priceTender_def)

lemma leaves_priceAndAccept:
  "leaves E slug (quoteIds (te_hex E) (bkp_shipment_id p) q) (priceAndAccept E ck slug p q)"
proof -
  let ?P = "\<lambda>_. True" let ?sid = "streamOf (bkp_shipment_id p)"
  have law: "upholds E slug ?P (appending E now slug ?sid i)" for now i
    by (rule upholds_appending) simp
  have rest: "leaves E slug (decisionIds (te_hex E) (bkp_shipment_id p) q)
      (case assessApproval q NO_OPTS of Inl err \<Rightarrow> (\<lambda>st. (Inl (PricingThrew err), st))
       | Inr d \<Rightarrow> andThen (if approval d \<noteq> NoApproval
                 then appending E (ck_append ck 3) slug ?sid (approvalInput (te_hex E) ck p d) else finished ()) (\<lambda>_.
            appending E (ck_append ck 4) slug ?sid (acceptedInput (te_hex E) ck p)))"
  proof (cases "assessApproval q NO_OPTS")
    case (Inr d)
    have a: "leaves E slug (if approval d \<noteq> NoApproval then [in_id (approvalInput (te_hex E) ck p d)] else [])
        (if approval d \<noteq> NoApproval then appending E (ck_append ck 3) slug ?sid (approvalInput (te_hex E) ck p d)
         else finished ())"
      using leaves_appending[of "approvalInput (te_hex E) ck p d" E slug "ck_append ck 3" ?sid] by simp
    have b: "leaves E slug [in_id (acceptedInput (te_hex E) ck p)]
        (appending E (ck_append ck 4) slug ?sid (acceptedInput (te_hex E) ck p))"
      by (rule leaves_appending) simp
    have m: "upholds E slug ?P (if approval d \<noteq> NoApproval
        then appending E (ck_append ck 3) slug ?sid (approvalInput (te_hex E) ck p d) else finished ())"
      using law by simp
    show ?thesis
      using leaves_andThen[OF a b law m] by (simp only: decisionIds_def Inr sum.case appended_ids)
  qed (simp add: leaves_def decisionIds_def)
  have lrest: "upholds E slug ?P
      (case assessApproval q NO_OPTS of Inl err \<Rightarrow> (\<lambda>st. (Inl (PricingThrew err), st))
       | Inr d \<Rightarrow> andThen (if approval d \<noteq> NoApproval
                 then appending E (ck_append ck 3) slug ?sid (approvalInput (te_hex E) ck p d) else finished ()) (\<lambda>_.
            appending E (ck_append ck 4) slug ?sid (acceptedInput (te_hex E) ck p)))"
    using law by (auto split: sum.split intro!: upholds_andThen)
  note two = leaves_andThen[OF leaves_appending[of "actedInput (te_hex E) ck p q" E slug "ck_append ck 2" ?sid] rest lrest law]
  note one = leaves_andThen[OF leaves_appending[of "pricedInput (te_hex E) ck p q" E slug "ck_append ck 1" ?sid] two
      upholds_andThen[OF law lrest] law]
  show ?thesis
    unfolding priceAndAccept_def Let_def quoteIds_def
    using one by (simp only: appended_ids append_Cons append_Nil)
qed

lemma leaves_priceTender:
  assumes r: "reachable (te_env E) (tw_system st)" and run: "priceTender E ck slug partnerId p st = (Inr b, st')"
  shows "\<forall>i \<in> set (chainIds (te_hex E) (bkp_shipment_id p) (bkp_request p)
      (loadTenantRatingConfig (tw_rates st slug) (ck_received ck))). present st' slug i"
    and "b \<Longrightarrow> present st' slug (acceptedIdFor (te_hex E) (bkp_shipment_id p))"
proof -
  have "(\<forall>i \<in> set (chainIds (te_hex E) (bkp_shipment_id p) (bkp_request p)
      (loadTenantRatingConfig (tw_rates st slug) (ck_received ck))). present st' slug i) \<and>
    (b \<longrightarrow> present st' slug (acceptedIdFor (te_hex E) (bkp_shipment_id p)))"
  proof (cases "\<exists>config q. loadTenantRatingConfig (tw_rates st slug) (ck_received ck) = Inr (Some config) \<and>
      priceShipment (bkp_request p) config = Inr (Priced q)")
    case True
    then obtain config q where c: "loadTenantRatingConfig (tw_rates st slug) (ck_received ck) = Inr (Some config)"
      "priceShipment (bkp_request p) config = Inr (Priced q)" by blast
    obtain st1 where one: "priceAndAccept E ck slug p q st = (Inr (), st1)"
        "andThen (acknowledge990 E ck slug partnerId p) (\<lambda>_. finished True) st1 = (Inr b, st')"
      using run c by (cases "priceAndAccept E ck slug p q st"; cases "fst (priceAndAccept E ck slug p q st)")
        (auto simp: priceTender_def andThen_def)
    have p1: "\<forall>i \<in> set (quoteIds (te_hex E) (bkp_shipment_id p) q). present st1 slug i"
      using leaves_priceAndAccept[of E slug p q ck] r one(1) unfolding leaves_def by (metis fst_conv snd_conv)
    have "tw_system st' = tw_system st1"
      using one(2) acknowledge990_system[of E ck slug partnerId p st1]
      by (cases "acknowledge990 E ck slug partnerId p st1") (auto simp: andThen_def finished_def split: sum.splits)
    then have p2: "\<forall>i \<in> set (quoteIds (te_hex E) (bkp_shipment_id p) q). present st' slug i"
      using p1 by (simp add: present_def logOf_def)
    have "acceptedIdFor (te_hex E) (bkp_shipment_id p) \<in> set (quoteIds (te_hex E) (bkp_shipment_id p) q)"
    proof (cases "assessApproval q NO_OPTS")
      case (Inl err)
      then show ?thesis
        using one(1) by (auto simp: priceAndAccept_def andThen_def Let_def split: sum.splits prod.splits)
    qed (simp add: quoteIds_def decisionIds_def)
    then show ?thesis using p2 by (simp add: chainIds_def c)
  next
    case False
    then have "b = False" using run by (auto simp: priceTender_def split: sum.splits option.splits quote_result.splits)
    moreover have "chainIds (te_hex E) (bkp_shipment_id p) (bkp_request p)
        (loadTenantRatingConfig (tw_rates st slug) (ck_received ck)) = []"
      using False unfolding chainIds_def by (auto split: sum.split option.split quote_result.split dest: sym)
    ultimately show ?thesis by simp
  qed
  then show "\<forall>i \<in> set (chainIds (te_hex E) (bkp_shipment_id p) (bkp_request p)
      (loadTenantRatingConfig (tw_rates st slug) (ck_received ck))). present st' slug i"
    "b \<Longrightarrow> present st' slug (acceptedIdFor (te_hex E) (bkp_shipment_id p))" by blast+
qed

end
