(* ===== verification/TranslatorProps.thy ===== *)
theory TranslatorProps
  imports TranslatorLaws EdiProps LedgerSamples
begin

text \<open>
  The promises of the translator worker: an inbound tender never books, every answer is accounted for by what it left
  in the store, a redelivered tender adds no event, and what the mapping and the status sweep leave out.
\<close>

section \<open>A plan that ran\<close>

lemma runPlan_Inr:
  assumes "runPlan E ck slug partnerId isa p st = (Inr ans, st')"
  obtains st1 b where
    "appending E (ck_append ck 0) slug (streamOf (bkp_shipment_id p)) (bkp_append p) (persisted E ck slug partnerId isa p st)
       = (Inr (), st1)"
    "priceTender E ck slug partnerId p st1 = (Inr b, st')"
    "ans = (if b then Accepted (bkp_shipment_id p) else Recorded (bkp_shipment_id p))"
proof -
  let ?a = "appending E (ck_append ck 0) slug (streamOf (bkp_shipment_id p)) (bkp_append p)"
  obtain x st1 where a: "?a (persisted E ck slug partnerId isa p st) = (x, st1)" by (cases "?a (persisted E ck slug partnerId isa p st)")
  obtain y st2 where b: "priceTender E ck slug partnerId p st1 = (y, st2)" by (cases "priceTender E ck slug partnerId p st1")
  show ?thesis
    using assms a b that[of st1]
    by (cases x; cases y) (auto simp: runPlan_persisted andThen_def finished_def)
qed

lemma planned_append:
  assumes "planTender E ck slug partnerId isa raw st = Inr p"
  shows "in_id (bkp_append p) = deterministicUuid (te_hex E) (''edi:quote-requested:'' @ bkp_shipment_id p)"
    and "in_device_id (bkp_append p) = None"
  using assms by (elim planTender_Inr mapTender_Inr; simp)+

lemma persisted_system_tables:
  "tw_pairings (persisted E ck slug partnerId isa p st) = tw_pairings st"
  "tw_rates (persisted E ck slug partnerId isa p st) = tw_rates st"
  "tw_sent (persisted E ck slug partnerId isa p st) = tw_sent st"
  "tw_refs (persisted E ck slug partnerId isa p st) =
     (if t_shipments (tenantDbOf st slug) (bkp_shipment_id p) \<noteq> None then tw_refs st
      else (tw_refs st)(slug := tw_refs st slug @ [(bkp_shipment_id p, storedRefs p partnerId)]))"
  "tw_objects (persisted E ck slug partnerId isa p st) =
     (tw_objects st)(tenderKey slug (bkp_shipment_id p) \<mapsto> MarkerObject partnerId (bkp_scac p) isa)"
  by (auto simp: persisted_def persistShipment_def persistParty_def putObject_def putTenantDb_def tenantDbOf_def Let_def)

text \<open>What a plan that answered left: the state it is in, and every id of its chain.\<close>

lemma runPlan_ran:
  assumes r: "reachable (te_env E) (tw_system st)" and slug: "\<not> isPlatformTenant slug"
    and plan: "planTender E ck slug partnerId isa raw st = Inr p"
    and run: "runPlan E ck slug partnerId isa p st = (Inr ans, st')"
  shows "reachable (te_env E) (tw_system st')" "frame st' = frame (persisted E ck slug partnerId isa p st)"
    "present st' slug (in_id (bkp_append p))"
    "\<forall>i \<in> set (chainIds (te_hex E) (bkp_shipment_id p) (bkp_request p)
       (loadTenantRatingConfig (tw_rates st slug) (ck_received ck))). present st' slug i"
    "ans \<in> {Accepted (bkp_shipment_id p), Recorded (bkp_shipment_id p)}"
    "ans = Accepted (bkp_shipment_id p) \<Longrightarrow> present st' slug (acceptedIdFor (te_hex E) (bkp_shipment_id p))"
proof -
  let ?P = "tenderEvent (te_hex E) (bkp_shipment_id p)" let ?st0 = "persisted E ck slug partnerId isa p st"
  obtain st1 b where parts: "appending E (ck_append ck 0) slug (streamOf (bkp_shipment_id p)) (bkp_append p) ?st0 = (Inr (), st1)"
      "priceTender E ck slug partnerId p st1 = (Inr b, st')"
      "ans = (if b then Accepted (bkp_shipment_id p) else Recorded (bkp_shipment_id p))"
    using runPlan_Inr[OF run] .
  note r0 = extends_reachable[OF extends_persisted[OF r slug, of ?P ck partnerId isa p]]
  note e1 = upholdsD[OF upholds_tender_append[OF planTender_append[OF plan]] r0 parts(1)]
  note r1 = extends_reachable[OF e1]
  note e2 = upholdsD[OF upholds_priceTender r1 parts(2)]
  have f1: "frame st1 = frame ?st0" by (rule keepsD[OF keeps_appending(1)]) (rule parts(1))
  have f2: "frame st' = frame st1" by (rule keepsD[OF keeps_priceTender]) (rule parts(2))
  show "reachable (te_env E) (tw_system st')" by (rule extends_reachable[OF e2])
  show "frame st' = frame ?st0" using f1 f2 by simp
  show "present st' slug (in_id (bkp_append p))"
    by (rule present_mono[OF e2 appending_Inr[OF r0 parts(1) planned_append(2)[OF plan]]])
  have "tw_rates st1 = tw_rates st" using f1 by (simp add: frame_def persisted_system_tables)
  then show "\<forall>i \<in> set (chainIds (te_hex E) (bkp_shipment_id p) (bkp_request p)
       (loadTenantRatingConfig (tw_rates st slug) (ck_received ck))). present st' slug i"
    using leaves_priceTender(1)[OF r1 parts(2)] by simp
  show "ans \<in> {Accepted (bkp_shipment_id p), Recorded (bkp_shipment_id p)}" using parts(3) by simp
  show "present st' slug (acceptedIdFor (te_hex E) (bkp_shipment_id p))" if "ans = Accepted (bkp_shipment_id p)"
    using leaves_priceTender(2)[OF r1 parts(2)] that parts(3) by (simp split: if_splits)
qed

section \<open>A redelivery resolves to the same shipment\<close>

lemma parsed_ref_trimmed:
  assumes "parse204 raw = Inr t" "refValue t k = Some v"
  shows "map_of (te_refs t) k = Some v"
proof -
  obtain tk where "tokenize raw = Inr tk" "TenderDoc (assembleTender (parsed (tk_segments tk))) = Inr t"
    using assms(1) by (auto simp: parse204_def)
  then have tk: "te_refs t = pa_refs (parsed (tk_segments tk))"
    by (auto simp: TenderDoc_def assembleTender_def split: if_splits)
  obtain w where w: "map_of (te_refs t) k = Some w" "v = trim w"
    using assms(2) by (auto simp: refValue_def truthy_def split: option.splits if_splits)
  have e: "trim x = x" if "truthy (elementAt s i) = Some x" for s i x
    using that by (auto simp: truthy_def elementAt_def trim_idem split: option.splits if_splits)
  have "trim w = w" if "firstSome (map (refIn k) ss) = Some w" for ss
    using that
  proof (induction ss)
    case (Cons s ss)
    then show ?case by (cases "refIn k s") (auto simp: refIn_def split: if_splits intro: e)
  qed simp
  then show ?thesis using w tk by (simp add: parsed_fields(3) onWire_def)
qed

lemma uniq_single: "uniq xs = [c] \<longleftrightarrow> set xs = {c}"
proof
  have s: "set (uniq xs) = set xs" "distinct (uniq xs)"
    by (simp_all add: uniq_def uniq_from_set uniq_from_distinct)
  show "set xs = {c} \<Longrightarrow> uniq xs = [c]"
    using s by (cases "uniq xs") (auto simp: doubleton_eq_iff split: list.splits dest: subset_singletonD intro: list.exhaust[of "tl (uniq xs)"])
  show "uniq xs = [c] \<Longrightarrow> set xs = {c}" using s(1) by simp
qed

definition knownMatches :: "string \<Rightarrow> tender_doc \<Rightarrow> (string \<times> (string \<times> string) list) list \<Rightarrow> string set" where
  "knownMatches partnerId t rows = set (concat (map (matchingShipments partnerId t rows) LOAD_UNIQUE_REF_KEYS))"

lemma canonical_matches:
  "resolveCanonicalShipmentId partnerId t rows = Some c \<longleftrightarrow> knownMatches partnerId t rows = {c}"
  unfolding resolveCanonicalShipmentId_def knownMatches_def uniq_single[symmetric]
  by (auto split: list.split)

lemma matches_of_stored:
  assumes "parse204 raw = Inr t" "bkp_refs p = te_refs t"
  shows "knownMatches partnerId t (rows @ [(sid, storedRefs p partnerId)]) =
    knownMatches partnerId t rows \<union> (if list_ex (\<lambda>k. refValue t k \<noteq> None) LOAD_UNIQUE_REF_KEYS then {sid} else {})"
proof -
  have m: "set (matchingShipments partnerId t (rows @ [(sid, storedRefs p partnerId)]) k) =
      set (matchingShipments partnerId t rows k) \<union> (if refValue t k \<noteq> None then {sid} else {})"
    if k: "k \<in> set LOAD_UNIQUE_REF_KEYS" for k
  proof (cases "refValue t k")
    case (Some v)
    have "map_of (storedRefs p partnerId) k = Some v" "map_of (storedRefs p partnerId) ''partner'' = Some partnerId"
      using k parsed_ref_trimmed[OF assms(1) Some]
      by (auto simp: storedRefs_def assms(2) update_conv LOAD_UNIQUE_REF_KEYS_def)
    then show ?thesis using Some by (simp add: matchingShipments_def)
  qed (simp add: matchingShipments_def)
  show ?thesis
    unfolding knownMatches_def set_concat set_map list_ex_iff image_image using m by (simp add: UN_Un_distrib) auto
qed

lemma override_stable:
  assumes parse: "parse204 raw = Inr t" and refs: "bkp_refs p = te_refs t"
    and sid: "sid = textOr other (shipmentOverride hex partnerId t isa rows)"
    and rows: "rows' = rows \<or> rows' = rows @ [(sid, storedRefs p partnerId)]"
  shows "textOr other (shipmentOverride hex partnerId t isa rows') = sid"
proof (cases "rows' = rows")
  case False
  then have r: "rows' = rows @ [(sid, storedRefs p partnerId)]" using rows by blast
  note m = matches_of_stored[OF parse refs, of partnerId rows sid, folded r]
  show ?thesis
  proof (cases "resolveCanonicalShipmentId partnerId t rows")
    case (Some c)
    then have "sid = c" by (simp add: sid shipmentOverride_def textOr_def)
    then have "resolveCanonicalShipmentId partnerId t rows' = Some c"
      using Some m by (auto simp: canonical_matches)
    then show ?thesis using \<open>sid = c\<close> by (simp add: shipmentOverride_def textOr_def)
  next
    case None
    show ?thesis
    proof (cases "list_ex (\<lambda>k. refValue t k \<noteq> None) LOAD_UNIQUE_REF_KEYS")
      case True
      then have o1: "sid = other" using None by (simp add: sid shipmentOverride_def textOr_def)
      have "a = sid" if "resolveCanonicalShipmentId partnerId t rows' = Some a" for a
        using that m True unfolding canonical_matches by auto
      then have "resolveCanonicalShipmentId partnerId t rows' \<in> {None, Some sid}"
        by (cases "resolveCanonicalShipmentId partnerId t rows'") auto
      then show ?thesis using True o1 by (auto simp: shipmentOverride_def textOr_def)
    next
      case False
      have "resolveCanonicalShipmentId partnerId t rows' \<noteq> Some a" for a
        using canonical_matches[of partnerId t rows' a] canonical_matches[of partnerId t rows a] m None False by simp
      then have "resolveCanonicalShipmentId partnerId t rows' = None" by blast
      then show ?thesis using None False by (simp add: sid shipmentOverride_def)
    qed
  qed
qed (use sid in simp)

lemma replan:
  assumes plan: "planTender E ck slug partnerId isa raw st = Inr p"
    and st': "frame st' = frame (persisted E ck slug partnerId isa p st)"
    and plan': "planTender E ck' slug partnerId isa raw st' = Inr p'"
  shows "bkp_shipment_id p' = bkp_shipment_id p" "bkp_request p' = bkp_request p"
proof -
  obtain t where t: "parse204 raw = Inr t" "mapTenderToBooking (uuid (te_env E)) (te_hex E) t
      \<lparr> mc_partnerId = partnerId, mc_receivedTs = ck_received ck,
        mc_override = shipmentOverride (te_hex E) partnerId t isa (tw_refs st slug) \<rparr> = Inr p"
    using planTender_Inr[OF plan] .
  have t': "mapTenderToBooking (uuid (te_env E)) (te_hex E) t
      \<lparr> mc_partnerId = partnerId, mc_receivedTs = ck_received ck',
        mc_override = shipmentOverride (te_hex E) partnerId t isa (tw_refs st' slug) \<rparr> = Inr p'"
    using plan' t(1) by (auto simp: planTender_def split: sum.splits)
  obtain zs kv where one: "lane t = Some zs" "stableRef t = Some kv" "bkp_refs p = te_refs t"
      "bkp_shipment_id p = textOr (shipmentIdFor (te_hex E) partnerId kv)
         (shipmentOverride (te_hex E) partnerId t isa (tw_refs st slug))"
      "bkp_request p = rateRequest zs (requestWeight t) (requestDims t)"
    using mapTender_Inr[OF t(2)] by (metis map_ctx.select_convs(1,3))
  have two: "bkp_shipment_id p' = textOr (shipmentIdFor (te_hex E) partnerId kv)
         (shipmentOverride (te_hex E) partnerId t isa (tw_refs st' slug))"
      "bkp_request p' = rateRequest zs (requestWeight t) (requestDims t)"
    using mapTender_Inr[OF t'] one(1,2) by (metis map_ctx.select_convs(1,3) option.inject)+
  have "tw_refs st' slug = tw_refs st slug \<or>
      tw_refs st' slug = tw_refs st slug @ [(bkp_shipment_id p, storedRefs p partnerId)]"
    using st' by (auto simp: frame_def persisted_system_tables)
  then show "bkp_shipment_id p' = bkp_shipment_id p"
    using override_stable[OF t(1) one(3,4)] two(1) by simp
  show "bkp_request p' = bkp_request p" using one(5) two(2) by simp
qed

section \<open>A plan that ran before\<close>

lemma acknowledge990_done:
  "tw_objects st (ack990Key slug (acceptedIdFor (te_hex E) (bkp_shipment_id p))) \<noteq> None \<Longrightarrow>
   acknowledge990 E ck slug partnerId p st = (Inr (), st)"
  by (simp add: acknowledge990_def)

lemma keys_apart: "ack990Key slug i \<noteq> tenderKey slug sid"
  by (simp add: ack990Key_def tenderKey_def tenderPrefix_def)

lemma priceTender_acknowledged:
  assumes "tw_objects st (ack990Key slug (acceptedIdFor (te_hex E) (bkp_shipment_id p))) \<noteq> None"
  shows "tw_sent (snd (priceTender E ck slug partnerId p st)) = tw_sent st"
proof -
  have "tw_sent (snd (andThen (priceAndAccept E ck slug p q)
      (\<lambda>_. andThen (acknowledge990 E ck slug partnerId p) (\<lambda>_. finished True)) st)) = tw_sent st" for q
  proof (cases "priceAndAccept E ck slug p q st")
    case (Pair x st1)
    have o: "outbox st1 = outbox st" by (rule keepsD[OF keeps_priceAndAccept(2)]) (rule Pair)
    then have "acknowledge990 E ck slug partnerId p st1 = (Inr (), st1)"
      using assms acknowledge990_done[of st1 slug E p ck partnerId] by (simp add: outbox_def)
    then show ?thesis using Pair o by (cases x) (simp_all add: andThen_def finished_def outbox_def)
  qed
  then show ?thesis by (auto simp: priceTender_def split: sum.split option.split quote_result.split)
qed

lemma runPlan_repeated:
  assumes r: "reachable (te_env E) (tw_system st)" and slug: "\<not> isPlatformTenant slug"
    and i: "present st slug (in_id (bkp_append p))"
    and chain: "\<forall>i \<in> set (chainIds (te_hex E) (bkp_shipment_id p) (bkp_request p)
       (loadTenantRatingConfig (tw_rates st slug) (ck_received ck))). present st slug i"
  shows "logOf (snd (runPlan E ck slug partnerId isa p st)) x = logOf st x"
    and "tw_objects st (ack990Key slug (acceptedIdFor (te_hex E) (bkp_shipment_id p))) \<noteq> None \<Longrightarrow>
      tw_sent (snd (runPlan E ck slug partnerId isa p st)) = tw_sent st"
proof -
  let ?st0 = "persisted E ck slug partnerId isa p st"
  let ?ids = "in_id (bkp_append p) # chainIds (te_hex E) (bkp_shipment_id p) (bkp_request p)
       (loadTenantRatingConfig (tw_rates st slug) (ck_received ck))"
  let ?a = "appending E (ck_append ck 0) slug (streamOf (bkp_shipment_id p)) (bkp_append p)"
  have e0: "extends E slug (\<lambda>_. False) st ?st0" by (rule extends_persisted[OF r slug])
  then have l0: "logOf ?st0 x = logOf st x" for x
    unfolding extends_def by (metis append_Nil2 list.set_intros(1) neq_Nil_conv)
  have p0: "\<forall>i \<in> set ?ids. present ?st0 slug i" using i chain l0 by (simp add: present_def)
  obtain y st1 where a: "?a ?st0 = (y, st1)" by (cases "?a ?st0")
  have "silent E slug ?ids ?a" by (rule silent_appending) simp
  then have s1: "reachable (te_env E) (tw_system st1)" "logOf st1 x = logOf ?st0 x" for x
    using extends_reachable[OF e0] p0 a unfolding silent_def by (metis snd_conv)+
  have f1: "frame st1 = frame ?st0" by (rule keepsD[OF keeps_appending(1)]) (rule a)
  have o1: "outbox st1 = outbox ?st0" by (rule keepsD[OF keeps_appending(2)]) (rule a)
  obtain z st2 where b: "priceTender E ck slug partnerId p st1 = (z, st2)" by (cases "priceTender E ck slug partnerId p st1")
  have rates: "tw_rates st1 slug = tw_rates st slug" using f1 by (simp add: frame_def persisted_system_tables)
  have p1: "\<forall>i \<in> set (tl ?ids). present st1 slug i" using p0 s1(2) by (simp add: present_def)
  have s2: "logOf st2 x = logOf st1 x" for x
    using silent_priceTender[of E slug p "tw_rates st slug" ck partnerId z] s1(1) p1 rates b
    unfolding silent_def by (auto dest!: spec[of _ st1])
  have run: "snd (runPlan E ck slug partnerId isa p st) = (case y of Inl _ \<Rightarrow> st1 | Inr _ \<Rightarrow> st2)"
    by (cases y; cases z) (simp_all add: runPlan_persisted andThen_def a b finished_def)
  show "logOf (snd (runPlan E ck slug partnerId isa p st)) x = logOf st x"
    using l0 s1(2) s2 by (simp add: run split: sum.split)
  assume ack: "tw_objects st (ack990Key slug (acceptedIdFor (te_hex E) (bkp_shipment_id p))) \<noteq> None"
  have "tw_objects st1 (ack990Key slug (acceptedIdFor (te_hex E) (bkp_shipment_id p))) \<noteq> None" "tw_sent st1 = tw_sent st"
    using o1 ack keys_apart by (simp_all add: outbox_def persisted_system_tables)
  then show "tw_sent (snd (runPlan E ck slug partnerId isa p st)) = tw_sent st"
    using priceTender_acknowledged[of st1 slug E p ck partnerId] b by (simp add: run split: sum.split)
qed

section \<open>The promises of the handler\<close>

text \<open>C6: Whatever arrives at the inbound door, the run only appends: at most to the one tenant whose partner
  authenticated and is certified, on one shipment's stream, events of the five kinds of a tender (requested, priced,
  agent acted, approval requested, accepted). It never books a shipment, and every state it reaches is one of the ledger.\<close>

theorem tenders_never_book:
  assumes "reachable (te_env E) (tw_system st)" "handleInbound204 E ck rq st = (res, st')"
  shows "reachable (te_env E) (tw_system st') \<and>
    (\<exists>slug sid new. (\<forall>r. logOf st' r = logOf st r @ (if r = CustomerDb slug then new else [])) \<and>
       (\<forall>e \<in> set new. stream_id e = ''s:'' @ sid \<and>
          kind e \<in> {QuoteRequested, QuotePriced, AgentActed, ApprovalRequested, QuoteAccepted}) \<and>
       (new = [] \<or> (\<exists>partnerId. authenticate E st rq = Some (partnerId, slug) \<and>
          certStatus st slug partnerId = Some ''certified'')))"
  using handler_extends[OF assms]
proof (elim disjE exE conjE)
  fix partnerId slug sid
  assume h: "authenticate E st rq = Some (partnerId, slug)" "certStatus st slug partnerId = Some ''certified''"
    "dbOf slug = CustomerDb slug" "extends E slug (tenderEvent (te_hex E) sid) st st'"
  obtain new where new: "logOf st' (CustomerDb slug) = logOf st (CustomerDb slug) @ new"
      "\<forall>e \<in> set new. tenderEvent (te_hex E) sid e"
    using h(3,4) by (auto simp: extends_def)
  have k: "stream_id e = ''s:'' @ sid \<and> kind e \<in> {QuoteRequested, QuotePriced, AgentActed, ApprovalRequested, QuoteAccepted}"
    if "tenderEvent (te_hex E) sid e" for e
    using that by (auto simp: tenderEvent_def tenderIds_def streamOf_def)
  show ?thesis
    using h new k by (intro conjI exI[of _ slug] exI[of _ sid] exI[of _ new]) (auto simp: extends_def)
next
  assume "reachable (te_env E) (tw_system st')" "\<forall>r. logOf st' r = logOf st r"
  then show ?thesis by (intro conjI exI[of _ "[]"] exI) simp_all
qed

lemma quarantined_row:
  assumes "quarantine E slug partnerId isa body err rule st = (res, st')"
  shows "\<exists>a. res = Inr (Quarantined a) \<and> (\<exists>x \<in> set (t_anomalies (tenantDbOf st' slug)). an_id x = a \<and> an_status x = ''open'') \<and>
    tw_objects st' (quarantineKey slug partnerId isa) = Some (RawObject (cappedBody body))"
proof -
  have r: "\<exists>x \<in> set (reopenAnomaly a rows). an_id x = an_id a \<and> an_status x = ''open''" if "an_status a = ''open''" for a rows
  proof (cases "\<exists>x \<in> set rows. an_id x = an_id a")
    case True
    then obtain x where "x \<in> set rows" "an_id x = an_id a" by blast
    then have "x\<lparr> an_status := ''open'' \<rparr> \<in> set (reopenAnomaly a rows)" "an_id (x\<lparr> an_status := ''open'' \<rparr>) = an_id a"
      by (auto simp: reopenAnomaly_def list_ex_iff)
    then show ?thesis by (intro bexI[of _ "x\<lparr> an_status := ''open'' \<rparr>"]) simp_all
  qed (use that in \<open>auto simp: reopenAnomaly_def list_ex_iff\<close>)
  show ?thesis
    using assms r[of "quarantineDescriptor partnerId isa ''204'' (te_message E err) (quarantineKey slug partnerId isa) rule"]
    by (auto simp: quarantine_def putObject_def tenantDbOf_def putTenantDb_def quarantineDescriptor_def Let_def)
qed

lemma marker_stays:
  assumes "runPlan E ck slug partnerId isa p st = (Inr ans, st')"
  shows "tw_objects st' (tenderKey slug (bkp_shipment_id p)) = Some (MarkerObject partnerId (bkp_scac p) isa)"
proof -
  let ?k = "tenderKey slug (bkp_shipment_id p)"
  have ack: "keeps (\<lambda>st. tw_objects st ?k) (acknowledge990 E ck slug partnerId p)"
    by (auto simp: keeps_def acknowledge990_def putObject_def keys_apart[symmetric] Let_def
        split: sum.split partner_error.split transport_outcome.split)
  have "keeps (\<lambda>st. tw_objects st ?k) m" if "keeps outbox m" for m :: "('a, 'b) run"
    using that by (simp add: keeps_def outbox_def)
  note o = this
  have "keeps (\<lambda>st. tw_objects st ?k) (andThen (priceAndAccept E ck slug p q)
      (\<lambda>_. andThen (acknowledge990 E ck slug partnerId p) (\<lambda>_. finished True)))" for q
    by (intro keeps_andThen ack o keeps_priceAndAccept keeps_simple)
  then have price: "keeps (\<lambda>st. tw_objects st ?k) (priceTender E ck slug partnerId p)"
    by (auto simp: keeps_def priceTender_def split: sum.split option.split quote_result.split)
  obtain st1 b where parts:
      "appending E (ck_append ck 0) slug (streamOf (bkp_shipment_id p)) (bkp_append p) (persisted E ck slug partnerId isa p st)
        = (Inr (), st1)" "priceTender E ck slug partnerId p st1 = (Inr b, st')"
    using runPlan_Inr[OF assms] .
  have "outbox st1 = outbox (persisted E ck slug partnerId isa p st)"
    by (rule keepsD[OF keeps_appending(2)]) (rule parts(1))
  moreover have "tw_objects st' ?k = tw_objects st1 ?k" by (rule keepsD[OF price parts(2)])
  ultimately show ?thesis by (simp add: outbox_def persisted_system_tables)
qed



section \<open>What the mapping does not read\<close>

text \<open>The purpose of a tender is never read: a cancellation is planned, priced and accepted like an original.\<close>

theorem a_cancellation_is_planned_like_an_original:
  "mapTenderToBooking isUuid hex (t\<lparr> te_purpose := Cancellation \<rparr>) ctx = mapTenderToBooking isUuid hex t ctx"
proof -
  let ?t = "t\<lparr> te_purpose := Cancellation \<rparr>"
  have l: "stopWith x ?t = stopWith x t" for x by (simp add: stopWith_def)
  have "te_billTo ?t = te_billTo t" by simp
  then have "counterparty hex ?t = counterparty hex t" unfolding counterparty_def l by (simp only:)
  moreover have "stableRef ?t = stableRef t" "lane ?t = lane t" "requestWeight ?t = requestWeight t" "requestDims ?t = requestDims t" "te_scac ?t = te_scac t" "te_refs ?t = te_refs t"
    "te_billTo ?t = te_billTo t"
    by (simp_all add: stableRef_def refValue_def l lane_def requestWeight_def requestDims_def)
  ultimately show ?thesis unfolding mapTenderToBooking_def l by (simp only:)
qed

section \<open>The order of the status report\<close>

lemma newest_snoc:
  "newestStatus (xs @ [e]) = (case newestStatus xs of None \<Rightarrow> Some e | Some b \<Rightarrow> if se_ts b \<le> se_ts e then Some e else Some b)"
  by (simp add: newestStatus_def)

lemma newest_among:
  "newestStatus xs = Some b \<Longrightarrow> (\<forall>x \<in> set xs. se_ts x \<le> se_ts b) \<and> (\<exists>ys. filter (\<lambda>x. se_ts x = se_ts b) xs = ys @ [b])"
proof (induction xs arbitrary: b rule: rev_induct)
  case (snoc e xs)
  show ?case
  proof (cases "newestStatus xs")
    case None
    then have "xs = []" by (cases xs rule: rev_cases) (auto simp: newest_snoc split: option.splits if_splits)
    then show ?thesis using snoc.prems by (auto simp: newest_snoc newestStatus_def)
  next
    case (Some c)
    note c = snoc.IH[OF Some]
    show ?thesis
    proof (cases "se_ts c \<le> se_ts e")
      case True
      then show ?thesis using c Some snoc.prems by (force simp: newest_snoc)
    next
      case False
      then show ?thesis using c Some snoc.prems by (auto simp: newest_snoc)
    qed
  qed
qed (simp add: newestStatus_def)

lemma page_descending:
  "rq_ts_desc q \<Longrightarrow> sorted_wrt (\<lambda>a b. (ts b, stream_id b, seq b) \<le> (ts a, stream_id a, seq a)) (page db l q)"
proof -
  assume d: "rq_ts_desc q"
  let ?f = "\<lambda>e :: payload ledger_event. (ts e, stream_id e, seq e)"
  have "sorted_wrt (\<lambda>a b. ?f b \<le> ?f a) (rev (sort_key ?f es))" for es
    using sorted_sort_key[of ?f es] by (simp add: sorted_wrt_rev sorted_map)
  then show ?thesis using d by (simp add: page_def ordered_def sqlLimit_def sorted_wrt_take)
qed

abbreviation status_query :: "string \<Rightarrow> read_query" where
  "status_query sid \<equiv> \<lparr> rq_shipment_id = Some sid, rq_after_seq = None, rq_cursor = None, rq_limit = Some 1000,
     rq_kinds = Some STATUS_KINDS, rq_ts_desc = True, rq_before_ts = None, rq_include_shadow = False \<rparr>"

text \<open>C21: The status a shipment is reported under is, of those of the latest instant, the first in ledger order: the rows are
  read newest first and the sort that follows is stable, so ties arrive reversed. A second status of the same instant
  leaves the key of the report as it was.\<close>

theorem ties_resolve_to_the_earlier_status:
  assumes r: "reachable env S" and rows: "statusRows (readDb (sys_world S) ref) sid = Inr rows" and b: "newestStatus rows = Some b"
  shows "\<exists>x \<in> set (page (readDb (sys_world S) ref) TenantLens (status_query sid)). se_id b = ev_id x \<and> se_ts b = ts x \<and>
    (\<forall>y \<in> set (page (readDb (sys_world S) ref) TenantLens (status_query sid)).
       ts y < ts x \<or> ts y = ts x \<and> (stream_id x, seq x) \<le> (stream_id y, seq y))"
proof -
  let ?db = "readDb (sys_world S) ref"
  define es where "es = page ?db TenantLens (status_query sid)"
  define g :: "payload ledger_event \<Rightarrow> status_event" where
    "g e = (let e' = redactEvent TenantLens (stored e) (outForDelivery ?db e)
            in \<lparr> se_id = ev_id e', se_kind = kind e', se_ts = ts e', se_payload = payload e' \<rparr>)" for e
  have g: "se_id (g e) = ev_id e" "se_ts (g e) = ts e" for e
    by (simp_all add: g_def Let_def, (subst redaction_keeps_the_envelope, simp add: stored_def)+)
  have hashed: "\<forall>e \<in> set (t_events ?db). ev_hash e \<noteq> None" using reachable_hashed[OF r] by blast
  have rs: "rows = sort_key se_ts (map g es)"
  proof -
    obtain evs where evs: "readEvents ?db TenantLens (status_query sid) = Inr evs"
      "rows = sort_key se_ts (map (\<lambda>e. \<lparr> se_id = ev_id e, se_kind = kind e, se_ts = ts e, se_payload = payload e \<rparr>) evs)"
      using rows by (auto simp: statusRows_def)
    show ?thesis using readEvents_page[OF hashed evs(1)] evs(2) by (simp add: g_def[abs_def] es_def Let_def comp_def)
  qed
  note among = newest_among[OF b]
  have "filter (\<lambda>x. se_ts x = se_ts b) rows = filter (\<lambda>x. se_ts x = se_ts b) (map g es)"
    unfolding rs by (rule sort_key_stable)
  then obtain ys where ys: "filter (\<lambda>x. se_ts x = se_ts b) (map g es) = ys @ [b]" using among by auto
  then have "map g (filter (\<lambda>e. ts e = se_ts b) es) = ys @ [b]" by (simp add: filter_map comp_def g)
  then obtain zs x where x: "filter (\<lambda>e. ts e = se_ts b) es = zs @ [x]" "g x = b" by (auto simp: map_eq_append_conv)
  have d: "sorted_wrt (\<lambda>a b. (ts b, stream_id b, seq b) \<le> (ts a, stream_id a, seq a)) (zs @ [x])"
    unfolding x(1)[symmetric] es_def by (intro sorted_wrt_filter page_descending) simp
  have xin: "x \<in> set es" 
  proof -
    have "x \<in> set (filter (\<lambda>e. ts e = se_ts b) es)" by (simp add: x(1))
    then show ?thesis by simp
  qed
  have "ts y < ts x \<or> ts y = ts x \<and> (stream_id x, seq x) \<le> (stream_id y, seq y)" if y: "y \<in> set es" for y
  proof -
    have "ts y \<le> ts x" using among y x(2) by (auto simp: rs g)
    moreover have "(stream_id x, seq x) \<le> (stream_id y, seq y)" if "ts y = ts x"
    proof -
      have "y \<in> set (zs @ [x])" using y that x g(2)[of x] by (simp add: x(1)[symmetric])
      then show ?thesis using d that by (auto simp: sorted_wrt_append less_eq_prod_def)
    qed
    ultimately show ?thesis by auto
  qed
  then show ?thesis using xin x(2) g[of x] unfolding es_def by (intro bexI[of _ x]) auto
qed

section \<open>Samples\<close>

text \<open>A certified partner of the customer tenant \<open>a\<close> sends the sample tender; no rating configuration is on file.\<close>

definition sample_te :: "unit translator_env" where
  "sample_te = \<lparr> te_env = sample_env, te_hex = (\<lambda>_. replicate 64 (CHR ''0'')), te_bodyHex = (\<lambda>_. []), te_hmac = (\<lambda>_ _. ''00''),
     te_decode = map (\<lambda>b. char_of (unat b)), te_secret = (\<lambda>_. Some ''k''), te_number = (\<lambda>_. None), te_message = (\<lambda>_. []),
     te_transport = (\<lambda>_ _ _ _. Sent) \<rparr>"

definition sample_tw :: "unit translator" where
  "sample_tw = \<lparr> tw_system = sample_start,
     tw_pairings = [''P'' \<mapsto> \<lparr> pr_kind = ''edi'', pr_status = ''active'', pr_secret_ref = ''r'', pr_tenant = Some ''a'' \<rparr>],
     tw_integrations = (\<lambda>_. [''P'' \<mapsto> \<lparr> it_config = ConfigObject EMPTY_CONFIG None, it_cert_status = Some ''certified'',
       it_fixture_ref = None \<rparr>]),
     tw_refs = (\<lambda>_. []), tw_parties = (\<lambda>_. Map.empty), tw_rates = (\<lambda>_. []), tw_objects = Map.empty, tw_sent = [] \<rparr>"

definition sample_ck :: instants where
  "sample_ck = \<lparr> ck_received = 5, ck_priced = 5, ck_sent = 5, ck_append = (\<lambda>_. 5) \<rparr>"

definition sample_post :: inbound_request where
  "sample_post = \<lparr> rq_post = True, rq_content_length = None, rq_partner = Some ''P'', rq_signature = Some ''00'',
     rq_body = map (\<lambda>c. word_of_nat (of_char c)) sample_tender \<rparr>"

definition sample_ctx :: map_ctx where
  "sample_ctx = \<lparr> mc_partnerId = ''P'', mc_receivedTs = 5, mc_override = None \<rparr>"

abbreviation "sample_sid \<equiv> ''shp_0000000000000000''"

definition sample_append :: "payload event_input" where
  "sample_append = workerInput ''00000000-0000-4000-8000-000000000000'' sample_sid 5 ''party_0000000000000000''
     [''party_0000000000000000''] Edi QuoteRequested
     (Loose (jobj [(''request'', requestJson (''50010'', ''82414'') (Some 480) (Some (48, 40, 36, 2)))]))"

lemma sample_planned:
  obtains p where "mapTenderToBooking (uuid sample_env) (te_hex sample_te) sample_doc sample_ctx = Inr p"
    "bkp_shipment_id p = sample_sid" "bkp_append p = sample_append"
proof -
  have "case mapTenderToBooking (uuid sample_env) (te_hex sample_te) sample_doc sample_ctx of
      Inr p \<Rightarrow> bkp_shipment_id p = sample_sid \<and> bkp_append p = sample_append | Inl _ \<Rightarrow> False"
    by code_simp
  then show ?thesis
    by (cases "mapTenderToBooking (uuid sample_env) (te_hex sample_te) sample_doc sample_ctx") (auto intro: that)
qed

lemma sample_append_ok: "EventInput_ok (uuid sample_env) sample_append" "STREAM_ID_RE (streamOf sample_sid)"
  by code_simp+

abbreviation sample_entry :: "visibility \<Rightarrow> payload ledger_event" where
  "sample_entry \<equiv> event_of sample_append (streamOf sample_sid) 0 GENESIS_HASH"

lemma sample_entry_hashes: "\<exists>h. hashEvent toy_digest (stored (sample_entry v)) = Inr h"
proof -
  have "\<not> isl (hashEvent toy_digest (stored (sample_entry Internal)))"
    "\<not> isl (hashEvent toy_digest (stored (sample_entry Counterparty)))"
    "\<not> isl (hashEvent toy_digest (stored (sample_entry Public)))"
    by code_simp+
  then have "\<not> isl (hashEvent toy_digest (stored (sample_entry v)))" by (cases v) simp_all
  then show ?thesis by (cases "hashEvent toy_digest (stored (sample_entry v))") simp_all
qed

lemma sample_authenticated: "authenticate sample_te sample_tw sample_post = Some (''P'', ''a'')"
proof -
  have "timingSafeEqual ''00'' (toLowerCase (trim ''00''))" by code_simp
  then show ?thesis
    by (simp add: authenticate_def sample_te_def sample_tw_def sample_post_def truthy_def)
qed

lemma sample_decoded: "te_decode sample_te (rq_body sample_post) = sample_tender"
proof -
  have "char_of (unat (word_of_nat (of_char c) :: 8 word)) = c" for c
    by (simp add: unat_of_nat char_of_take_bit_eq take_bit_eq_mod)
  then show ?thesis by (simp add: sample_te_def sample_post_def map_idI)
qed

lemma sample_recorded: "\<exists>st'. handleInbound204 sample_te sample_ck sample_post sample_tw = (Inr (Recorded sample_sid), st')"
proof -
  obtain p where p: "mapTenderToBooking (uuid sample_env) (te_hex sample_te) sample_doc sample_ctx = Inr p"
    "bkp_shipment_id p = sample_sid" "bkp_append p = sample_append" by (rule sample_planned)
  define isa where "isa = extractIsaControl sample_te sample_tender"
  have "refValue sample_doc ''SID'' = Some ''S1''"
    by (simp add: refValue_def sample_tender_parses(2) truthy_def) code_simp
  then have "shipmentOverride (te_hex sample_te) ''P'' sample_doc isa [] = None"
    by (simp add: shipmentOverride_def resolveCanonicalShipmentId_def LOAD_UNIQUE_REF_KEYS_def matchingShipments_def uniq_def
        split: option.split)
  then have plan: "planTender sample_te sample_ck ''a'' ''P'' isa sample_tender sample_tw = Inr p"
    using p(1) by (simp add: planTender_def sample_tender_parses(1) sample_ctx_def sample_ck_def sample_tw_def sample_te_def)
  let ?st = "persisted sample_te sample_ck ''a'' ''P'' isa p sample_tw"
  let ?db = "readDb (sys_world (tw_system ?st)) (dbOf ''a'')" let ?sid = "streamOf sample_sid"
  have e: "extends sample_te ''a'' (\<lambda>_. False) sample_tw ?st"
    by (rule extends_persisted) (simp_all add: sample_customer, simp add: sample_te_def sample_tw_def sample_start_reachable)
  then have r: "reachable sample_env (tw_system ?st)" by (simp add: extends_def sample_te_def)
  have "logOf ?st (dbOf ''a'') = []"
    using e by (auto simp: extends_def logOf_def sample_tw_def sample_start_db) (simp add: sample_db_def)
  then have db: "t_events ?db = []" by (simp add: logOf_def)
  have policy: "policy_served ''a'' no_policy (tw_system ?st)"
    using sample_start_policy
    by (simp add: policy_served_def persisted_def persistShipment_def persistParty_def putTenantDb_def writeDb_def sample_tw_def Let_def)
  have input: "in_kind sample_append = QuoteRequested" "in_source sample_append = Edi" "in_device_id sample_append = None"
      "in_actor sample_append = \<lparr> act_party = ''party_0000000000000000'', act_user = None, act_device = None \<rparr>"
    by (simp_all add: sample_append_def workerInput_def)
  have sha: "length (sha256 sample_env bs) = 32" for bs by (simp add: sample_env_def toy_digest_def)
  have stamp: "stamped sample_env 5 ''a'' ?sid sample_append ?db x = sample_entry x" for x
    by (rule stamped_event_of) (simp add: storedTail_def streamEvents_def db GENESIS_TAIL_def)
  have digest2: "sha256 sample_env = toy_digest" and prefix: "take 2 ?sid = ''s:''"
    by (simp_all add: sample_env_def streamOf_def)
  have "\<exists>v h. let rec = stamped sample_env 5 ''a'' ?sid sample_append ?db v \<lparr> ev_hash := Some h \<rparr> in
      fst (append_event sample_env 5 ''a'' ?sid sample_append False
        (instance_at (idFromName sample_env (''a'' @ ''|'' @ ?sid)) (tw_system ?st))) = Inr (rec, triggersFor rec ''a'')
      \<and> t_events (readDb (sys_world (served sample_env 5 ''a'' ?sid sample_append (tw_system ?st))) (dbOf ''a'')) = t_events ?db @ [rec]
      \<and> policy_served ''a'' no_policy (served sample_env 5 ''a'' ?sid sample_append (tw_system ?st))"
    by (rule plain_served[OF r sample_env_inj sha sample_customer sample_append_ok(2) policy _ _ sample_append_ok(1)])
       (use sample_entry_hashes in \<open>simp_all add: db stamp input signer_ok_def safe_def MAX_SAFE_def PLAIN_KINDS_def
          findById_def digest2 prefix\<close>)
  then obtain st1 where a: "appending sample_te 5 ''a'' ?sid sample_append ?st = (Inr (), st1)"
    by (auto simp: appending_def seqAppend_served Let_def sample_te_def)
  have "frame st1 = frame ?st" by (rule keepsD[OF keeps_appending(1) a])
  then have "tw_rates st1 ''a'' = []" by (simp add: frame_def persisted_system_tables sample_tw_def)
  then have "priceTender sample_te sample_ck ''a'' ''P'' p st1 = (Inr False, st1)"
    by (simp add: priceTender_def loadTenantRatingConfig_def effectivePayload_def)
  then have run: "runPlan sample_te sample_ck ''a'' ''P'' isa p sample_tw = (Inr (Recorded sample_sid), st1)"
    using a by (simp add: runPlan_persisted andThen_def finished_def p sample_ck_def)
  have cap: "\<not> overCap sample_te sample_post"
  proof -
    have "int (length sample_tender) \<le> MAX_BODY_BYTES" by code_simp
    then show ?thesis by (simp add: overCap_def sample_post_def)
  qed
  have gate: "certStatus sample_tw ''a'' ''P'' = Some ''certified''" "policyUsable sample_tw ''a''"
      "resolvable (sys_world (tw_system sample_tw)) ''a''" "rq_post sample_post"
    by (simp_all add: certStatus_def policyUsable_def sample_tw_def sample_start_def sample_world_def sample_post_def)
  show ?thesis
    using sample_authenticated cap gate sample_customer plan run
    by (simp add: handleInbound204_def sample_decoded handleTender_def isa_def Let_def)
qed

theorem tenders_never_book_witness:
  "\<exists>st' sid new. handleInbound204 sample_te sample_ck sample_post sample_tw = (Inr (Recorded sample_sid), st') \<and>
     logOf st' (CustomerDb ''a'') = new \<and> list_all (\<lambda>e. stream_id e = ''s:'' @ sid \<and> kind e \<noteq> BookingCreated) new"
proof -
  obtain st' where run: "handleInbound204 sample_te sample_ck sample_post sample_tw = (Inr (Recorded sample_sid), st')"
    using sample_recorded by blast
  have r: "reachable (te_env sample_te) (tw_system sample_tw)" "logOf sample_tw x = []" for x
    by (simp_all add: sample_te_def sample_tw_def sample_start_reachable logOf_def sample_start_db)
      (simp add: sample_db_def)
  obtain slug sid new where new: "\<forall>r. logOf st' r = logOf sample_tw r @ (if r = CustomerDb slug then new else [])"
      "\<forall>e \<in> set new. stream_id e = ''s:'' @ sid \<and> kind e \<in> {QuoteRequested, QuotePriced, AgentActed, ApprovalRequested, QuoteAccepted}"
    using tenders_never_book[OF r(1) run] by blast
  have "kind e \<noteq> BookingCreated" if "e \<in> set new" for e using new(2) that by force
  then have "list_all (\<lambda>e. stream_id e = ''s:'' @ sid \<and> kind e \<noteq> BookingCreated) (logOf st' (CustomerDb ''a''))"
    using new r(2) by (simp add: list_all_iff)
  then show ?thesis using run by blast
qed



theorem ties_resolve_to_the_earlier_status_witness:
  "\<exists>rows b. statusRows (readDb (sys_world sample_run) (dbOf ''a'')) ''1'' = Inr rows \<and> newestStatus rows = Some b \<and> se_id b = ''e1''"
proof -
  let ?db = "readDb (sys_world sample_run) (dbOf ''a'')" let ?q = "status_query ''1''"
  have fields: "ev_id e1 = ''e1''" "kind e1 = PodSigned" "kind e2 = InvoiceIssued" "kind e3 = InvoiceCorrected"
      "kind e5 = AuthorityFlipped" "shipment_id e1 = Some ''1''" "source e1 = Native" "ev_hash e1 \<noteq> None"
    by (simp_all add: pod_event_def invoice_event_def correction_event_def flip_event_def event_of_def assemble_def
        pod_input_def invoice_input_def correction_input_def flip_input_def sample_input_def deriveShipmentId_def)
  have "filter (selected ?db TenantLens ?q) [e1, e2, e3, e5] = [e1]"
    by (simp add: selected_def lensWhere_def given_def STATUS_KINDS_def NATIVE_VISIBLE_SOURCES_def fields)
  then have page: "page ?db TenantLens ?q = [e1]"
    by (simp add: page_def sample_run_events sqlLimit_def ordered_def effectiveLimit_def LIMIT_CAP_def)
  have "readEvents ?db TenantLens ?q = Inr [redactEvent TenantLens (stored e1) (outForDelivery ?db e1)]"
    using rowToEvent_eventToRow[of "stored e1"] fields(8) by (simp add: readEvents_def page)
  then obtain rows b where b: "statusRows ?db ''1'' = Inr rows" "newestStatus rows = Some b"
    by (simp add: statusRows_def newestStatus_def)
  show ?thesis
    using ties_resolve_to_the_earlier_status[OF sample_run_reachable b] b page fields(1) by auto
qed

end
