(* ===== verification/Tenancy.thy ===== *)
theory Tenancy
  imports Translator
begin

text \<open>
  Tenants of the control plane: the roster of a worker (\<open>workers/translator/src/tenants.ts\<close>; the agents and billing
  workers carry the same module), the sweep over it (\<open>run214Sweep\<close>), and the signup that claims a slot of the pool
  (\<open>workers/api/src/provision.ts\<close>, \<open>routes/signup.ts\<close>).

  Requests interleave at the awaits of a signup: what the others did to the control plane meanwhile is a function of the
  point reached. Parameters: the shape of an email address, the other requests. The tariff seeded after a claim is a
  write to the tenant's own database that may fail without effect here, and is not modelled.
\<close>

section \<open>The control plane\<close>

text \<open>\<open>tn_pool\<close> is the \<open>pool_binding\<close> of the row's policy, \<open>None\<close> when the policy has none or is not readable.\<close>

record tenant_row =
  tn_id :: string
  tn_slug :: string
  tn_name :: string
  tn_plan :: string
  tn_pool :: "string option"
  tn_created_ts :: int

record admin_row =
  us_id :: string
  us_tenant :: string
  us_email :: string

record credits_row =
  cr_id :: string
  cr_tenant :: string
  cr_period :: string

record control_plane =
  cp_tenants :: "tenant_row list"
  cp_users :: "admin_row list"
  cp_credits :: "credits_row list"

definition UNCLAIMED_TENANT_PLAN :: string where
  "UNCLAIMED_TENANT_PLAN = ''unclaimed''"

definition RESERVED_TENANT_PLANS :: "string list" where
  "RESERVED_TENANT_PLANS = [UNCLAIMED_TENANT_PLAN, ''platform'']"

definition claimedRow :: "tenant_row \<Rightarrow> bool" where
  "claimedRow r = (tn_plan r \<notin> set RESERVED_TENANT_PLANS)"

definition POOL_BINDINGS :: "string list" where
  "POOL_BINDINGS = [''TENANT_POOL_01_DB'', ''TENANT_POOL_02_DB'']"

definition isPoolBinding :: "string \<Rightarrow> bool" where
  "isPoolBinding k = (k \<in> set POOL_BINDINGS)"

definition poolOf :: "tenant_row \<Rightarrow> string option" where
  "poolOf r = (case tn_pool r of None \<Rightarrow> None | Some b \<Rightarrow> if isPoolBinding b then Some b else None)"

section \<open>The roster of a worker\<close>

text \<open>A lookup in \<open>TENANT_BINDINGS\<close> also finds what the object inherits; such a binding names no database.\<close>

datatype tenant_handle = StaticDb string | PoolDb string | NoHandle

datatype roster_error = UnknownTenant

definition TENANT_BINDINGS :: "(string \<times> string) list" where
  "TENANT_BINDINGS = [(''tenant-a'', ''TENANT_A_DB''), (''tenant-b'', ''TENANT_B_DB'')]"

definition OBJECT_MEMBERS :: "string list" where
  "OBJECT_MEMBERS = [''constructor'', ''toString'', ''valueOf'', ''toLocaleString'', ''hasOwnProperty'', ''isPrototypeOf'',
     ''propertyIsEnumerable'', ''__proto__'', ''__defineGetter__'', ''__defineSetter__'', ''__lookupGetter__'',
     ''__lookupSetter__'']"

definition staticBinding :: "string \<Rightarrow> tenant_handle option" where
  "staticBinding slug =
     (case map_of TENANT_BINDINGS slug of
        Some b \<Rightarrow> Some (StaticDb b)
      | None \<Rightarrow> if slug \<in> set OBJECT_MEMBERS then Some NoHandle else None)"

definition TENANT_SLUGS :: "string list" where
  "TENANT_SLUGS = map fst TENANT_BINDINGS"

definition slugIsStatic :: "string \<Rightarrow> bool" where
  "slugIsStatic slug = (staticBinding slug \<noteq> None)"

definition resolveClaimedTenantDb :: "tenant_row list \<Rightarrow> string \<Rightarrow> roster_error + tenant_handle" where
  "resolveClaimedTenantDb rows slug =
     (case find (\<lambda>r. tn_slug r = slug \<and> claimedRow r) rows of
        None \<Rightarrow> Inl UnknownTenant
      | Some r \<Rightarrow> (case poolOf r of None \<Rightarrow> Inl UnknownTenant | Some b \<Rightarrow> Inr (PoolDb b)))"

definition rosterTenantDb :: "tenant_row list \<Rightarrow> string \<Rightarrow> roster_error + tenant_handle" where
  "rosterTenantDb rows slug =
     (if isPlatformTenant slug then Inl UnknownTenant
      else
        (case staticBinding slug of
           Some h \<Rightarrow> Inr h
         | None \<Rightarrow> resolveClaimedTenantDb rows slug))"

definition byBindingStep :: "(string \<times> string list) list \<Rightarrow> tenant_row \<Rightarrow> (string \<times> string list) list" where
  "byBindingStep m r =
     (if slugIsStatic (tn_slug r) then m
      else
        (case poolOf r of
           None \<Rightarrow> m
         | Some b \<Rightarrow> AList.update b ((case map_of m b of None \<Rightarrow> [] | Some ss \<Rightarrow> ss) @ [tn_slug r]) m))"

text \<open>A binding claimed by more than one tenant leaves all of them out.\<close>

definition claimedTenantSlugs :: "tenant_row list \<Rightarrow> string list" where
  "claimedTenantSlugs rows =
     concat (map (\<lambda>(b, ss). if length ss = 1 then ss else []) (foldl byBindingStep [] (filter claimedRow rows)))"

text \<open>\<open>None\<close>: the control plane could not be read, and the roster is the static one.\<close>

definition allTenantSlugs :: "tenant_row list option \<Rightarrow> string list" where
  "allTenantSlugs rows =
     TENANT_SLUGS @ filter (\<lambda>s. s \<notin> set TENANT_SLUGS) (case rows of None \<Rightarrow> [] | Some rs \<Rightarrow> claimedTenantSlugs rs)"

text \<open>One tenant after the other; a tenant that does not resolve is skipped.\<close>

fun sweepTenants ::
  "'k translator_env \<Rightarrow> (nat \<Rightarrow> nat \<Rightarrow> int) \<Rightarrow> (string \<Rightarrow> roster_error + tenant_handle) \<Rightarrow> (string \<Rightarrow> string list) \<Rightarrow> string list \<Rightarrow>
   'k translator \<Rightarrow> (string \<times> sweep_outcome list) list \<times> 'k translator"
where
  "sweepTenants E clk resolve markers [] st = ([], st)"
| "sweepTenants E clk resolve markers (s # ss) st =
     (case resolve s of
        Inl _ \<Rightarrow> sweepTenants E clk resolve markers ss st
      | Inr _ \<Rightarrow>
          (case sweepTenant214 E (clk (length ss)) s (markers s) st of
             (os, st1) \<Rightarrow>
               (case sweepTenants E clk resolve markers ss st1 of (rest, st2) \<Rightarrow> ((s, os) # rest, st2))))"

definition run214Sweep ::
  "'k translator_env \<Rightarrow> (nat \<Rightarrow> nat \<Rightarrow> int) \<Rightarrow> tenant_row list option \<Rightarrow> tenant_row list \<Rightarrow> (string \<Rightarrow> string list) \<Rightarrow>
   'k translator \<Rightarrow> (string \<times> sweep_outcome list) list \<times> 'k translator"
where
  "run214Sweep E clk listed rows markers st =
     sweepTenants E clk (rosterTenantDb rows) markers (allTenantSlugs listed) st"

section \<open>Signup\<close>

record provision_input =
  pi_slug :: string
  pi_name :: string
  pi_plan :: string
  pi_email :: string
  pi_user_id :: "string option"
  pi_period :: "string option"

datatype provision_error =
    ProvisioningDisabled | PlatformForbidden | InvalidInput | ReservedPlan | SlugTaken | EmailTaken | PoolExhausted
  | ProvisionFailed

record provisioned =
  pv_tenant_id :: string
  pv_slug :: string
  pv_plan :: string
  pv_binding :: string

definition labelChar :: "char \<Rightarrow> bool" where
  "labelChar c = (let n = of_char c :: nat in isDigit n \<or> 97 \<le> n \<and> n \<le> 122)"

definition DNS_LABEL :: "string \<Rightarrow> bool" where
  "DNS_LABEL s =
     (s \<noteq> [] \<and> length s \<le> 63 \<and> (\<forall>c \<in> set s. labelChar c \<or> c = CHR ''-'') \<and> labelChar (hd s) \<and> labelChar (List.last s))"

definition MAX_EMAIL_LEN :: nat where
  "MAX_EMAIL_LEN = 254"

definition ProvisionInput_ok :: "(string \<Rightarrow> bool) \<Rightarrow> provision_input \<Rightarrow> bool" where
  "ProvisionInput_ok isEmail i =
     (DNS_LABEL (pi_slug i) \<and> 1 \<le> length (pi_name i) \<and> length (pi_name i) \<le> 200 \<and>
      1 \<le> length (pi_plan i) \<and> length (pi_plan i) \<le> 40 \<and> isEmail (pi_email i) \<and> length (pi_email i) \<le> MAX_EMAIL_LEN \<and>
      pi_user_id i \<noteq> Some [] \<and>
      (case pi_period i of None \<Rightarrow> True | Some p \<Rightarrow> 1 \<le> length p \<and> length p \<le> 20))"

definition billingPeriodOf :: "int \<Rightarrow> string" where
  "billingPeriodOf t =
     (case civilFromDays (t div 86400000) of (y, m, d) \<Rightarrow> decimalText (nat y) @ ''-'' @ padStart 2 (CHR ''0'') (decimalText (nat m)))"

definition usageCreditsId :: "string \<Rightarrow> string \<Rightarrow> string" where
  "usageCreditsId slug period = slug @ '':'' @ period"

definition adminId :: "provision_input \<Rightarrow> string" where
  "adminId i = textOr (''u-admin-'' @ pi_slug i) (pi_user_id i)"

text \<open>The batch: the flip of an unclaimed slot, and two inserts guarded by the row as it is after the flip. A unique
  index that refuses undoes all of it; the refusal is told from its message.\<close>

definition flipSlot :: "provision_input \<Rightarrow> string \<Rightarrow> string \<Rightarrow> int \<Rightarrow> tenant_row list \<Rightarrow> tenant_row list" where
  "flipSlot i slotId b now rows =
     map (\<lambda>r. if tn_id r = slotId \<and> tn_plan r = UNCLAIMED_TENANT_PLAN
              then r\<lparr> tn_slug := pi_slug i, tn_name := pi_name i, tn_plan := pi_plan i, tn_pool := Some b, tn_created_ts := now \<rparr>
              else r) rows"

definition claimBatch ::
  "provision_input \<Rightarrow> string \<Rightarrow> string \<Rightarrow> int \<Rightarrow> control_plane \<Rightarrow> provision_error + bool \<times> control_plane"
where
  "claimBatch i slotId b now st =
     (let open_row = (\<lambda>r. tn_id r = slotId \<and> tn_plan r = UNCLAIMED_TENANT_PLAN);
          flips = list_ex open_row (cp_tenants st);
          rows = flipSlot i slotId b now (cp_tenants st);
          ours = list_ex (\<lambda>r. tn_id r = slotId \<and> tn_slug r = pi_slug i \<and> tn_plan r = pi_plan i) rows;
          period = textOr (billingPeriodOf now) (pi_period i);
          creditsId = usageCreditsId (pi_slug i) period
      in
      if flips \<and> list_ex (\<lambda>r. tn_slug r = pi_slug i \<and> \<not> open_row r) (cp_tenants st) then Inl SlugTaken
      else if \<not> ours then Inr (flips, st\<lparr> cp_tenants := rows \<rparr>)
      else if list_ex (\<lambda>u. us_id u = adminId i) (cp_users st) then Inl ProvisionFailed
      else if list_ex (\<lambda>u. us_email u = pi_email i) (cp_users st) then Inl EmailTaken
      else if list_ex (\<lambda>c. cr_id c = creditsId) (cp_credits st) then Inl ProvisionFailed
      else
        Inr (flips, st\<lparr> cp_tenants := rows,
          cp_users := cp_users st @ [\<lparr> us_id = adminId i, us_tenant = slotId, us_email = pi_email i \<rparr>],
          cp_credits := cp_credits st @ [\<lparr> cr_id = creditsId, cr_tenant = pi_slug i, cr_period = period \<rparr>] \<rparr>))"

text \<open>\<open>ORDER BY id LIMIT 1\<close>.\<close>

definition lowestUnclaimed :: "tenant_row list \<Rightarrow> tenant_row option" where
  "lowestUnclaimed rows =
     (case sort_key tn_id (filter (\<lambda>r. tn_plan r = UNCLAIMED_TENANT_PLAN) rows) of [] \<Rightarrow> None | r # _ \<Rightarrow> Some r)"

text \<open>One attempt for each binding of the pool; \<open>other\<close> gives what other requests did at each await.\<close>

fun claimSlots ::
  "(nat \<Rightarrow> control_plane \<Rightarrow> control_plane) \<Rightarrow> provision_input \<Rightarrow> int \<Rightarrow> nat \<Rightarrow> control_plane \<Rightarrow>
   (provision_error + provisioned) \<times> control_plane"
where
  "claimSlots other i now 0 st = (Inl PoolExhausted, st)"
| "claimSlots other i now (Suc n) st =
     (let st1 = other (2 * n + 1) st in
      case lowestUnclaimed (cp_tenants st1) of
        None \<Rightarrow> (Inl PoolExhausted, st1)
      | Some slot \<Rightarrow>
          (case poolOf slot of
             None \<Rightarrow> (Inl ProvisionFailed, st1)
           | Some b \<Rightarrow>
               (let st2 = other (2 * n) st1 in
                case claimBatch i (tn_id slot) b now st2 of
                  Inl err \<Rightarrow> (Inl err, st2)
                | Inr (won, st3) \<Rightarrow>
                    if won then (Inr \<lparr> pv_tenant_id = tn_id slot, pv_slug = pi_slug i, pv_plan = pi_plan i, pv_binding = b \<rparr>, st3)
                    else claimSlots other i now n st3)))"

definition provisionTenant ::
  "bool \<Rightarrow> (string \<Rightarrow> bool) \<Rightarrow> (nat \<Rightarrow> control_plane \<Rightarrow> control_plane) \<Rightarrow> provision_input \<Rightarrow> int \<Rightarrow> control_plane \<Rightarrow>
   (provision_error + provisioned) \<times> control_plane"
where
  "provisionTenant enabled isEmail other i now st =
     (let n = length POOL_BINDINGS; st1 = other (2 * n + 1) st; st2 = other (2 * n) st1 in
      if \<not> enabled then (Inl ProvisioningDisabled, st)
      else if isPlatformTenant (pi_slug i) then (Inl PlatformForbidden, st)
      else if \<not> ProvisionInput_ok isEmail i then (Inl InvalidInput, st)
      else if pi_plan i \<in> set RESERVED_TENANT_PLANS then (Inl ReservedPlan, st)
      else if slugIsStatic (pi_slug i) then (Inl SlugTaken, st)
      else if list_ex (\<lambda>r. tn_slug r = pi_slug i) (cp_tenants st1) then (Inl SlugTaken, st1)
      else if list_ex (\<lambda>u. us_email u = pi_email i) (cp_users st2) then (Inl EmailTaken, st2)
      else claimSlots other i now n st2)"

text \<open>The route: the plan is fixed, the id of the admin is derived, and each refusal has its status.\<close>

fun signupStatus :: "provision_error \<Rightarrow> int" where
  "signupStatus PlatformForbidden = 400"
| "signupStatus ProvisioningDisabled = 404"
| "signupStatus InvalidInput = 400"
| "signupStatus ReservedPlan = 400"
| "signupStatus SlugTaken = 409"
| "signupStatus EmailTaken = 409"
| "signupStatus PoolExhausted = 503"
| "signupStatus ProvisionFailed = 500"

definition SignupBody_ok :: "(string \<Rightarrow> bool) \<Rightarrow> string \<Rightarrow> string \<Rightarrow> string \<Rightarrow> bool" where
  "SignupBody_ok isEmail company email slug =
     (1 \<le> length company \<and> length company \<le> 200 \<and> isEmail email \<and> length email \<le> MAX_EMAIL_LEN \<and>
      1 \<le> length slug \<and> length slug \<le> 63)"

definition signupInput :: "string \<Rightarrow> string \<Rightarrow> string \<Rightarrow> provision_input" where
  "signupInput company email slug =
     \<lparr> pi_slug = slug, pi_name = company, pi_plan = ''pilot'', pi_email = email, pi_user_id = None, pi_period = None \<rparr>"

definition postSignup ::
  "bool \<Rightarrow> (string \<Rightarrow> bool) \<Rightarrow> (nat \<Rightarrow> control_plane \<Rightarrow> control_plane) \<Rightarrow> string \<Rightarrow> string \<Rightarrow> string \<Rightarrow> int \<Rightarrow> control_plane \<Rightarrow>
   (int \<times> provisioned option) \<times> control_plane"
where
  "postSignup enabled isEmail other company email slug now st =
     (if \<not> enabled then ((404, None), st)
      else if \<not> SignupBody_ok isEmail company email slug then ((400, None), st)
      else
        (case provisionTenant enabled isEmail other (signupInput company email slug) now st of
           (Inl err, st') \<Rightarrow> ((signupStatus err, None), st')
         | (Inr p, st') \<Rightarrow> ((201, Some p), st')))"

end
