(* ===== verification/TenancyProps.thy ===== *)
theory TenancyProps
  imports Tenancy
begin

text \<open>
  A signup claims one slot of the pool or nothing, whatever the other requests do meanwhile; every claimed tenant has a
  database of its own; and the sweep visits each database once.
\<close>

section \<open>The roster\<close>

definition sweptRow :: "string \<Rightarrow> tenant_row \<Rightarrow> bool" where
  "sweptRow b r \<longleftrightarrow> claimedRow r \<and> \<not> slugIsStatic (tn_slug r) \<and> poolOf r = Some b"

lemma grouped_slugs:
  "map_of (foldl byBindingStep [] rs) b =
     (let ss = map tn_slug (filter (\<lambda>r. \<not> slugIsStatic (tn_slug r) \<and> poolOf r = Some b) rs) in if ss = [] then None else Some ss)"
  by (induction rs rule: rev_induct) (auto simp: byBindingStep_def update_conv Let_def split: option.split)

lemma grouped_keys: "distinct (map fst (foldl byBindingStep [] rs))"
  by (induction rs rule: rev_induct) (auto simp: byBindingStep_def distinct_update split: option.split)

lemma claimed_slugs_heads:
  "claimedTenantSlugs rows =
     map (\<lambda>e. hd (snd e)) (filter (\<lambda>e. length (snd e) = 1) (foldl byBindingStep [] (filter claimedRow rows)))"
proof -
  have "concat (map (\<lambda>(b, ss). if length ss = 1 then ss else []) m) = map (\<lambda>e. hd (snd e)) (filter (\<lambda>e. length (snd e) = 1) m)"
    for m :: "(string \<times> string list) list"
    by (induction m) (auto simp: length_Suc_conv)
  then show ?thesis by (simp add: claimedTenantSlugs_def)
qed

lemma swept_group:
  "map_of (foldl byBindingStep [] (filter claimedRow rows)) b = Some ss \<longleftrightarrow>
     ss \<noteq> [] \<and> map tn_slug (filter (sweptRow b) rows) = ss"
proof -
  have "filter (\<lambda>r. \<not> slugIsStatic (tn_slug r) \<and> poolOf r = Some b) (filter claimedRow rows) = filter (sweptRow b) rows"
    unfolding filter_filter by (rule filter_cong) (auto simp: sweptRow_def)
  then show ?thesis unfolding grouped_slugs by (auto simp: Let_def)
qed

lemma claimed_slugs_set:
  "s \<in> set (claimedTenantSlugs rows) \<longleftrightarrow> (\<exists>b. map tn_slug (filter (sweptRow b) rows) = [s])"
proof -
  let ?m = "foldl byBindingStep [] (filter claimedRow rows)"
  have "s \<in> set (claimedTenantSlugs rows) \<longleftrightarrow> (\<exists>b. (b, [s]) \<in> set ?m)"
    by (force simp: claimed_slugs_heads length_Suc_conv)
  also have "\<dots> \<longleftrightarrow> (\<exists>b. map_of ?m b = Some [s])"
    using grouped_keys[of "filter claimedRow rows"] by simp
  finally show ?thesis by (simp add: swept_group)
qed

lemma claimed_slugs_row:
  "s \<in> set (claimedTenantSlugs rows) \<Longrightarrow> \<exists>r \<in> set rows. \<exists>b. tn_slug r = s \<and> sweptRow b r \<and> filter (sweptRow b) rows = [r]"
proof -
  assume "s \<in> set (claimedTenantSlugs rows)"
  then obtain b r where "filter (sweptRow b) rows = [r]" "tn_slug r = s"
    by (auto simp: claimed_slugs_set map_eq_Cons_conv)
  moreover from this have "r \<in> set (filter (sweptRow b) rows)" by simp
  then have "r \<in> set rows \<and> sweptRow b r" by simp
  ultimately show ?thesis by blast
qed

lemma distinct_slug_row: "distinct (map tn_slug rows) \<Longrightarrow> r \<in> set rows \<Longrightarrow> r' \<in> set rows \<Longrightarrow> tn_slug r = tn_slug r' \<Longrightarrow> r = r'"
  by (auto simp: distinct_map inj_on_def)

lemma claimed_slugs_distinct: "distinct (map tn_slug rows) \<Longrightarrow> distinct (claimedTenantSlugs rows)"
proof -
  assume d: "distinct (map tn_slug rows)"
  let ?m = "foldl byBindingStep [] (filter claimedRow rows)"
  have row: "\<exists>r \<in> set rows. sweptRow (fst e) r \<and> tn_slug r = hd (snd e)" if e: "e \<in> set ?m" "length (snd e) = 1" for e
  proof -
    have "map_of ?m (fst e) = Some (snd e)" using e(1) grouped_keys[of "filter claimedRow rows"] by simp
    then have "map tn_slug (filter (sweptRow (fst e)) rows) = snd e" by (simp add: swept_group)
    then obtain r where "filter (sweptRow (fst e)) rows = [r]" "snd e = [tn_slug r]"
      using e(2) by (auto simp: length_Suc_conv map_eq_Cons_conv)
    then have "r \<in> set (filter (sweptRow (fst e)) rows)" by simp
    then have "r \<in> set rows" "sweptRow (fst e) r" by simp_all
    then show ?thesis using \<open>snd e = [tn_slug r]\<close> by auto
  qed
  have "inj_on (\<lambda>e. hd (snd e)) (set (filter (\<lambda>e. length (snd e) = 1) ?m))"
  proof (rule inj_onI)
    fix e e'
    assume e: "e \<in> set (filter (\<lambda>e. length (snd e) = 1) ?m)" "e' \<in> set (filter (\<lambda>e. length (snd e) = 1) ?m)" "hd (snd e) = hd (snd e')"
    then have "fst e = fst e'"
      using row[of e] row[of e'] distinct_slug_row[OF d] by (force simp: sweptRow_def)
    moreover have "snd e = snd e'" using e by (auto simp: length_Suc_conv)
    ultimately show "e = e'" by (rule prod_eqI)
  qed
  moreover have "distinct (filter (\<lambda>e. length (snd e) = 1) ?m)"
    using grouped_keys[of "filter claimedRow rows"] by (simp add: distinct_map)
  ultimately show ?thesis by (simp only: claimed_slugs_heads distinct_map)
qed

lemma static_slugs: "x \<in> set TENANT_SLUGS \<Longrightarrow> slugIsStatic x"
  by (auto simp: TENANT_SLUGS_def slugIsStatic_def staticBinding_def TENANT_BINDINGS_def)

lemma static_resolved:
  "x \<in> set TENANT_SLUGS \<Longrightarrow> \<exists>b. map_of TENANT_BINDINGS x = Some b \<and> rosterTenantDb rows x = Inr (StaticDb b)"
  by (auto simp: TENANT_SLUGS_def rosterTenantDb_def staticBinding_def TENANT_BINDINGS_def isPlatformTenant_def
      PLATFORM_TENANT_ID_def)

lemma static_injective: "map_of TENANT_BINDINGS x = Some b \<Longrightarrow> map_of TENANT_BINDINGS y = Some b \<Longrightarrow> x = y"
  by (auto simp: TENANT_BINDINGS_def split: if_splits)

lemma claimed_resolved:
  assumes "distinct (map tn_slug rows)" "r \<in> set rows" "sweptRow b r" "\<not> isPlatformTenant (tn_slug r)"
  shows "rosterTenantDb rows (tn_slug r) = Inr (PoolDb b)"
proof -
  have "find (\<lambda>x. tn_slug x = tn_slug r \<and> claimedRow x) rows = Some r"
  proof (cases "find (\<lambda>x. tn_slug x = tn_slug r \<and> claimedRow x) rows")
    case None
    then show ?thesis using assms(2,3) by (auto simp: find_None_iff sweptRow_def)
  next
    case (Some x)
    then have "x \<in> set rows" "tn_slug x = tn_slug r" by (auto simp: find_Some_iff)
    then show ?thesis using Some distinct_slug_row[OF assms(1)] assms(2) by blast
  qed
  then show ?thesis
    using assms(3,4) by (simp add: rosterTenantDb_def resolveClaimedTenantDb_def sweptRow_def slugIsStatic_def)
qed

text \<open>C18: Whatever rows the control plane holds, the sweep visits each database under one identity: the listed tenants are
  distinct, each resolves, no two to the same database, and a tenant that alone holds a binding of the pool is listed. A
  binding that two rows claim is visited under neither.\<close>

theorem sweeps_visit_each_database_once:
  assumes "distinct (map tn_slug rows)" "\<forall>r \<in> set rows. claimedRow r \<longrightarrow> \<not> isPlatformTenant (tn_slug r)"
  shows "distinct (allTenantSlugs (Some rows)) \<and>
    (\<forall>s \<in> set (allTenantSlugs (Some rows)). \<exists>h. rosterTenantDb rows s = Inr h \<and> h \<noteq> NoHandle \<and>
       (\<forall>t \<in> set (allTenantSlugs (Some rows)). rosterTenantDb rows t = Inr h \<longrightarrow> t = s)) \<and>
    (\<forall>r b. filter (sweptRow b) rows = [r] \<longrightarrow> tn_slug r \<in> set (allTenantSlugs (Some rows)))"
proof -
  let ?all = "allTenantSlugs (Some rows)"
  have all: "s \<in> set ?all \<longleftrightarrow> s \<in> set TENANT_SLUGS \<or> s \<in> set (claimedTenantSlugs rows)" for s
    by (auto simp: allTenantSlugs_def)
  have pool: "\<exists>r b. tn_slug r = s \<and> filter (sweptRow b) rows = [r] \<and> rosterTenantDb rows s = Inr (PoolDb b)"
    if s: "s \<in> set (claimedTenantSlugs rows)" for s
  proof -
    obtain r b where r: "r \<in> set rows" "tn_slug r = s" "sweptRow b r" "filter (sweptRow b) rows = [r]"
      using claimed_slugs_row[OF s] by blast
    then show ?thesis using claimed_resolved[OF assms(1) r(1,3)] assms(2) by (auto simp: sweptRow_def)
  qed
  have "distinct TENANT_SLUGS" by (simp add: TENANT_SLUGS_def TENANT_BINDINGS_def)
  then have "distinct ?all"
    using claimed_slugs_distinct[OF assms(1)] by (auto simp: allTenantSlugs_def)
  moreover have "\<exists>h. rosterTenantDb rows s = Inr h \<and> h \<noteq> NoHandle \<and> (\<forall>t \<in> set ?all. rosterTenantDb rows t = Inr h \<longrightarrow> t = s)"
    if s: "s \<in> set ?all" for s
  proof (cases "s \<in> set TENANT_SLUGS")
    case True
    then obtain b where b: "map_of TENANT_BINDINGS s = Some b" "rosterTenantDb rows s = Inr (StaticDb b)"
      using static_resolved by blast
    have "t = s" if "t \<in> set ?all" "rosterTenantDb rows t = Inr (StaticDb b)" for t
    proof -
      have "t \<in> set TENANT_SLUGS" using that pool[of t] all by auto
      then show ?thesis using static_resolved[of t rows] that(2) static_injective[OF b(1)] by auto
    qed
    then show ?thesis using b(2) by blast
  next
    case False
    then obtain r b where b: "tn_slug r = s" "filter (sweptRow b) rows = [r]" "rosterTenantDb rows s = Inr (PoolDb b)"
      using pool s all by blast
    have "t = s" if t: "t \<in> set ?all" "rosterTenantDb rows t = Inr (PoolDb b)" for t
    proof -
      have "t \<notin> set TENANT_SLUGS" using static_resolved[of t rows] t(2) by auto
      then obtain r' where "tn_slug r' = t" "filter (sweptRow b) rows = [r']"
        using pool[of t] t all by auto
      then show ?thesis using b(1,2) by simp
    qed
    then show ?thesis using b(3) by blast
  qed
  moreover have "tn_slug r \<in> set ?all" if "filter (sweptRow b) rows = [r]" for r b
    using that by (auto simp: all claimed_slugs_set intro!: exI[of _ b])
  ultimately show ?thesis by blast
qed

section \<open>The signup\<close>

text \<open>The control plane in order: ids and slugs are unique, no two rows name one binding of the pool, and a tenant that
  holds one has a slug of its own and its admin.\<close>

definition planeOk :: "control_plane \<Rightarrow> bool" where
  "planeOk s \<longleftrightarrow>
     distinct (map tn_id (cp_tenants s)) \<and> distinct (map tn_slug (cp_tenants s)) \<and>
     (\<forall>r \<in> set (cp_tenants s). \<forall>r' \<in> set (cp_tenants s). poolOf r \<noteq> None \<longrightarrow> poolOf r = poolOf r' \<longrightarrow> tn_id r = tn_id r') \<and>
     (\<forall>r \<in> set (cp_tenants s). claimedRow r \<longrightarrow> \<not> isPlatformTenant (tn_slug r) \<and>
        (poolOf r \<noteq> None \<longrightarrow> \<not> slugIsStatic (tn_slug r) \<and> (\<exists>u \<in> set (cp_users s). us_id u = ''u-admin-'' @ tn_slug r)))"

definition poolsOf :: "control_plane \<Rightarrow> (string \<times> string option) list" where
  "poolsOf s = map (\<lambda>r. (tn_id r, poolOf r)) (cp_tenants s)"

lemma planeOk_dest:
  assumes "planeOk s"
  shows "distinct (map tn_id (cp_tenants s))" "distinct (map tn_slug (cp_tenants s))"
    and "r \<in> set (cp_tenants s) \<Longrightarrow> r' \<in> set (cp_tenants s) \<Longrightarrow> poolOf r \<noteq> None \<Longrightarrow> poolOf r = poolOf r' \<Longrightarrow> tn_id r = tn_id r'"
    and "r \<in> set (cp_tenants s) \<Longrightarrow> claimedRow r \<Longrightarrow> \<not> isPlatformTenant (tn_slug r)"
    and "r \<in> set (cp_tenants s) \<Longrightarrow> claimedRow r \<Longrightarrow> poolOf r \<noteq> None \<Longrightarrow>
      \<not> slugIsStatic (tn_slug r) \<and> (\<exists>u \<in> set (cp_users s). us_id u = ''u-admin-'' @ tn_slug r)"
  using assms unfolding planeOk_def by blast+

text \<open>What other requests may do: keep the order, and leave every slot its binding.\<close>

definition keepsPlane :: "(control_plane \<Rightarrow> control_plane) \<Rightarrow> bool" where
  "keepsPlane f \<longleftrightarrow> (\<forall>s. planeOk s \<longrightarrow> planeOk (f s) \<and> poolsOf (f s) = poolsOf s)"

definition fitting :: "provision_input \<Rightarrow> bool" where
  "fitting i \<longleftrightarrow> pi_user_id i = None \<and> pi_plan i \<notin> set RESERVED_TENANT_PLANS \<and> \<not> isPlatformTenant (pi_slug i) \<and>
     \<not> slugIsStatic (pi_slug i)"

lemma flipSlot_rows:
  assumes "r' \<in> set (flipSlot i slotId b now rows)"
  obtains (kept) "r' \<in> set rows" "\<not> (tn_id r' = slotId \<and> tn_plan r' = UNCLAIMED_TENANT_PLAN)"
  | (flipped) r where "r \<in> set rows" "tn_id r = slotId" "tn_plan r = UNCLAIMED_TENANT_PLAN"
      "r' = r\<lparr> tn_slug := pi_slug i, tn_name := pi_name i, tn_plan := pi_plan i, tn_pool := Some b, tn_created_ts := now \<rparr>"
  using assms by (auto simp: flipSlot_def split: if_splits)

lemma flipSlot_ids: "map tn_id (flipSlot i slotId b now rows) = map tn_id rows"
  by (simp add: flipSlot_def)

lemma flipSlot_none:
  "\<not> list_ex (\<lambda>r. tn_id r = slotId \<and> tn_plan r = UNCLAIMED_TENANT_PLAN) rows \<Longrightarrow> flipSlot i slotId b now rows = rows"
  by (auto simp: flipSlot_def list_ex_iff intro!: map_idI)

lemma poolOf_flipped: "isPoolBinding b \<Longrightarrow> poolOf (r\<lparr> tn_slug := x, tn_name := y, tn_plan := z, tn_pool := Some b, tn_created_ts := n \<rparr>) = Some b"
  by (simp add: poolOf_def)

lemma plane_slot:
  assumes "planeOk s" "(slotId, Some b) \<in> set (poolsOf s)" "r \<in> set (cp_tenants s)" "tn_id r = slotId"
  shows "poolOf r = Some b"
proof -
  obtain x where x: "x \<in> set (cp_tenants s)" "tn_id x = slotId" "poolOf x = Some b" using assms(2) by (auto simp: poolsOf_def)
  have "inj_on tn_id (set (cp_tenants s))" using assms(1) by (simp add: planeOk_def distinct_map)
  then have "x = r" using x(1,2) assms(3,4) by (simp add: inj_on_def)
  then show ?thesis using x(3) by simp
qed

lemma flipped_plan: "fitting i \<Longrightarrow> pi_plan i \<noteq> UNCLAIMED_TENANT_PLAN"
  by (auto simp: fitting_def RESERVED_TENANT_PLANS_def)

text \<open>What the batch can do to a plane in order: nothing when it lost the slot, the whole claim when it won it.\<close>

lemma claimBatch_Inr:
  assumes ok: "planeOk s" and fit: "fitting i" and slot: "(slotId, Some b) \<in> set (poolsOf s)"
    and run: "claimBatch i slotId b now s = Inr (won, s')"
  shows "\<not> won \<and> s' = s \<or>
    won \<and> (\<exists>r \<in> set (cp_tenants s). tn_id r = slotId \<and> tn_plan r = UNCLAIMED_TENANT_PLAN) \<and>
    (\<forall>r \<in> set (cp_tenants s). tn_slug r = pi_slug i \<longrightarrow> tn_id r = slotId) \<and>
    s' = s\<lparr> cp_tenants := flipSlot i slotId b now (cp_tenants s),
      cp_users := cp_users s @ [\<lparr> us_id = ''u-admin-'' @ pi_slug i, us_tenant = slotId, us_email = pi_email i \<rparr>],
      cp_credits := cp_credits s @ [\<lparr> cr_id = usageCreditsId (pi_slug i) (textOr (billingPeriodOf now) (pi_period i)),
        cr_tenant = pi_slug i, cr_period = textOr (billingPeriodOf now) (pi_period i) \<rparr>] \<rparr>"
proof -
  let ?open = "\<lambda>r. tn_id r = slotId \<and> tn_plan r = UNCLAIMED_TENANT_PLAN"
  let ?ours = "\<lambda>r. tn_id r = slotId \<and> tn_slug r = pi_slug i \<and> tn_plan r = pi_plan i"
  have admin: "adminId i = ''u-admin-'' @ pi_slug i" using fit by (simp add: adminId_def fitting_def textOr_def)
  show ?thesis
  proof (cases "list_ex ?open (cp_tenants s)")
    case False
    then have same: "flipSlot i slotId b now (cp_tenants s) = cp_tenants s" by (rule flipSlot_none)
    have "\<not> list_ex ?ours (cp_tenants s)"
    proof
      assume "list_ex ?ours (cp_tenants s)"
      then obtain r where r: "r \<in> set (cp_tenants s)" "?ours r" by (auto simp: list_ex_iff)
      then have "claimedRow r" "poolOf r \<noteq> None"
        using fit plane_slot[OF ok slot r(1)] by (auto simp: fitting_def claimedRow_def)
      then have "list_ex (\<lambda>u. us_id u = adminId i) (cp_users s)"
        using planeOk_dest(5)[OF ok r(1)] r(2) by (auto simp: admin list_ex_iff)
      then show False
        using run False same \<open>list_ex ?ours (cp_tenants s)\<close> by (simp add: claimBatch_def Let_def)
    qed
    then have "Inr (won, s') = (Inr (False, s) :: provision_error + _)"
      using run False same by (simp add: claimBatch_def Let_def)
    then show ?thesis by simp
  next
    case True
    then obtain r where r: "r \<in> set (cp_tenants s)" "?open r" by (auto simp: list_ex_iff)
    define r' where "r' = r\<lparr> tn_slug := pi_slug i, tn_name := pi_name i, tn_plan := pi_plan i, tn_pool := Some b, tn_created_ts := now \<rparr>"
    have "r' \<in> set (flipSlot i slotId b now (cp_tenants s))" "?ours r'"
      using r by (force simp: flipSlot_def r'_def, simp add: r'_def)
    then have ours: "list_ex ?ours (flipSlot i slotId b now (cp_tenants s))" by (auto simp: list_ex_iff)
    have free: "\<not> list_ex (\<lambda>r. tn_slug r = pi_slug i \<and> \<not> ?open r) (cp_tenants s)"
      using run True by (auto simp: claimBatch_def Let_def split: if_splits)
    have "won \<and> s' = s\<lparr> cp_tenants := flipSlot i slotId b now (cp_tenants s),
      cp_users := cp_users s @ [\<lparr> us_id = adminId i, us_tenant = slotId, us_email = pi_email i \<rparr>],
      cp_credits := cp_credits s @ [\<lparr> cr_id = usageCreditsId (pi_slug i) (textOr (billingPeriodOf now) (pi_period i)),
        cr_tenant = pi_slug i, cr_period = textOr (billingPeriodOf now) (pi_period i) \<rparr>] \<rparr>"
      using run True ours free by (simp add: claimBatch_def Let_def split: if_splits)
    then show ?thesis using r free unfolding admin list_ex_iff by blast
  qed
qed

lemma poolsOf_flip:
  assumes "planeOk s" "isPoolBinding b" "(slotId, Some b) \<in> set (poolsOf s)" "cp_tenants s' = flipSlot i slotId b now (cp_tenants s)"
  shows "poolsOf s' = poolsOf s"
  using plane_slot[OF assms(1,3)] poolOf_flipped[OF assms(2)]
  by (auto simp: poolsOf_def assms(4) flipSlot_def)

lemma claimBatch_ok:
  assumes ok: "planeOk s" and fit: "fitting i" and slot: "(slotId, Some b) \<in> set (poolsOf s)" and b: "isPoolBinding b"
    and run: "claimBatch i slotId b now s = Inr (won, s')"
  shows "planeOk s' \<and> poolsOf s' = poolsOf s"
proof (cases won)
  case False
  then show ?thesis using claimBatch_Inr[OF ok fit slot run] ok by blast
next
  case True
  then have s': "cp_tenants s' = flipSlot i slotId b now (cp_tenants s)"
      "set (cp_users s) \<subseteq> set (cp_users s')" "\<exists>u \<in> set (cp_users s'). us_id u = ''u-admin-'' @ pi_slug i"
    and free: "\<And>r. r \<in> set (cp_tenants s) \<Longrightarrow> tn_slug r = pi_slug i \<Longrightarrow> tn_id r = slotId"
    using claimBatch_Inr[OF ok fit slot run] by auto
  let ?rows = "cp_tenants s'"
  note d = planeOk_dest[OF ok]
  have ids: "distinct (map tn_id ?rows)" using d(1) by (simp add: s'(1) flipSlot_ids)
  have pools: "poolsOf s' = poolsOf s" by (rule poolsOf_flip[OF ok b slot s'(1)])
  have slugs: "tn_id x = tn_id y" if "x \<in> set ?rows" "y \<in> set ?rows" "tn_slug x = tn_slug y" for x y
    using that(1)[unfolded s'(1)]
  proof (cases rule: flipSlot_rows)
    case kept
    show ?thesis
      using that(2)[unfolded s'(1)]
    proof (cases rule: flipSlot_rows)
      case kept': kept
      then show ?thesis using distinct_slug_row[OF d(2) kept(1) kept'(1) that(3)] by simp
    qed (use kept that(3) free[of x] in simp)
  next
    case (flipped r)
    show ?thesis
      using that(2)[unfolded s'(1)]
      by (cases rule: flipSlot_rows) (use flipped that(3) free[of y] in simp_all)
  qed
  have d1: "distinct ?rows" "inj_on tn_id (set ?rows)" using ids by (simp_all add: distinct_map)
  have "inj_on tn_slug (set ?rows)"
  proof (rule inj_onI)
    fix x y
    assume xy: "x \<in> set ?rows" "y \<in> set ?rows" "tn_slug x = tn_slug y"
    show "x = y" by (rule inj_onD[OF d1(2) slugs[OF xy] xy(1,2)])
  qed
  then have "distinct (map tn_slug ?rows)" using d1(1) by (simp add: distinct_map)
  moreover have "tn_id x = tn_id y" if xy: "x \<in> set ?rows" "y \<in> set ?rows" "poolOf x \<noteq> None" "poolOf x = poolOf y" for x y
  proof -
    have was: "\<exists>r \<in> set (cp_tenants s). tn_id r = tn_id z \<and> poolOf r = poolOf z" if "z \<in> set ?rows" for z
    proof -
      have "(tn_id z, poolOf z) \<in> set (poolsOf s')" using that by (simp add: poolsOf_def)
      then have "(tn_id z, poolOf z) \<in> set (poolsOf s)" by (simp only: pools)
      then show ?thesis by (auto simp: poolsOf_def)
    qed
    obtain x0 where x0: "x0 \<in> set (cp_tenants s)" "tn_id x0 = tn_id x" "poolOf x0 = poolOf x" using was[OF xy(1)] by blast
    obtain y0 where y0: "y0 \<in> set (cp_tenants s)" "tn_id y0 = tn_id y" "poolOf y0 = poolOf y" using was[OF xy(2)] by blast
    show ?thesis using d(3)[OF x0(1) y0(1)] x0(2,3) y0(2,3) xy(3,4) by simp
  qed
  moreover have "\<not> isPlatformTenant (tn_slug x) \<and>
      (poolOf x \<noteq> None \<longrightarrow> \<not> slugIsStatic (tn_slug x) \<and> (\<exists>u \<in> set (cp_users s'). us_id u = ''u-admin-'' @ tn_slug x))"
    if x: "x \<in> set ?rows" "claimedRow x" for x
    using x(1)[unfolded s'(1)]
  proof (cases rule: flipSlot_rows)
    case kept
    then show ?thesis using d(4,5)[OF kept(1) x(2)] s'(2) by blast
  next
    case (flipped r)
    then show ?thesis using fit s'(3) by (simp add: fitting_def)
  qed
  ultimately show ?thesis using ids pools unfolding planeOk_def by blast
qed

lemma lowestUnclaimed_in:
  "lowestUnclaimed rows = Some r \<Longrightarrow> r \<in> set rows \<and> tn_plan r = UNCLAIMED_TENANT_PLAN"
proof -
  assume "lowestUnclaimed rows = Some r"
  then obtain rs where "sort_key tn_id (filter (\<lambda>r. tn_plan r = UNCLAIMED_TENANT_PLAN) rows) = r # rs"
    by (auto simp: lowestUnclaimed_def split: list.splits)
  then have "r \<in> set (sort_key tn_id (filter (\<lambda>r. tn_plan r = UNCLAIMED_TENANT_PLAN) rows))" by (simp only: list.set_intros)
  then show ?thesis by (simp only: set_sort set_filter mem_Collect_eq)
qed

lemma poolOf_binding: "poolOf r = Some b \<Longrightarrow> isPoolBinding b"
  by (auto simp: poolOf_def split: option.splits if_splits)

text \<open>What others left, and a slot of it claimed.\<close>

definition claimedFrom :: "provision_input \<Rightarrow> provisioned \<Rightarrow> int \<Rightarrow> control_plane \<Rightarrow> control_plane \<Rightarrow> bool" where
  "claimedFrom i p now s s' \<longleftrightarrow>
     p = \<lparr> pv_tenant_id = pv_tenant_id p, pv_slug = pi_slug i, pv_plan = pi_plan i, pv_binding = pv_binding p \<rparr> \<and>
     (pv_tenant_id p, Some (pv_binding p)) \<in> set (poolsOf s) \<and> isPoolBinding (pv_binding p) \<and>
     (\<exists>r \<in> set (cp_tenants s). tn_id r = pv_tenant_id p \<and> tn_plan r = UNCLAIMED_TENANT_PLAN) \<and>
     s' = s\<lparr> cp_tenants := flipSlot i (pv_tenant_id p) (pv_binding p) now (cp_tenants s),
       cp_users := cp_users s @ [\<lparr> us_id = ''u-admin-'' @ pi_slug i, us_tenant = pv_tenant_id p, us_email = pi_email i \<rparr>],
       cp_credits := cp_credits s @ [\<lparr> cr_id = usageCreditsId (pi_slug i) (textOr (billingPeriodOf now) (pi_period i)),
         cr_tenant = pi_slug i, cr_period = textOr (billingPeriodOf now) (pi_period i) \<rparr>] \<rparr>"

lemma claimedFrom_tenants:
  assumes "claimedFrom i p now s s'"
  shows "cp_tenants s' = flipSlot i (pv_tenant_id p) (pv_binding p) now (cp_tenants s) \<and> isPoolBinding (pv_binding p)"
proof -
  obtain us cs where "s' = s\<lparr> cp_tenants := flipSlot i (pv_tenant_id p) (pv_binding p) now (cp_tenants s), cp_users := us,
      cp_credits := cs \<rparr>" and b: "isPoolBinding (pv_binding p)"
    using assms unfolding claimedFrom_def by blast
  then show ?thesis by simp
qed

lemma claimSlots_outcome:
  assumes "planeOk s" "fitting i" "\<And>k. keepsPlane (other k)" "claimSlots other i now n s = (res, s')"
  shows "planeOk s' \<and> poolsOf s' = poolsOf s \<and>
    (case res of Inl err \<Rightarrow> \<exists>ks. s' = fold other ks s | Inr p \<Rightarrow> \<exists>ks. claimedFrom i p now (fold other ks s) s')"
  using assms(1,4)
proof (induction n arbitrary: s)
  case 0
  then have "s' = fold other [] s" "res = Inl PoolExhausted" by simp_all
  then show ?case using 0 by (auto intro: exI[of _ "[]"])
next
  case (Suc n)
  define s1 where "s1 = other (2 * n + 1) s"
  define s2 where "s2 = other (2 * n) s1"
  have ok: "planeOk s1" "planeOk s2" "poolsOf s1 = poolsOf s" "poolsOf s2 = poolsOf s"
    using assms(3) Suc.prems(1) by (auto simp: keepsPlane_def s1_def s2_def)
  have f: "s1 = fold other [2 * n + 1] s" "s2 = fold other [2 * n + 1, 2 * n] s" by (simp_all add: s1_def s2_def)
  have here: "\<exists>ks. s1 = fold other ks s" "\<exists>ks. s2 = fold other ks s" using f by blast+
  have step: "claimSlots other i now (Suc n) s =
      (case lowestUnclaimed (cp_tenants s1) of
         None \<Rightarrow> (Inl PoolExhausted, s1)
       | Some slot \<Rightarrow>
           (case poolOf slot of
              None \<Rightarrow> (Inl ProvisionFailed, s1)
            | Some b \<Rightarrow>
                (case claimBatch i (tn_id slot) b now s2 of
                   Inl err \<Rightarrow> (Inl err, s2)
                 | Inr (won, s3) \<Rightarrow>
                     if won then (Inr \<lparr> pv_tenant_id = tn_id slot, pv_slug = pi_slug i, pv_plan = pi_plan i, pv_binding = b \<rparr>, s3)
                     else claimSlots other i now n s3)))"
    unfolding s1_def s2_def claimSlots.simps(2) Let_def ..
  note run0 = Suc.prems(2)[unfolded step]
  show ?case
  proof (cases "lowestUnclaimed (cp_tenants s1)")
    case None
    then show ?thesis using run0 ok here(1) by auto
  next
    case (Some slot)
    show ?thesis
    proof (cases "poolOf slot")
      case None
      then show ?thesis using run0 ok here(1) Some by auto
    next
      case b: (Some b)
      have slot: "(tn_id slot, Some b) \<in> set (poolsOf s2)"
      proof -
        have "(tn_id slot, poolOf slot) \<in> set (poolsOf s1)" using lowestUnclaimed_in[OF Some] by (simp add: poolsOf_def)
        then show ?thesis using b ok(3,4) by simp
      qed
      note bind = poolOf_binding[OF b]
      show ?thesis
      proof (cases "claimBatch i (tn_id slot) b now s2")
        case (Inl err)
        then show ?thesis
          using run0 ok here(2) Some b by auto
      next
        case (Inr x)
        obtain won s3 where x: "x = (won, s3)" by (cases x)
        note run = Inr[unfolded x]
        note keeps = claimBatch_ok[OF ok(2) assms(2) slot bind run]
        show ?thesis
        proof (cases won)
          case True
          then have "res = Inr \<lparr> pv_tenant_id = tn_id slot, pv_slug = pi_slug i, pv_plan = pi_plan i, pv_binding = b \<rparr>" "s' = s3"
            using run0 Some b run by auto
          moreover have "claimedFrom i \<lparr> pv_tenant_id = tn_id slot, pv_slug = pi_slug i, pv_plan = pi_plan i, pv_binding = b \<rparr> now s2 s3"
            using claimBatch_Inr[OF ok(2) assms(2) slot run] True slot bind by (simp add: claimedFrom_def)
          ultimately show ?thesis using keeps ok(4) here(2) by auto
        next
          case False
          then have s3: "s3 = s2" using claimBatch_Inr[OF ok(2) assms(2) slot run] by blast
          then have rec: "claimSlots other i now n s2 = (res, s')"
            using run0 Some b run False by auto
          have more: "\<exists>js. fold other ks s2 = fold other js s" for ks
            by (rule exI[of _ "[2 * n + 1, 2 * n] @ ks"]) (simp add: f(2))
          note ih = Suc.IH[OF ok(2) rec]
          show ?thesis
          proof (cases res)
            case (Inl err)
            then obtain ks where "s' = fold other ks s2" using ih by auto
            then show ?thesis using more[of ks] ih ok(4) Inl by simp
          next
            case (Inr p)
            then obtain ks where "claimedFrom i p now (fold other ks s2) s'" using ih by auto
            moreover obtain js where "fold other ks s2 = fold other js s" using more[of ks] by blast
            ultimately show ?thesis using ih ok(4) Inr by auto
          qed
        qed
      qed
    qed
  qed
qed

lemma filter_unique: "distinct xs \<Longrightarrow> x \<in> set xs \<Longrightarrow> (\<And>y. y \<in> set xs \<Longrightarrow> P y \<longleftrightarrow> y = x) \<Longrightarrow> filter P xs = [x]"
proof (induction xs)
  case (Cons z xs)
  show ?case
  proof (cases "z = x")
    case True
    then have "filter P xs = []" using Cons.prems by (auto simp: filter_empty_conv)
    then show ?thesis using True Cons.prems(3)[of x] by simp
  next
    case False
    then show ?thesis using Cons.IH Cons.prems by simp
  qed
qed simp

lemma plane_swept:
  assumes ok: "planeOk s" and r: "r \<in> set (cp_tenants s)" "claimedRow r" "poolOf r = Some b"
  shows "rosterTenantDb (cp_tenants s) (tn_slug r) = Inr (PoolDb b) \<and> tn_slug r \<in> set (allTenantSlugs (Some (cp_tenants s)))"
proof -
  note d = planeOk_dest[OF ok]
  have own: "\<not> isPlatformTenant (tn_slug r)" "\<not> slugIsStatic (tn_slug r)" using d(4,5)[OF r(1,2)] r(3) by auto
  then have swept: "sweptRow b r" using r by (simp add: sweptRow_def)
  have rows: "distinct (cp_tenants s)" "inj_on tn_id (set (cp_tenants s))" using d(1) by (simp_all add: distinct_map)
  have "filter (sweptRow b) (cp_tenants s) = [r]"
  proof (rule filter_unique[OF rows(1) r(1)])
    fix y
    assume y: "y \<in> set (cp_tenants s)"
    show "sweptRow b y \<longleftrightarrow> y = r"
    proof
      assume "sweptRow b y"
      then have "tn_id y = tn_id r" using d(3)[OF y r(1)] r(3) by (simp add: sweptRow_def)
      then show "y = r" by (rule inj_onD[OF rows(2) _ y r(1)])
    qed (use swept in simp)
  qed
  then have "tn_slug r \<in> set (claimedTenantSlugs (cp_tenants s))" by (auto simp: claimed_slugs_set intro!: exI[of _ b])
  then show ?thesis
    using claimed_resolved[OF d(2) r(1) swept own(1)] by (auto simp: allTenantSlugs_def)
qed

lemma provision_outcome:
  assumes ok: "planeOk st" and others: "\<And>k. keepsPlane (other k)" and admin: "pi_user_id i = None"
    and run: "provisionTenant enabled isEmail other i now st = (res, st')"
  shows "planeOk st' \<and> poolsOf st' = poolsOf st \<and>
    (case res of
       Inl err \<Rightarrow> \<exists>ks. st' = fold other ks st
     | Inr p \<Rightarrow> enabled \<and> ProvisionInput_ok isEmail i \<and> fitting i \<and> (\<exists>ks. claimedFrom i p now (fold other ks st) st'))"
proof -
  define n where "n = length POOL_BINDINGS"
  define st1 where "st1 = other (2 * n + 1) st"
  define st2 where "st2 = other (2 * n) st1"
  have oks: "planeOk st1" "planeOk st2" "poolsOf st1 = poolsOf st" "poolsOf st2 = poolsOf st"
    using others ok by (auto simp: keepsPlane_def st1_def st2_def)
  have f: "st = fold other [] st" "st1 = fold other [2 * n + 1] st" "st2 = fold other [2 * n + 1, 2 * n] st"
    by (simp_all add: st1_def st2_def)
  have here: "\<exists>ks. st = fold other ks st" "\<exists>ks. st1 = fold other ks st" "\<exists>ks. st2 = fold other ks st" using f by blast+
  have step: "(res, st') =
     (if \<not> enabled then (Inl ProvisioningDisabled, st)
      else if isPlatformTenant (pi_slug i) then (Inl PlatformForbidden, st)
      else if \<not> ProvisionInput_ok isEmail i then (Inl InvalidInput, st)
      else if pi_plan i \<in> set RESERVED_TENANT_PLANS then (Inl ReservedPlan, st)
      else if slugIsStatic (pi_slug i) then (Inl SlugTaken, st)
      else if list_ex (\<lambda>r. tn_slug r = pi_slug i) (cp_tenants st1) then (Inl SlugTaken, st1)
      else if list_ex (\<lambda>u. us_email u = pi_email i) (cp_users st2) then (Inl EmailTaken, st2)
      else claimSlots other i now n st2)"
    unfolding run[symmetric] provisionTenant_def Let_def n_def[symmetric] st1_def st2_def ..
  show ?thesis
  proof (cases "enabled \<and> ProvisionInput_ok isEmail i \<and> fitting i \<and> (res, st') = claimSlots other i now n st2")
    case True
    then have "enabled" "ProvisionInput_ok isEmail i" and fit: "fitting i" and slots: "claimSlots other i now n st2 = (res, st')"
      by simp_all
    note out = claimSlots_outcome[OF oks(2) fit others slots]
    have more: "\<exists>js. fold other ks st2 = fold other js st" for ks
      by (rule exI[of _ "[2 * n + 1, 2 * n] @ ks"]) (simp add: f(3))
    show ?thesis
    proof (cases res)
      case (Inl err)
      then obtain ks where "st' = fold other ks st2" using out by auto
      then show ?thesis using more[of ks] out oks(4) Inl by simp
    next
      case (Inr p)
      then obtain ks where "claimedFrom i p now (fold other ks st2) st'" using out by auto
      moreover obtain js where "fold other ks st2 = fold other js st" using more[of ks] by blast
      ultimately show ?thesis using out oks(4) Inr True by auto
    qed
  next
    case False
    then have "(\<exists>err. res = Inl err) \<and> st' \<in> {st, st1, st2}"
      using step admin by (auto simp: fitting_def split: if_splits)
    then show ?thesis using ok oks here by auto
  qed
qed

text \<open>A signup is itself such another request: the hypothesis on the others is met by any number of signups.\<close>

lemma signup_keeps_plane:
  assumes "\<And>k. keepsPlane (other k)" "pi_user_id i = None"
  shows "keepsPlane (\<lambda>s. snd (provisionTenant enabled isEmail other i now s))"
  unfolding keepsPlane_def
proof (intro allI impI)
  fix s
  assume ok: "planeOk s"
  obtain res s' where run: "provisionTenant enabled isEmail other i now s = (res, s')" by (rule prod.exhaust)
  show "planeOk (snd (provisionTenant enabled isEmail other i now s)) \<and>
      poolsOf (snd (provisionTenant enabled isEmail other i now s)) = poolsOf s"
    using provision_outcome[OF ok assms run] unfolding run snd_conv by blast
qed

text \<open>C17: Whatever other requests do to the control plane between the steps of a signup, as long as they keep it in order, a
  signup that derives its admin's id leaves it in order. If it answers with a workspace, it flipped exactly one slot that
  was unclaimed at that moment and added its admin and its meter to it, and the new slug resolves to the database of that
  slot and is swept. If it fails, it wrote nothing.\<close>

theorem a_signup_claims_one_slot_or_nothing:
  assumes "planeOk st" "\<And>k. keepsPlane (other k)" "pi_user_id i = None"
    and "provisionTenant enabled isEmail other i now st = (res, st')"
  shows "planeOk st' \<and> poolsOf st' = poolsOf st \<and>
    (case res of
       Inl err \<Rightarrow> \<exists>ks. st' = fold other ks st
     | Inr p \<Rightarrow> enabled \<and> ProvisionInput_ok isEmail i \<and> (\<exists>ks. claimedFrom i p now (fold other ks st) st') \<and>
         rosterTenantDb (cp_tenants st') (pi_slug i) = Inr (PoolDb (pv_binding p)) \<and>
         pi_slug i \<in> set (allTenantSlugs (Some (cp_tenants st'))))"
proof (cases res)
  case (Inl err)
  then show ?thesis using provision_outcome[OF assms] by simp
next
  case (Inr p)
  obtain ks where out: "planeOk st'" "poolsOf st' = poolsOf st" "enabled" "ProvisionInput_ok isEmail i" "fitting i"
      "claimedFrom i p now (fold other ks st) st'"
    using provision_outcome[OF assms] Inr by auto
  let ?s = "fold other ks st"
  obtain r where r: "r \<in> set (cp_tenants ?s)" "tn_id r = pv_tenant_id p" "tn_plan r = UNCLAIMED_TENANT_PLAN"
    using out(6) by (auto simp: claimedFrom_def)
  define r' where "r' = r\<lparr> tn_slug := pi_slug i, tn_name := pi_name i, tn_plan := pi_plan i, tn_pool := Some (pv_binding p),
    tn_created_ts := now \<rparr>"
  have "r' \<in> set (flipSlot i (pv_tenant_id p) (pv_binding p) now (cp_tenants ?s))"
    using r by (force simp: flipSlot_def r'_def)
  moreover have "cp_tenants st' = flipSlot i (pv_tenant_id p) (pv_binding p) now (cp_tenants ?s)" "isPoolBinding (pv_binding p)"
    using claimedFrom_tenants[OF out(6)] by simp_all
  ultimately have r': "r' \<in> set (cp_tenants st')" "poolOf r' = Some (pv_binding p)"
    by (simp_all only: r'_def poolOf_flipped)
  have "claimedRow r'" "tn_slug r' = pi_slug i"
    using out(5) by (simp_all add: r'_def claimedRow_def fitting_def)
  then have swept: "rosterTenantDb (cp_tenants st') (pi_slug i) = Inr (PoolDb (pv_binding p))"
      "pi_slug i \<in> set (allTenantSlugs (Some (cp_tenants st')))"
    using plane_swept[OF out(1) r'(1) _ r'(2)] by simp_all
  show ?thesis unfolding Inr sum.case by (intro conjI exI[of _ ks] out swept)
qed

section \<open>Where a signup fails\<close>

text \<open>The lowest unclaimed slot without a usable binding refuses every signup, however many healthy slots follow it.\<close>

theorem one_bad_slot_refuses_every_signup:
  assumes "ProvisionInput_ok isEmail i" "fitting i"
    and "\<forall>r \<in> set (cp_tenants st). tn_slug r \<noteq> pi_slug i" "\<forall>u \<in> set (cp_users st). us_email u \<noteq> pi_email i"
    and "lowestUnclaimed (cp_tenants st) = Some slot" "poolOf slot = None"
  shows "provisionTenant True isEmail (\<lambda>_ s. s) i now st = (Inl ProvisionFailed, st)"
  using assms by (auto simp: provisionTenant_def Let_def fitting_def POOL_BINDINGS_def list_ex_iff)

text \<open>Two signups for one name and one slot: the second finds no unclaimed row, but the row it looks for, and fails on the
  admin of the first. It is answered 500, not 409, and does not try the next slot.\<close>

theorem the_loser_of_a_race_for_a_name_is_answered_500:
  assumes "planeOk s" "fitting i" "r \<in> set (cp_tenants s)" "tn_slug r = pi_slug i" "tn_plan r = pi_plan i" "poolOf r = Some b"
  shows "claimBatch i (tn_id r) b now s = Inl ProvisionFailed \<and> signupStatus ProvisionFailed = 500"
proof -
  have c: "claimedRow r" using assms(2,5) by (simp add: fitting_def claimedRow_def)
  obtain u where "u \<in> set (cp_users s)" "us_id u = ''u-admin-'' @ pi_slug i"
    using planeOk_dest(5)[OF assms(1,3) c] assms(4,6) by auto
  then have u: "list_ex (\<lambda>u. us_id u = adminId i) (cp_users s)"
    using assms(2) by (auto simp: list_ex_iff adminId_def fitting_def textOr_def)
  have inj: "inj_on tn_id (set (cp_tenants s))" using planeOk_dest(1)[OF assms(1)] by (simp add: distinct_map)
  have shut: "\<not> list_ex (\<lambda>x. tn_id x = tn_id r \<and> tn_plan x = UNCLAIMED_TENANT_PLAN) (cp_tenants s)"
  proof
    assume "list_ex (\<lambda>x. tn_id x = tn_id r \<and> tn_plan x = UNCLAIMED_TENANT_PLAN) (cp_tenants s)"
    then obtain x where x: "x \<in> set (cp_tenants s)" "tn_id x = tn_id r" "tn_plan x = UNCLAIMED_TENANT_PLAN"
      unfolding list_ex_iff by blast
    have "x = r" by (rule inj_onD[OF inj x(2,1) assms(3)])
    then show False using c x(3) by (simp add: claimedRow_def RESERVED_TENANT_PLANS_def)
  qed
  have ours: "list_ex (\<lambda>x. tn_id x = tn_id r \<and> tn_slug x = pi_slug i \<and> tn_plan x = pi_plan i) (cp_tenants s)"
    using assms(3-5) by (auto simp: list_ex_iff)
  show ?thesis using shut ours u flipSlot_none[OF shut] by (simp add: claimBatch_def Let_def)
qed

text \<open>A plane with two free slots and a claimed tenant.\<close>

definition sample_row :: "string \<Rightarrow> string \<Rightarrow> string \<Rightarrow> string \<Rightarrow> tenant_row" where
  "sample_row k slug plan b = \<lparr> tn_id = k, tn_slug = slug, tn_name = slug, tn_plan = plan, tn_pool = Some b, tn_created_ts = 0 \<rparr>"

definition sample_plane :: control_plane where
  "sample_plane =
     \<lparr> cp_tenants = [sample_row ''t-01'' ''acme'' ''pilot'' ''TENANT_POOL_01_DB'', sample_row ''t-02'' ''_pool_02'' UNCLAIMED_TENANT_PLAN ''TENANT_POOL_02_DB''],
       cp_users = [\<lparr> us_id = ''u-admin-acme'', us_tenant = ''t-01'', us_email = ''a'' \<rparr>], cp_credits = [] \<rparr>"

definition sample_signup :: provision_input where
  "sample_signup = signupInput ''Blue Sky'' ''b'' ''bluesky''"

lemma sample_plane_ok: "planeOk sample_plane"
  by code_simp

lemma sample_signup_claims:
  "fst (provisionTenant True (\<lambda>_. True) (\<lambda>_ s. s) sample_signup 1700000000000 sample_plane) =
     Inr \<lparr> pv_tenant_id = ''t-02'', pv_slug = ''bluesky'', pv_plan = ''pilot'', pv_binding = ''TENANT_POOL_02_DB'' \<rparr>"
  by code_simp

lemma a_signup_claims_one_slot_or_nothing_witness:
  "rosterTenantDb (cp_tenants (snd (provisionTenant True (\<lambda>_. True) (\<lambda>_ s. s) sample_signup 1700000000000 sample_plane))) ''bluesky'' =
     Inr (PoolDb ''TENANT_POOL_02_DB'')"
proof -
  have i: "pi_user_id sample_signup = None" "pi_slug sample_signup = ''bluesky''" by (simp_all add: sample_signup_def signupInput_def)
  show ?thesis
    using a_signup_claims_one_slot_or_nothing[OF sample_plane_ok _ i(1) surjective_pairing, of "\<lambda>_ s. s" True "\<lambda>_. True" 1700000000000]
    unfolding sample_signup_claims by (simp add: keepsPlane_def i)
qed

lemma sweeps_visit_each_database_once_witness:
  "distinct (allTenantSlugs (Some (cp_tenants sample_plane))) \<and> ''acme'' \<in> set (allTenantSlugs (Some (cp_tenants sample_plane)))"
proof -
  have "distinct (map tn_slug (cp_tenants sample_plane))"
    "\<forall>r \<in> set (cp_tenants sample_plane). claimedRow r \<longrightarrow> \<not> isPlatformTenant (tn_slug r)"
    using planeOk_dest[OF sample_plane_ok] by blast+
  moreover have "filter (sweptRow ''TENANT_POOL_01_DB'') (cp_tenants sample_plane) = [hd (cp_tenants sample_plane)]"
    "tn_slug (hd (cp_tenants sample_plane)) = ''acme''"
    by code_simp+
  ultimately show ?thesis
    using sweeps_visit_each_database_once[of "cp_tenants sample_plane"] by metis
qed

end
