(* ===== verification/Spec2Isabelle.thy ===== *)
theory Spec2Isabelle
  imports LedgerProps ServerProps EdiProps TranslatorProps TenancyProps
begin

text \<open>
  Shuddl OS: a freight operating system whose record is an append-only, hash-chained event ledger.

  The program. A customer tenant has one database; its events lie in streams, one per shipment
  (\<open>s:<id>\<close>), quote (\<open>q:<id>\<close>) and tenant (\<open>t:root\<close>). Every stream is owned by one durable object, the
  sequencer (\<open>workers/api/src/do/sequencer.ts\<close>), the only writer of events. An \<open>append\<close> pins the object
  to its stream, validates the request, answers replays, verifies device signatures, runs the
  transition gates of \<open>packages/ledger/src/gates\<close> on server-side facts, stamps the visibility, links and
  hashes the event (\<open>packages/ledger/src/chain.ts\<close>) and commits it in one batch with the projections it
  implies (\<open>packages/ledger/src/projection\<close>); then it triggers the agents. The rater
  (\<open>packages/rater\<close>) prices the quotes that become invoices, and the Merkle tree of
  \<open>packages/ledger/src/merkle.ts\<close> anchors days of event hashes outside the system.

  Theories, in the order of their imports.

  \<^item> \<open>Prelude\<close>: results as sums (a throw or a refusal is \<open>Inl\<close>), sequencing \<open>ebind\<close>, list and string lemmas.
  \<^item> \<open>Money\<close>, \<open>Rater\<close>, \<open>RaterLaws\<close>, \<open>RaterProps\<close>, \<open>Approval\<close>: \<open>packages/rater/src\<close> and
    \<open>packages/ledger/src/money\<close>. Integer cents with the safe-integer refusals; zone match, deficit-weight
    rating, floors, anomalies, transit and \<open>priceShipment\<close>; the approval matrix, the price grid and the
    brokerage template. The lemmas show that the two rounding modules agree, that apportionment is exact
    to the cent, that pricing answers on every schema-valid input and is sound, cheapest and monotone.
  \<^item> \<open>Merkle\<close>: \<open>merkle.ts\<close>, with completeness and soundness of inclusion proofs and the binding of the root.
  \<^item> \<open>Canonical\<close>: \<open>canonical.ts\<close>; JSON values carry the run-time types the code tells apart, and the
    canonical bytes are shown to be a function of the value up to key order and to determine it.
  \<^item> \<open>Events\<close>, \<open>Payload\<close>: the event catalog of \<open>packages/contracts/src/events.ts\<close>: 35 kinds, the envelope, the
    payloads the core reads and their JSON.
  \<^item> \<open>Chain\<close>, \<open>Visibility\<close>, \<open>Gates\<close>, \<open>MoneyProjection\<close>: the pure parts of the ledger package, one theory for
    each of \<open>chain.ts\<close> with \<open>sign.ts\<close>, \<open>visibility.ts\<close>, \<open>gates/transition-gates.ts\<close> and
    \<open>projection/money.ts\<close>, each with the properties of its functions.
  \<^item> \<open>Store\<close>: the tables, the prepared statements and the batch (\<open>db/tenant/migrations\<close> and the SQL texts of
    the ledger package). \<open>Projections\<close>: the remaining projections and the credit reconciler.
  \<^item> \<open>Sequencer\<close>: the durable object. Its state is the record \<open>sequencer\<close>: identity, pin, cached tail, policy,
    device keys and database handle, next to the world it acts on. An operation is a function from the
    state to an error or a result and the new state, composed as \<open>#append\<close> composes them.
  \<^item> \<open>SequencerLaws\<close>: what one append does, through a locale of the steps that only read and fill caches, the
    case analysis of refused, replayed and committed appends, and the invariant \<open>instance_ok\<close> of the caches.
  \<^item> \<open>LedgerSystem\<close>: the transition system: any append at any object, evictions, changes of the control plane
    and writes of the other parts of the program to the tables they own; \<open>system_ok\<close> is its invariant.
  \<^item> \<open>Acceptance\<close>, \<open>LedgerSamples\<close>: when an append succeeds, and a concrete run for the witnesses.
  \<^item> \<open>LedgerProps\<close>: the properties of the whole: hash chains and tails, refinement of an abstract log, typing,
    POD before invoice, visibility, one booking, no double-booked slot, backed money lines, atomic
    refusals, idempotent replays, acceptance, triggers, device signatures and the two divergences of the
    caches from their comments.

  \<^item> \<open>Lens\<close>, \<open>LensLaws\<close>, \<open>LensProps\<close>: \<open>lens.ts\<close> and \<open>redact.ts\<close>. The lens of a session, the SQL selection of a page as a
    filter, sort and limit, the row codec and the redaction; what no lens shows, the bound of a page, the
    round trip of rows, the redacted copy.
  \<^item> \<open>EventsRoute\<close>, \<open>EventsRouteLaws\<close>: the API worker's door (\<open>middleware\<close>, \<open>tenants.ts\<close>, \<open>routes/events.ts\<close>): sessions,
    roles, the idempotency cache, the write route over the sequencer and the two feeds.
  \<^item> \<open>Evidence\<close>, \<open>EvidenceLaws\<close>: \<open>routes/evidence.ts\<close> and \<open>documents/retention.ts\<close>, cut at their awaits; the invariant
    that a row is active exactly while its bytes are stored, and the interleaving that breaks it.
  \<^item> \<open>Driver\<close>, \<open>DriverLaws\<close>, \<open>SyncLaws\<close>, \<open>CaptureLaws\<close>: the driver's device (\<open>packages/driver-core/src\<close>, \<open>apps/driver/src\<close>
    below its screens): the durable sequence counter as a transition system with crashes, the offline queue, the
    synchronization engine over abstract ports, capture and merge. \<open>SyncLaws\<close> states the engine's contract with
    the server as the locale \<open>device_server\<close>.
  \<^item> \<open>DeviceWorld\<close>: the transports over a network that loses requests and answers, with other clients, sweeps and
    evictions in between; \<open>device_server\<close> is interpreted on the modelled server.
  \<^item> \<open>DriverProps\<close>, \<open>ServerProps\<close>: the properties of the device up to the ledger, and of the API worker: no capture is
    lost, one capture's whole way, what clients can post, what answers mean, the evidence store and the sweep, the feed.

  \<^item> \<open>Edi\<close>, \<open>EdiLaws\<close>, \<open>EdiProps\<close>: \<open>packages/edi/src\<close>. The boundary schemas, the envelope writer with the 990 and 214
    serializers, the tokenizer, the load-tender parser and the partner mappings. What the writer emits is read back by the
    tokenizer; a parsed tender says what the wire says, field by field; where references are lost.
  \<^item> \<open>Translator\<close>, \<open>TranslatorLaws\<close>, \<open>TranslatorProps\<close>: \<open>workers/translator/src\<close>. The plan of a booking, quarantine, the status
    projection, partners, the inbound handler and the outbound sweep, as runs over the ledger system and the worker's own
    rows and objects; every append goes through the sequencer. \<open>upholds\<close> is the law of a run that only appends what
    a predicate allows, and is closed under sequencing. A tender never books, every answer is accounted for, a redelivery
    adds nothing, and the tie between statuses of one instant.
  \<^item> \<open>Tenancy\<close>, \<open>TenancyProps\<close>: the roster of a worker (\<open>workers/translator/src/tenants.ts\<close>) and the claim of a pool slot by
    a signup (\<open>workers/api/src/provision.ts\<close>, \<open>routes/signup.ts\<close>), with arbitrary order-keeping requests of others at
    each await: \<open>planeOk\<close> is the order of the control plane, kept by every signup, and makes the sweep visit each database once.

  Parameters, because their code is not in the repository: SHA-256, the verification of a signature
  under a device key, the hash of durable-object names, the schema library's UUID test, the great-circle
  distance (floating point), the jurisdiction of a coordinate, the wall clock of a time zone, the verification
  of a bearer token, \<open>Number\<close> on a query string or a header, the device's signing key, its clock and its random draws, the
  HMAC and the decoder of an inbound body, the store of partner secrets, the outbound transport, the text of an error message
  and the shape of an email address. The
  hypotheses on them are that SHA-256 gives 32 bytes and, where a theorem says so, has no collision on
  the bytes hashed, and that names hash injectively. \<open>Date.now()\<close> is an argument, read once per append.
  The mutex of \<open>append\<close> is the atomicity of a step. A facility row or a policy row is its parse, \<open>None\<close> when
  it is unusable.

  Bounds. The only fuel is \<open>SYNC_GUARD\<close>, the code's own guard of eight transitions per item (four are shown to be
  enough), and the number of pages a client of the feed asks for (more than the number of events is never
  needed); every other recursion is structural or has a termination proof. Integers are mathematical integers
  where the schemas bound them to the safe range of JavaScript numbers, and the arithmetic that could
  leave that range carries its check.

  Not modelled, and why: the other HTTP routes, agents, billing and the screens of the applications
  (surfaces over external services, whose appends are the \<open>Request\<close> steps), timestamp-authority
  byte formats, tools and tests. Of the translator: transient faults of its storage and the paging of an object listing; text
  beyond one byte per character; its wiring in \<open>index.ts\<close>. Of a signup: the cold-start tariff and the session token. The payload schemas of the kinds the core never reads are approximated by
  free JSON objects; so for those kinds the model accepts more than the code does, and the theorems cover
  those events too. A request of the API worker is atomic in \<open>DeviceWorld\<close>; the interleaving inside an upload
  and a sweep is treated in \<open>EvidenceLaws\<close>.
\<close>

end
